(* ===== verification/Kns_Prelude.thy ===== *)
theory Kns_Prelude
  imports "HOL-Library.Word"
begin

text \<open>
  Shared vocabulary of the development: the machine types of the C code, the ways an
  execution can stop without returning, sequencing of fallible steps, checked array
  access, counted loops, and the few kernel primitives (atomics, \<open>BUG_ON\<close>, errno
  values) that every component uses.
\<close>

unbundle bit_operations_syntax

section \<open>Machine types\<close>

type_synonym u8 = "8 word"
type_synonym u16 = "16 word"
type_synonym u32 = "32 word"
type_synonym u64 = "64 word"

named_theorems res_simps \<open>how fallible steps compute\<close>

section \<open>Executions that do not return\<close>

text \<open>
  \<open>BugOn\<close>: the kernel stops at a \<open>BUG_ON\<close>; \<open>Fault\<close>: a memory access outside the
  object, or through an uninitialised or null pointer; \<open>Hang\<close>: a loop or a lock that is
  never left; \<open>DivZero\<close>: a division trap.
\<close>

datatype stop = BugOn | Fault | Hang | DivZero

type_synonym 'a res = "stop + 'a"

definition bindR :: "'a res \<Rightarrow> ('a \<Rightarrow> 'b res) \<Rightarrow> 'b res" where
  "bindR m f = (case m of Inl e \<Rightarrow> Inl e | Inr x \<Rightarrow> f x)"

lemma bindR_Inl [simp, res_simps]: "bindR (Inl e) f = Inl e"
  by (simp add: bindR_def)

lemma bindR_Inr [simp, res_simps]: "bindR (Inr x) f = f x"
  by (simp add: bindR_def)

lemma bindR_eq_Inr: "bindR m f = Inr y \<longleftrightarrow> (\<exists>x. m = Inr x \<and> f x = Inr y)"
  by (cases m) simp_all

lemma bindR_assoc: "bindR (bindR m f) g = bindR m (\<lambda>x. bindR (f x) g)"
  by (cases m) simp_all

text \<open>
  \<open>BUG_ON\<close> is the kernel's. \<open>bugs\<close> says whether the running kernel stops at a true
  condition, as its documentation says; a kernel built without \<open>CONFIG_BUG\<close> may compile
  the check away (\<open>bugs = False\<close>), and then execution continues.
\<close>

definition BUG_ON :: "bool \<Rightarrow> bool \<Rightarrow> unit res" where
  "BUG_ON bugs c = (if bugs \<and> c then Inl BugOn else Inr ())"

lemma BUG_ON_off [simp, res_simps]: "BUG_ON False c = Inr ()"
  by (simp add: BUG_ON_def)

lemma BUG_ON_False [simp, res_simps]: "BUG_ON b False = Inr ()"
  by (simp add: BUG_ON_def)

lemma BUG_ON_True [simp, res_simps]: "BUG_ON True True = Inl BugOn"
  by (simp add: BUG_ON_def)

section \<open>Checked arrays and counted loops\<close>

definition rd :: "'a list \<Rightarrow> 'w::len word \<Rightarrow> 'a res" where
  "rd xs i = (if unat i < length xs then Inr (xs ! unat i) else Inl Fault)"

definition wr :: "'a list \<Rightarrow> 'w::len word \<Rightarrow> 'a \<Rightarrow> 'a list res" where
  "wr xs i x = (if unat i < length xs then Inr (xs[unat i := x]) else Inl Fault)"

lemma rd_in [simp, res_simps]: "unat i < length xs \<Longrightarrow> rd xs i = Inr (xs ! unat i)"
  by (simp add: rd_def)

lemma wr_in [simp, res_simps]: "unat i < length xs \<Longrightarrow> wr xs i x = Inr (xs[unat i := x])"
  by (simp add: wr_def)

text \<open>\<open>iter_res k f s\<close> runs the body \<open>f\<close> of a loop with \<open>k\<close> iterations.\<close>

fun iter_res :: "nat \<Rightarrow> ('s \<Rightarrow> 's res) \<Rightarrow> 's \<Rightarrow> 's res" where
  "iter_res 0 f s = Inr s"
| "iter_res (Suc k) f s = bindR (f s) (iter_res k f)"

lemma iter_res_add: "iter_res (j + k) f s = bindR (iter_res j f s) (iter_res k f)"
proof (induction j arbitrary: s)
  case 0
  show ?case by simp
next
  case (Suc j)
  then show ?case by (cases "f s") simp_all
qed

text \<open>A loop unrolled \<open>m\<close> times is the plain loop with \<open>m\<close> times as many iterations.\<close>

lemma iter_res_mult: "iter_res k (iter_res m f) s = iter_res (k * m) f s"
proof (induction k arbitrary: s)
  case 0
  show ?case by simp
next
  case (Suc k)
  then show ?case
    by (cases "iter_res m f s") (simp_all add: iter_res_add)
qed

lemma iter_res_cong: "(\<And>s. f s = g s) \<Longrightarrow> iter_res k f s = iter_res k g s"
  by (metis ext)

text \<open>The number of iterations of \<open>for (; i < hi; i++)\<close> started at \<open>lo\<close>.\<close>

definition trips :: "'w::len word \<Rightarrow> 'w word \<Rightarrow> nat" where
  "trips lo hi = unat hi - unat lo"

section \<open>Kernel primitives\<close>

text \<open>
  \<open>atomic_cmpxchg(v, old, new)\<close> returns the value the cell held, and stores \<open>new\<close>
  when that value was \<open>old\<close>.
\<close>

definition atomic_cmpxchg :: "u32 \<Rightarrow> u32 \<Rightarrow> u32 \<Rightarrow> u32 \<times> u32" where
  "atomic_cmpxchg cur old new = (cur, if cur = old then new else cur)"

definition ENOENT :: u32 where "ENOENT = 2"
definition EIO :: u32 where "EIO = 5"
definition EAGAIN :: u32 where "EAGAIN = 11"
definition ENOMEM :: u32 where "ENOMEM = 12"
definition EBUSY :: u32 where "EBUSY = 16"
definition EINVAL :: u32 where "EINVAL = 22"
definition ENOBUFS :: u32 where "ENOBUFS = 105"
definition EDQUOT :: u32 where "EDQUOT = 122"

lemmas errno_defs = ENOENT_def EIO_def EAGAIN_def ENOMEM_def EBUSY_def EINVAL_def
  ENOBUFS_def EDQUOT_def

section \<open>Word arithmetic\<close>

lemma unat_add_small:
  "unat a + unat b < 2 ^ LENGTH('w) \<Longrightarrow> unat (a + b) = unat a + unat b" for a b :: "'w::len word"
  by (simp add: unat_word_ariths)

lemma unat_sub_le: "b \<le> a \<Longrightarrow> unat (a - b) = unat a - unat b" for a b :: "'w::len word"
  by (rule unat_sub)

lemma unat_of_nat_small: "n < 2 ^ LENGTH('w) \<Longrightarrow> unat (of_nat n :: 'w::len word) = n"
  by (simp add: unat_of_nat take_bit_nat_eq_self)

lemma unat_ucast_32_64: "unat (ucast x :: u64) = unat x" for x :: u32
proof -
  have "unat x < 2 ^ 64" using unsigned_less [of x, where 'a = nat] by simp
  then show ?thesis by (simp add: unsigned_ucast_eq take_bit_nat_eq_self)
qed

lemma unat_pow2: "k < LENGTH('w) \<Longrightarrow> unat (2 ^ k :: 'w::len word) = 2 ^ k"
  using unat_of_nat_small [of "2 ^ k", where 'w = 'w] by simp

lemma unat_push: "unat a * 2 ^ k < 2 ^ LENGTH('w) \<Longrightarrow> unat (push_bit k a) = unat a * 2 ^ k" for a :: "'w::len word"
  unfolding unsigned_push_bit_eq by (simp only: push_bit_eq_mult take_bit_nat_eq_self)

lemma unat_drop: "unat (drop_bit k a) = unat a div 2 ^ k" for a :: "'w::len word"
proof -
  have "unat a < 2 ^ LENGTH('w)" by (rule unsigned_less)
  then show ?thesis
    unfolding unsigned_drop_bit_eq by (simp only: take_bit_nat_eq_self drop_bit_eq_div)
qed

lemma of_nat_eqI: "unat m = k \<Longrightarrow> of_nat k = m" for m :: "'w::len word"
  by auto

lemma bit_word_odd: "bit x k \<longleftrightarrow> odd (unat x div 2 ^ k)" for x :: "'w::len word"
proof -
  have "bit x k \<longleftrightarrow> bit (unat x) k" by (simp add: bit_unsigned_iff)
  then show ?thesis by (simp add: bit_iff_odd)
qed

lemma unat_add_mod_pow2:
  "k \<le> LENGTH('w) \<Longrightarrow> unat (a + b) mod 2 ^ k = (unat a + unat b) mod 2 ^ k"
  for a b :: "'w::len word"
  by (simp add: unat_word_ariths mod_mod_cancel le_imp_power_dvd)

text \<open>Masking with \<open>2 ^ k - 1\<close> is the remainder modulo the size.\<close>

lemma unat_and_mask:
  fixes w m :: "'w::len word"
  assumes "unat m = 2 ^ k - 1" and "k \<le> LENGTH('w)"
  shows "unat (w AND m) = unat w mod 2 ^ k"
proof -
  have "m = of_nat (unat m)" by simp
  also have "\<dots> = of_nat (2 ^ k - 1)" by (simp only: assms(1))
  also have "\<dots> = mask k" by (simp add: of_nat_diff mask_eq_exp_minus_1)
  finally have "m = mask k" .
  then have "unat (w AND m) = unat (take_bit k w)"
    by (simp add: take_bit_eq_mask)
  also have "\<dots> = unat w mod 2 ^ k"
    unfolding unsigned_take_bit_eq by (rule take_bit_eq_mod)
  finally show ?thesis .
qed

end
