(* ===== verification/Ring.thy ===== *)
theory Ring
  imports Kns_Prelude
begin

text \<open>
  The ring of \<open>inc/kns/ring.h\<close> and \<open>core/ring.c\<close>: a power-of-two table of object
  pointers with free-running 32-bit head and tail indices for producer and consumer.
  This theory models every operation as it runs when no other thread touches the ring; the
  theory \<open>Ring_Spec\<close> shows that the single-producer and
  single-consumer operations implement a bounded FIFO, that the four-fold unrolled copy
  loops equal the plain ones, and what the compare-and-exchange variants really do.
\<close>

section \<open>The ring structure\<close>

datatype ring_queue_behavior = RING_QUEUE_FIXED | RING_QUEUE_VARIABLE

record 'a ring =
  rname :: string
  rflags :: u32
  prod_watermark :: u32
  prod_sp_enqueue :: u32
  prod_size :: u32
  prod_mask :: u32
  prod_head :: u32
  prod_tail :: u32
  cons_sc_dequeue :: u32
  cons_size :: u32
  cons_mask :: u32
  cons_head :: u32
  cons_tail :: u32
  slots :: "'a list"

definition RING_F_SP_ENQ :: u32 where "RING_F_SP_ENQ = 0x0001"
definition RING_F_SC_DEQ :: u32 where "RING_F_SC_DEQ = 0x0002"
definition RING_QUOT_EXCEED :: u32 where "RING_QUOT_EXCEED = push_bit 31 1"
definition RING_SZ_MASK :: u32 where "RING_SZ_MASK = 0x0fffffff"
definition RING_NAMESIZE :: nat where "RING_NAMESIZE = 32"

section \<open>Creation (core/ring.c)\<close>

text \<open>
  Layout of \<open>struct ring\<close> on x86-64 (64-byte cache lines): \<open>name\<close> and \<open>flags\<close>,
  then \<open>prod\<close>, \<open>cons\<close> and the table, each aligned to a cache line.
\<close>

definition L1_CACHE_BYTES :: nat where "L1_CACHE_BYTES = 64"

definition cache_align :: "nat \<Rightarrow> nat" where
  "cache_align x = (x + (L1_CACHE_BYTES - 1)) div L1_CACHE_BYTES * L1_CACHE_BYTES"

definition offsetof_prod :: nat where "offsetof_prod = cache_align (RING_NAMESIZE + 4)"
definition offsetof_cons :: nat where "offsetof_cons = cache_align (offsetof_prod + 6 * 4)"
definition sizeof_ring :: nat where "sizeof_ring = cache_align (offsetof_cons + 5 * 4)"

definition POWEROF2 :: "u32 \<Rightarrow> bool" where
  "POWEROF2 x \<longleftrightarrow> (x - 1) AND x = 0"

text \<open>The result is the memory size, or \<open>- EINVAL\<close> as a negative number.\<close>

definition ring_get_memsize :: "u32 \<Rightarrow> int" where
  "ring_get_memsize count =
     (if \<not> POWEROF2 count \<or> count > RING_SZ_MASK then - uint EINVAL
      else int (cache_align (sizeof_ring + unat count * 8)))"

definition ring_init :: "bool \<Rightarrow> 'a ring \<Rightarrow> string \<Rightarrow> u32 \<Rightarrow> u32 \<Rightarrow> (u32 \<times> 'a ring) res" where
  "ring_init bugs r name count flags =
     bindR (BUG_ON bugs (and sizeof_ring L1_CACHE_BYTES \<noteq> 0)) (\<lambda>_.
     bindR (BUG_ON bugs (and offsetof_cons L1_CACHE_BYTES \<noteq> 0)) (\<lambda>_.
     bindR (BUG_ON bugs (and offsetof_prod L1_CACHE_BYTES \<noteq> 0)) (\<lambda>_.
     Inr (0, \<lparr>rname = take (RING_NAMESIZE - 1) name,
              rflags = flags,
              prod_watermark = count,
              prod_sp_enqueue = of_bool (flags AND RING_F_SP_ENQ \<noteq> 0),
              prod_size = count,
              prod_mask = count - 1,
              prod_head = 0,
              prod_tail = 0,
              cons_sc_dequeue = of_bool (flags AND RING_F_SC_DEQ \<noteq> 0),
              cons_size = count,
              cons_mask = count - 1,
              cons_head = 0,
              cons_tail = 0,
              slots = slots r\<rparr>))))"

text \<open>
  \<open>kzalloc\<close> either fails or returns zeroed memory of the size asked for: \<open>null\<close> is the
  null object pointer every table entry then holds.
\<close>

definition zeroed_ring :: "'a \<Rightarrow> u32 \<Rightarrow> 'a ring" where
  "zeroed_ring null count =
     \<lparr>rname = '''', rflags = 0, prod_watermark = 0, prod_sp_enqueue = 0, prod_size = 0,
      prod_mask = 0, prod_head = 0, prod_tail = 0, cons_sc_dequeue = 0, cons_size = 0,
      cons_mask = 0, cons_head = 0, cons_tail = 0, slots = replicate (unat count) null\<rparr>"

definition ring_create ::
  "bool \<Rightarrow> bool \<Rightarrow> 'a \<Rightarrow> string \<Rightarrow> u32 \<Rightarrow> u32 \<Rightarrow> 'a ring option res" where
  "ring_create bugs alloc_ok null name count flags =
     (if ring_get_memsize count < 0 then Inr None
      else if \<not> alloc_ok then Inr None
      else bindR (ring_init bugs (zeroed_ring null count) name count flags) (\<lambda>(_, r).
        Inr (Some r)))"

definition ring_set_water_mark :: "'a ring \<Rightarrow> u32 \<Rightarrow> u32 \<times> 'a ring" where
  "ring_set_water_mark r count =
     (if count \<ge> prod_size r then (- EINVAL, r)
      else (0, r\<lparr>prod_watermark := (if count = 0 then prod_size r else count)\<rparr>))"

section \<open>The copy loops\<close>

text \<open>
  One assignment \<open>r->ring[idx++] = obj_table[i++]\<close>, and the unrolled body of four. The
  loop state is the table, \<open>idx\<close> and \<open>i\<close>.
\<close>

fun put_one :: "'a list \<Rightarrow> 'a list \<times> u32 \<times> u32 \<Rightarrow> ('a list \<times> u32 \<times> u32) res" where
  "put_one obj (sl, idx, i) =
     bindR (rd obj i) (\<lambda>x. bindR (wr sl idx x) (\<lambda>sl'. Inr (sl', idx + 1, i + 1)))"

fun put_quad :: "'a list \<Rightarrow> 'a list \<times> u32 \<times> u32 \<Rightarrow> ('a list \<times> u32 \<times> u32) res" where
  "put_quad obj (sl, idx, i) =
     bindR (rd obj i) (\<lambda>x0. bindR (wr sl idx x0) (\<lambda>sl0.
     bindR (rd obj (i + 1)) (\<lambda>x1. bindR (wr sl0 (idx + 1) x1) (\<lambda>sl1.
     bindR (rd obj (i + 2)) (\<lambda>x2. bindR (wr sl1 (idx + 2) x2) (\<lambda>sl2.
     bindR (rd obj (i + 3)) (\<lambda>x3. bindR (wr sl2 (idx + 3) x3) (\<lambda>sl3.
     Inr (sl3, idx + 4, i + 4)))))))))"

text \<open>The macro \<open>ENQUEUE_PTRS\<close>.\<close>

definition enqueue_ptrs :: "u32 \<Rightarrow> 'a list \<Rightarrow> 'a list \<Rightarrow> u32 \<Rightarrow> u32 \<Rightarrow> u32 \<Rightarrow> 'a list res" where
  "enqueue_ptrs sz sl obj n head msk =
     (let idx = head AND msk in
      if idx + n < sz then
        bindR (iter_res (trips 0 (n AND NOT 3) div 4) (put_quad obj) (sl, idx, 0)) (\<lambda>s.
        bindR (iter_res (unat (n AND 3)) (put_one obj) s) (\<lambda>(sl', _, _). Inr sl'))
      else
        bindR (iter_res (trips idx sz) (put_one obj) (sl, idx, 0)) (\<lambda>(sl1, _, i).
        bindR (iter_res (trips i n) (put_one obj) (sl1, 0, i)) (\<lambda>(sl2, _, _). Inr sl2)))"

text \<open>The consumer's side, which fills \<open>obj_table\<close> from the ring.\<close>

fun get_one :: "'a list \<Rightarrow> 'a list \<times> u32 \<times> u32 \<Rightarrow> ('a list \<times> u32 \<times> u32) res" where
  "get_one sl (out, idx, i) =
     bindR (rd sl idx) (\<lambda>x. bindR (wr out i x) (\<lambda>out'. Inr (out', idx + 1, i + 1)))"

fun get_quad :: "'a list \<Rightarrow> 'a list \<times> u32 \<times> u32 \<Rightarrow> ('a list \<times> u32 \<times> u32) res" where
  "get_quad sl (out, idx, i) =
     bindR (rd sl idx) (\<lambda>x0. bindR (wr out i x0) (\<lambda>out0.
     bindR (rd sl (idx + 1)) (\<lambda>x1. bindR (wr out0 (i + 1) x1) (\<lambda>out1.
     bindR (rd sl (idx + 2)) (\<lambda>x2. bindR (wr out1 (i + 2) x2) (\<lambda>out2.
     bindR (rd sl (idx + 3)) (\<lambda>x3. bindR (wr out2 (i + 3) x3) (\<lambda>out3.
     Inr (out3, idx + 4, i + 4)))))))))"

definition dequeue_ptrs :: "u32 \<Rightarrow> 'a list \<Rightarrow> 'a list \<Rightarrow> u32 \<Rightarrow> u32 \<Rightarrow> u32 \<Rightarrow> 'a list res" where
  "dequeue_ptrs sz sl out n head msk =
     (let idx = head AND msk in
      if idx + n < sz then
        bindR (iter_res (trips 0 (n AND NOT 3) div 4) (get_quad sl) (out, idx, 0)) (\<lambda>s.
        bindR (iter_res (unat (n AND 3)) (get_one sl) s) (\<lambda>(out', _, _). Inr out'))
      else
        bindR (iter_res (trips idx sz) (get_one sl) (out, idx, 0)) (\<lambda>(out1, _, i).
        bindR (iter_res (trips i n) (get_one sl) (out1, 0, i)) (\<lambda>(out2, _, _). Inr out2)))"

section \<open>Single-producer enqueue and single-consumer dequeue\<close>

definition enq_ret :: "'a ring \<Rightarrow> ring_queue_behavior \<Rightarrow> u32 \<Rightarrow> u32 \<Rightarrow> u32" where
  "enq_ret r behavior free_entries n =
     (if (prod_mask r + 1) - free_entries + n > prod_watermark r
      then (if behavior = RING_QUEUE_FIXED then - EDQUOT else n OR RING_QUOT_EXCEED)
      else (if behavior = RING_QUEUE_FIXED then 0 else n))"

definition ring_sp_do_enqueue ::
  "'a ring \<Rightarrow> 'a list \<Rightarrow> u32 \<Rightarrow> ring_queue_behavior \<Rightarrow> (u32 \<times> 'a ring) res" where
  "ring_sp_do_enqueue r obj_table n behavior =
     (let phead = prod_head r;
          free_entries = prod_mask r + cons_tail r - phead
      in if n > free_entries \<and> behavior = RING_QUEUE_FIXED then Inr (- ENOBUFS, r)
         else if n > free_entries \<and> free_entries = 0 then Inr (0, r)
         else
           let n' = (if n > free_entries then free_entries else n);
               prod_next = phead + n';
               r1 = r\<lparr>prod_head := prod_next\<rparr>
           in bindR (enqueue_ptrs (prod_size r1) (slots r1) obj_table n' phead (prod_mask r)) (\<lambda>sl.
              Inr (enq_ret r1 behavior free_entries n',
                   r1\<lparr>slots := sl, prod_tail := prod_next\<rparr>)))"

definition deq_ret :: "ring_queue_behavior \<Rightarrow> u32 \<Rightarrow> u32" where
  "deq_ret behavior n = (if behavior = RING_QUEUE_FIXED then 0 else n)"

text \<open>The dequeue operations also return the caller's table, filled from the front.\<close>

definition ring_sc_do_dequeue ::
  "'a ring \<Rightarrow> 'a list \<Rightarrow> u32 \<Rightarrow> ring_queue_behavior \<Rightarrow> (u32 \<times> 'a list \<times> 'a ring) res" where
  "ring_sc_do_dequeue r obj_table n behavior =
     (let chead = cons_head r;
          entries = prod_tail r - chead
      in if n > entries \<and> behavior = RING_QUEUE_FIXED then Inr (- ENOENT, obj_table, r)
         else if n > entries \<and> entries = 0 then Inr (0, obj_table, r)
         else
           let n' = (if n > entries then entries else n);
               cons_next = chead + n';
               r1 = r\<lparr>cons_head := cons_next\<rparr>
           in bindR (dequeue_ptrs (cons_size r1) (slots r1) obj_table n' chead (prod_mask r)) (\<lambda>out.
              Inr (deq_ret behavior n', out, r1\<lparr>cons_tail := cons_next\<rparr>)))"

section \<open>Multi-producer enqueue and multi-consumer dequeue, run alone\<close>

text \<open>
  The claim loop moves the head with \<open>atomic_cmpxchg\<close> and is left when the value
  returned is not zero; \<open>mx\<close> is the count asked for. Its outcome is an early return
  (\<open>Inl\<close>) or the claimed range: old head, count and free entries. With no other thread
  the cell still holds \<open>prod_head\<close>, so the exchange always happens and the value
  returned is \<open>prod_head\<close> itself: the loop goes round again exactly when that is 0, and
  never more than once (\<open>mp_claim_fuel\<close>), so two units of fuel are enough.
\<close>

fun mp_claim ::
  "nat \<Rightarrow> 'a ring \<Rightarrow> u32 \<Rightarrow> ring_queue_behavior \<Rightarrow> ((u32 + u32 \<times> u32 \<times> u32) \<times> 'a ring) res" where
  "mp_claim 0 r mx behavior = Inl Hang"
| "mp_claim (Suc fuel) r mx behavior =
     (let phead = prod_head r;
          free_entries = prod_mask r + cons_tail r - phead
      in if mx > free_entries \<and> behavior = RING_QUEUE_FIXED then Inr (Inl (- ENOBUFS), r)
         else if mx > free_entries \<and> free_entries = 0 then Inr (Inl 0, r)
         else
           let n = (if mx > free_entries then free_entries else mx);
               prod_next = phead + n;
               (success, cell) = atomic_cmpxchg (prod_head r) phead prod_next;
               r1 = r\<lparr>prod_head := cell\<rparr>
           in if success = 0 then mp_claim fuel r1 mx behavior
              else Inr (Inr (phead, n, free_entries), r1))"

text \<open>
  After the copy, the thread waits until \<open>prod.tail\<close> reaches its own \<open>prod_head\<close>;
  alone, nothing can move the tail, so a difference means the wait never ends.
\<close>

definition ring_mp_do_enqueue ::
  "'a ring \<Rightarrow> 'a list \<Rightarrow> u32 \<Rightarrow> ring_queue_behavior \<Rightarrow> (u32 \<times> 'a ring) res" where
  "ring_mp_do_enqueue r obj_table n behavior =
     (if n = 0 then Inr (0, r)
      else bindR (mp_claim 2 r n behavior) (\<lambda>(c, r1).
        case c of
          Inl ret \<Rightarrow> Inr (ret, r1)
        | Inr (phead, n', free_entries) \<Rightarrow>
            bindR (enqueue_ptrs (prod_size r1) (slots r1) obj_table n' phead (prod_mask r1)) (\<lambda>sl.
            let r2 = r1\<lparr>slots := sl\<rparr> in
            if prod_tail r2 \<noteq> phead then Inl Hang
            else Inr (enq_ret r2 behavior free_entries n', r2\<lparr>prod_tail := phead + n'\<rparr>))))"

fun mc_claim ::
  "nat \<Rightarrow> 'a ring \<Rightarrow> u32 \<Rightarrow> ring_queue_behavior \<Rightarrow> ((u32 + u32 \<times> u32) \<times> 'a ring) res" where
  "mc_claim 0 r mx behavior = Inl Hang"
| "mc_claim (Suc fuel) r mx behavior =
     (let chead = cons_head r;
          entries = prod_tail r - chead
      in if mx > entries \<and> behavior = RING_QUEUE_FIXED then Inr (Inl (- ENOENT), r)
         else if mx > entries \<and> entries = 0 then Inr (Inl 0, r)
         else
           let n = (if mx > entries then entries else mx);
               cons_next = chead + n;
               (success, cell) = atomic_cmpxchg (cons_head r) chead cons_next;
               r1 = r\<lparr>cons_head := cell\<rparr>
           in if success = 0 then mc_claim fuel r1 mx behavior
              else Inr (Inr (chead, n), r1))"

definition ring_mc_do_dequeue ::
  "'a ring \<Rightarrow> 'a list \<Rightarrow> u32 \<Rightarrow> ring_queue_behavior \<Rightarrow> (u32 \<times> 'a list \<times> 'a ring) res" where
  "ring_mc_do_dequeue r obj_table n behavior =
     (if n = 0 then Inr (0, obj_table, r)
      else bindR (mc_claim 2 r n behavior) (\<lambda>(c, r1).
        case c of
          Inl ret \<Rightarrow> Inr (ret, obj_table, r1)
        | Inr (chead, n') \<Rightarrow>
            bindR (dequeue_ptrs (cons_size r1) (slots r1) obj_table n' chead (prod_mask r1)) (\<lambda>out.
            if cons_tail r1 \<noteq> chead then Inl Hang
            else Inr (deq_ret behavior n', out, r1\<lparr>cons_tail := chead + n'\<rparr>))))"

section \<open>The public entry points\<close>

definition ring_mp_enqueue_bulk where
  "ring_mp_enqueue_bulk r obj n = ring_mp_do_enqueue r obj n RING_QUEUE_FIXED"
definition ring_sp_enqueue_bulk where
  "ring_sp_enqueue_bulk r obj n = ring_sp_do_enqueue r obj n RING_QUEUE_FIXED"
definition ring_enqueue_bulk where
  "ring_enqueue_bulk r obj n =
     (if prod_sp_enqueue r \<noteq> 0 then ring_sp_enqueue_bulk r obj n else ring_mp_enqueue_bulk r obj n)"
definition ring_mp_enqueue where "ring_mp_enqueue r x = ring_mp_enqueue_bulk r [x] 1"
definition ring_sp_enqueue where "ring_sp_enqueue r x = ring_sp_enqueue_bulk r [x] 1"
definition ring_enqueue where
  "ring_enqueue r x = (if prod_sp_enqueue r \<noteq> 0 then ring_sp_enqueue r x else ring_mp_enqueue r x)"

definition ring_mc_dequeue_bulk where
  "ring_mc_dequeue_bulk r out n = ring_mc_do_dequeue r out n RING_QUEUE_FIXED"
definition ring_sc_dequeue_bulk where
  "ring_sc_dequeue_bulk r out n = ring_sc_do_dequeue r out n RING_QUEUE_FIXED"
definition ring_dequeue_bulk where
  "ring_dequeue_bulk r out n =
     (if cons_sc_dequeue r \<noteq> 0 then ring_sc_dequeue_bulk r out n else ring_mc_dequeue_bulk r out n)"

text \<open>A single dequeue passes a table of one cell, \<open>obj_p\<close>, whose old content is \<open>x\<close>.\<close>

definition ring_mc_dequeue where "ring_mc_dequeue r x = ring_mc_dequeue_bulk r [x] 1"
definition ring_sc_dequeue where "ring_sc_dequeue r x = ring_sc_dequeue_bulk r [x] 1"
definition ring_dequeue where
  "ring_dequeue r x = (if cons_sc_dequeue r \<noteq> 0 then ring_sc_dequeue r x else ring_mc_dequeue r x)"

definition ring_full :: "'a ring \<Rightarrow> bool" where
  "ring_full r \<longleftrightarrow> (cons_tail r - prod_tail r - 1) AND prod_mask r = 0"
definition ring_empty :: "'a ring \<Rightarrow> bool" where
  "ring_empty r \<longleftrightarrow> cons_tail r = prod_tail r"
definition ring_count :: "'a ring \<Rightarrow> u32" where
  "ring_count r = (prod_tail r - cons_tail r) AND prod_mask r"
definition ring_free_count :: "'a ring \<Rightarrow> u32" where
  "ring_free_count r = (cons_tail r - prod_tail r - 1) AND prod_mask r"

definition ring_mp_enqueue_burst where
  "ring_mp_enqueue_burst r obj n = ring_mp_do_enqueue r obj n RING_QUEUE_VARIABLE"
definition ring_sp_enqueue_burst where
  "ring_sp_enqueue_burst r obj n = ring_sp_do_enqueue r obj n RING_QUEUE_VARIABLE"
definition ring_enqueue_burst where
  "ring_enqueue_burst r obj n =
     (if prod_sp_enqueue r \<noteq> 0 then ring_sp_enqueue_burst r obj n else ring_mp_enqueue_burst r obj n)"
definition ring_mc_dequeue_burst where
  "ring_mc_dequeue_burst r out n = ring_mc_do_dequeue r out n RING_QUEUE_VARIABLE"
definition ring_sc_dequeue_burst where
  "ring_sc_dequeue_burst r out n = ring_sc_do_dequeue r out n RING_QUEUE_VARIABLE"
definition ring_dequeue_burst where
  "ring_dequeue_burst r out n =
     (if cons_sc_dequeue r \<noteq> 0 then ring_sc_dequeue_burst r out n else ring_mc_dequeue_burst r out n)"

section \<open>Reference copies\<close>

text \<open>
  \<open>ring_put sl p xs\<close> stores \<open>xs\<close> from slot \<open>p\<close> on, going round at the end of the
  table; \<open>ring_get sl p n\<close> reads \<open>n\<close> slots the same way.
\<close>

fun ring_put :: "'a list \<Rightarrow> nat \<Rightarrow> 'a list \<Rightarrow> 'a list" where
  "ring_put sl p [] = sl"
| "ring_put sl p (x # xs) = ring_put (sl[p mod length sl := x]) (Suc p) xs"

definition ring_get :: "'a list \<Rightarrow> nat \<Rightarrow> nat \<Rightarrow> 'a list" where
  "ring_get sl p n = map (\<lambda>j. sl ! ((p + j) mod length sl)) [0..<n]"

lemma length_ring_put [simp]: "length (ring_put sl p xs) = length sl"
  by (induction sl p xs rule: ring_put.induct) simp_all

lemma length_ring_get [simp]: "length (ring_get sl p n) = n"
  by (simp add: ring_get_def)

lemma ring_put_append: "ring_put sl p (xs @ ys) = ring_put (ring_put sl p xs) (p + length xs) ys"
  by (induction sl p xs rule: ring_put.induct) simp_all

lemma ring_put_cong_mod:
  "p mod length sl = q mod length sl \<Longrightarrow> ring_put sl p xs = ring_put sl q xs"
proof (induction xs arbitrary: sl p q)
  case Nil
  show ?case by simp
next
  case (Cons x xs)
  have "Suc p mod length sl = Suc q mod length sl"
    using Cons.prems by (metis mod_Suc_eq)
  with Cons.IH [of "Suc p" "sl[p mod length sl := x]" "Suc q"] Cons.prems show ?case
    by simp
qed

lemma ring_put_add_length [simp]: "ring_put sl (length sl) xs = ring_put sl 0 xs"
  by (rule ring_put_cong_mod) simp

lemma ring_put_mod: "ring_put sl (p mod length sl) xs = ring_put sl p xs"
  by (rule ring_put_cong_mod) simp

lemma ring_put_other:
  "(\<And>j. j < length xs \<Longrightarrow> q \<noteq> (p + j) mod length sl) \<Longrightarrow> ring_put sl p xs ! q = sl ! q"
proof (induction xs arbitrary: sl p)
  case Nil
  show ?case by simp
next
  case (Cons x xs)
  have "ring_put (sl[p mod length sl := x]) (Suc p) xs ! q = sl[p mod length sl := x] ! q"
    by (rule Cons.IH) (use Cons.prems [of "Suc j" for j] in auto)
  moreover have "q \<noteq> p mod length sl"
    using Cons.prems [of 0] by simp
  ultimately show ?case by simp
qed

lemma mod_add_inj:
  fixes i j l p :: nat
  assumes "(p + i) mod l = (p + j) mod l" and "i < l" and "j < l"
  shows "i = j"
proof -
  have "a = b" if "a \<le> b" "b < l" "(p + a) mod l = (p + b) mod l" for a b
  proof -
    from that have "l dvd (p + b) - (p + a)"
      by (metis add_le_cancel_left mod_eq_dvd_iff_nat)
    then have "l dvd b - a" by simp
    then show ?thesis using that by (auto dest: dvd_imp_le)
  qed
  then show ?thesis using assms by (metis nle_le)
qed

lemma ring_put_nth:
  assumes "j < length xs" and "length xs \<le> length sl"
  shows "ring_put sl p xs ! ((p + j) mod length sl) = xs ! j"
proof -
  let ?ys = "take j xs" and ?zs = "drop (Suc j) xs"
  have xs: "xs = ?ys @ xs ! j # ?zs" using assms(1) by (simp add: id_take_nth_drop)
  let ?s = "ring_put sl p ?ys"
  have "ring_put sl p xs = ring_put (?s[(p + j) mod length sl := xs ! j]) (Suc (p + j)) ?zs"
    using assms(1) by (subst xs, subst ring_put_append) (simp add: min_def)
  also have "\<dots> ! ((p + j) mod length sl) = ?s[(p + j) mod length sl := xs ! j] ! ((p + j) mod length sl)"
  proof (rule ring_put_other)
    fix i assume i: "i < length ?zs"
    show "(p + j) mod length sl \<noteq> (Suc (p + j) + i) mod length (?s[(p + j) mod length sl := xs ! j])"
    proof
      assume "(p + j) mod length sl = (Suc (p + j) + i) mod length (?s[(p + j) mod length sl := xs ! j])"
      then have "(p + j) mod length sl = (p + (j + Suc i)) mod length sl"
        by (simp add: ac_simps)
      moreover have "j < length sl" "j + Suc i < length sl" using assms i by simp_all
      ultimately have "j = j + Suc i" by (rule mod_add_inj)
      then show False by simp
    qed
  qed
  also have "\<dots> = xs ! j"
    using assms by (intro nth_list_update_eq) (simp, metis length_greater_0_conv less_zeroE list.size(3) mod_less_divisor order_less_le_trans not_gr_zero)
  finally show ?thesis .
qed

section \<open>The unrolled copy loops are the plain ones\<close>

lemma put_quad_iter: "put_quad obj s = iter_res 4 (put_one obj) s"
  by (cases s) (simp add: eval_nat_numeral bindR_assoc add.assoc)

lemma get_quad_iter: "get_quad sl s = iter_res 4 (get_one sl) s"
  by (cases s) (simp add: eval_nat_numeral bindR_assoc add.assoc)

lemma unat_and_3: "unat (n AND 3) = unat n mod 4" for n :: u32
  using unat_and_mask [of "3 :: u32" 2 n] by simp

lemma unat_and_not_3: "unat (n AND NOT 3) = unat n - unat n mod 4" for n :: u32
proof -
  have "n - (n AND 3) = n AND NOT (n AND 3)"
    by (rule disjunctive_diff_eq_and_not) (simp add: bit_eq_iff bit_simps)
  also have "\<dots> = n AND NOT 3"
    by (auto simp: bit_eq_iff bit_simps)
  finally have "n AND NOT 3 = n - (n AND 3)" by simp
  moreover have "n AND 3 \<le> n"
    by (simp add: word_le_nat_alt unat_and_3)
  ultimately show ?thesis by (simp add: unat_sub unat_and_3)
qed

lemma unrolled_trips: "trips 0 (n AND NOT 3) div 4 * 4 + unat (n AND 3) = unat n" for n :: u32
proof -
  have "unat n - unat n mod 4 = unat n div 4 * 4" by (simp add: minus_mod_eq_div_mult)
  then show ?thesis
    using unat_and_not_3 [of n] by (simp add: trips_def unat_and_3)
qed

lemma iter_put_one:
  fixes idx i :: u32
  assumes "unat idx + k \<le> length sl" and "unat idx + k < 2 ^ 32"
    and "unat i + k \<le> length obj" and "unat i + k < 2 ^ 32"
  shows "iter_res k (put_one obj) (sl, idx, i) =
    Inr (ring_put sl (unat idx) (take k (drop (unat i) obj)), idx + of_nat k, i + of_nat k)"
  using assms
proof (induction k arbitrary: sl idx i)
  case 0
  show ?case by simp
next
  case (Suc k)
  have s: "unat (idx + 1) = Suc (unat idx)" "unat (i + 1) = Suc (unat i)"
    using Suc.prems by (simp_all add: unat_add_small)
  have "take (Suc k) (drop (unat i) obj) = obj ! unat i # take k (drop (Suc (unat i)) obj)"
    using Suc.prems by (subst Cons_nth_drop_Suc [symmetric]) simp_all
  moreover have "unat idx mod length sl = unat idx" using Suc.prems by simp
  ultimately show ?case
    using Suc.prems by (simp add: Suc.IH s add.assoc)
qed

lemma iter_get_one:
  fixes idx i :: u32
  assumes "unat idx + k \<le> length sl" and "unat idx + k < 2 ^ 32"
    and "unat i + k \<le> length out" and "unat i + k < 2 ^ 32"
  shows "iter_res k (get_one sl) (out, idx, i) =
    Inr (take (unat i) out @ ring_get sl (unat idx) k @ drop (unat i + k) out,
         idx + of_nat k, i + of_nat k)"
  using assms
proof (induction k arbitrary: out idx i)
  case 0
  show ?case by (simp add: ring_get_def)
next
  case (Suc k)
  have s: "unat (idx + 1) = Suc (unat idx)" "unat (i + 1) = Suc (unat i)"
    using Suc.prems by (simp_all add: unat_add_small)
  let ?out = "out[unat i := sl ! unat idx]"
  have "take (Suc (unat i)) ?out = take (unat i) out @ [sl ! unat idx]"
    using Suc.prems by (simp add: take_Suc_conv_app_nth)
  moreover have "ring_get sl (unat idx) (Suc k) = sl ! unat idx # ring_get sl (Suc (unat idx)) k"
    using Suc.prems by (simp add: ring_get_def upt_rec [of 0] map_Suc_upt [symmetric] del: upt_Suc)
  ultimately show ?case
    using Suc.prems by (simp add: Suc.IH s add.assoc)
qed

text \<open>
  The macro copies \<open>n\<close> objects into the slots from \<open>head\<close> on, modulo the size, whichever
  branch it takes.
\<close>

lemma enqueue_ptrs_put:
  assumes sz: "length sl = unat sz" "unat sz < 2 ^ 31" and idx: "unat (head AND msk) < unat sz"
    and n: "unat n \<le> unat sz" "unat n \<le> length obj"
  shows "enqueue_ptrs sz sl obj n head msk =
    Inr (ring_put sl (unat (head AND msk)) (take (unat n) obj))"
proof -
  let ?idx = "head AND msk"
  have sum: "unat (?idx + n) = unat ?idx + unat n"
    using assms by (intro unat_add_small) simp
  show ?thesis
  proof (cases "?idx + n < sz")
    case True
    then have lt: "unat ?idx + unat n < unat sz" by (simp add: word_less_nat_alt sum)
    let ?q = "trips 0 (n AND NOT 3) div 4" and ?t = "unat (n AND 3)"
    have "bindR (iter_res ?q (put_quad obj) (sl, ?idx, 0)) (iter_res ?t (put_one obj)) =
        iter_res (?q * 4 + ?t) (put_one obj) (sl, ?idx, 0)"
      by (simp only: iter_res_add iter_res_mult put_quad_iter [abs_def])
    also have "\<dots> = iter_res (unat n) (put_one obj) (sl, ?idx, 0)"
      by (simp only: unrolled_trips)
    also have "\<dots> = Inr (ring_put sl (unat ?idx) (take (unat n) obj), ?idx + n, n)"
      using lt assms by (subst iter_put_one) simp_all
    finally have "bindR (bindR (iter_res ?q (put_quad obj) (sl, ?idx, 0)) (iter_res ?t (put_one obj)))
        (\<lambda>(sl', _, _). Inr sl') = Inr (ring_put sl (unat ?idx) (take (unat n) obj))"
      by simp
    with True show ?thesis by (simp only: enqueue_ptrs_def Let_def if_True bindR_assoc)
  next
    case False
    then have ge: "unat sz \<le> unat ?idx + unat n" by (simp add: word_less_nat_alt sum)
    define k where "k = unat sz - unat ?idx"
    have k: "k \<le> unat n" "k < 2 ^ 31" "unat ?idx + k = unat sz"
      using ge idx sz by (simp_all add: k_def)
    have uk: "unat (of_nat k :: u32) = k" using k by (simp add: unat_of_nat_small)
    have 1: "iter_res (trips ?idx sz) (put_one obj) (sl, ?idx, 0) =
        Inr (ring_put sl (unat ?idx) (take k obj), ?idx + of_nat k, of_nat k)"
      using k assms by (subst iter_put_one) (simp_all add: trips_def k_def)
    have 2: "iter_res (trips (of_nat k) n) (put_one obj) (ring_put sl (unat ?idx) (take k obj), 0, of_nat k) =
        Inr (ring_put (ring_put sl (unat ?idx) (take k obj)) 0 (take (unat n - k) (drop k obj)),
             of_nat (unat n - k), of_nat k + of_nat (unat n - k))"
      using k assms uk by (subst iter_put_one) (simp_all add: trips_def)
    have "ring_put sl (unat ?idx) (take (unat n) obj) =
        ring_put (ring_put sl (unat ?idx) (take k obj)) (unat ?idx + k) (take (unat n - k) (drop k obj))"
      using k n take_add [of k "unat n - k" obj] by (simp add: ring_put_append)
    also have "\<dots> = ring_put (ring_put sl (unat ?idx) (take k obj)) 0 (take (unat n - k) (drop k obj))"
      using k sz by (intro ring_put_cong_mod) simp
    finally have 3: "ring_put (ring_put sl (unat ?idx) (take k obj)) 0 (take (unat n - k) (drop k obj)) =
        ring_put sl (unat ?idx) (take (unat n) obj)" by simp
    from False 1 2 3 show ?thesis by (simp add: enqueue_ptrs_def Let_def)
  qed
qed

lemma ring_get_add: "ring_get sl p (a + b) = ring_get sl p a @ ring_get sl (p + a) b"
  by (rule nth_equalityI) (auto simp: ring_get_def nth_append add.assoc)

lemma ring_get_cong_mod:
  "p mod length sl = q mod length sl \<Longrightarrow> ring_get sl p n = ring_get sl q n"
  by (auto simp: ring_get_def) (metis mod_add_left_eq)

lemma dequeue_ptrs_get:
  assumes sz: "length sl = unat sz" "unat sz < 2 ^ 31" and idx: "unat (head AND msk) < unat sz"
    and n: "unat n \<le> unat sz" "unat n \<le> length out"
  shows "dequeue_ptrs sz sl out n head msk =
    Inr (ring_get sl (unat (head AND msk)) (unat n) @ drop (unat n) out)"
proof -
  let ?idx = "head AND msk"
  have sum: "unat (?idx + n) = unat ?idx + unat n"
    using assms by (intro unat_add_small) simp
  show ?thesis
  proof (cases "?idx + n < sz")
    case True
    then have lt: "unat ?idx + unat n < unat sz" by (simp add: word_less_nat_alt sum)
    let ?q = "trips 0 (n AND NOT 3) div 4" and ?t = "unat (n AND 3)"
    have "bindR (iter_res ?q (get_quad sl) (out, ?idx, 0)) (iter_res ?t (get_one sl)) =
        iter_res (?q * 4 + ?t) (get_one sl) (out, ?idx, 0)"
      by (simp only: iter_res_add iter_res_mult get_quad_iter [abs_def])
    also have "\<dots> = iter_res (unat n) (get_one sl) (out, ?idx, 0)"
      by (simp only: unrolled_trips)
    also have "\<dots> = Inr (ring_get sl (unat ?idx) (unat n) @ drop (unat n) out, ?idx + n, n)"
      using lt assms by (subst iter_get_one) simp_all
    finally have "bindR (bindR (iter_res ?q (get_quad sl) (out, ?idx, 0)) (iter_res ?t (get_one sl)))
        (\<lambda>(o', _, _). Inr o') = Inr (ring_get sl (unat ?idx) (unat n) @ drop (unat n) out)"
      by simp
    with True show ?thesis by (simp only: dequeue_ptrs_def Let_def if_True bindR_assoc)
  next
    case False
    then have ge: "unat sz \<le> unat ?idx + unat n" by (simp add: word_less_nat_alt sum)
    define k where "k = unat sz - unat ?idx"
    have k: "k \<le> unat n" "k < 2 ^ 31" "unat ?idx + k = unat sz"
      using ge idx sz by (simp_all add: k_def)
    have uk: "unat (of_nat k :: u32) = k" using k by (simp add: unat_of_nat_small)
    let ?out1 = "ring_get sl (unat ?idx) k @ drop k out"
    have 1: "iter_res (trips ?idx sz) (get_one sl) (out, ?idx, 0) =
        Inr (?out1, ?idx + of_nat k, of_nat k)"
      using k assms by (subst iter_get_one) (simp_all add: trips_def k_def)
    have 2: "iter_res (trips (of_nat k) n) (get_one sl) (?out1, 0, of_nat k) =
        Inr (ring_get sl (unat ?idx) k @ ring_get sl 0 (unat n - k) @ drop (unat n) out,
             of_nat (unat n - k), of_nat k + of_nat (unat n - k))"
      using k assms uk by (subst iter_get_one) (simp_all add: trips_def)
    have "ring_get sl (unat ?idx) (k + (unat n - k)) =
        ring_get sl (unat ?idx) k @ ring_get sl (unat ?idx + k) (unat n - k)"
      by (rule ring_get_add)
    also have "ring_get sl (unat ?idx + k) (unat n - k) = ring_get sl 0 (unat n - k)"
      using k sz by (intro ring_get_cong_mod) simp
    finally have 3: "ring_get sl (unat ?idx) (unat n) =
        ring_get sl (unat ?idx) k @ ring_get sl 0 (unat n - k)" using k by simp
    from False 1 2 3 show ?thesis by (simp add: dequeue_ptrs_def Let_def)
  qed
qed

section \<open>Well-formed rings and the list they hold\<close>

definition ring_wf :: "'a ring \<Rightarrow> bool" where
  "ring_wf r \<longleftrightarrow> POWEROF2 (prod_size r) \<and> prod_size r \<noteq> 0 \<and> prod_size r \<le> RING_SZ_MASK \<and>
     cons_size r = prod_size r \<and> prod_mask r = prod_size r - 1 \<and> cons_mask r = prod_mask r \<and>
     length (slots r) = unat (prod_size r)"

definition ring_cap :: "'a ring \<Rightarrow> nat" where
  "ring_cap r = unat (prod_mask r)"

definition ring_len :: "'a ring \<Rightarrow> nat" where
  "ring_len r = unat (prod_tail r - cons_tail r)"

definition ring_list :: "'a ring \<Rightarrow> 'a list" where
  "ring_list r = ring_get (slots r) (unat (cons_tail r)) (ring_len r)"

text \<open>No operation is in progress, and the ring does not hold more than it can.\<close>

definition ring_ok :: "'a ring \<Rightarrow> bool" where
  "ring_ok r \<longleftrightarrow> ring_wf r \<and> prod_head r = prod_tail r \<and> cons_head r = cons_tail r \<and>
     ring_len r \<le> ring_cap r"

lemma length_ring_list [simp]: "length (ring_list r) = ring_len r"
  by (simp add: ring_list_def)

text \<open>The test \<open>POWEROF2\<close> accepts exactly the powers of two and 0.\<close>

lemma POWEROF2_iff: "POWEROF2 x \<longleftrightarrow> x = 0 \<or> (\<exists>k<32. unat x = 2 ^ k)"
proof
  assume p: "POWEROF2 x"
  show "x = 0 \<or> (\<exists>k<32. unat x = 2 ^ k)"
  proof (cases "x = 0")
    case True
    then show ?thesis by simp
  next
    case False
    then have "1 \<le> unat x" by (simp add: unat_gt_0 Suc_leI)
    then obtain k where k: "2 ^ k \<le> unat x" "unat x < 2 ^ (k + 1)"
      using ex_power_ivl1 [of 2 "unat x"] by auto
    have k32: "k < 32"
    proof (rule ccontr)
      assume "\<not> k < 32"
      then have "(2::nat) ^ 32 \<le> 2 ^ k" by (intro power_increasing) simp_all
      then show False using k(1) unsigned_less [of x, where 'a=nat] by simp
    qed
    have "unat x = 2 ^ k"
    proof (rule ccontr)
      assume "unat x \<noteq> 2 ^ k"
      then have "2 ^ k \<le> unat x - 1" "unat x - 1 < 2 ^ (k + 1)" using k by simp_all
      then have "(unat x - 1) div 2 ^ k = 1" "unat x div 2 ^ k = 1"
        using k by (auto intro!: div_nat_eqI)
      moreover have "unat (x - 1) = unat x - 1"
        using False by (simp add: unat_minus_one)
      ultimately have "bit (x - 1) k" "bit x k"
        by (simp_all add: bit_word_odd)
      then have "bit ((x - 1) AND x) k" by (simp add: bit_and_iff)
      then show False using p by (simp add: POWEROF2_def)
    qed
    with k32 show ?thesis by blast
  qed
next
  assume "x = 0 \<or> (\<exists>k<32. unat x = 2 ^ k)"
  then show "POWEROF2 x"
  proof
    assume "\<exists>k<32. unat x = 2 ^ k"
    then obtain k where k: "k < 32" "unat x = 2 ^ k" by blast
    have "unat (x - 1) = 2 ^ k - 1"
      using k by (subst unat_minus_one) auto
    then have "unat ((x - 1) AND x) = unat x mod 2 ^ k"
      using k unat_and_mask [of "x - 1" k x] by (simp add: and.commute)
    then show ?thesis using k by (simp add: POWEROF2_def unat_eq_zero)
  qed (simp add: POWEROF2_def)
qed

lemma ring_wf_size:
  assumes "ring_wf r"
  obtains k where "k < 28" "unat (prod_size r) = 2 ^ k" "unat (prod_mask r) = 2 ^ k - 1"
    "length (slots r) = 2 ^ k"
proof -
  from assms obtain k where k: "unat (prod_size r) = 2 ^ k"
    by (auto simp: ring_wf_def POWEROF2_iff)
  have "(2::nat) ^ k < 2 ^ 28"
    using assms k by (simp add: ring_wf_def RING_SZ_MASK_def word_le_nat_alt)
  then have "k < 28" by (rule power_less_imp_less_exp [rotated]) simp
  moreover have "unat (prod_mask r) = 2 ^ k - 1"
    using assms k by (simp add: ring_wf_def unat_minus_one)
  ultimately show ?thesis using k assms that by (simp add: ring_wf_def)
qed

lemma ring_cap_size: "ring_wf r \<Longrightarrow> unat (prod_size r) = Suc (ring_cap r)"
  by (erule ring_wf_size) (simp add: ring_cap_def)

lemma ring_cap_less: "ring_wf r \<Longrightarrow> Suc (ring_cap r) < 2 ^ 31"
proof (erule ring_wf_size)
  fix k assume k: "k < 28" "unat (prod_mask r) = 2 ^ k - 1"
  have "(2::nat) ^ k \<le> 2 ^ 28" using k(1) by (intro power_increasing) simp_all
  then show "Suc (ring_cap r) < 2 ^ 31" using k(2) by (simp add: ring_cap_def)
qed

lemma length_slots: "ring_wf r \<Longrightarrow> length (slots r) = Suc (ring_cap r)"
  by (simp add: ring_wf_def ring_cap_size [symmetric])

lemma index_mask: "ring_wf r \<Longrightarrow> unat (h AND prod_mask r) = unat h mod Suc (ring_cap r)"
  by (erule ring_wf_size) (simp add: ring_cap_def unat_and_mask)

lemma index_add:
  "ring_wf r \<Longrightarrow> unat (h + of_nat j) mod Suc (ring_cap r) = (unat h + j) mod Suc (ring_cap r)"
  for h :: u32
proof (erule ring_wf_size)
  fix k assume k: "k < 28" "unat (prod_mask r) = 2 ^ k - 1"
  have "unat (h + of_nat j) mod 2 ^ k = (unat h + unat (of_nat j :: u32)) mod 2 ^ k"
    by (rule unat_add_mod_pow2) (use k(1) in simp)
  also have "\<dots> = (unat h + j mod 2 ^ 32 mod 2 ^ k) mod 2 ^ k"
    by (simp add: unat_of_nat mod_add_right_eq)
  also have "j mod 2 ^ 32 mod 2 ^ k = j mod 2 ^ k"
    using k(1) by (intro mod_mod_cancel le_imp_power_dvd) simp
  finally show "unat (h + of_nat j) mod Suc (ring_cap r) = (unat h + j) mod Suc (ring_cap r)"
    using k(2) by (simp add: ring_cap_def mod_add_right_eq)
qed

text \<open>What a completed enqueue and a completed dequeue do to the ring.\<close>

definition ring_push :: "'a ring \<Rightarrow> 'a list \<Rightarrow> 'a ring" where
  "ring_push r xs =
     r\<lparr>prod_head := prod_head r + of_nat (length xs),
       slots := ring_put (slots r) (unat (prod_head r)) xs,
       prod_tail := prod_head r + of_nat (length xs)\<rparr>"

definition ring_pop :: "'a ring \<Rightarrow> nat \<Rightarrow> 'a ring" where
  "ring_pop r n = r\<lparr>cons_head := cons_head r + of_nat n, cons_tail := cons_head r + of_nat n\<rparr>"

lemma ring_push_wf [simp]: "ring_wf (ring_push r xs) \<longleftrightarrow> ring_wf r"
  by (simp add: ring_push_def ring_wf_def)

lemma ring_pop_wf [simp]: "ring_wf (ring_pop r n) \<longleftrightarrow> ring_wf r"
  by (simp add: ring_pop_def ring_wf_def)

lemma ring_push_cap [simp]: "ring_cap (ring_push r xs) = ring_cap r"
  by (simp add: ring_push_def ring_cap_def)

lemma ring_pop_cap [simp]: "ring_cap (ring_pop r n) = ring_cap r"
  by (simp add: ring_pop_def ring_cap_def)

lemma ring_push_fields [simp]:
  "prod_head (ring_push r xs) = prod_head r + of_nat (length xs)"
  "prod_tail (ring_push r xs) = prod_head r + of_nat (length xs)"
  "cons_head (ring_push r xs) = cons_head r" "cons_tail (ring_push r xs) = cons_tail r"
  "slots (ring_push r xs) = ring_put (slots r) (unat (prod_head r)) xs"
  "prod_sp_enqueue (ring_push r xs) = prod_sp_enqueue r"
  "cons_sc_dequeue (ring_push r xs) = cons_sc_dequeue r"
  "prod_watermark (ring_push r xs) = prod_watermark r"
  by (simp_all add: ring_push_def)

lemma ring_pop_fields [simp]:
  "prod_head (ring_pop r n) = prod_head r" "prod_tail (ring_pop r n) = prod_tail r"
  "cons_head (ring_pop r n) = cons_head r + of_nat n"
  "cons_tail (ring_pop r n) = cons_head r + of_nat n" "slots (ring_pop r n) = slots r"
  "prod_sp_enqueue (ring_pop r n) = prod_sp_enqueue r"
  "cons_sc_dequeue (ring_pop r n) = cons_sc_dequeue r"
  "prod_watermark (ring_pop r n) = prod_watermark r"
  by (simp_all add: ring_pop_def)

lemma ring_fits:
  "ring_ok r \<Longrightarrow> n \<le> ring_cap r - ring_len r \<Longrightarrow> ring_len r + n \<le> ring_cap r"
  unfolding ring_ok_def by linarith

lemma ring_push_len:
  assumes ok: "ring_ok r" and fits: "length xs \<le> ring_cap r - ring_len r"
  shows "ring_len (ring_push r xs) = ring_len r + length xs"
proof -
  have cap: "ring_cap r < 2 ^ 31" using ok ring_cap_less [of r] by (simp add: ring_ok_def)
  have le: "ring_len r + length xs \<le> ring_cap r" using ok fits by (rule ring_fits)
  have eq: "prod_head r + of_nat (length xs) - cons_tail r =
      (prod_tail r - cons_tail r) + of_nat (length xs)"
    using ok by (simp add: ring_ok_def)
  have u: "unat (of_nat (length xs) :: u32) = length xs"
    using le cap by (intro unat_of_nat_small) simp
  have "unat ((prod_tail r - cons_tail r) + of_nat (length xs)) = ring_len r + length xs"
    using le cap u by (subst unat_add_small) (simp_all add: ring_len_def)
  then show ?thesis by (simp only: ring_len_def ring_push_fields eq)
qed

lemma ring_push_ok:
  "ring_ok r \<Longrightarrow> length xs \<le> ring_cap r - ring_len r \<Longrightarrow> ring_ok (ring_push r xs)"
  using ring_push_len [of r xs] ring_fits [of r "length xs"] by (simp add: ring_ok_def)

text \<open>The new objects go behind the old ones, also when the index wraps.\<close>

lemma ring_push_list:
  assumes ok: "ring_ok r" and fits: "length xs \<le> ring_cap r - ring_len r"
  shows "ring_list (ring_push r xs) = ring_list r @ xs"
proof (rule nth_equalityI)
  let ?S = "Suc (ring_cap r)" and ?t = "unat (cons_tail r)" and ?c = "ring_len r"
  have wf: "ring_wf r" using ok by (simp add: ring_ok_def)
  have le: "?c + length xs \<le> ring_cap r" using ok fits by (rule ring_fits)
  have len: "length (slots r) = ?S" using wf by (rule length_slots)
  have "prod_head r = cons_tail r + of_nat ?c"
    using ok by (simp add: ring_ok_def ring_len_def)
  then have head: "unat (prod_head r) mod ?S = (?t + ?c) mod ?S"
    using index_add [OF wf, of "cons_tail r" ?c] by simp
  then have put: "ring_put (slots r) (unat (prod_head r)) xs = ring_put (slots r) (?t + ?c) xs"
    by (intro ring_put_cong_mod) (simp add: len)
  show "length (ring_list (ring_push r xs)) = length (ring_list r @ xs)"
    using ring_push_len [OF ok fits] by simp
  fix j assume "j < length (ring_list (ring_push r xs))"
  then have j: "j < ?c + length xs" using ring_push_len [OF ok fits] by simp
  have lhs: "ring_list (ring_push r xs) ! j = ring_put (slots r) (?t + ?c) xs ! ((?t + j) mod ?S)"
    using j ring_push_len [OF ok fits]
    by (simp add: ring_list_def ring_get_def put len)
  show "ring_list (ring_push r xs) ! j = (ring_list r @ xs) ! j"
  proof (cases "j < ?c")
    case True
    have "ring_put (slots r) (?t + ?c) xs ! ((?t + j) mod ?S) = slots r ! ((?t + j) mod ?S)"
    proof (rule ring_put_other)
      fix i assume i: "i < length xs"
      show "(?t + j) mod ?S \<noteq> (?t + ?c + i) mod length (slots r)"
        using mod_add_inj [of ?t j ?S "?c + i"] i True le len by (auto simp: add.assoc)
    qed
    then show ?thesis using True lhs by (simp add: nth_append ring_list_def ring_get_def len)
  next
    case False
    have "ring_put (slots r) (?t + ?c) xs ! ((?t + ?c + (j - ?c)) mod length (slots r)) = xs ! (j - ?c)"
      using False j le by (intro ring_put_nth) (simp_all add: len)
    then show ?thesis using False lhs by (simp add: nth_append len)
  qed
qed

lemma ring_pop_len:
  assumes ok: "ring_ok r" and n: "n \<le> ring_len r"
  shows "ring_len (ring_pop r n) = ring_len r - n"
proof -
  have "n < 2 ^ 32" using n unsigned_less [of "prod_tail r - cons_tail r", where 'a=nat]
    by (simp add: ring_len_def)
  then have u: "unat (of_nat n :: u32) = n" by (simp add: unat_of_nat_small)
  have eq: "prod_tail r - (cons_head r + of_nat n) = (prod_tail r - cons_tail r) - of_nat n"
    using ok by (simp add: ring_ok_def)
  have "unat ((prod_tail r - cons_tail r) - of_nat n) = ring_len r - n"
    using n u by (subst unat_sub) (simp_all add: ring_len_def word_le_nat_alt)
  then show ?thesis by (simp only: ring_len_def ring_pop_fields eq)
qed

lemma ring_pop_ok: "ring_ok r \<Longrightarrow> n \<le> ring_len r \<Longrightarrow> ring_ok (ring_pop r n)"
  using ring_pop_len [of r n] unfolding ring_ok_def by simp linarith

lemma ring_pop_list:
  assumes ok: "ring_ok r" and n: "n \<le> ring_len r"
  shows "ring_list (ring_pop r n) = drop n (ring_list r)"
proof -
  have wf: "ring_wf r" and ct: "cons_head r = cons_tail r" using ok by (simp_all add: ring_ok_def)
  have "ring_get (slots r) (unat (cons_tail r + of_nat n)) (ring_len r - n) =
      ring_get (slots r) (unat (cons_tail r) + n) (ring_len r - n)"
    by (rule ring_get_cong_mod) (simp add: length_slots [OF wf] index_add [OF wf])
  moreover have "ring_list r = ring_get (slots r) (unat (cons_tail r)) n @
      ring_get (slots r) (unat (cons_tail r) + n) (ring_len r - n)"
    using n ring_get_add [of "slots r" "unat (cons_tail r)" n "ring_len r - n"]
    by (simp add: ring_list_def)
  ultimately show ?thesis
    by (simp add: ring_list_def [of "ring_pop r n"] ring_pop_len [OF ok n] ct)
qed

end
