(* ===== verification/Ring_Spec.thy ===== *)
theory Ring_Spec
  imports Ring
begin

text \<open>
  What the ring promises: a bounded FIFO. The interface is the locale \<open>bounded_fifo\<close>,
  whose runs never lose, duplicate or reorder an object; it is interpreted on the
  single-producer/single-consumer operations. The compare-and-exchange variants meet it
  only once the index has left 0, and creation stops at its own layout checks.
\<close>

section \<open>Results of the operations on a well-formed ring\<close>

text \<open>How many of \<open>n\<close> objects an operation moves when \<open>room\<close> are possible.\<close>

definition fifo_moved :: "ring_queue_behavior \<Rightarrow> nat \<Rightarrow> nat \<Rightarrow> nat" where
  "fifo_moved b n room = (if n \<le> room then n else if b = RING_QUEUE_FIXED then 0 else room)"

definition ring_room :: "'a ring \<Rightarrow> nat" where
  "ring_room r = ring_cap r - ring_len r"

text \<open>
  The code an enqueue returns: the watermark counts the objects queued after the
  enqueue, plus one.
\<close>

definition enq_code :: "'a ring \<Rightarrow> ring_queue_behavior \<Rightarrow> nat \<Rightarrow> u32" where
  "enq_code r b n =
     (let m = fifo_moved b n (ring_room r) in
      if n > ring_room r \<and> b = RING_QUEUE_FIXED then - ENOBUFS
      else if n > ring_room r \<and> ring_room r = 0 then 0
      else if ring_len r + m + 1 > unat (prod_watermark r)
        then (if b = RING_QUEUE_FIXED then - EDQUOT else of_nat m OR RING_QUOT_EXCEED)
      else (if b = RING_QUEUE_FIXED then 0 else of_nat m))"

definition deq_code :: "'a ring \<Rightarrow> ring_queue_behavior \<Rightarrow> nat \<Rightarrow> u32" where
  "deq_code r b n =
     (if n > ring_len r \<and> b = RING_QUEUE_FIXED then - ENOENT
      else if b = RING_QUEUE_FIXED then 0 else of_nat (fifo_moved b n (ring_len r)))"

lemma free_entries_room:
  assumes "ring_ok r"
  shows "unat (prod_mask r + cons_tail r - prod_head r) = ring_room r"
proof -
  have eq: "prod_mask r + cons_tail r - prod_head r = prod_mask r - (prod_tail r - cons_tail r)"
    using assms by (simp add: ring_ok_def)
  have "prod_tail r - cons_tail r \<le> prod_mask r"
    using assms by (simp add: ring_ok_def ring_len_def ring_cap_def word_le_nat_alt)
  then show ?thesis
    by (simp only: eq unat_sub ring_room_def ring_cap_def ring_len_def)
qed

lemma entries_len: "ring_ok r \<Longrightarrow> unat (prod_tail r - cons_head r) = ring_len r"
  by (simp add: ring_ok_def ring_len_def)

lemma room_le: "ring_ok r \<Longrightarrow> ring_len r + ring_room r = ring_cap r"
  by (simp add: ring_room_def ring_ok_def)

text \<open>Copying in the middle of an enqueue that has claimed \<open>n\<close> free slots.\<close>

lemma enqueue_ptrs_ok:
  assumes ok: "ring_ok r" and n: "unat n \<le> ring_room r" "unat n \<le> length obj"
  shows "enqueue_ptrs (prod_size r) (slots r) obj n (prod_head r) (prod_mask r) =
    Inr (ring_put (slots r) (unat (prod_head r)) (take (unat n) obj))"
proof -
  have wf: "ring_wf r" using ok by (simp add: ring_ok_def)
  note idx = index_mask [OF wf, of "prod_head r"]
  have "enqueue_ptrs (prod_size r) (slots r) obj n (prod_head r) (prod_mask r) =
      Inr (ring_put (slots r) (unat (prod_head r AND prod_mask r)) (take (unat n) obj))"
    using n room_le [OF ok] ring_cap_less [OF wf] ring_cap_size [OF wf] length_slots [OF wf]
    by (intro enqueue_ptrs_put) (simp_all add: idx)
  also have "ring_put (slots r) (unat (prod_head r AND prod_mask r)) (take (unat n) obj) =
      ring_put (slots r) (unat (prod_head r)) (take (unat n) obj)"
    by (rule ring_put_cong_mod) (simp add: idx length_slots [OF wf])
  finally show ?thesis .
qed

lemma dequeue_ptrs_ok:
  assumes ok: "ring_ok r" and n: "unat n \<le> ring_len r" "unat n \<le> length out"
  shows "dequeue_ptrs (cons_size r) (slots r) out n (cons_head r) (prod_mask r) =
    Inr (take (unat n) (ring_list r) @ drop (unat n) out)"
proof -
  have wf: "ring_wf r" using ok by (simp add: ring_ok_def)
  note idx = index_mask [OF wf, of "cons_head r"]
  have cs: "cons_size r = prod_size r" using wf by (simp add: ring_wf_def)
  have "dequeue_ptrs (cons_size r) (slots r) out n (cons_head r) (prod_mask r) =
      Inr (ring_get (slots r) (unat (cons_head r AND prod_mask r)) (unat n) @ drop (unat n) out)"
    using n room_le [OF ok] ring_cap_less [OF wf] ring_cap_size [OF wf] length_slots [OF wf]
    by (intro dequeue_ptrs_get) (simp_all add: idx cs)
  also have "ring_get (slots r) (unat (cons_head r AND prod_mask r)) (unat n) =
      ring_get (slots r) (unat (cons_tail r)) (unat n)"
    by (rule ring_get_cong_mod) (use ok in \<open>simp add: idx length_slots [OF wf], simp add: ring_ok_def\<close>)
  also have "\<dots> = take (unat n) (ring_list r)"
    using n(1) ring_get_add [of "slots r" "unat (cons_tail r)" "unat n" "ring_len r - unat n"]
    by (simp add: ring_list_def)
  finally show ?thesis .
qed

lemma enq_ret_code:
  assumes ok: "ring_ok r" and m: "unat m \<le> ring_room r"
  shows "((prod_mask r + 1) - (prod_mask r + cons_tail r - prod_head r) + m > prod_watermark r)
    \<longleftrightarrow> ring_len r + unat m + 1 > unat (prod_watermark r)"
proof -
  have wf: "ring_wf r" using ok by (simp add: ring_ok_def)
  have eq: "(prod_mask r + 1) - (prod_mask r + cons_tail r - prod_head r) + m =
      (prod_tail r - cons_tail r) + (m + 1)"
    using ok by (simp add: ring_ok_def)
  have lim: "ring_len r + unat m + 1 < 2 ^ 31"
    using m room_le [OF ok] ring_cap_less [OF wf] by simp
  have "unat (m + 1) = unat m + 1" using lim by (subst unat_add_small) simp_all
  then have "unat ((prod_tail r - cons_tail r) + (m + 1)) = ring_len r + unat m + 1"
    using lim by (subst unat_add_small) (simp_all add: ring_len_def)
  then show ?thesis by (simp only: eq word_less_nat_alt)
qed

lemma enq_ret_upd [simp]:
  "enq_ret (r\<lparr>prod_head := h\<rparr>) = enq_ret r" "enq_ret (r\<lparr>slots := s\<rparr>) = enq_ret r"
  by (simp_all add: enq_ret_def fun_eq_iff)

lemma sp_enqueue_eq:
  assumes ok: "ring_ok r" and n: "unat n \<le> length obj"
  shows "ring_sp_do_enqueue r obj n b =
    Inr (enq_code r b (unat n),
         if unat n > ring_room r \<and> (b = RING_QUEUE_FIXED \<or> ring_room r = 0) then r
         else ring_push r (take (fifo_moved b (unat n) (ring_room r)) obj))"
proof -
  let ?free = "prod_mask r + cons_tail r - prod_head r"
  note free = free_entries_room [OF ok]
  have gt: "n > ?free \<longleftrightarrow> unat n > ring_room r" by (simp add: word_less_nat_alt free)
  have z: "?free = 0 \<longleftrightarrow> ring_room r = 0" by (metis free unat_eq_zero)
  define m where "m = (if n > ?free then ?free else n)"
  have um: "unat m = (if unat n > ring_room r then ring_room r else unat n)"
    by (simp add: m_def gt free)
  have mr: "unat m \<le> ring_room r" and mo: "unat m \<le> length obj" using um n by (auto split: if_splits)
  have copy: "enqueue_ptrs (prod_size r) (slots r) obj m (prod_head r) (prod_mask r) =
      Inr (ring_put (slots r) (unat (prod_head r)) (take (unat m) obj))"
    using ok mr mo by (rule enqueue_ptrs_ok)
  have push: "r\<lparr>prod_head := prod_head r + m,
      slots := ring_put (slots r) (unat (prod_head r)) (take (unat m) obj),
      prod_tail := prod_head r + m\<rparr> = ring_push r (take (unat m) obj)"
    using mo by (simp add: ring_push_def min_absorb2)
  have ret: "enq_ret (r\<lparr>prod_head := h\<rparr>) b ?free m =
      (if ring_len r + unat m + 1 > unat (prod_watermark r)
       then (if b = RING_QUEUE_FIXED then - EDQUOT else m OR RING_QUOT_EXCEED)
       else (if b = RING_QUEUE_FIXED then 0 else m))" for h
    by (simp only: enq_ret_upd enq_ret_def enq_ret_code [OF ok mr])
  have "ring_sp_do_enqueue r obj n b =
      (if unat n > ring_room r \<and> b = RING_QUEUE_FIXED then Inr (- ENOBUFS, r)
       else if unat n > ring_room r \<and> ring_room r = 0 then Inr (0, r)
       else Inr (enq_ret (r\<lparr>prod_head := prod_head r + m\<rparr>) b ?free m, ring_push r (take (unat m) obj)))"
    unfolding ring_sp_do_enqueue_def Let_def unfolding m_def [symmetric] unfolding gt z
    using copy push by simp
  moreover have "unat n > ring_room r \<Longrightarrow> of_nat (ring_room r) = m" "\<not> unat n > ring_room r \<Longrightarrow> n = m"
    using um by (auto intro: of_nat_eqI word_unat_eq_iff [THEN iffD2])
  ultimately show ?thesis
    unfolding ret using um by (cases b) (auto simp: enq_code_def fifo_moved_def Let_def)
qed

lemma sc_dequeue_eq:
  assumes ok: "ring_ok r" and n: "unat n \<le> length out"
  shows "ring_sc_do_dequeue r out n b =
    (let m = fifo_moved b (unat n) (ring_len r) in
     Inr (deq_code r b (unat n), take m (ring_list r) @ drop m out, ring_pop r m))"
proof -
  let ?ents = "prod_tail r - cons_head r"
  note ents = entries_len [OF ok]
  have gt: "n > ?ents \<longleftrightarrow> unat n > ring_len r" by (simp add: word_less_nat_alt ents)
  have z: "?ents = 0 \<longleftrightarrow> ring_len r = 0" by (metis ents unat_eq_zero)
  define m where "m = (if n > ?ents then ?ents else n)"
  have um: "unat m = (if unat n > ring_len r then ring_len r else unat n)"
    by (simp add: m_def gt ents)
  have mr: "unat m \<le> ring_len r" and mo: "unat m \<le> length out" using um n by (auto split: if_splits)
  have copy: "dequeue_ptrs (cons_size r) (slots r) out m (cons_head r) (prod_mask r) =
      Inr (take (unat m) (ring_list r) @ drop (unat m) out)"
    using ok mr mo by (rule dequeue_ptrs_ok)
  have pop0: "ring_pop r 0 = r" using ok by (simp add: ring_pop_def ring_ok_def)
  have pop: "r\<lparr>cons_head := cons_head r + m, cons_tail := cons_head r + m\<rparr> = ring_pop r (unat m)"
    by (simp add: ring_pop_def)
  have "ring_sc_do_dequeue r out n b =
      (if unat n > ring_len r \<and> b = RING_QUEUE_FIXED then Inr (- ENOENT, out, r)
       else if unat n > ring_len r \<and> ring_len r = 0 then Inr (0, out, r)
       else Inr (deq_ret b m, take (unat m) (ring_list r) @ drop (unat m) out, ring_pop r (unat m)))"
    unfolding ring_sc_do_dequeue_def Let_def unfolding m_def [symmetric] unfolding gt z
    using copy pop by simp
  moreover have "ring_len r = 0 \<Longrightarrow> ring_list r = []"
    by (metis length_ring_list length_0_conv)
  moreover have "unat n > ring_len r \<Longrightarrow> of_nat (ring_len r) = m" "\<not> unat n > ring_len r \<Longrightarrow> n = m"
    using um by (auto intro: of_nat_eqI word_unat_eq_iff [THEN iffD2])
  ultimately show ?thesis
    using um pop0
    by (cases b) (auto simp: deq_code_def deq_ret_def fifo_moved_def Let_def)
qed

section \<open>Compare-and-exchange variants, run alone\<close>

text \<open>
  From a non-zero head, one pass of the claim loop succeeds and the multi-producer
  operation does what the single-producer one does.
\<close>

lemma mp_claim_nonzero:
  assumes "prod_head r \<noteq> 0"
  shows "mp_claim (Suc f) r n b =
    (let free_entries = prod_mask r + cons_tail r - prod_head r;
         m = (if n > free_entries then free_entries else n)
     in if n > free_entries \<and> b = RING_QUEUE_FIXED then Inr (Inl (- ENOBUFS), r)
        else if n > free_entries \<and> free_entries = 0 then Inr (Inl 0, r)
        else Inr (Inr (prod_head r, m, free_entries), r\<lparr>prod_head := prod_head r + m\<rparr>))"
  using assms by (simp add: Let_def atomic_cmpxchg_def word_gt_0)

lemma mp_enqueue_eq_sp:
  assumes ok: "ring_ok r" and nz: "prod_head r \<noteq> 0" and n: "n \<noteq> 0"
  shows "ring_mp_do_enqueue r obj n b = ring_sp_do_enqueue r obj n b"
proof -
  have "prod_tail r = prod_head r" using ok by (simp add: ring_ok_def)
  moreover have "mp_claim 2 r n b = mp_claim (Suc 1) r n b" by (simp add: numeral_2_eq_2)
  ultimately show ?thesis
    using n unfolding ring_mp_do_enqueue_def ring_sp_do_enqueue_def
    by (simp add: mp_claim_nonzero [OF nz] Let_def word_gt_0 del: mp_claim.simps)
qed

lemma mc_claim_nonzero:
  assumes "cons_head r \<noteq> 0"
  shows "mc_claim (Suc f) r n b =
    (let entries = prod_tail r - cons_head r;
         m = (if n > entries then entries else n)
     in if n > entries \<and> b = RING_QUEUE_FIXED then Inr (Inl (- ENOENT), r)
        else if n > entries \<and> entries = 0 then Inr (Inl 0, r)
        else Inr (Inr (cons_head r, m), r\<lparr>cons_head := cons_head r + m\<rparr>))"
  using assms by (simp add: Let_def atomic_cmpxchg_def word_gt_0)

lemma mc_dequeue_eq_sc:
  assumes ok: "ring_ok r" and nz: "cons_head r \<noteq> 0" and n: "n \<noteq> 0"
  shows "ring_mc_do_dequeue r out n b = ring_sc_do_dequeue r out n b"
proof -
  have "cons_tail r = cons_head r" using ok by (simp add: ring_ok_def)
  moreover have "mc_claim 2 r n b = mc_claim (Suc 1) r n b" by (simp add: numeral_2_eq_2)
  ultimately show ?thesis
    using n unfolding ring_mc_do_dequeue_def ring_sc_do_dequeue_def
    by (simp add: mc_claim_nonzero [OF nz] Let_def word_gt_0 del: mc_claim.simps)
qed

text \<open>Two passes are always enough: after the first the head is not 0 any more.\<close>

lemma mp_claim_fuel: "n \<noteq> 0 \<Longrightarrow> mp_claim (Suc (Suc f)) r n b \<noteq> Inl Hang"
  by (cases "prod_head r = 0")
    (auto simp: Let_def atomic_cmpxchg_def mp_claim_nonzero simp del: mp_claim.simps(2) [of "Suc f"]
      split: if_splits)

section \<open>The queue contract\<close>

text \<open>
  A client hands over a batch, which is taken whole or refused, and asks for a batch of a
  given size. \<open>limit\<close> bounds the batch sizes (the code counts in 32 bits).
\<close>

locale bounded_fifo =
  fixes ok :: "'q \<Rightarrow> bool"
    and contents :: "'q \<Rightarrow> 'a list"
    and capacity :: "'q \<Rightarrow> nat"
    and limit :: nat
    and put :: "'q \<Rightarrow> 'a list \<Rightarrow> bool \<times> 'q"
    and get :: "'q \<Rightarrow> nat \<Rightarrow> 'a list option \<times> 'q"
  assumes put_fits: "ok q \<Longrightarrow> length xs < limit \<Longrightarrow> length (contents q) + length xs \<le> capacity q \<Longrightarrow>
      \<exists>q'. put q xs = (True, q') \<and> ok q' \<and> capacity q' = capacity q \<and> contents q' = contents q @ xs"
    and put_full: "ok q \<Longrightarrow> length xs < limit \<Longrightarrow> capacity q < length (contents q) + length xs \<Longrightarrow>
      put q xs = (False, q)"
    and get_some: "ok q \<Longrightarrow> n < limit \<Longrightarrow> n \<le> length (contents q) \<Longrightarrow>
      \<exists>q'. get q n = (Some (take n (contents q)), q') \<and> ok q' \<and> capacity q' = capacity q \<and>
           contents q' = drop n (contents q)"
    and get_short: "ok q \<Longrightarrow> n < limit \<Longrightarrow> length (contents q) < n \<Longrightarrow> get q n = (None, q)"
    and ok_bound: "ok q \<Longrightarrow> length (contents q) \<le> capacity q"

datatype 'a fifo_op = Put "'a list" | Get nat

fun op_size :: "'a fifo_op \<Rightarrow> nat" where
  "op_size (Put xs) = length xs"
| "op_size (Get n) = n"

text \<open>A run returns the objects accepted, the objects delivered and the last queue.\<close>

fun run_fifo ::
  "('q \<Rightarrow> 'a list \<Rightarrow> bool \<times> 'q) \<Rightarrow> ('q \<Rightarrow> nat \<Rightarrow> 'a list option \<times> 'q) \<Rightarrow> 'q \<Rightarrow> 'a fifo_op list \<Rightarrow>
   'a list \<times> 'a list \<times> 'q" where
  "run_fifo put get q [] = ([], [], q)"
| "run_fifo put get q (Put xs # ops) =
     (let (taken, q1) = put q xs; (ins, outs, q2) = run_fifo put get q1 ops
      in ((if taken then xs else []) @ ins, outs, q2))"
| "run_fifo put get q (Get n # ops) =
     (let (got, q1) = get q n; (ins, outs, q2) = run_fifo put get q1 ops
      in (ins, (case got of None \<Rightarrow> [] | Some ys \<Rightarrow> ys) @ outs, q2))"

context bounded_fifo
begin

lemma put_cases:
  assumes "ok q" and "length xs < limit"
  obtains q' where "put q xs = (True, q')" "ok q'" "capacity q' = capacity q" "contents q' = contents q @ xs"
  | "put q xs = (False, q)"
  using put_fits [of q xs] put_full [of q xs] assms by (metis not_le)

lemma get_cases:
  assumes "ok q" and "n < limit"
  obtains q' where "get q n = (Some (take n (contents q)), q')" "ok q'" "capacity q' = capacity q"
      "contents q' = drop n (contents q)"
  | "get q n = (None, q)"
  using get_some [of q n] get_short [of q n] assms by (metis not_le)

lemma run_fifo_order:
  assumes "ok q" and "\<forall>p \<in> set ops. op_size p < limit"
    and "run_fifo put get q ops = (ins, outs, q')"
  shows "ok q' \<and> capacity q' = capacity q \<and> contents q @ ins = outs @ contents q'"
  using assms
proof (induction ops arbitrary: q ins outs)
  case Nil
  then show ?case by simp
next
  case (Cons p ops)
  show ?case
  proof (cases p)
    case (Put xs)
    with Cons.prems have lim: "length xs < limit" by simp
    show ?thesis
    proof (rule put_cases [OF Cons.prems(1) lim])
      fix q1 assume q1: "put q xs = (True, q1)" "ok q1" "capacity q1 = capacity q"
        "contents q1 = contents q @ xs"
      with Cons.prems Put obtain ins1 where r: "run_fifo put get q1 ops = (ins1, outs, q')" "ins = xs @ ins1"
        by (auto simp: Let_def split: prod.splits)
      with Cons.IH [OF q1(2) _ r(1)] q1 Cons.prems show ?thesis by simp
    next
      assume same: "put q xs = (False, q)"
      with Cons.prems Put have "run_fifo put get q ops = (ins, outs, q')"
        by (auto simp: Let_def split: prod.splits)
      with Cons.IH [OF Cons.prems(1)] Cons.prems show ?thesis by simp
    qed
  next
    case (Get n)
    with Cons.prems have lim: "n < limit" by simp
    show ?thesis
    proof (rule get_cases [OF Cons.prems(1) lim])
      fix q1 assume q1: "get q n = (Some (take n (contents q)), q1)" "ok q1" "capacity q1 = capacity q"
        "contents q1 = drop n (contents q)"
      with Cons.prems Get obtain outs1 where r: "run_fifo put get q1 ops = (ins, outs1, q')"
        "outs = take n (contents q) @ outs1"
        by (auto simp: Let_def split: prod.splits)
      with Cons.IH [OF q1(2) _ r(1)] q1 Cons.prems show ?thesis
        by (metis append_assoc append_take_drop_id list.set_intros(2))
    next
      assume same: "get q n = (None, q)"
      with Cons.prems Get have "run_fifo put get q ops = (ins, outs, q')"
        by (auto simp: Let_def split: prod.splits)
      with Cons.IH [OF Cons.prems(1)] Cons.prems show ?thesis by simp
    qed
  qed
qed

end

text \<open>
  The ring as such a queue: a producer calls \<open>ring_sp_enqueue_bulk\<close> (both 0 and
  \<open>- EDQUOT\<close> mean that the objects were taken), a consumer \<open>ring_sc_dequeue_bulk\<close> with
  a table of \<open>n\<close> cells.
\<close>

definition sp_put :: "'a ring \<Rightarrow> 'a list \<Rightarrow> bool \<times> 'a ring" where
  "sp_put r xs =
     (case ring_sp_enqueue_bulk r xs (of_nat (length xs)) of
        Inl _ \<Rightarrow> (False, r)
      | Inr (ret, r') \<Rightarrow> (ret = 0 \<or> ret = - EDQUOT, r'))"

definition sc_get :: "'a \<Rightarrow> 'a ring \<Rightarrow> nat \<Rightarrow> 'a list option \<times> 'a ring" where
  "sc_get blank r n =
     (case ring_sc_dequeue_bulk r (replicate n blank) (of_nat n) of
        Inl _ \<Rightarrow> (None, r)
      | Inr (ret, out, r') \<Rightarrow> (if ret = 0 then (Some out, r') else (None, r')))"

lemma sp_put_eq:
  assumes "ring_ok r" and "length xs < 2 ^ 32"
  shows "sp_put r xs =
    (if length xs \<le> ring_room r then (True, ring_push r xs) else (False, r))"
  using assms
  by (auto simp: sp_put_def ring_sp_enqueue_bulk_def sp_enqueue_eq unat_of_nat_small enq_code_def
      fifo_moved_def Let_def errno_defs)

lemma sc_get_eq:
  assumes "ring_ok r" and "n < 2 ^ 32"
  shows "sc_get blank r n =
    (if n \<le> ring_len r then (Some (take n (ring_list r)), ring_pop r n) else (None, r))"
proof -
  have "ring_pop r 0 = r" using assms(1) by (simp add: ring_pop_def ring_ok_def)
  then show ?thesis
    using assms
    by (auto simp: sc_get_def ring_sc_dequeue_bulk_def sc_dequeue_eq unat_of_nat_small deq_code_def
        fifo_moved_def Let_def errno_defs)
qed

interpretation spsc: bounded_fifo ring_ok ring_list ring_cap "2 ^ 32" sp_put "sc_get blank"
  for blank :: 'a
proof unfold_locales
  fix q :: "'a ring" and xs :: "'a list" and n :: nat
  show "length (ring_list q) \<le> ring_cap q" if "ring_ok q"
    using that by (simp add: ring_ok_def)
  show "\<exists>q'. sp_put q xs = (True, q') \<and> ring_ok q' \<and> ring_cap q' = ring_cap q \<and>
      ring_list q' = ring_list q @ xs"
    if "ring_ok q" "length xs < 2 ^ 32" "length (ring_list q) + length xs \<le> ring_cap q"
  proof -
    have "length xs \<le> ring_cap q - ring_len q" using that(3) by simp
    with that show ?thesis by (simp add: sp_put_eq ring_room_def ring_push_ok ring_push_list)
  qed
  show "sp_put q xs = (False, q)"
    if "ring_ok q" "length xs < 2 ^ 32" "ring_cap q < length (ring_list q) + length xs"
    using that room_le [of q] by (auto simp: sp_put_eq)
  show "\<exists>q'. sc_get blank q n = (Some (take n (ring_list q)), q') \<and> ring_ok q' \<and>
      ring_cap q' = ring_cap q \<and> ring_list q' = drop n (ring_list q)"
    if "ring_ok q" "n < 2 ^ 32" "n \<le> length (ring_list q)"
    using that by (simp add: sc_get_eq ring_pop_ok ring_pop_list)
  show "sc_get blank q n = (None, q)"
    if "ring_ok q" "n < 2 ^ 32" "length (ring_list q) < n"
    using that by (simp add: sc_get_eq)
qed

section \<open>A ring just created\<close>

lemma ring_create_ok:
  assumes "count \<noteq> 0" and "POWEROF2 count" and "count \<le> RING_SZ_MASK"
  shows "\<exists>r. ring_create False True null name count flags = Inr (Some r) \<and> ring_ok r \<and>
    ring_list r = [] \<and> prod_mask r = count - 1 \<and>
    prod_sp_enqueue r = of_bool (flags AND RING_F_SP_ENQ \<noteq> 0) \<and>
    cons_sc_dequeue r = of_bool (flags AND RING_F_SC_DEQ \<noteq> 0) \<and>
    prod_head r = 0 \<and> prod_tail r = 0 \<and> cons_head r = 0 \<and> cons_tail r = 0"
  using assms
  by (auto simp: ring_create_def ring_get_memsize_def ring_init_def ring_ok_def ring_wf_def ring_len_def
      ring_list_def ring_get_def zeroed_ring_def not_less)

section \<open>Properties of the ring\<close>

text \<open>A small ring whose indices are about to wrap: it holds one object, 7.\<close>

definition wrap_ring :: "nat ring" where
  "wrap_ring =
     \<lparr>rname = ''wrap'', rflags = 3, prod_watermark = 4, prod_sp_enqueue = 1, prod_size = 4,
      prod_mask = 3, prod_head = 0xFFFFFFFF, prod_tail = 0xFFFFFFFF, cons_sc_dequeue = 1,
      cons_size = 4, cons_mask = 3, cons_head = 0xFFFFFFFE, cons_tail = 0xFFFFFFFE,
      slots = [0, 0, 7, 0]\<rparr>"

lemma wrap_ring_ok: "ring_ok wrap_ring"
  by (simp add: wrap_ring_def ring_ok_def ring_wf_def POWEROF2_def RING_SZ_MASK_def ring_len_def
      ring_cap_def)

lemma wrap_ring_vals [simp]:
  "ring_cap wrap_ring = 3" "ring_len wrap_ring = 1" "ring_list wrap_ring = [7]"
  by (simp_all add: wrap_ring_def ring_len_def ring_cap_def ring_list_def ring_get_def)

text \<open>C17: An enqueue (\<open>__ring_sp_do_enqueue\<close>) on a quiescent ring appends exactly the accepted
  prefix of the caller's table behind the queued objects, keeps the ring well-formed, and
  returns 0 or the count, \<open>- EDQUOT\<close> or the flagged count above the watermark, \<open>- ENOBUFS\<close>
  when a fixed batch does not fit; this also holds when the 32-bit indices wrap.\<close>

theorem ring_sp_enqueue_fifo:
  assumes "ring_ok r" and "unat n \<le> length obj"
  shows "\<exists>r'. ring_sp_do_enqueue r obj n b = Inr (enq_code r b (unat n), r') \<and> ring_ok r' \<and>
    ring_cap r' = ring_cap r \<and>
    ring_list r' = ring_list r @ take (fifo_moved b (unat n) (ring_cap r - ring_len r)) obj"
proof (cases "unat n > ring_room r \<and> (b = RING_QUEUE_FIXED \<or> ring_room r = 0)")
  case True
  then have "fifo_moved b (unat n) (ring_room r) = 0" by (auto simp: fifo_moved_def)
  with True assms show ?thesis by (simp add: sp_enqueue_eq ring_room_def)
next
  case False
  let ?m = "fifo_moved b (unat n) (ring_room r)"
  have "?m \<le> ring_room r" "?m \<le> length obj" using False assms by (auto simp: fifo_moved_def)
  with False assms show ?thesis
    by (auto simp: sp_enqueue_eq ring_room_def ring_push_ok ring_push_list min_def)
qed

theorem ring_sp_enqueue_fifo_witness:
  "\<exists>r'. ring_sp_do_enqueue wrap_ring [8, 9] 2 RING_QUEUE_FIXED = Inr (0, r') \<and> ring_ok r' \<and>
    ring_cap r' = 3 \<and> ring_list r' = [7, 8, 9]"
proof -
  have "enq_code wrap_ring RING_QUEUE_FIXED 2 = 0"
    by (simp add: enq_code_def fifo_moved_def ring_room_def Let_def) (simp add: wrap_ring_def)
  then show ?thesis
    using ring_sp_enqueue_fifo [OF wrap_ring_ok, of 2 "[8, 9]" RING_QUEUE_FIXED]
    by (simp add: fifo_moved_def)
qed

text \<open>C18: A dequeue (\<open>__ring_sc_do_dequeue\<close>) on a quiescent ring fills the front of the caller's
  table with the oldest objects, in order, removes exactly those from the ring, and returns
  0 or the count, or \<open>- ENOENT\<close> with nothing removed when a fixed batch is not available.\<close>

theorem ring_sc_dequeue_fifo:
  assumes "ring_ok r" and "unat n \<le> length out"
  shows "\<exists>r'. ring_sc_do_dequeue r out n b =
      Inr (deq_code r b (unat n),
           take (fifo_moved b (unat n) (ring_len r)) (ring_list r) @
             drop (fifo_moved b (unat n) (ring_len r)) out, r') \<and>
    ring_ok r' \<and> ring_cap r' = ring_cap r \<and>
    ring_list r' = drop (fifo_moved b (unat n) (ring_len r)) (ring_list r)"
proof -
  have "fifo_moved b (unat n) (ring_len r) \<le> ring_len r" by (simp add: fifo_moved_def)
  with assms show ?thesis
    by (simp add: sc_dequeue_eq Let_def ring_pop_ok ring_pop_list)
qed

theorem ring_sc_dequeue_fifo_witness:
  "\<exists>r'. ring_sc_do_dequeue wrap_ring [0, 0] 2 RING_QUEUE_VARIABLE = Inr (1, [7, 0], r') \<and>
    ring_ok r' \<and> ring_cap r' = 3 \<and> ring_list r' = []"
  using ring_sc_dequeue_fifo [OF wrap_ring_ok, of 2 "[0, 0]" RING_QUEUE_VARIABLE]
  by (simp add: fifo_moved_def deq_code_def)

text \<open>C5: Over any sequence of bulk enqueues and dequeues, the objects delivered followed by those
  still queued are the objects initially queued followed by those accepted: nothing is lost,
  duplicated or reordered.\<close>

theorem ring_run_fifo:
  assumes "ring_ok r" and "\<forall>p \<in> set ops. op_size p < 2 ^ 32"
    and "run_fifo sp_put (sc_get blank) r ops = (ins, outs, r')"
  shows "ring_list r @ ins = outs @ ring_list r' \<and> ring_ok r' \<and> ring_cap r' = ring_cap r"
  using spsc.run_fifo_order [OF assms] by blast

theorem ring_run_fifo_witness:
  "\<exists>r'. run_fifo sp_put (sc_get 0) wrap_ring [Put [8, 9, 10], Put [8], Get 2, Get 1] = ([8], [7, 8], r') \<and>
    [7] @ [8] = [7, 8] @ ring_list r' \<and> ring_ok r' \<and> ring_cap r' = 3"
proof -
  let ?ops = "[Put [8, 9, 10], Put [8 :: nat], Get 2, Get 1]"
  have ok1: "ring_ok (ring_push wrap_ring [8])"
    by (rule ring_push_ok) (simp_all add: wrap_ring_ok)
  have l1: "ring_list (ring_push wrap_ring [8]) = [7, 8]"
    by (subst ring_push_list) (simp_all add: wrap_ring_ok)
  then have len1: "ring_len (ring_push wrap_ring [8]) = 2"
    by (metis length_ring_list length_Cons list.size(3) numeral_2_eq_2)
  have ok2: "ring_ok (ring_pop (ring_push wrap_ring [8]) 2)"
    by (rule ring_pop_ok [OF ok1]) (simp add: len1)
  have len2: "ring_len (ring_pop (ring_push wrap_ring [8]) 2) = 0"
    by (subst ring_pop_len [OF ok1]) (simp_all add: len1)
  have run: "run_fifo sp_put (sc_get 0) wrap_ring ?ops =
      ([8], [7, 8], ring_pop (ring_push wrap_ring [8]) 2)"
    by (simp add: sp_put_eq sc_get_eq wrap_ring_ok ok1 ok2 l1 len1 len2 ring_room_def)
  have "\<forall>p \<in> set ?ops. op_size p < 2 ^ 32" by simp
  from ring_run_fifo [OF wrap_ring_ok this run] run show ?thesis by simp
qed

text \<open>\<open>ring_count\<close>, \<open>ring_free_count\<close>, \<open>ring_full\<close> and \<open>ring_empty\<close> report exactly the number of
  queued objects and of free places, one place less than the size being usable.\<close>

theorem ring_counts:
  assumes "ring_ok r"
  shows "unat (ring_count r) = length (ring_list r) \<and>
    unat (ring_free_count r) = ring_cap r - length (ring_list r) \<and>
    (ring_full r \<longleftrightarrow> length (ring_list r) = ring_cap r) \<and>
    (ring_empty r \<longleftrightarrow> ring_list r = []) \<and>
    unat (prod_size r) = ring_cap r + 1"
proof -
  have wf: "ring_wf r" and le: "ring_len r \<le> ring_cap r" using assms by (simp_all add: ring_ok_def)
  obtain k where k: "k < 28" "unat (prod_mask r) = 2 ^ k - 1" using wf by (rule ring_wf_size)
  have count: "unat (ring_count r) = ring_len r"
    using le by (simp add: ring_count_def index_mask [OF wf] ring_len_def)
  let ?d = "prod_tail r - cons_tail r"
  have "(cons_tail r - prod_tail r - 1) AND prod_mask r = (prod_mask r - ?d) AND prod_mask r"
  proof (rule word_unat_eq_iff [THEN iffD2])
    have "of_nat (2 ^ k - 1) = (of_nat (2 ^ k) - 1 :: u32)" by (simp add: of_nat_diff)
    then have "prod_mask r = of_nat (2 ^ k) - 1"
      using of_nat_eqI [OF k(2)] by (simp only:)
    then have "prod_mask r - ?d = (cons_tail r - prod_tail r - 1) + of_nat (2 ^ k)"
      by simp
    then have eq: "prod_mask r - ?d = (cons_tail r - prod_tail r - 1) + of_nat (Suc (ring_cap r))"
      using k(2) by (simp add: ring_cap_def)
    show "unat ((cons_tail r - prod_tail r - 1) AND prod_mask r) = unat ((prod_mask r - ?d) AND prod_mask r)"
      unfolding index_mask [OF wf] eq index_add [OF wf] by (simp only: mod_add_self2)
  qed
  moreover have "unat (prod_mask r - ?d) = ring_cap r - ring_len r"
    using le by (subst unat_sub) (simp_all add: word_le_nat_alt ring_len_def ring_cap_def)
  ultimately have free: "unat (ring_free_count r) = ring_cap r - ring_len r"
    by (simp add: ring_free_count_def index_mask [OF wf])
  have "ring_full r \<longleftrightarrow> unat (ring_free_count r) = 0"
    by (simp add: ring_full_def ring_free_count_def unat_eq_zero)
  moreover have "ring_empty r \<longleftrightarrow> ring_len r = 0"
    by (auto simp: ring_empty_def ring_len_def unat_eq_zero)
  moreover have "ring_list r = [] \<longleftrightarrow> ring_len r = 0"
    by (metis length_ring_list length_0_conv)
  ultimately show ?thesis using count free le ring_cap_size [OF wf] by auto
qed

theorem ring_counts_witness:
  "unat (ring_count wrap_ring) = 1 \<and> unat (ring_free_count wrap_ring) = 2 \<and>
    \<not> ring_full wrap_ring \<and> \<not> ring_empty wrap_ring"
  using ring_counts [OF wrap_ring_ok] by simp

text \<open>C19: The four-fold unrolled copy of \<open>ENQUEUE_PTRS\<close>, with its masked remainder and its
  two-part path at the end of the table, writes the objects one after the other modulo the
  ring size and touches nothing else.\<close>

theorem enqueue_unrolled:
  assumes "length sl = unat sz" and "unat sz < 2 ^ 31"
    and "unat (head AND msk) < unat sz" and "unat n \<le> unat sz" and "unat n \<le> length obj"
    and "i < unat sz"
  shows "\<exists>sl'. enqueue_ptrs sz sl obj n head msk = Inr sl' \<and> length sl' = length sl \<and>
    sl' ! i = (let d = (i + unat sz - unat (head AND msk)) mod unat sz
               in if d < unat n then obj ! d else sl ! i)"
proof -
  let ?p = "unat (head AND msk)" and ?N = "unat sz"
  define d where "d = (i + ?N - ?p) mod ?N"
  have i: "i = (?p + d) mod ?N"
    using assms(3,6) unfolding d_def by (simp add: mod_add_right_eq)
  have dN: "d < ?N" using assms(6) by (simp add: d_def)
  have "ring_put sl ?p (take (unat n) obj) ! i = (if d < unat n then obj ! d else sl ! i)"
  proof (cases "d < unat n")
    case True
    then show ?thesis
      using ring_put_nth [of d "take (unat n) obj" sl ?p] assms i by (simp add: min_absorb2)
  next
    case False
    have "i \<noteq> (?p + j) mod length sl" if "j < length (take (unat n) obj)" for j
      using that False dN i mod_add_inj [of ?p d ?N j] assms by auto
    then show ?thesis using False ring_put_other [of "take (unat n) obj" i ?p sl] by simp
  qed
  then show ?thesis using enqueue_ptrs_put [OF assms(1-5)] by (simp add: d_def)
qed

theorem enqueue_unrolled_witness:
  "enqueue_ptrs 8 [0, 0, 0, 0, 0, 0, 0, 9] [1, 2, 3, 4, 5] 5 9 7 = Inr [0, 1, 2, 3, 4, 5, 0, 9 :: nat] \<and>
   (\<exists>sl'. enqueue_ptrs 8 [0, 0, 0, 0, 0, 0, 0, 9] [1, 2, 3, 4, 5] 5 14 7 = Inr sl' \<and> sl' ! 0 = (3 :: nat))"
proof
  show "enqueue_ptrs 8 [0, 0, 0, 0, 0, 0, 0, 9] [1, 2, 3, 4, 5] 5 9 7 = Inr [0, 1, 2, 3, 4, 5, 0, 9 :: nat]"
    by (subst enqueue_ptrs_put) simp_all
  show "\<exists>sl'. enqueue_ptrs 8 [0, 0, 0, 0, 0, 0, 0, 9] [1, 2, 3, 4, 5] 5 14 7 = Inr sl' \<and> sl' ! 0 = (3 :: nat)"
    using enqueue_unrolled [of "[0, 0, 0, 0, 0, 0, 0, 9 :: nat]" 8 14 7 5 "[1, 2, 3, 4, 5]" 0] by auto
qed

text \<open>With no other thread on the ring and an index that is not 0, the compare-and-exchange
  operations (\<open>__ring_mp_do_enqueue\<close>, \<open>__ring_mc_do_dequeue\<close>) return and do exactly what the
  single-threaded ones do.\<close>

theorem ring_mp_alone:
  assumes "ring_ok r" and "n \<noteq> 0" and "prod_head r \<noteq> 0" and "cons_head r \<noteq> 0"
  shows "ring_mp_do_enqueue r obj n b = ring_sp_do_enqueue r obj n b \<and>
    ring_mc_do_dequeue r out n b = ring_sc_do_dequeue r out n b"
  using mp_enqueue_eq_sp [OF assms(1,3,2)] mc_dequeue_eq_sc [OF assms(1,4,2)] by simp

theorem ring_mp_alone_witness:
  "ring_mc_do_dequeue wrap_ring [0] 1 RING_QUEUE_FIXED = Inr (0, [7], ring_pop wrap_ring 1)"
  using ring_mp_alone [OF wrap_ring_ok, of 1 "[]" RING_QUEUE_FIXED "[0]"]
    sc_dequeue_eq [OF wrap_ring_ok, of 1 "[0]" RING_QUEUE_FIXED]
  by (simp add: wrap_ring_def [THEN arg_cong, of prod_head] wrap_ring_def [THEN arg_cong, of cons_head]
      fifo_moved_def deq_code_def Let_def)

text \<open>C20: On a ring whose producer index is 0 - every ring just created - a bulk enqueue with
  \<open>__ring_mp_do_enqueue\<close> never accepts an object: the loop tests the value returned by the
  exchange, the old head 0, as if it meant failure, claims a second range behind the first
  and then either reports \<open>- ENOBUFS\<close>, leaving the head moved, or waits for ever for the tail.\<close>

theorem ring_mp_fresh:
  assumes "ring_ok r" and "prod_head r = 0" and "n \<noteq> 0" and "unat n \<le> length obj"
  shows "ring_mp_do_enqueue r obj n RING_QUEUE_FIXED =
    (let free_entries = prod_mask r + cons_tail r
     in if n > free_entries then Inr (- ENOBUFS, r)
        else if n > free_entries - n then Inr (- ENOBUFS, r\<lparr>prod_head := n\<rparr>)
        else Inl Hang)"
proof -
  have wf: "ring_wf r" and t: "prod_tail r = 0" using assms(1,2) by (simp_all add: ring_ok_def)
  have cp: "prod_mask r + cons_tail r - prod_head r = prod_mask r + cons_tail r" using assms(2) by simp
  have copy: "\<exists>sl. enqueue_ptrs (prod_size r) (slots r) obj n n (prod_mask r) = Inr sl"
    if "n \<le> prod_mask r + cons_tail r"
  proof -
    have "unat n \<le> ring_cap r"
      using that free_entries_room [OF assms(1)] room_le [OF assms(1)]
      by (simp add: cp word_le_nat_alt)
    then show ?thesis
      using enqueue_ptrs_put [of "slots r" "prod_size r" n "prod_mask r" n obj] wf assms(4)
        ring_cap_less [OF wf] ring_cap_size [OF wf]
      by (simp add: index_mask [OF wf] length_slots [OF wf])
  qed
  have two: "mp_claim 2 r n b = mp_claim (Suc (Suc 0)) r n b" for b by (simp add: numeral_2_eq_2)
  show ?thesis
    using copy assms(2,3) t
    by (auto simp: ring_mp_do_enqueue_def two Let_def atomic_cmpxchg_def word_gt_0 not_less
        algebra_simps)
qed

theorem ring_mp_fresh_witness:
  "ring_mp_do_enqueue (ring_pop (ring_push wrap_ring [8]) 2) [5 :: nat] 1 RING_QUEUE_FIXED = Inl Hang \<and>
   ring_mp_do_enqueue (ring_pop (ring_push wrap_ring [8]) 2) [5, 6, 7] 3 RING_QUEUE_FIXED =
     Inr (- ENOBUFS, (ring_pop (ring_push wrap_ring [8]) 2)\<lparr>prod_head := 3\<rparr>)"
proof -
  have ok1: "ring_ok (ring_push wrap_ring [8])"
    by (rule ring_push_ok) (simp_all add: wrap_ring_ok)
  have "ring_ok (ring_pop (ring_push wrap_ring [8]) 2)"
    by (rule ring_pop_ok [OF ok1], subst ring_push_len) (simp_all add: wrap_ring_ok)
  moreover have "prod_head (ring_pop (ring_push wrap_ring [8]) 2) = 0"
    "cons_tail (ring_pop (ring_push wrap_ring [8]) 2) = 0"
    "prod_mask (ring_pop (ring_push wrap_ring [8]) 2) = 3"
    by (simp_all add: wrap_ring_def ring_push_def ring_pop_def)
  ultimately show ?thesis
    using ring_mp_fresh [of "ring_pop (ring_push wrap_ring [8]) 2" 1 "[5]"]
      ring_mp_fresh [of "ring_pop (ring_push wrap_ring [8]) 2" 3 "[5, 6, 7]"]
    by simp
qed

text \<open>C21: \<open>ring_create\<close> accepts exactly the counts that are powers of two (or 0) up to the size
  limit, and on a kernel that compiles \<open>BUG_ON\<close> away gives an empty well-formed ring holding
  count - 1 objects with the producer and consumer modes of the flags; a kernel with
  \<open>BUG_ON\<close> stops in \<open>ring_init\<close> for every accepted count, because the alignment checks mask
  the offsets with the line size instead of the line mask.\<close>

theorem ring_create_spec:
  assumes "count \<noteq> 0"
  shows "if POWEROF2 count \<and> count \<le> RING_SZ_MASK
    then ring_create True True null name count flags = Inl BugOn \<and>
      (\<exists>r. ring_create False True null name count flags = Inr (Some r) \<and> ring_ok r \<and>
        ring_list r = [] \<and> ring_cap r = unat count - 1 \<and>
        (prod_sp_enqueue r \<noteq> 0 \<longleftrightarrow> flags AND RING_F_SP_ENQ \<noteq> 0) \<and>
        (cons_sc_dequeue r \<noteq> 0 \<longleftrightarrow> flags AND RING_F_SC_DEQ \<noteq> 0))
    else ring_create bugs ok null name count flags = Inr None"
proof (cases "POWEROF2 count \<and> count \<le> RING_SZ_MASK")
  case True
  have "and sizeof_ring L1_CACHE_BYTES = 64"
    by (simp add: sizeof_ring_def offsetof_cons_def offsetof_prod_def cache_align_def L1_CACHE_BYTES_def
        RING_NAMESIZE_def)
  moreover have "unat (count - 1) = unat count - 1" using assms by (simp add: unat_minus_one)
  ultimately show ?thesis
    using True assms
    by (auto simp: ring_create_def ring_get_memsize_def ring_init_def ring_ok_def ring_wf_def ring_len_def
        ring_list_def ring_get_def ring_cap_def zeroed_ring_def BUG_ON_def not_less)
next
  case False
  then show ?thesis
    by (auto simp: ring_create_def ring_get_memsize_def not_le errno_defs)
qed

theorem ring_create_spec_witness:
  "(\<exists>r. ring_create False True (0 :: nat) ''rx'' 8 2 = Inr (Some r) \<and> ring_ok r \<and> ring_cap r = 7) \<and>
   ring_create False True (0 :: nat) ''rx'' 12 2 = Inr None"
  using ring_create_spec [of 8 "0 :: nat" "''rx''" 2 False True]
    ring_create_spec [of 12 "0 :: nat" "''rx''" 2 False True]
  by (auto simp: POWEROF2_def RING_SZ_MASK_def)

end
