(* ===== verification/Chain.thy ===== *)
theory Chain
  imports Kns_Prelude
begin

text \<open>
  Singly linked lists in memory. Addresses are natural numbers, 0 is the null pointer (the
  objects of the program are far from the end of the address space, so no pointer wraps),
  and a \<open>next\<close> field is a function of the address. \<open>chain\<close> relates a head pointer to the
  addresses it reaches; the free lists of the memory pools, the packet queues and the
  pbuf chains all use it.
\<close>

type_synonym addr = nat

abbreviation NULL :: addr where "NULL \<equiv> 0"

fun chain :: "(addr \<Rightarrow> addr) \<Rightarrow> addr \<Rightarrow> addr list \<Rightarrow> bool" where
  "chain nx p [] \<longleftrightarrow> p = NULL"
| "chain nx p (x # xs) \<longleftrightarrow> p = x \<and> x \<noteq> NULL \<and> chain nx (nx x) xs"

lemma chain_null [simp]: "chain nx NULL xs \<longleftrightarrow> xs = []"
  by (cases xs) auto

lemma chain_nonnull: "p \<noteq> NULL \<Longrightarrow> chain nx p xs \<longleftrightarrow> (\<exists>ys. xs = p # ys \<and> chain nx (nx p) ys)"
  by (cases xs) auto

lemma chain_hd: "chain nx p xs \<Longrightarrow> p = (if xs = [] then NULL else hd xs)"
  by (cases xs) auto

lemma chain_no_null: "chain nx p xs \<Longrightarrow> NULL \<notin> set xs"
  by (induction xs arbitrary: p) auto

text \<open>A list is determined by the links of its elements, so writes elsewhere do not matter.\<close>

lemma chain_cong: "(\<And>x. x \<in> set xs \<Longrightarrow> f x = g x) \<Longrightarrow> chain f p xs \<longleftrightarrow> chain g p xs"
  by (induction xs arbitrary: p) auto

lemma chain_upd_other [simp]: "a \<notin> set xs \<Longrightarrow> chain (nx(a := b)) p xs \<longleftrightarrow> chain nx p xs"
  by (rule chain_cong) auto

lemma chain_unique: "chain nx p xs \<Longrightarrow> chain nx p ys \<Longrightarrow> xs = ys"
proof (induction xs arbitrary: p ys)
  case Nil
  then show ?case by (cases ys) auto
next
  case (Cons x xs)
  then show ?case by (cases ys) auto
qed

text \<open>Linking one more element behind the last one.\<close>

lemma chain_snoc:
  assumes "chain nx p xs" and "xs \<noteq> []" and "distinct xs" and "a \<notin> set xs" and "a \<noteq> NULL"
    and "nx a = NULL"
  shows "chain (nx(last xs := a)) p (xs @ [a])"
  using assms
proof (induction xs arbitrary: p)
  case Nil
  then show ?case by simp
next
  case (Cons x xs)
  show ?case
  proof (cases xs)
    case Nil
    with Cons.prems show ?thesis by auto
  next
    case (Cons y zs)
    with Cons.prems Cons.IH [of "nx x"] show ?thesis by auto
  qed
qed

text \<open>Joining two lists: the last element of the first takes the head of the second.\<close>

lemma chain_join:
  assumes "chain nx p xs" and "xs \<noteq> []" and "distinct xs" and "chain nx q ys" and "set xs \<inter> set ys = {}"
  shows "chain (nx(last xs := q)) p (xs @ ys)"
  using assms
proof (induction xs arbitrary: p)
  case Nil
  then show ?case by simp
next
  case (Cons x xs)
  show ?case
  proof (cases xs)
    case Nil
    with Cons.prems show ?thesis by (simp add: fun_upd_same del: fun_upd_apply)
  next
    case (Cons y zs)
    with Cons.prems Cons.IH [of "nx x"] show ?thesis by auto
  qed
qed

text \<open>Cutting a list: the tail starts at the last link of the front.\<close>

lemma chain_tail: "chain nx p (xs @ ys) \<Longrightarrow> chain nx (if xs = [] then p else nx (last xs)) ys"
  by (induction xs arbitrary: p) (auto split: if_splits)

lemma chain_cut: "chain nx p (xs @ ys) \<Longrightarrow> xs \<noteq> [] \<Longrightarrow> distinct xs \<Longrightarrow> chain (nx(last xs := NULL)) p xs"
proof (induction xs arbitrary: p)
  case Nil
  then show ?case by simp
next
  case (Cons x xs)
  show ?case
  proof (cases "xs = []")
    case True
    with Cons.prems show ?thesis by auto
  next
    case False
    then have "last xs \<in> set xs" by simp
    with Cons.prems have "x \<noteq> last xs" by auto
    with Cons False show ?thesis by auto
  qed
qed

end
