(* ===== verification/Mempool.thy ===== *)
theory Mempool
  imports Chain
begin

text \<open>
  The memory pools of \<open>core/mempool.c\<close> and \<open>inc/kns/mempool.h\<close>. A datastore cuts its
  buffer into elements of one size and keeps them in chunks; a pool (one per CPU) has a
  local list of free elements, at most one private chunk in reserve, and takes chunks from
  and returns chunks to the datastore. The links live in the free elements themselves
  (\<open>struct mempool_hdr\<close> in their first 16 bytes).
\<close>

section \<open>Data\<close>

text \<open>The header words of every address.\<close>

record hdrs =
  hdr_next :: "addr \<Rightarrow> addr"
  hdr_next_chunk :: "addr \<Rightarrow> addr"

record datastore =
  ds_magic :: u64
  chunk_head :: addr
  ds_buf :: addr
  ds_nr_pages :: nat
  ds_nr_elems :: nat
  ds_elem_len :: nat
  ds_nostraddle :: bool
  ds_chunk_size :: nat
  num_chunks :: nat
  free_chunks :: int
  num_locks :: int
  prettyname :: string
  next_ds :: addr
  ds_iomap_addr :: addr
  ds_iomap_offset :: int

record mempool =
  mp_head :: addr
  num_free :: int
  mp_elem_len :: nat
  mp_magic :: u64
  mp_buf :: addr
  mp_datastore :: addr
  private_chunk :: addr
  mp_sanity :: int
  mp_nr_elems :: nat
  mp_nostraddle :: bool
  mp_chunk_size :: nat
  mp_iomap_addr :: addr
  mp_iomap_offset :: int

definition MEMPOOL_MAGIC :: u64 where "MEMPOOL_MAGIC = 0x12911776"
definition MEMPOOL_DEFAULT_CHUNKSIZE :: nat where "MEMPOOL_DEFAULT_CHUNKSIZE = 128"
definition MEMPOOL_INITIAL_OFFSET :: nat where "MEMPOOL_INITIAL_OFFSET = 0"
definition PAGE_SIZE_2MB :: nat where "PAGE_SIZE_2MB = 2 ^ 21"
definition MAP_FAILED :: addr where "MAP_FAILED = 2 ^ 64 - 1"

definition set_next :: "hdrs \<Rightarrow> addr \<Rightarrow> addr \<Rightarrow> hdrs" where
  "set_next h p q = h\<lparr>hdr_next := (hdr_next h)(p := q)\<rparr>"

definition set_next_chunk :: "hdrs \<Rightarrow> addr \<Rightarrow> addr \<Rightarrow> hdrs" where
  "set_next_chunk h p q = h\<lparr>hdr_next_chunk := (hdr_next_chunk h)(p := q)\<rparr>"

lemma hdr_sel [simp]:
  "hdr_next (set_next h p q) = (hdr_next h)(p := q)"
  "hdr_next_chunk (set_next h p q) = hdr_next_chunk h"
  "hdr_next (set_next_chunk h p q) = hdr_next h"
  "hdr_next_chunk (set_next_chunk h p q) = (hdr_next_chunk h)(p := q)"
  by (simp_all add: set_next_def set_next_chunk_def)

section \<open>Allocation and release\<close>

text \<open>
  Every operation gets the pool, the datastore its \<open>datastore\<close> field points to and the
  headers, and returns them changed. The datastore lock is held only inside one call.
\<close>

type_synonym pool_state = "mempool \<times> datastore \<times> hdrs"

definition mempool_alloc_2 :: "bool \<Rightarrow> pool_state \<Rightarrow> (addr \<times> pool_state) res" where
  "mempool_alloc_2 bugs = (\<lambda>(m, mds, h).
     bindR (BUG_ON bugs (mp_magic m = MEMPOOL_MAGIC)) (\<lambda>_.
     bindR (BUG_ON bugs (mp_head m = NULL)) (\<lambda>_.
     if private_chunk m \<noteq> NULL then
       let p = private_chunk m
       in Inr (p, m\<lparr>mp_head := hdr_next h p, private_chunk := NULL\<rparr>, mds, h)
     else
       bindR (BUG_ON bugs (mp_datastore m \<noteq> NULL)) (\<lambda>_.
       if mp_datastore m = NULL then Inl Fault
       else
         let p = chunk_head mds
         in if p \<noteq> NULL then
              Inr (p, m\<lparr>mp_head := hdr_next h p\<rparr>,
                   mds\<lparr>chunk_head := hdr_next_chunk h p, free_chunks := free_chunks mds - 1,
                       num_locks := num_locks mds + 1\<rparr>, h)
            else Inr (p, m, mds, h)))))"

definition kns_mempool_alloc :: "bool \<Rightarrow> pool_state \<Rightarrow> (addr \<times> pool_state) res" where
  "kns_mempool_alloc bugs = (\<lambda>(m, mds, h).
     let p = mp_head m
     in if p \<noteq> NULL then
          Inr (p, m\<lparr>mp_head := hdr_next h p, num_free := num_free m - 1\<rparr>, mds, h)
        else mempool_alloc_2 bugs (m, mds, h))"

definition mempool_free_2 :: "bool \<Rightarrow> pool_state \<Rightarrow> addr \<Rightarrow> pool_state res" where
  "mempool_free_2 bugs = (\<lambda>(m, mds, h) p.
     bindR (BUG_ON bugs (num_free m = int (mp_chunk_size m))) (\<lambda>_.
     let h1 = set_next h p NULL
     in bindR (if private_chunk m \<noteq> NULL then
                 if mp_datastore m = NULL then Inl Fault
                 else Inr (mds\<lparr>chunk_head := private_chunk m, free_chunks := free_chunks mds + 1,
                               num_locks := num_locks mds + 1\<rparr>,
                           set_next_chunk h1 (private_chunk m) (chunk_head mds))
               else Inr (mds, h1)) (\<lambda>(mds2, h2).
        Inr (m\<lparr>private_chunk := mp_head m, mp_head := p, num_free := 1\<rparr>, mds2, h2))))"

definition kns_mempool_free :: "bool \<Rightarrow> pool_state \<Rightarrow> addr \<Rightarrow> pool_state res" where
  "kns_mempool_free bugs = (\<lambda>(m, mds, h) p.
     if num_free m < int (mp_chunk_size m) then
       Inr (m\<lparr>num_free := num_free m + 1, mp_head := p\<rparr>, mds, set_next h p (mp_head m))
     else mempool_free_2 bugs (m, mds, h) p)"

section \<open>Building a datastore\<close>

text \<open>
  The page offset \<open>i * PAGE_SIZE_2MB\<close> is an \<open>int\<close> product, exact below 1024 pages; the
  largest datastore, that of the mbufs, has 793. One turn of the inner loop of \<open>mempool_init_buf_with_pages\<close>: the state is the datastore,
  the headers, the locals \<open>head\<close>, \<open>prev\<close> and \<open>chunk_count\<close>.
\<close>

type_synonym init_state = "datastore \<times> hdrs \<times> addr \<times> addr \<times> nat"

definition init_elem :: "addr \<Rightarrow> init_state \<Rightarrow> init_state" where
  "init_elem cur = (\<lambda>(mds, h, head, prev, chunk_count).
     let (head1, h1) = (if prev = NULL then (cur, h) else (head, set_next h prev cur));
         count1 = chunk_count + 1
     in if count1 = ds_chunk_size mds then
          let h2 = (if chunk_head mds = NULL then h1
                    else set_next_chunk h1 head1 (chunk_head mds))
          in (mds\<lparr>chunk_head := head1, num_chunks := num_chunks mds + 1,
                  free_chunks := free_chunks mds + 1\<rparr>, h2, NULL, NULL, 0)
        else (mds, h1, head1, cur, count1))"

definition mempool_init_buf_with_pages ::
  "datastore \<times> hdrs \<Rightarrow> nat \<Rightarrow> nat \<Rightarrow> nat \<Rightarrow> datastore \<times> hdrs" where
  "mempool_init_buf_with_pages = (\<lambda>(mds, h) elems_per_page nr_pages elem_len.
     let (mds', h', _, _, _) =
       fold (\<lambda>i st.
         snd (fold (\<lambda>j (cur, st1). (cur + elem_len, init_elem cur st1)) [0..<elems_per_page]
           (ds_buf mds + i * PAGE_SIZE_2MB + MEMPOOL_INITIAL_OFFSET, st)))
         [0..<nr_pages] (mds, h, NULL, NULL, 0)
     in (mds', h'))"

definition ALIGN :: "nat \<Rightarrow> nat \<Rightarrow> nat" where
  "ALIGN x a = (x + a - 1) div a * a"

definition DIV_ROUND_UP :: "nat \<Rightarrow> nat \<Rightarrow> nat" where
  "DIV_ROUND_UP n d = (n + d - 1) div d"

text \<open>
  \<open>buf\<close> is what \<open>page_alloc\<close> returned, \<open>self\<close> the address of the datastore and \<open>all\<close>
  the global list \<open>mempool_all_datastores\<close>. The result is the return value, the
  datastore, the headers and the list. The callers pass positive constants for \<open>nr_elems\<close>
  and \<open>chunk_size\<close>.
\<close>

definition mempool_create_datastore ::
  "bool \<Rightarrow> addr \<Rightarrow> addr \<Rightarrow> datastore \<times> hdrs \<times> addr \<Rightarrow> nat \<Rightarrow> nat \<Rightarrow> bool \<Rightarrow> nat \<Rightarrow> string \<Rightarrow>
   (u32 \<times> datastore \<times> hdrs \<times> addr) res" where
  "mempool_create_datastore bugs buf self = (\<lambda>(mds, h, all) nr_elems elem_len nostraddle chunk_size name.
     bindR (BUG_ON bugs (ds_magic mds = 0)) (\<lambda>_.
     bindR (BUG_ON bugs (and (int chunk_size) (int chunk_size - 1) = 0)) (\<lambda>_.
     bindR (BUG_ON bugs (nr_elems div chunk_size * chunk_size = nr_elems)) (\<lambda>_.
     if elem_len = 0 \<or> nr_elems = 0 then Inr (- EINVAL, mds, h, all)
     else
       let len = ALIGN elem_len 8 + MEMPOOL_INITIAL_OFFSET;
           elems_per_page = PAGE_SIZE_2MB div len
       in if elems_per_page = 0 then Inl DivZero
          else
            let nr_pages = DIV_ROUND_UP nr_elems elems_per_page
            in bindR (BUG_ON bugs (buf \<noteq> NULL)) (\<lambda>_.
               let mds1 = mds\<lparr>ds_magic := MEMPOOL_MAGIC, prettyname := name, ds_buf := buf,
                     ds_nr_pages := nr_pages, ds_nr_elems := nr_elems, ds_elem_len := len,
                     ds_chunk_size := chunk_size, ds_nostraddle := nostraddle\<rparr>
               in if buf = MAP_FAILED \<or> buf = NULL then Inr (- ENOMEM, mds1, h, all)
                  else
                    let (mds2, h2) =
                      (if nostraddle
                       then mempool_init_buf_with_pages (mds1, h) elems_per_page nr_pages len
                       else mempool_init_buf_with_pages (mds1, h) nr_elems 1 len)
                    in Inr (0, mds2\<lparr>next_ds := all\<rparr>, h2, self))))))"

definition kns_mempool_create ::
  "bool \<Rightarrow> mempool \<Rightarrow> addr \<Rightarrow> datastore \<Rightarrow> int \<Rightarrow> int \<Rightarrow> (u32 \<times> mempool) res" where
  "kns_mempool_create bugs m mds_ptr mds sanity_type sanity_id =
     bindR (BUG_ON bugs (ds_magic mds = MEMPOOL_MAGIC)) (\<lambda>_.
     bindR (BUG_ON bugs (mp_magic m = 0)) (\<lambda>_.
     Inr (0, m\<lparr>mp_magic := MEMPOOL_MAGIC, mp_buf := ds_buf mds, mp_datastore := mds_ptr,
               mp_head := NULL, mp_sanity := (push_bit 16 sanity_type) OR sanity_id,
               mp_nr_elems := ds_nr_elems mds, mp_elem_len := ds_elem_len mds,
               mp_nostraddle := ds_nostraddle mds, mp_chunk_size := ds_chunk_size mds,
               mp_iomap_addr := ds_iomap_addr mds, mp_iomap_offset := ds_iomap_offset mds\<rparr>)))"

text \<open>\<open>page_free\<close>, declared but defined nowhere in the repository, keeps the datastore.\<close>

definition mempool_destroy_datastore :: "datastore \<Rightarrow> datastore" where
  "mempool_destroy_datastore mds = mds\<lparr>ds_buf := NULL, chunk_head := NULL, ds_magic := 0\<rparr>"

definition mempool_pagemem_destroy :: "datastore \<Rightarrow> datastore" where
  "mempool_pagemem_destroy mds = mds\<lparr>ds_buf := NULL, chunk_head := NULL\<rparr>"

section \<open>Index and address conversions\<close>

text \<open>
  The product of an element length and a 32-bit index is computed in 32 bits, the
  difference of two addresses in 64 bits.
\<close>

definition mempool_idx_to_ptr :: "bool \<Rightarrow> mempool \<Rightarrow> nat \<Rightarrow> nat \<Rightarrow> addr res" where
  "mempool_idx_to_ptr bugs m idx elem_len =
     bindR (BUG_ON bugs (idx < mp_nr_elems m)) (\<lambda>_.
     bindR (BUG_ON bugs (\<not> mp_nostraddle m)) (\<lambda>_.
     Inr (mp_buf m + (elem_len * idx) mod 2 ^ 32 + MEMPOOL_INITIAL_OFFSET)))"

definition mempool_ptr_to_idx :: "bool \<Rightarrow> mempool \<Rightarrow> addr \<Rightarrow> nat \<Rightarrow> nat res" where
  "mempool_ptr_to_idx bugs m p elem_len =
     (let x = (p + 2 ^ 64 - mp_buf m - MEMPOOL_INITIAL_OFFSET) mod 2 ^ 64
      in if elem_len = 0 then Inl DivZero
         else bindR (BUG_ON bugs (x div elem_len < mp_nr_elems m)) (\<lambda>_. Inr (x div elem_len)))"

definition mempool_pagemem_to_iomap :: "bool \<Rightarrow> mempool \<Rightarrow> addr \<Rightarrow> int res" where
  "mempool_pagemem_to_iomap bugs m p =
     bindR (BUG_ON bugs (mp_iomap_offset m \<noteq> 0)) (\<lambda>_. Inr (int p + mp_iomap_offset m))"

definition mempool_iomap_to_ptr :: "bool \<Rightarrow> mempool \<Rightarrow> int \<Rightarrow> int res" where
  "mempool_iomap_to_ptr bugs m io =
     bindR (BUG_ON bugs (mp_iomap_offset m \<noteq> 0)) (\<lambda>_. Inr (io - mp_iomap_offset m))"

end
