(* ===== verification/Mempool_Spec.thy ===== *)
theory Mempool_Spec
  imports Mempool
begin

text \<open>
  What the memory pools promise: a well-formed pool never hands out an object twice and
  never loses one, a freed object is the next one handed out, and a datastore built on
  zeroed memory chains every element of its buffer into chunks. The promise to the
  clients is the locale \<open>object_pool\<close>, interpreted on the model of the code.
\<close>

section \<open>Well-formed pools\<close>

text \<open>
  \<open>xs\<close> is the local free list, \<open>ys\<close> the private chunk, \<open>css\<close> the chunks of the
  datastore.
\<close>

definition chunks_ok :: "hdrs \<Rightarrow> addr \<Rightarrow> addr list list \<Rightarrow> bool" where
  "chunks_ok h p css \<longleftrightarrow> chain (hdr_next_chunk h) p (map hd css) \<and>
     (\<forall>c \<in> set css. c \<noteq> [] \<and> chain (hdr_next h) (hd c) c)"

definition pool_inv :: "pool_state \<Rightarrow> addr list \<Rightarrow> addr list \<Rightarrow> addr list list \<Rightarrow> bool" where
  "pool_inv = (\<lambda>(m, mds, h) xs ys css.
     chain (hdr_next h) (mp_head m) xs \<and> chain (hdr_next h) (private_chunk m) ys \<and>
     chunks_ok h (chunk_head mds) css \<and> distinct (xs @ ys @ concat css) \<and>
     mp_datastore m \<noteq> NULL \<and> num_free m \<le> int (length xs) \<and> 0 < mp_chunk_size m)"

definition free_list :: "addr list \<Rightarrow> addr list \<Rightarrow> addr list list \<Rightarrow> addr list" where
  "free_list xs ys css = xs @ ys @ concat css"

lemma pool_inv_cong:
  assumes "\<And>x. x \<in> set (free_list xs ys css) \<Longrightarrow> hdr_next h' x = hdr_next h x \<and>
      hdr_next_chunk h' x = hdr_next_chunk h x"
  shows "pool_inv (m, mds, h') xs ys css \<longleftrightarrow> pool_inv (m, mds, h) xs ys css"
proof -
  have c: "chain (hdr_next h') p zs \<longleftrightarrow> chain (hdr_next h) p zs"
    if "set zs \<subseteq> set (free_list xs ys css)" for p zs
    using that assms by (intro chain_cong) auto
  have "chunks_ok h' p css \<longleftrightarrow> chunks_ok h p css" for p
  proof (cases "\<forall>c \<in> set css. c \<noteq> []")
    case True
    have "x \<in> set (free_list xs ys css)" if "x \<in> set (map hd css)" for x
      using that True by (auto simp: free_list_def intro!: bexI [of _ _ "set css"] hd_in_set)
    then have "chain (hdr_next_chunk h') p (map hd css) \<longleftrightarrow> chain (hdr_next_chunk h) p (map hd css)"
      using assms by (intro chain_cong) blast
    moreover have "chain (hdr_next h') (hd d) d \<longleftrightarrow> chain (hdr_next h) (hd d) d" if "d \<in> set css" for d
      using that by (intro c) (auto simp: free_list_def)
    ultimately show ?thesis by (auto simp: chunks_ok_def)
  qed (auto simp: chunks_ok_def)
  moreover have "chain (hdr_next h') p xs \<longleftrightarrow> chain (hdr_next h) p xs"
    "chain (hdr_next h') p ys \<longleftrightarrow> chain (hdr_next h) p ys" for p
    using c [of xs p] c [of ys p] by (simp_all add: free_list_def subset_iff)
  ultimately show ?thesis by (simp add: pool_inv_def)
qed

lemma free_no_null: "pool_inv s xs ys css \<Longrightarrow> NULL \<notin> set (free_list xs ys css)"
  by (auto simp: pool_inv_def free_list_def chunks_ok_def split: prod.splits dest: chain_no_null)

section \<open>Allocation\<close>

text \<open>What an allocation takes and leaves: a list head, a private chunk, or a chunk.\<close>

fun alloc_lists ::
  "addr list \<Rightarrow> addr list \<Rightarrow> addr list list \<Rightarrow> addr \<times> addr list \<times> addr list \<times> addr list list" where
  "alloc_lists (x # xs) ys css = (x, xs, ys, css)"
| "alloc_lists [] (y # ys) css = (y, ys, [], css)"
| "alloc_lists [] [] ((c # cs) # css) = (c, cs, [], css)"
| "alloc_lists [] [] css = (NULL, [], [], css)"

lemma alloc_lists_free:
  assumes "alloc_lists xs ys css = (p, xs', ys', css')" and "\<forall>c \<in> set css. c \<noteq> []"
  shows "(p = NULL \<and> free_list xs ys css = [] \<and> free_list xs' ys' css' = []) \<or>
    free_list xs ys css = p # free_list xs' ys' css'"
  using assms by (cases "(xs, ys, css)" rule: alloc_lists.cases) (auto simp: free_list_def)

lemma kns_mempool_alloc_eq:
  assumes inv: "pool_inv s xs ys css"
  shows "\<exists>s'. kns_mempool_alloc False s = Inr (fst (alloc_lists xs ys css), s') \<and>
    (case alloc_lists xs ys css of (p, xs', ys', css') \<Rightarrow> pool_inv s' xs' ys' css') \<and>
    mp_chunk_size (fst s') = mp_chunk_size (fst s)"
proof -
  obtain m mds h where s: "s = (m, mds, h)" by (cases s) auto
  note d = inv [unfolded s pool_inv_def prod.case]
  show ?thesis
  proof (cases xs)
    case (Cons x xs')
    with d have "mp_head m = x" "x \<noteq> NULL" by auto
    with d Cons show ?thesis
      by (auto simp: s kns_mempool_alloc_def pool_inv_def Let_def)
  next
    case xs: Nil
    with d have hd: "mp_head m = NULL" by simp
    show ?thesis
    proof (cases ys)
      case (Cons y ys')
      with d have "private_chunk m = y" "y \<noteq> NULL" by auto
      with d hd xs Cons show ?thesis
        by (auto simp: s kns_mempool_alloc_def mempool_alloc_2_def pool_inv_def Let_def)
    next
      case ys: Nil
      with d have pc: "private_chunk m = NULL" by simp
      show ?thesis
      proof (cases css)
        case Nil
        with d have "chunk_head mds = NULL" by (simp add: chunks_ok_def)
        with d hd pc xs ys Nil show ?thesis
          by (simp add: s kns_mempool_alloc_def mempool_alloc_2_def pool_inv_def Let_def)
      next
        case (Cons c css')
        with d obtain c0 cs where c: "c = c0 # cs" by (cases c) (auto simp: chunks_ok_def)
        with d Cons have "chunk_head mds = c0" "c0 \<noteq> NULL" by (auto simp: chunks_ok_def)
        with d hd pc xs ys Cons c show ?thesis
          by (auto simp: s kns_mempool_alloc_def mempool_alloc_2_def pool_inv_def chunks_ok_def Let_def)
      qed
    qed
  qed
qed

section \<open>Release\<close>

lemma chunks_ok_frame:
  assumes "p \<notin> set (concat css)"
  shows "chunks_ok (set_next h p q) r css \<longleftrightarrow> chunks_ok h r css"
proof -
  have "p \<notin> set c" if "c \<in> set css" for c using assms that by auto
  then show ?thesis by (auto simp: chunks_ok_def)
qed

lemma chunks_ok_cons:
  assumes "chunks_ok h r css" and "ys \<noteq> []" and "chain (hdr_next h) (hd ys) ys"
    and "distinct (ys @ concat css)"
  shows "chunks_ok (set_next_chunk h (hd ys) r) (hd ys) (ys # css)"
proof -
  have "hd ys \<notin> set (map hd css)"
  proof
    assume "hd ys \<in> set (map hd css)"
    then obtain c where "c \<in> set css" "hd c = hd ys" by auto
    moreover have "c \<noteq> []" using assms(1) \<open>c \<in> set css\<close> by (auto simp: chunks_ok_def)
    ultimately have "hd ys \<in> set (concat css)" by (metis UN_I hd_in_set set_concat)
    then show False using assms(2,4) by (auto simp: disjoint_iff)
  qed
  moreover have "hd ys \<noteq> NULL" using assms(2,3) by (cases ys) auto
  ultimately show ?thesis using assms by (auto simp: chunks_ok_def)
qed

lemma kns_mempool_free_eq:
  assumes inv: "pool_inv s xs ys css" and p: "p \<noteq> NULL" "p \<notin> set (free_list xs ys css)"
  shows "\<exists>s' xs' ys' css'. kns_mempool_free False s p = Inr s' \<and> pool_inv s' (p # xs') ys' css' \<and>
    set (free_list xs' ys' css') = set (free_list xs ys css) \<and>
    mp_chunk_size (fst s') = mp_chunk_size (fst s)"
proof -
  obtain m mds h where s: "s = (m, mds, h)" by (cases s) auto
  note d = inv [unfolded s pool_inv_def prod.case]
  have np: "p \<notin> set xs" "p \<notin> set ys" "p \<notin> set (concat css)" using p(2) by (auto simp: free_list_def)
  show ?thesis
  proof (cases "num_free m < int (mp_chunk_size m)")
    case True
    then have "kns_mempool_free False s p =
        Inr (m\<lparr>num_free := num_free m + 1, mp_head := p\<rparr>, mds, set_next h p (mp_head m))"
      by (simp add: s kns_mempool_free_def)
    moreover have "pool_inv (m\<lparr>num_free := num_free m + 1, mp_head := p\<rparr>, mds, set_next h p (mp_head m))
        (p # xs) ys css"
      using d p np chunks_ok_frame [OF np(3)] by (auto simp: pool_inv_def)
    ultimately show ?thesis by (auto simp: s)
  next
    case False
    with d have xs: "xs \<noteq> []" by auto
    let ?m = "m\<lparr>private_chunk := mp_head m, mp_head := p, num_free := 1\<rparr>"
    show ?thesis
    proof (cases "ys = []")
      case True
      then have "private_chunk m = NULL" using d by simp
      then have "kns_mempool_free False s p = Inr (?m, mds, set_next h p NULL)"
        using False by (simp add: s kns_mempool_free_def mempool_free_2_def)
      moreover have "pool_inv (?m, mds, set_next h p NULL) [p] xs css"
        using d p np True chunks_ok_frame [OF np(3)] by (auto simp: pool_inv_def)
      ultimately show ?thesis using True
        by (intro exI [of _ "(?m, mds, set_next h p NULL)"] exI [of _ "[]"] exI [of _ xs] exI [of _ css])
          (auto simp: s free_list_def)
    next
      case False': False
      let ?mds = "mds\<lparr>chunk_head := private_chunk m, free_chunks := free_chunks mds + 1,
                      num_locks := num_locks mds + 1\<rparr>"
      let ?h = "set_next_chunk (set_next h p NULL) (private_chunk m) (chunk_head mds)"
      have pc: "private_chunk m = hd ys" "private_chunk m \<noteq> NULL"
        using d False' by (cases ys; auto)+
      have "kns_mempool_free False s p = Inr (?m, ?mds, ?h)"
        using False d pc(2) by (simp add: s kns_mempool_free_def mempool_free_2_def)
      moreover have "pool_inv (?m, ?mds, ?h) [p] xs (ys # css)"
      proof -
        have "chunks_ok ?h (hd ys) (ys # css)"
          unfolding pc(1) using d p np pc False'
          by (intro chunks_ok_cons) (auto simp: chunks_ok_frame)
        then show ?thesis using d p np pc by (auto simp: pool_inv_def)
      qed
      ultimately show ?thesis
        by (intro exI [of _ "(?m, ?mds, ?h)"] exI [of _ "[]"] exI [of _ xs] exI [of _ "ys # css"])
          (auto simp: s free_list_def)
    qed
  qed
qed


section \<open>The contract\<close>

text \<open>
  \<open>ok s F\<close>: the pool is well-formed and \<open>F\<close> is the set of its free objects. \<open>touch\<close> is a
  client writing into an object it holds, over the header words too.
\<close>

locale object_pool =
  fixes ok :: "'s \<Rightarrow> addr set \<Rightarrow> bool"
    and alloc :: "'s \<Rightarrow> (addr \<times> 's) res"
    and free :: "'s \<Rightarrow> addr \<Rightarrow> 's res"
    and touch :: "'s \<Rightarrow> addr \<Rightarrow> addr \<Rightarrow> addr \<Rightarrow> 's"
  assumes alloc_law: "ok s F \<Longrightarrow> \<exists>p s'. alloc s = Inr (p, s') \<and>
      (p = NULL \<and> F = {} \<and> ok s' {} \<or> p \<in> F \<and> ok s' (F - {p}))"
    and free_law: "ok s F \<Longrightarrow> p \<noteq> NULL \<Longrightarrow> p \<notin> F \<Longrightarrow> \<exists>s'. free s p = Inr s' \<and> ok s' (insert p F)"
    and touch_law: "ok s F \<Longrightarrow> p \<notin> F \<Longrightarrow> ok (touch s p a b) F"
    and null_law: "ok s F \<Longrightarrow> NULL \<notin> F"

text \<open>
  A client holds a list of objects; it allocates, frees the \<open>k\<close>-th object it holds, or
  writes two words into it.
\<close>

datatype pool_op = Alloc | Free nat | Touch nat addr addr

fun run_pool ::
  "('s \<Rightarrow> (addr \<times> 's) res) \<Rightarrow> ('s \<Rightarrow> addr \<Rightarrow> 's res) \<Rightarrow> ('s \<Rightarrow> addr \<Rightarrow> addr \<Rightarrow> addr \<Rightarrow> 's) \<Rightarrow>
   's \<Rightarrow> addr list \<Rightarrow> pool_op list \<Rightarrow> ('s \<times> addr list) res" where
  "run_pool alloc free touch s held [] = Inr (s, held)"
| "run_pool alloc free touch s held (Alloc # ops) =
     bindR (alloc s) (\<lambda>(p, s').
       run_pool alloc free touch s' (if p = NULL then held else p # held) ops)"
| "run_pool alloc free touch s held (Free k # ops) =
     (if k < length held then
        bindR (free s (held ! k)) (\<lambda>s'.
          run_pool alloc free touch s' (take k held @ drop (Suc k) held) ops)
      else run_pool alloc free touch s held ops)"
| "run_pool alloc free touch s held (Touch k a b # ops) =
     (if k < length held then run_pool alloc free touch (touch s (held ! k) a b) held ops
      else run_pool alloc free touch s held ops)"

lemma removed_nth:
  assumes "k < length xs" and "distinct xs"
  shows "set (take k xs @ drop (Suc k) xs) = set xs - {xs ! k}" "distinct (take k xs @ drop (Suc k) xs)"
proof -
  have xs: "xs = take k xs @ xs ! k # drop (Suc k) xs" using assms(1) by (rule id_take_nth_drop)
  have "distinct (take k xs @ xs ! k # drop (Suc k) xs)" using assms(2) xs by simp
  then have d: "distinct (take k xs @ drop (Suc k) xs)" "xs ! k \<notin> set (take k xs @ drop (Suc k) xs)"
    by auto
  have "set xs = insert (xs ! k) (set (take k xs @ drop (Suc k) xs))"
    by (subst xs) auto
  with d show "set (take k xs @ drop (Suc k) xs) = set xs - {xs ! k}"
    "distinct (take k xs @ drop (Suc k) xs)" by auto
qed

context object_pool
begin

lemma run_pool_conserves:
  assumes "ok s F" and "distinct held" and "NULL \<notin> set held" and "F \<inter> set held = {}"
  shows "\<exists>s' held' F'. run_pool alloc free touch s held ops = Inr (s', held') \<and> ok s' F' \<and>
    distinct held' \<and> NULL \<notin> set held' \<and> F' \<inter> set held' = {} \<and> F' \<union> set held' = F \<union> set held"
  using assms
proof (induction ops arbitrary: s held F)
  case Nil
  then show ?case by auto
next
  case (Cons op ops)
  show ?case
  proof (cases op)
    case Alloc
    from alloc_law [OF Cons.prems(1)] obtain p s1 where a: "alloc s = Inr (p, s1)"
      and c: "p = NULL \<and> F = {} \<and> ok s1 {} \<or> p \<in> F \<and> ok s1 (F - {p})" by blast
    from c show ?thesis
    proof
      assume "p = NULL \<and> F = {} \<and> ok s1 {}"
      then show ?thesis using Cons.IH [of s1 "{}" held] Cons.prems Alloc a by auto
    next
      assume p: "p \<in> F \<and> ok s1 (F - {p})"
      then have "p \<noteq> NULL" using null_law [OF Cons.prems(1)] by metis
      moreover have "(F - {p}) \<inter> set (p # held) = {}" "p \<notin> set held"
        "F - {p} \<union> set (p # held) = F \<union> set held" using p Cons.prems(4) by auto
      ultimately show ?thesis
        using Cons.IH [of s1 "F - {p}" "p # held"] Cons.prems Alloc a p by auto
    qed
  next
    case (Free k)
    show ?thesis
    proof (cases "k < length held")
      case True
      note r = removed_nth [OF True Cons.prems(2)]
      have k: "held ! k \<in> set held" using True by simp
      then have "held ! k \<noteq> NULL" "held ! k \<notin> F" using Cons.prems(3,4) by (metis, auto)
      with free_law [OF Cons.prems(1)] obtain s1 where s1: "free s (held ! k) = Inr s1"
        "ok s1 (insert (held ! k) F)" by blast
      have "insert (held ! k) F \<inter> set (take k held @ drop (Suc k) held) = {}"
        "insert (held ! k) F \<union> set (take k held @ drop (Suc k) held) = F \<union> set held"
        "NULL \<notin> set (take k held @ drop (Suc k) held)"
        unfolding r(1) using Cons.prems(3,4) k by auto
      then show ?thesis using Cons.IH [OF s1(2) r(2)] s1(1) Free True by simp
    next
      case False
      then show ?thesis using Cons.IH [OF Cons.prems] Free by simp
    qed
  next
    case (Touch k a b)
    show ?thesis
    proof (cases "k < length held")
      case True
      then have "held ! k \<notin> F" using Cons.prems(4) by (metis IntI empty_iff nth_mem)
      then have "ok (touch s (held ! k) a b) F" by (rule touch_law [OF Cons.prems(1)])
      then show ?thesis using Cons.IH Cons.prems Touch True by simp
    next
      case False
      then show ?thesis using Cons.IH [OF Cons.prems] Touch by simp
    qed
  qed
qed

end

text \<open>The pools of the code keep the contract, on a kernel that compiles \<open>BUG_ON\<close> away.\<close>

definition pool_ok :: "pool_state \<Rightarrow> addr set \<Rightarrow> bool" where
  "pool_ok s F \<longleftrightarrow> (\<exists>xs ys css. pool_inv s xs ys css \<and> set (free_list xs ys css) = F)"

definition touch_hdr :: "pool_state \<Rightarrow> addr \<Rightarrow> addr \<Rightarrow> addr \<Rightarrow> pool_state" where
  "touch_hdr = (\<lambda>(m, mds, h) p a b. (m, mds, set_next_chunk (set_next h p a) p b))"

lemma pool_alloc_law:
  assumes "pool_ok s F"
  shows "\<exists>p s'. kns_mempool_alloc False s = Inr (p, s') \<and>
    (p = NULL \<and> F = {} \<and> pool_ok s' {} \<or> p \<in> F \<and> pool_ok s' (F - {p}))"
proof -
  from assms obtain xs ys css where inv: "pool_inv s xs ys css" and F: "set (free_list xs ys css) = F"
    by (auto simp: pool_ok_def)
  obtain p xs' ys' css' where al: "alloc_lists xs ys css = (p, xs', ys', css')"
    by (metis prod_cases4)
  with kns_mempool_alloc_eq [OF inv] obtain s' where s': "kns_mempool_alloc False s = Inr (p, s')"
    "pool_inv s' xs' ys' css'" by auto
  have ne: "\<forall>c \<in> set css. c \<noteq> []" using inv by (auto simp: pool_inv_def chunks_ok_def split: prod.splits)
  have dist: "distinct (free_list xs ys css)"
    using inv by (simp add: pool_inv_def free_list_def split: prod.splits)
  from alloc_lists_free [OF al ne] show ?thesis
  proof
    assume a: "p = NULL \<and> free_list xs ys css = [] \<and> free_list xs' ys' css' = []"
    then have "F = {}" "pool_ok s' {}" using F s'(2) by (auto simp: pool_ok_def)
    with a s'(1) show ?thesis by blast
  next
    assume a: "free_list xs ys css = p # free_list xs' ys' css'"
    then have "p \<in> F" "set (free_list xs' ys' css') = F - {p}" using F dist by auto
    with s' show ?thesis by (auto simp: pool_ok_def)
  qed
qed

lemma pool_free_law:
  assumes "pool_ok s F" and "p \<noteq> NULL" and "p \<notin> F"
  shows "\<exists>s'. kns_mempool_free False s p = Inr s' \<and> pool_ok s' (insert p F)"
proof -
  from assms(1) obtain xs ys css where "pool_inv s xs ys css" "set (free_list xs ys css) = F"
    by (auto simp: pool_ok_def)
  with kns_mempool_free_eq [of s xs ys css p] assms(2,3) obtain s' xs' ys' css' where
    "kns_mempool_free False s p = Inr s'" "pool_inv s' (p # xs') ys' css'"
    "set (free_list xs' ys' css') = F" by metis
  moreover from this have "set (free_list (p # xs') ys' css') = insert p F" by (auto simp: free_list_def)
  ultimately show ?thesis by (auto simp: pool_ok_def)
qed

interpretation kmp: object_pool pool_ok "kns_mempool_alloc False" "kns_mempool_free False" touch_hdr
proof unfold_locales
  show "pool_ok (touch_hdr s p a b) F" if "pool_ok s F" "p \<notin> F" for s F p a b
  proof -
    from that obtain xs ys css where inv: "pool_inv s xs ys css" "set (free_list xs ys css) = F"
      by (auto simp: pool_ok_def)
    obtain m mds h where s: "s = (m, mds, h)" by (cases s) auto
    have "pool_inv (touch_hdr s p a b) xs ys css"
      using inv that(2) unfolding s touch_hdr_def prod.case
      by (subst pool_inv_cong [of _ _ _ _ h]) auto
    with inv(2) show ?thesis by (auto simp: pool_ok_def)
  qed
  show "NULL \<notin> F" if "pool_ok s F" for s F
    using that unfolding pool_ok_def by (metis free_no_null)
qed (rule pool_alloc_law, assumption, rule pool_free_law)


section \<open>Building a datastore\<close>

text \<open>The addresses of the elements, page by page.\<close>

definition layout :: "addr \<Rightarrow> nat \<Rightarrow> nat \<Rightarrow> nat \<Rightarrow> addr list" where
  "layout buf nr_pages elems_per_page elem_len =
     concat (map (\<lambda>i. map (\<lambda>j. buf + i * PAGE_SIZE_2MB + j * elem_len) [0..<elems_per_page]) [0..<nr_pages])"

lemma fold_row:
  "fold (\<lambda>j (cur, st). (cur + len, f cur st)) [0..<n] (b, st) =
    (b + n * len, fold f (map (\<lambda>j. b + j * len) [0..<n]) st)" for len :: nat
  by (induction n) simp_all

lemma fold_rows: "fold (\<lambda>i. fold f (g i)) is st = fold f (concat (map g is)) st"
  by (induction "is" arbitrary: st) simp_all

lemma init_buf_fold:
  "mempool_init_buf_with_pages (mds, h) epp np len =
    (case fold init_elem (layout (ds_buf mds) np epp len) (mds, h, NULL, NULL, 0) of
       (mds', h', _) \<Rightarrow> (mds', h'))"
  unfolding mempool_init_buf_with_pages_def layout_def
  by (simp add: fold_row MEMPOOL_INITIAL_OFFSET_def fold_rows split: prod.splits)

text \<open>The loop invariant: \<open>css\<close> are the chunks closed so far, \<open>us\<close> the open one.\<close>

definition init_inv ::
  "datastore \<Rightarrow> init_state \<Rightarrow> addr list list \<Rightarrow> addr list \<Rightarrow> addr list \<Rightarrow> bool" where
  "init_inv mds0 = (\<lambda>(mds, h, head, prev, cc) css us todo.
     chunks_ok h (chunk_head mds) css \<and> (\<forall>c \<in> set css. length c = ds_chunk_size mds0) \<and>
     chain (hdr_next h) head us \<and> prev = (if us = [] then NULL else last us) \<and>
     cc = length us \<and> length us < ds_chunk_size mds0 \<and>
     (\<forall>x \<in> set todo. hdr_next h x = NULL) \<and>
     (\<forall>x \<in> set us \<union> set todo. hdr_next_chunk h x = NULL) \<and>
     distinct (us @ todo @ concat css) \<and> NULL \<notin> set todo \<and>
     ds_chunk_size mds = ds_chunk_size mds0 \<and> num_chunks mds = num_chunks mds0 + length css \<and>
     free_chunks mds = free_chunks mds0 + int (length css))"

lemma set_next_chunk_idem: "hdr_next_chunk h p = q \<Longrightarrow> set_next_chunk h p q = h"
  by (cases h) (simp add: set_next_chunk_def fun_upd_idem)

lemma init_elem_inv:
  assumes inv: "init_inv mds0 st css us (x # todo)"
  shows "\<exists>css' us'. init_inv mds0 (init_elem x st) css' us' todo \<and>
    concat (rev css') @ us' = concat (rev css) @ us @ [x]"
proof -
  obtain mds h head prev cc where st: "st = (mds, h, head, prev, cc)" by (metis prod_cases5)
  note d = inv [unfolded st init_inv_def prod.case]
  define h1 where "h1 = (if prev = NULL then h else set_next h prev x)"
  define hd1 where "hd1 = (if prev = NULL then x else head)"
  have "last us \<noteq> NULL" if "us \<noteq> []"
    using chain_no_null [of "hdr_next h" head us] d last_in_set [OF that] by metis
  then have prev: "prev = NULL \<longleftrightarrow> us = []" using d by auto
  have ch1: "chain (hdr_next h1) hd1 (us @ [x])"
  proof (cases "us = []")
    case True
    then show ?thesis using d prev by (simp add: h1_def hd1_def)
  next
    case False
    have "chain ((hdr_next h)(last us := x)) head (us @ [x])"
      using d False by (intro chain_snoc) auto
    then show ?thesis using d False prev by (simp add: h1_def hd1_def)
  qed
  have "set us \<inter> (set todo \<union> set (concat css) \<union> {x}) = {}" using d by auto
  then have out: "last us \<notin> set (concat css) \<and> last us \<notin> set todo \<and> last us \<noteq> x" if "us \<noteq> []"
    using last_in_set [OF that] by blast
  have co1: "chunks_ok h1 r css \<longleftrightarrow> chunks_ok h r css" for r
  proof (cases "us = []")
    case False
    then have "last us \<notin> set (concat css)" using out by blast
    then show ?thesis using False prev d by (simp add: h1_def chunks_ok_frame del: set_concat)
  qed (simp add: h1_def prev)
  have x: "x \<notin> set us" "x \<notin> set (concat css)" "x \<noteq> NULL" "x \<notin> set todo" using d by auto
  have rest: "\<forall>y \<in> set todo. hdr_next h1 y = NULL" "hdr_next h1 x = NULL"
    "hdr_next_chunk h1 = hdr_next_chunk h"
    using d prev out by (auto simp: h1_def)
  show ?thesis
  proof (cases "Suc cc = ds_chunk_size mds0")
    case False
    then have "init_elem x st = (mds, h1, hd1, x, Suc cc)"
      using d by (simp add: st init_elem_def h1_def hd1_def)
    moreover have "init_inv mds0 (mds, h1, hd1, x, Suc cc) css (us @ [x]) todo"
      unfolding init_inv_def using d ch1 co1 rest x False by (auto simp del: set_concat)
    ultimately show ?thesis by (intro exI [of _ css] exI [of _ "us @ [x]"]) simp
  next
    case True
    define h2 where "h2 = (if chunk_head mds = NULL then h1 else set_next_chunk h1 hd1 (chunk_head mds))"
    let ?mds = "mds\<lparr>chunk_head := hd1, num_chunks := num_chunks mds + 1, free_chunks := free_chunks mds + 1\<rparr>"
    have hd1: "hd1 = hd (us @ [x])" using chain_hd [OF ch1] by simp
    have "init_elem x st = (?mds, h2, NULL, NULL, 0)"
      using d True by (simp add: st init_elem_def h1_def hd1_def h2_def Let_def)
    moreover have co2: "chunks_ok h2 hd1 ((us @ [x]) # css)"
    proof -
      have "chunks_ok (set_next_chunk h1 hd1 (chunk_head mds)) hd1 ((us @ [x]) # css)"
        unfolding hd1 using d ch1 co1 x hd1 by (intro chunks_ok_cons) (auto simp del: set_concat)
      moreover have "set_next_chunk h1 hd1 NULL = h1"
        using d rest hd1 by (intro set_next_chunk_idem) (cases us, auto)
      ultimately show ?thesis by (auto simp: h2_def)
    qed
    moreover have "\<forall>y \<in> set todo. hdr_next_chunk h2 y = NULL"
      using d rest x hd1 by (cases us) (auto simp: h2_def)
    moreover have "hdr_next h2 = hdr_next h1" by (simp add: h2_def)
    ultimately have "init_inv mds0 (init_elem x st) ((us @ [x]) # css) [] todo"
      unfolding init_inv_def using d rest x True by (auto simp del: set_concat)
    then show ?thesis by (intro exI [of _ "(us @ [x]) # css"] exI [of _ "[]"]) simp
  qed
qed

lemma init_fold_inv:
  assumes "init_inv mds0 st css us todo"
  shows "\<exists>css' us'. init_inv mds0 (fold init_elem todo st) css' us' [] \<and>
    concat (rev css') @ us' = concat (rev css) @ us @ todo"
  using assms
proof (induction todo arbitrary: st css us)
  case Nil
  then show ?case by auto
next
  case (Cons x todo)
  from init_elem_inv [OF Cons.prems] obtain css1 us1 where
    1: "init_inv mds0 (init_elem x st) css1 us1 todo" "concat (rev css1) @ us1 = concat (rev css) @ us @ [x]"
    by blast
  from Cons.IH [OF 1(1)] obtain css' us' where
    2: "init_inv mds0 (fold init_elem todo (init_elem x st)) css' us' []"
      "concat (rev css') @ us' = concat (rev css1) @ us1 @ todo" by blast
  have "concat (rev css') @ us' = (concat (rev css1) @ us1) @ todo" using 2(2) by simp
  also have "\<dots> = concat (rev css) @ us @ x # todo" by (simp only: 1(2)) simp
  finally show ?case using 2(1) by auto
qed

lemma row_sorted:
  "sorted_wrt (\<lambda>x y. x + len \<le> y) (map (\<lambda>j. b + j * len) [0..<n]) \<and>
    (\<forall>x \<in> set (map (\<lambda>j. b + j * len) [0..<n]). b \<le> x \<and> x + len \<le> b + n * len)" for b len :: nat
proof (induction n)
  case 0
  show ?case by simp
next
  case (Suc n)
  then show ?case by (auto simp: sorted_wrt_append)
qed

lemma layout_sorted:
  assumes "epp * len \<le> PAGE_SIZE_2MB"
  shows "sorted_wrt (\<lambda>x y. x + len \<le> y) (layout buf np epp len) \<and>
    (\<forall>x \<in> set (layout buf np epp len). buf \<le> x \<and> x + len \<le> buf + np * PAGE_SIZE_2MB)"
proof (induction np)
  case 0
  show ?case by (simp add: layout_def)
next
  case (Suc np)
  let ?row = "map (\<lambda>j. buf + np * PAGE_SIZE_2MB + j * len) [0..<epp]"
  have l: "layout buf (Suc np) epp len = layout buf np epp len @ ?row" by (simp add: layout_def)
  have r: "sorted_wrt (\<lambda>x y. x + len \<le> y) ?row"
    "\<And>x. x \<in> set ?row \<Longrightarrow> buf + np * PAGE_SIZE_2MB \<le> x \<and> x + len \<le> buf + np * PAGE_SIZE_2MB + epp * len"
    using row_sorted [of len "buf + np * PAGE_SIZE_2MB" epp] by blast+
  have "x + len \<le> buf + Suc np * PAGE_SIZE_2MB" if "x \<in> set ?row" for x
    using r(2) [OF that] assms by simp
  moreover have "x + len \<le> y" if "x \<in> set (layout buf np epp len)" "y \<in> set ?row" for x y
    using Suc that(1) r(2) [OF that(2)] by fastforce
  ultimately show ?case unfolding l sorted_wrt_append using Suc r by fastforce
qed

lemma length_layout [simp]: "length (layout buf np epp len) = np * epp"
  by (induction np) (simp_all add: layout_def)

lemma round_up: "0 < d \<Longrightarrow> n \<le> DIV_ROUND_UP n d * d"
  unfolding DIV_ROUND_UP_def
  using div_mult_mod_eq [of "n + d - 1" d] mod_less_divisor [of d "n + d - 1"] by linarith

lemma sorted_distinct: "sorted_wrt (\<lambda>x y. x + len \<le> y) xs \<Longrightarrow> 0 < len \<Longrightarrow> distinct xs" for len :: nat
  by (induction xs) force+

lemma sorted_apart:
  "sorted_wrt (\<lambda>x y. x + len \<le> y) xs \<Longrightarrow> x \<in> set xs \<Longrightarrow> y \<in> set xs \<Longrightarrow> x < y \<Longrightarrow> x + len \<le> y"
  for len :: nat
  by (induction xs) force+


section \<open>Properties\<close>

text \<open>A pool of three free objects at 1000, 1016 and 1032, the last in the datastore.\<close>

definition three_pool :: pool_state where
  "three_pool =
     (\<lparr>mp_head = 1000, num_free = 2, mp_elem_len = 16, mp_magic = MEMPOOL_MAGIC, mp_buf = 1000,
       mp_datastore = 64, private_chunk = NULL, mp_sanity = 0, mp_nr_elems = 3,
       mp_nostraddle = False, mp_chunk_size = 2, mp_iomap_addr = NULL, mp_iomap_offset = 0\<rparr>,
      \<lparr>ds_magic = MEMPOOL_MAGIC, chunk_head = 1032, ds_buf = 1000, ds_nr_pages = 1, ds_nr_elems = 3,
       ds_elem_len = 16, ds_nostraddle = False, ds_chunk_size = 2, num_chunks = 1, free_chunks = 1,
       num_locks = 0, prettyname = ''three'', next_ds = NULL, ds_iomap_addr = NULL, ds_iomap_offset = 0\<rparr>,
      \<lparr>hdr_next = (\<lambda>_. NULL)(1000 := 1016), hdr_next_chunk = (\<lambda>_. NULL)\<rparr>)"

lemma three_pool_ok: "pool_ok three_pool {1000, 1016, 1032}"
  unfolding pool_ok_def
  by (intro exI [of _ "[1000, 1016]"] exI [of _ "[]"] exI [of _ "[[1032]]"])
    (auto simp: three_pool_def pool_inv_def chunks_ok_def free_list_def)

text \<open>C6: Over any sequence of allocations, releases of held objects and writes into held objects
  (over their header words too), the pool never fails, never hands out an object that is
  held, and held and free objects together stay the ones it started with.\<close>

theorem mempool_conserves:
  assumes "pool_ok s F" and "distinct held" and "NULL \<notin> set held" and "F \<inter> set held = {}"
  shows "\<exists>s' held' F'.
    run_pool (kns_mempool_alloc False) (kns_mempool_free False) touch_hdr s held ops = Inr (s', held') \<and>
    pool_ok s' F' \<and> distinct held' \<and> NULL \<notin> set held' \<and> F' \<inter> set held' = {} \<and>
    F' \<union> set held' = F \<union> set held"
  using assms by (rule kmp.run_pool_conserves)

theorem mempool_conserves_witness:
  "\<exists>s' held' F'.
    run_pool (kns_mempool_alloc False) (kns_mempool_free False) touch_hdr three_pool []
      [Alloc, Alloc, Touch 0 7 7, Alloc, Free 1, Alloc, Alloc] = Inr (s', held') \<and>
    pool_ok s' F' \<and> distinct held' \<and> F' \<inter> set held' = {} \<and> F' \<union> set held' = {1000, 1016, 1032}"
  using mempool_conserves [OF three_pool_ok, of "[]" "[Alloc, Alloc, Touch 0 7 7, Alloc, Free 1, Alloc, Alloc]"]
  by (metis Un_empty_right distinct.simps(1) empty_iff inf_bot_right list.set(1))

text \<open>An allocation fails only when no object is free anywhere - local list, private chunk or
  datastore - and the object freed last is the one allocated next.\<close>

theorem mempool_alloc_complete_lifo:
  assumes "pool_ok s F" and "p \<noteq> NULL" and "p \<notin> F"
  shows "(\<exists>q s'. kns_mempool_alloc False s = Inr (q, s') \<and> (q = NULL \<longleftrightarrow> F = {})) \<and>
    (\<exists>s1 s2. kns_mempool_free False s p = Inr s1 \<and> kns_mempool_alloc False s1 = Inr (p, s2) \<and> pool_ok s2 F)"
proof
  from pool_alloc_law [OF assms(1)] kmp.null_law [OF assms(1)]
  show "\<exists>q s'. kns_mempool_alloc False s = Inr (q, s') \<and> (q = NULL \<longleftrightarrow> F = {})" by blast
  from assms(1) obtain xs ys css where "pool_inv s xs ys css" "set (free_list xs ys css) = F"
    by (auto simp: pool_ok_def)
  with kns_mempool_free_eq [of s xs ys css p] assms(2,3) obtain s1 xs' ys' css' where
    f: "kns_mempool_free False s p = Inr s1" "pool_inv s1 (p # xs') ys' css'"
      "set (free_list xs' ys' css') = F" by metis
  from kns_mempool_alloc_eq [OF f(2)] obtain s2 where "kns_mempool_alloc False s1 = Inr (p, s2)"
    "pool_inv s2 xs' ys' css'" by auto
  with f show "\<exists>s1 s2. kns_mempool_free False s p = Inr s1 \<and> kns_mempool_alloc False s1 = Inr (p, s2) \<and>
      pool_ok s2 F"
    unfolding pool_ok_def by blast
qed

theorem mempool_alloc_complete_lifo_witness:
  "\<exists>s1 s2. kns_mempool_free False three_pool 2000 = Inr s1 \<and> kns_mempool_alloc False s1 = Inr (2000, s2) \<and>
    pool_ok s2 {1000, 1016, 1032}"
  using mempool_alloc_complete_lifo [OF three_pool_ok, of 2000] by simp

text \<open>\<open>mempool_create_datastore\<close>, given zeroed memory, chains elements that do not overlap,
  lie inside the pages it asked for and are at least as many as requested, into chunks of
  exactly the chunk size; fewer than a chunk of elements is left over.\<close>

theorem datastore_chunks:
  assumes "0 < elem_len" and "0 < nr_elems" and "0 < cs" and "ALIGN elem_len 8 \<le> PAGE_SIZE_2MB"
    and "buf \<noteq> NULL" and "buf \<noteq> MAP_FAILED" and "chunk_head mds = NULL"
    and "\<forall>x \<ge> buf. hdr_next h x = NULL \<and> hdr_next_chunk h x = NULL"
  shows "\<exists>mds' h' css us.
    mempool_create_datastore False buf self (mds, h, all) nr_elems elem_len nostraddle cs name =
      Inr (0, mds', h', self) \<and>
    chunks_ok h' (chunk_head mds') css \<and> num_chunks mds' = num_chunks mds + length css \<and>
    (\<forall>c \<in> set css. length c = cs) \<and> length us < cs \<and>
    distinct (concat (rev css) @ us) \<and> nr_elems \<le> length (concat (rev css) @ us) \<and>
    (\<forall>x \<in> set (concat (rev css) @ us). buf \<le> x \<and>
      x + ds_elem_len mds' \<le> buf + ds_nr_pages mds' * PAGE_SIZE_2MB) \<and>
    (\<forall>x \<in> set (concat (rev css) @ us). \<forall>y \<in> set (concat (rev css) @ us).
      x < y \<longrightarrow> x + ds_elem_len mds' \<le> y)"
proof -
  let ?L = "ALIGN elem_len 8" let ?epp = "PAGE_SIZE_2MB div ?L" let ?np = "DIV_ROUND_UP nr_elems ?epp"
  have L: "0 < ?L" using assms(1) by (simp add: ALIGN_def)
  then have epp: "0 < ?epp" using assms(4) by (simp add: div_greater_zero_iff)
  have fit: "?epp * ?L \<le> PAGE_SIZE_2MB" by simp
  have enough: "nr_elems \<le> ?np * ?epp" using epp by (rule round_up)
  define m1 where "m1 = mds\<lparr>ds_magic := MEMPOOL_MAGIC, prettyname := name, ds_buf := buf,
      ds_nr_pages := ?np, ds_nr_elems := nr_elems, ds_elem_len := ?L,
      ds_chunk_size := cs, ds_nostraddle := nostraddle\<rparr>"
  define els where "els = (if nostraddle then layout buf ?np ?epp ?L else layout buf 1 nr_elems ?L)"
  have "nr_elems * ?L \<le> ?np * PAGE_SIZE_2MB"
    using mult_le_mono1 [OF enough, of ?L] mult_le_mono2 [OF fit, of ?np] by (simp only: mult.assoc)
  then have row: "x + ?L \<le> buf + ?np * PAGE_SIZE_2MB" if "x + ?L \<le> buf + nr_elems * ?L" for x
    using that by simp
  have one: "layout buf 1 nr_elems ?L = map (\<lambda>j. buf + j * ?L) [0..<nr_elems]"
    by (simp add: layout_def)
  have els: "sorted_wrt (\<lambda>x y. x + ?L \<le> y) els" "nr_elems \<le> length els"
    using layout_sorted [OF fit, of buf ?np] row_sorted [of ?L buf nr_elems] enough
    by (simp_all add: els_def one del: set_map One_nat_def)
  have els_in: "buf \<le> x \<and> x + ?L \<le> buf + ?np * PAGE_SIZE_2MB" if "x \<in> set els" for x
  proof (cases nostraddle)
    case True
    then show ?thesis using layout_sorted [OF fit, of buf ?np] that by (simp add: els_def)
  next
    case False
    then show ?thesis
      using row_sorted [of ?L buf nr_elems] that row by (simp add: els_def one del: set_map One_nat_def)
  qed
  have "init_inv m1 (m1, h, NULL, NULL, 0) [] [] els"
    using assms(3,5,7,8) els(1) els_in sorted_distinct [OF els(1) L]
    by (auto simp: init_inv_def chunks_ok_def m1_def)
  from init_fold_inv [OF this] obtain css us where
    run: "init_inv m1 (fold init_elem els (m1, h, NULL, NULL, 0)) css us []"
      "concat (rev css) @ us = concat (rev []) @ [] @ els" by blast
  define st where "st = fold init_elem els (m1, h, NULL, NULL, 0)"
  have st: "fold init_elem els (m1, h, NULL, NULL, 0) = st" "init_inv m1 st css us []"
    "concat (rev css) @ us = els" using run by (simp_all add: st_def)
  obtain m2 h2 hd2 pv2 cc2 where st2: "st = (m2, h2, hd2, pv2, cc2)" by (metis prod_cases5)
  have keep: "ds_elem_len (fst (fold init_elem zs (a, b))) = ds_elem_len a \<and>
      ds_nr_pages (fst (fold init_elem zs (a, b))) = ds_nr_pages a" for zs a b
    by (induction zs arbitrary: a b)
      (simp_all add: init_elem_def Let_def split: prod.split if_split)
  have bufm: "ds_buf m1 = buf" by (simp add: m1_def)
  have L2: "ds_elem_len m2 = ?L \<and> ds_nr_pages m2 = ?np"
    using keep [of els m1 "(h, NULL, NULL, 0)"] st(1) st2 by (simp add: m1_def)
  have "mempool_create_datastore False buf self (mds, h, all) nr_elems elem_len nostraddle cs name =
      Inr (0, m2\<lparr>next_ds := all\<rparr>, h2, self)"
  proof -
    have "(if nostraddle then mempool_init_buf_with_pages (m1, h) ?epp ?np ?L
        else mempool_init_buf_with_pages (m1, h) nr_elems 1 ?L) = (m2, h2)"
      using st(1) st2 bufm by (cases nostraddle) (simp_all add: init_buf_fold els_def del: One_nat_def)
    then show ?thesis
      using assms(1,2,5,6) epp
      unfolding mempool_create_datastore_def prod.case Let_def MEMPOOL_INITIAL_OFFSET_def add_0_right
        m1_def [symmetric]
      by simp
  qed
  moreover have "chunks_ok h2 (chunk_head m2) css \<and> num_chunks m2 = num_chunks mds + length css \<and>
      (\<forall>c \<in> set css. length c = cs) \<and> length us < cs"
    using st(2) st2 by (simp add: init_inv_def m1_def)
  moreover have "chunk_head (m2\<lparr>next_ds := all\<rparr>) = chunk_head m2"
    "num_chunks (m2\<lparr>next_ds := all\<rparr>) = num_chunks m2"
    "ds_elem_len (m2\<lparr>next_ds := all\<rparr>) = ?L" "ds_nr_pages (m2\<lparr>next_ds := all\<rparr>) = ?np"
    using L2 by simp_all
  moreover note els(2) els_in sorted_distinct [OF els(1) L] sorted_apart [OF els(1)]
  ultimately show ?thesis
    by (intro exI [of _ "m2\<lparr>next_ds := all\<rparr>"] exI [of _ h2] exI [of _ css] exI [of _ us])
      (simp only: st(3), blast)
qed

text \<open>Static data: everything is zero.\<close>

definition zero_datastore :: datastore where
  "zero_datastore =
     \<lparr>ds_magic = 0, chunk_head = NULL, ds_buf = NULL, ds_nr_pages = 0, ds_nr_elems = 0,
      ds_elem_len = 0, ds_nostraddle = False, ds_chunk_size = 0, num_chunks = 0, free_chunks = 0,
      num_locks = 0, prettyname = '''', next_ds = NULL, ds_iomap_addr = NULL, ds_iomap_offset = 0\<rparr>"

definition zero_mempool :: mempool where
  "zero_mempool =
     \<lparr>mp_head = NULL, num_free = 0, mp_elem_len = 0, mp_magic = 0, mp_buf = NULL,
      mp_datastore = NULL, private_chunk = NULL, mp_sanity = 0, mp_nr_elems = 0,
      mp_nostraddle = False, mp_chunk_size = 0, mp_iomap_addr = NULL, mp_iomap_offset = 0\<rparr>"

definition zero_hdrs :: hdrs where
  "zero_hdrs = \<lparr>hdr_next = (\<lambda>_. NULL), hdr_next_chunk = (\<lambda>_. NULL)\<rparr>"

theorem datastore_chunks_witness:
  "\<exists>mds' h' css us.
    mempool_create_datastore False 0x200000 64 (zero_datastore, zero_hdrs, NULL) 1024 100 True 128 ''x'' =
      Inr (0, mds', h', 64) \<and> chunks_ok h' (chunk_head mds') css \<and> 1024 \<le> length (concat (rev css) @ us)"
proof -
  have 1: "ALIGN 100 8 \<le> PAGE_SIZE_2MB" by (simp add: ALIGN_def PAGE_SIZE_2MB_def)
  have 2: "chunk_head zero_datastore = NULL" by (simp add: zero_datastore_def)
  have 3: "\<forall>x \<ge> 0x200000. hdr_next zero_hdrs x = NULL \<and> hdr_next_chunk zero_hdrs x = NULL"
    by (simp add: zero_hdrs_def)
  have 4: "(0x200000 :: nat) \<noteq> MAP_FAILED" by (simp add: MAP_FAILED_def)
  have 5: "0 < (100 :: nat)" "0 < (1024 :: nat)" "0 < (128 :: nat)" "(0x200000 :: nat) \<noteq> NULL" by simp_all
  show ?thesis using datastore_chunks [OF 5(1-3) 1 5(4) 4 2 3, of 64 NULL True "''x''"] by blast
qed

text \<open>A pool created on a well-formed datastore is well-formed and can hand out exactly the
  elements of the datastore's chunks.\<close>

theorem fresh_pool:
  assumes "chunks_ok h (chunk_head mds) css" and "distinct (concat css)" and "0 < ds_chunk_size mds"
    and "self \<noteq> NULL" and "num_free m \<le> 0" and "private_chunk m = NULL"
  shows "\<exists>m'. kns_mempool_create False m self mds t i = Inr (0, m') \<and>
    pool_ok (m', mds, h) (set (concat css))"
proof -
  obtain m' where m': "kns_mempool_create False m self mds t i = Inr (0, m')"
    by (simp add: kns_mempool_create_def)
  have "pool_inv (m', mds, h) [] [] css"
    using assms m' unfolding kns_mempool_create_def by (auto simp: pool_inv_def simp del: set_concat)
  with m' show ?thesis unfolding pool_ok_def free_list_def by fastforce
qed

theorem fresh_pool_witness:
  "\<exists>m'. kns_mempool_create False zero_mempool 64
      (zero_datastore\<lparr>chunk_head := 1000, ds_chunk_size := 2\<rparr>) 0 0 = Inr (0, m') \<and>
    pool_ok (m', zero_datastore\<lparr>chunk_head := 1000, ds_chunk_size := 2\<rparr>,
      \<lparr>hdr_next = (\<lambda>_. NULL)(1000 := 1016), hdr_next_chunk = (\<lambda>_. NULL)\<rparr>) {1000, 1016}"
  using fresh_pool [of "\<lparr>hdr_next = (\<lambda>_. NULL)(1000 := 1016), hdr_next_chunk = (\<lambda>_. NULL)\<rparr>"
      "zero_datastore\<lparr>chunk_head := 1000, ds_chunk_size := 2\<rparr>" "[[1000, 1016]]" 64 zero_mempool 0 0]
  by (auto simp: chunks_ok_def zero_mempool_def)



end
