(* ===== verification/Page.thy ===== *)
theory Page
  imports Ring_Spec Chain
begin

text \<open>
  Large pages: the address arithmetic of \<open>inc/kns/mem.h\<close>, the page table and reference
  counts of \<open>inc/kns/page.h\<close>, and the allocator of \<open>core/page.c\<close>, which keeps the free
  page numbers in a ring (\<open>Ring\<close>).
\<close>

section \<open>Address arithmetic (inc/kns/mem.h)\<close>

definition PAGE_SHIFT_4KB :: nat where "PAGE_SHIFT_4KB = 12"
definition PAGE_SHIFT_2MB :: nat where "PAGE_SHIFT_2MB = 21"
definition PAGE_SHIFT_1GB :: nat where "PAGE_SHIFT_1GB = 30"
definition BUF_SIZE :: u64 where "BUF_SIZE = push_bit PAGE_SHIFT_1GB 8"
definition PGMASK_4KB :: u64 where "PGMASK_4KB = push_bit PAGE_SHIFT_4KB 1 - 1"
definition PGMASK_2MB :: u64 where "PGMASK_2MB = push_bit PAGE_SHIFT_2MB 1 - 1"
definition PGMASK_1GB :: u64 where "PGMASK_1GB = push_bit PAGE_SHIFT_1GB 1 - 1"
definition PGN_4KB :: "u64 \<Rightarrow> u64" where "PGN_4KB la = drop_bit PAGE_SHIFT_4KB la"
definition PGN_2MB :: "u64 \<Rightarrow> u64" where "PGN_2MB la = drop_bit PAGE_SHIFT_2MB la"
definition PGN_1GB :: "u64 \<Rightarrow> u64" where "PGN_1GB la = drop_bit PAGE_SHIFT_1GB la"
definition PGOFF_4KB :: "u64 \<Rightarrow> u64" where "PGOFF_4KB la = la AND PGMASK_4KB"
definition PGOFF_2MB :: "u64 \<Rightarrow> u64" where "PGOFF_2MB la = la AND PGMASK_2MB"
definition PGOFF_1GB :: "u64 \<Rightarrow> u64" where "PGOFF_1GB la = la AND PGMASK_1GB"
definition PGADDR_4KB :: "u64 \<Rightarrow> u64" where "PGADDR_4KB la = la AND NOT PGMASK_4KB"
definition PGADDR_2MB :: "u64 \<Rightarrow> u64" where "PGADDR_2MB la = la AND NOT PGMASK_2MB"
definition PGADDR_1GB :: "u64 \<Rightarrow> u64" where "PGADDR_1GB la = la AND NOT PGMASK_1GB"
definition MEM_VIRTUAL_BASE_ADDR :: u64 where "MEM_VIRTUAL_BASE_ADDR = 0"
definition MEM_VIRTUAL_END_ADDR :: u64 where "MEM_VIRTUAL_END_ADDR = BUF_SIZE"

section \<open>State\<close>

definition NUM_PAGES :: nat where "NUM_PAGES = 4096"

record page_ent =
  maddr :: u64
  refcnt :: int
  pflags :: u32

definition PAGE_FLAG_WILL_FREE :: u32 where "PAGE_FLAG_WILL_FREE = 1"
definition PAGE_FLAG_CAN_FREE :: u32 where "PAGE_FLAG_CAN_FREE = 2"

text \<open>
  The per-CPU tables are those of the CPU that runs the operation. The ring holds pointers
  into \<open>page_no\<close>, whose \<open>i\<close>-th cell holds \<open>i\<close>: \<open>Some i\<close> is such a pointer, \<open>None\<close> a null or
  uninitialised one.
\<close>

record page_state =
  page_tbl :: "page_ent list"
  page_refs :: "int list"
  page_tbl_cpu :: "int list"
  page_num_cpu :: int
  pagenum_free :: int
  free_page_ring :: "nat option ring option"

section \<open>Reference counts\<close>

definition PAGE_NUM :: "u64 \<Rightarrow> u64" where
  "PAGE_NUM addr = PGN_2MB (addr - MEM_VIRTUAL_BASE_ADDR)"

definition is_page :: "u64 \<Rightarrow> bool" where
  "is_page addr \<longleftrightarrow> addr \<ge> MEM_VIRTUAL_BASE_ADDR \<and> addr < MEM_VIRTUAL_END_ADDR"

definition is_page_region :: "u64 \<Rightarrow> u64 \<Rightarrow> bool" where
  "is_page_region addr len =
     (if len > BUF_SIZE \<or> addr < MEM_VIRTUAL_BASE_ADDR \<or> addr + len > MEM_VIRTUAL_END_ADDR
      then False else True)"

definition page_machaddr :: "u64 \<Rightarrow> u64 \<Rightarrow> u64" where
  "page_machaddr mem_phy_base addr = addr + mem_phy_base"

definition page_get :: "page_state \<Rightarrow> u64 \<Rightarrow> (u64 \<times> page_state) res" where
  "page_get s addr =
     (let idx = PAGE_NUM addr in
      bindR (rd (page_tbl s) idx) (\<lambda>ent.
        if pflags ent AND PAGE_FLAG_WILL_FREE \<noteq> 0 then
          Inr (maddr ent + PGOFF_2MB addr,
               s\<lparr>page_tbl := (page_tbl s)[unat idx := ent\<lparr>refcnt := refcnt ent + 1\<rparr>]\<rparr>)
        else
          bindR (rd (page_refs s) idx) (\<lambda>c.
          Inr (maddr ent + PGOFF_2MB addr, s\<lparr>page_refs := (page_refs s)[unat idx := c + 1]\<rparr>))))"

definition page_put_slow :: "page_state \<Rightarrow> u64 \<Rightarrow> page_state res" where
  "page_put_slow s addr =
     (let idx = PAGE_NUM addr in
      bindR (rd (page_tbl s) idx) (\<lambda>ent.
        let ent1 = ent\<lparr>refcnt := refcnt ent - 1\<rparr>;
            no_refs = (refcnt ent1 = 0);
            s1 = s\<lparr>page_tbl := (page_tbl s)[unat idx := ent1]\<rparr>
        in if \<not> no_refs \<or> pflags ent1 AND PAGE_FLAG_CAN_FREE = 0 then Inr s1
           else Inr (s1\<lparr>pagenum_free := pagenum_free s1 + 1\<rparr>)))"

definition page_put :: "page_state \<Rightarrow> u64 \<Rightarrow> page_state res" where
  "page_put s addr =
     (let idx = PAGE_NUM addr in
      bindR (rd (page_tbl s) idx) (\<lambda>ent.
        if pflags ent AND PAGE_FLAG_WILL_FREE \<noteq> 0 then page_put_slow s addr
        else
          bindR (rd (page_refs s) idx) (\<lambda>c.
          Inr (s\<lparr>page_refs := (page_refs s)[unat idx := c - 1]\<rparr>))))"

section \<open>The allocator (core/page.c)\<close>

text \<open>
  \<open>kzalloc_ok\<close> and \<open>ring_ok\<close> say whether the two allocations succeed; a failed one is
  dereferenced all the same. The result of the enqueue is ignored.
\<close>

definition page_init :: "bool \<Rightarrow> bool \<Rightarrow> bool \<Rightarrow> page_state \<Rightarrow> page_state res" where
  "page_init bugs kzalloc_ok ring_alloc_ok s =
     bindR (ring_create bugs ring_alloc_ok None ''free_page_ring'' (of_nat NUM_PAGES) 0) (\<lambda>ro.
     if \<not> kzalloc_ok then Inl Fault
     else let pages = map Some [0..<NUM_PAGES] in
       case ro of
         None \<Rightarrow> Inl Fault
       | Some r \<Rightarrow> bindR (ring_enqueue_bulk r pages (of_nat NUM_PAGES)) (\<lambda>(_, r').
           Inr (s\<lparr>free_page_ring := Some r'\<rparr>)))"

text \<open>One update \<open>page_tbl_update[*(int*)pages[i]] += d\<close>; the result is the old value.\<close>

definition page_tbl_add :: "int \<Rightarrow> nat option \<Rightarrow> page_state \<Rightarrow> (int \<times> page_state) res" where
  "page_tbl_add d pg s =
     (case pg of
        None \<Rightarrow> Inl Fault
      | Some i \<Rightarrow>
          if i < length (page_tbl_cpu s) then
            Inr (page_tbl_cpu s ! i, s\<lparr>page_tbl_cpu := (page_tbl_cpu s)[i := page_tbl_cpu s ! i + d]\<rparr>)
          else Inl Fault)"

fun page_tbl_inc_all :: "nat option list \<Rightarrow> page_state \<Rightarrow> page_state res" where
  "page_tbl_inc_all [] s = Inr s"
| "page_tbl_inc_all (pg # pgs) s =
     bindR (page_tbl_add 1 pg s) (\<lambda>(_, s1). page_tbl_inc_all pgs s1)"

fun page_tbl_dec_all :: "bool \<Rightarrow> nat option list \<Rightarrow> page_state \<Rightarrow> page_state res" where
  "page_tbl_dec_all bugs [] s = Inr s"
| "page_tbl_dec_all bugs (pg # pgs) s =
     bindR (page_tbl_add (- 1) pg s) (\<lambda>(ref, s1).
     bindR (BUG_ON bugs (ref = 0)) (\<lambda>_. page_tbl_dec_all bugs pgs s1))"

definition page_alloc_on_node ::
  "bool \<Rightarrow> page_state \<Rightarrow> nat option list \<Rightarrow> u32 \<Rightarrow> (u32 \<times> nat option list \<times> page_state) res" where
  "page_alloc_on_node bugs s pages nr =
     (case free_page_ring s of
        None \<Rightarrow> Inl Fault
      | Some r \<Rightarrow>
          bindR (ring_dequeue_bulk r pages nr) (\<lambda>(ret, pages', r').
          bindR (BUG_ON bugs (ret = 0)) (\<lambda>_.
          bindR (page_tbl_inc_all (take (unat nr) pages') (s\<lparr>free_page_ring := Some r'\<rparr>)) (\<lambda>s1.
          Inr (0, pages', s1\<lparr>page_num_cpu := page_num_cpu s1 + uint nr,
                             pagenum_free := pagenum_free s1 + uint nr\<rparr>)))))"

text \<open>\<open>cpu_now\<close> is the CPU that runs the call. The result - 1 is the moved-CPU error.\<close>

definition page_free_from_node ::
  "bool \<Rightarrow> nat \<Rightarrow> page_state \<Rightarrow> nat option list \<Rightarrow> u32 \<Rightarrow> nat \<Rightarrow> (int \<times> page_state) res" where
  "page_free_from_node bugs cpu_now s pages nr cpu =
     (case free_page_ring s of
        None \<Rightarrow> Inl Fault
      | Some r \<Rightarrow>
          bindR (ring_enqueue_bulk r pages nr) (\<lambda>(ret, r').
          bindR (BUG_ON bugs (ret = 0)) (\<lambda>_.
          let s1 = s\<lparr>free_page_ring := Some r'\<rparr> in
          if cpu \<noteq> cpu_now then Inr (- 1, s1)
          else
            bindR (page_tbl_dec_all bugs (take (unat nr) pages) s1) (\<lambda>s2.
            Inr (0, s2\<lparr>page_num_cpu := page_num_cpu s2 - uint nr\<rparr>)))))"

text \<open>
  \<open>page_index\<close> is an uninitialised array of \<open>nr\<close> cells, and \<open>page_alloc\<close> returns a local
  pointer that is never assigned: \<open>phy_addrs\<close> is what it happened to hold.
\<close>

definition page_alloc :: "bool \<Rightarrow> addr \<Rightarrow> page_state \<Rightarrow> u32 \<Rightarrow> (addr \<times> page_state) res" where
  "page_alloc bugs phy_addrs s nr =
     bindR (page_alloc_on_node bugs s (replicate (unat nr) None) nr) (\<lambda>(ret, _, s1).
     bindR (BUG_ON bugs (ret = 0)) (\<lambda>_. Inr (phy_addrs, s1)))"

section \<open>Properties\<close>

definition zero_pages :: page_state where
  "zero_pages = \<lparr>page_tbl = replicate NUM_PAGES \<lparr>maddr = 0, refcnt = 0, pflags = 0\<rparr>,
     page_refs = replicate NUM_PAGES 0, page_tbl_cpu = replicate NUM_PAGES 0,
     page_num_cpu = 0, pagenum_free = 4096, free_page_ring = None\<rparr>"

text \<open>\<open>page_init\<close> leaves the page ring empty: it enqueues 4096 pages at once into a ring that
  holds 4095, and ignores the refusal. Every later \<open>page_alloc\<close> of at least one page then
  runs over an uninitialised index array.\<close>

theorem page_pool_stays_empty:
  shows "\<exists>s' r. page_init False True True s = Inr s' \<and> free_page_ring s' = Some r \<and>
    ring_ok r \<and> ring_list r = [] \<and> (\<forall>phy nr. nr \<noteq> 0 \<longrightarrow> page_alloc False phy s' nr = Inl Fault)"
proof -
  have "POWEROF2 (of_nat NUM_PAGES)" "of_nat NUM_PAGES \<le> RING_SZ_MASK" "of_nat NUM_PAGES \<noteq> (0 :: u32)"
    by (simp_all add: POWEROF2_def RING_SZ_MASK_def NUM_PAGES_def)
  from ring_create_ok [OF this(3,1,2), of "None :: nat option" "''free_page_ring''" 0] obtain r where
    r: "ring_create False True (None :: nat option) ''free_page_ring'' (of_nat NUM_PAGES) 0 = Inr (Some r)"
      "ring_ok r" "ring_list r = []" "prod_mask r = 4095" "prod_sp_enqueue r = 0" "cons_sc_dequeue r = 0"
      "prod_head r = 0" "prod_tail r = 0" "cons_head r = 0" "cons_tail r = 0"
    by (auto simp: NUM_PAGES_def)
  have two: "mp_claim 2 r' n b = mp_claim (Suc (Suc 0)) r' n b" "mc_claim 2 r' n b = mc_claim (Suc (Suc 0)) r' n b"
    for r' :: "'z ring" and n b by (simp_all add: numeral_2_eq_2)
  have enq: "ring_enqueue_bulk r xs (of_nat NUM_PAGES) = Inr (- ENOBUFS, r)" for xs
    using r by (simp add: ring_enqueue_bulk_def ring_mp_enqueue_bulk_def ring_mp_do_enqueue_def two
        Let_def NUM_PAGES_def)
  have deq: "ring_dequeue_bulk r xs n = Inr (- ENOENT, xs, r)" if "n \<noteq> 0" for xs n
    using r that by (simp add: ring_dequeue_bulk_def ring_mc_dequeue_bulk_def ring_mc_do_dequeue_def two
        Let_def word_gt_0)
  have fault: "page_tbl_inc_all (replicate k None) t = Inl Fault" if "k \<noteq> 0" for k t
    using that by (cases k) (simp_all add: page_tbl_add_def)
  have "page_alloc False phy (s\<lparr>free_page_ring := Some r\<rparr>) nr = Inl Fault" if "nr \<noteq> 0" for phy nr
    using that by (simp add: page_alloc_def page_alloc_on_node_def deq fault unat_eq_zero)
  moreover have "page_init False True True s = Inr (s\<lparr>free_page_ring := Some r\<rparr>)"
    by (simp add: page_init_def r(1) enq Let_def)
  ultimately show ?thesis using r(2,3) by auto
qed

theorem page_pool_stays_empty_witness:
  "\<exists>s'. page_init False True True zero_pages = Inr s' \<and> page_alloc False 64 s' 2 = Inl Fault"
  using page_pool_stays_empty [of zero_pages] by (elim exE conjE) (intro exI conjI, assumption, simp)

text \<open>A page reference that is taken (\<open>page_get\<close>) and dropped (\<open>page_put\<close>) leaves every count
  as it was; only dropping the last reference of a page that is to be freed and may be
  changes the number of free pages.\<close>

theorem page_get_put:
  assumes "page_get s addr = Inr (m, s1)" and "unat (PAGE_NUM addr) < length (page_tbl s)"
  shows "m = maddr (page_tbl s ! unat (PAGE_NUM addr)) + PGOFF_2MB addr \<and>
    page_put s1 addr = Inr (s\<lparr>pagenum_free := pagenum_free s +
      (let ent = page_tbl s ! unat (PAGE_NUM addr)
       in if pflags ent AND PAGE_FLAG_WILL_FREE \<noteq> 0 \<and> refcnt ent = 0 \<and> pflags ent AND PAGE_FLAG_CAN_FREE \<noteq> 0
          then 1 else 0)\<rparr>)"
proof -
  let ?i = "unat (PAGE_NUM addr)"
  have e: "(page_tbl s ! ?i)\<lparr>refcnt := refcnt (page_tbl s ! ?i)\<rparr> = page_tbl s ! ?i" by simp
  show ?thesis
    using assms
    by (cases "?i < length (page_refs s)")
      (auto simp: page_get_def page_put_def page_put_slow_def Let_def rd_def list_update_same_conv
        split: if_splits)
qed

theorem page_get_put_witness:
  "\<exists>m s1. page_get zero_pages 0x200005 = Inr (m, s1) \<and> m = 5 \<and> page_put s1 0x200005 = Inr zero_pages"
proof -
  have n: "PAGE_NUM 0x200005 = 1" "PGOFF_2MB 0x200005 = 5"
    by (simp_all add: PAGE_NUM_def PGN_2MB_def MEM_VIRTUAL_BASE_ADDR_def PAGE_SHIFT_2MB_def PGOFF_2MB_def PGMASK_2MB_def)
  obtain m s1 where g: "page_get zero_pages 0x200005 = Inr (m, s1)"
    by (auto simp: page_get_def n zero_pages_def NUM_PAGES_def rd_def)
  then show ?thesis
    using page_get_put [OF g] by (simp add: n zero_pages_def NUM_PAGES_def)
qed

end
