(* ===== verification/Mbuf.thy ===== *)
theory Mbuf
  imports Mempool_Spec Page
begin

text \<open>
  Packet buffers (\<open>inc/kns/mbuf.h\<close>, \<open>core/mbuf.c\<close>). An mbuf is an element of a memory pool;
  its first two fields, \<open>pool\<close> and \<open>len\<close>, occupy the same 16 bytes as the pool's
  \<open>struct mempool_hdr\<close>, so the model reads and writes them in the header words: freeing an
  mbuf overwrites them.
\<close>

definition MBUF_HEADER_LEN :: nat where "MBUF_HEADER_LEN = 64"
definition MBUF_DATA_LEN :: nat where "MBUF_DATA_LEN = 2048"
definition MBUF_LEN :: nat where "MBUF_LEN = MBUF_HEADER_LEN + MBUF_DATA_LEN"
definition MBUF_CAPACITY :: nat where "MBUF_CAPACITY = 768 * 1024"
definition MBUF_INVALID_FG_ID :: u16 where "MBUF_INVALID_FG_ID = 0xFFFF"
definition PKT_TX_IP_CKSUM :: u16 where "PKT_TX_IP_CKSUM = 0x1000"
definition PKT_TX_TCP_CKSUM :: u16 where "PKT_TX_TCP_CKSUM = 0x2000"

text \<open>Eight 8-byte words' worth of fields.\<close>

definition sizeof_mbuf :: nat where "sizeof_mbuf = 8 + 8 + 8 + 8 + 4 + 2 + 2 + 8 + 8 + 8"

record mbuf_iov =
  iov_base :: u64
  iov_maddr :: u64
  iov_len :: u64

datatype mbuf_done = mbuf_default_done | other_done nat

text \<open>The fields behind the header words.\<close>

record mbuf =
  mb_next :: addr
  mb_iovs :: addr
  mb_nr_iov :: u32
  mb_fg_id :: u16
  mb_ol_flags :: u16
  mb_done :: mbuf_done
  mb_done_data :: u64
  mb_timestamp :: u64

text \<open>\<open>pools\<close>: the pool structures by address, one per CPU, sharing one datastore.\<close>

record mbuf_world =
  mw_pools :: "addr \<Rightarrow> mempool option"
  mw_ds :: datastore
  mw_hdrs :: hdrs
  mw_mbufs :: "addr \<Rightarrow> mbuf"

definition mbuf_pool :: "mbuf_world \<Rightarrow> addr \<Rightarrow> addr" where
  "mbuf_pool w m = hdr_next (mw_hdrs w) m"

definition mbuf_len :: "mbuf_world \<Rightarrow> addr \<Rightarrow> nat" where
  "mbuf_len w m = hdr_next_chunk (mw_hdrs w) m"

definition set_mbuf_len :: "addr \<Rightarrow> nat \<Rightarrow> mbuf_world \<Rightarrow> mbuf_world" where
  "set_mbuf_len m n w = w\<lparr>mw_hdrs := set_next_chunk (mw_hdrs w) m n\<rparr>"

definition mbuf_alloc :: "bool \<Rightarrow> addr \<Rightarrow> mbuf_world \<Rightarrow> (addr \<times> mbuf_world) res" where
  "mbuf_alloc bugs pool w =
     (case mw_pools w pool of
        None \<Rightarrow> Inl Fault
      | Some mp \<Rightarrow>
          bindR (kns_mempool_alloc bugs (mp, mw_ds w, mw_hdrs w)) (\<lambda>(m, mp', ds', h').
          let w1 = w\<lparr>mw_pools := (mw_pools w)(pool := Some mp'), mw_ds := ds', mw_hdrs := h'\<rparr>
          in if m = NULL then Inr (NULL, w1)
             else Inr (m, w1\<lparr>mw_hdrs := set_next h' m pool,
               mw_mbufs := (mw_mbufs w1)(m := (mw_mbufs w1 m)\<lparr>mb_next := NULL, mb_done := mbuf_default_done\<rparr>)\<rparr>)))"

definition mbuf_free :: "bool \<Rightarrow> addr \<Rightarrow> mbuf_world \<Rightarrow> mbuf_world res" where
  "mbuf_free bugs m w =
     (case mw_pools w (mbuf_pool w m) of
        None \<Rightarrow> Inl Fault
      | Some mp \<Rightarrow>
          bindR (kns_mempool_free bugs (mp, mw_ds w, mw_hdrs w) m) (\<lambda>(mp', ds', h').
          Inr (w\<lparr>mw_pools := (mw_pools w)(mbuf_pool w m := Some mp'), mw_ds := ds', mw_hdrs := h'\<rparr>)))"

text \<open>
  A driver that installed its own \<open>done\<close> callback is a parameter: \<open>cb k m\<close> is what
  callback \<open>k\<close> does.
\<close>

definition mbuf_xmit_done ::
  "bool \<Rightarrow> (nat \<Rightarrow> addr \<Rightarrow> mbuf_world \<Rightarrow> mbuf_world res) \<Rightarrow> addr \<Rightarrow> mbuf_world \<Rightarrow> mbuf_world res" where
  "mbuf_xmit_done bugs cb m w =
     (case mb_done (mw_mbufs w m) of
        mbuf_default_done \<Rightarrow> mbuf_free bugs m w
      | other_done k \<Rightarrow> cb k m w)"

text \<open>\<open>mbuf_mtod\<close>, \<open>mbuf_mtod_off\<close>, \<open>mbuf_nextd_off\<close> and \<open>mbuf_enough_space\<close>.\<close>

definition mbuf_mtod :: "addr \<Rightarrow> addr" where "mbuf_mtod m = m + MBUF_HEADER_LEN"
definition mbuf_mtod_off :: "addr \<Rightarrow> nat \<Rightarrow> addr" where "mbuf_mtod_off m off = m + MBUF_HEADER_LEN + off"
definition mbuf_nextd_off :: "addr \<Rightarrow> nat \<Rightarrow> addr" where "mbuf_nextd_off p off = p + off"

definition mbuf_enough_space :: "mbuf_world \<Rightarrow> addr \<Rightarrow> addr \<Rightarrow> nat \<Rightarrow> bool" where
  "mbuf_enough_space w m pos sz \<longleftrightarrow> pos - (m + MBUF_HEADER_LEN) + sz \<le> mbuf_len w m"

section \<open>Scatter-gather entries\<close>

record sg_entry =
  sg_base :: u64
  sg_len :: u64

definition mbuf_iov_create :: "page_state \<Rightarrow> sg_entry \<Rightarrow> (u64 \<times> mbuf_iov \<times> page_state) res" where
  "mbuf_iov_create s ent =
     (let len = min (sg_len ent) (of_nat PAGE_SIZE_2MB - PGOFF_2MB (sg_base ent))
      in bindR (page_get s (sg_base ent)) (\<lambda>(ma, s').
         Inr (len, \<lparr>iov_base = sg_base ent, iov_maddr = ma, iov_len = len\<rparr>, s')))"

definition mbuf_iov_free :: "page_state \<Rightarrow> mbuf_iov \<Rightarrow> page_state res" where
  "mbuf_iov_free s iov = page_put s (iov_base iov)"

section \<open>Start-up (core/mbuf.c)\<close>

definition mbuf_init_cpu :: "bool \<Rightarrow> addr \<Rightarrow> addr \<Rightarrow> int \<Rightarrow> mbuf_world \<Rightarrow> (u32 \<times> mbuf_world) res" where
  "mbuf_init_cpu bugs pool ds_ptr cpu w =
     (case mw_pools w pool of
        None \<Rightarrow> Inl Fault
      | Some mp \<Rightarrow> bindR (kns_mempool_create bugs mp ds_ptr (mw_ds w) 1 cpu) (\<lambda>(ret, mp').
          Inr (ret, w\<lparr>mw_pools := (mw_pools w)(pool := Some mp')\<rparr>)))"

text \<open>
  \<open>map_user\<close> is \<open>mempool_pagemem_map_to_user\<close>, which is declared in \<open>mempool.h\<close> but whose
  definition in \<open>mempool.c\<close> is commented out.
\<close>

definition mbuf_init ::
  "bool \<Rightarrow> (datastore \<Rightarrow> u32 \<times> datastore) \<Rightarrow> addr \<Rightarrow> addr \<Rightarrow> addr \<Rightarrow> mbuf_world \<Rightarrow> (u32 \<times> addr \<times> mbuf_world) res" where
  "mbuf_init bugs map_user buf self all w =
     bindR (BUG_ON bugs (sizeof_mbuf \<le> MBUF_HEADER_LEN)) (\<lambda>_.
     bindR (mempool_create_datastore bugs buf self (mw_ds w, mw_hdrs w, all) MBUF_CAPACITY MBUF_LEN
              True MEMPOOL_DEFAULT_CHUNKSIZE ''mbuf'') (\<lambda>(ret, ds, h, all').
     let w1 = w\<lparr>mw_ds := ds, mw_hdrs := h\<rparr> in
     if ret \<noteq> 0 then Inr (ret, all', w1)
     else
       let (ret2, ds2) = map_user ds in
       if ret2 \<noteq> 0 then Inr (ret2, all', w1\<lparr>mw_ds := mempool_pagemem_destroy ds2\<rparr>)
       else Inr (0, all', w1\<lparr>mw_ds := ds2\<rparr>)))"

definition mbuf_exit_cpu :: "mbuf_world \<Rightarrow> mbuf_world" where
  "mbuf_exit_cpu w = w\<lparr>mw_ds := mempool_pagemem_destroy (mw_ds w)\<rparr>"

section \<open>Properties\<close>

text \<open>The mbufs of one pool: well-formed, with the given free set.\<close>

definition mbufs_ok :: "addr \<Rightarrow> mbuf_world \<Rightarrow> addr set \<Rightarrow> bool" where
  "mbufs_ok pool w F \<longleftrightarrow> (\<exists>mp. mw_pools w pool = Some mp \<and> pool_ok (mp, mw_ds w, mw_hdrs w) F)"

lemma mbuf_alloc_law:
  assumes "mbufs_ok pool w F"
  shows "\<exists>m w'. mbuf_alloc False pool w = Inr (m, w') \<and>
    (m = NULL \<and> F = {} \<and> mbufs_ok pool w' {} \<or>
     m \<in> F \<and> m \<noteq> NULL \<and> mbufs_ok pool w' (F - {m}) \<and> mbuf_pool w' m = pool \<and>
       mb_next (mw_mbufs w' m) = NULL \<and> mb_done (mw_mbufs w' m) = mbuf_default_done)"
proof -
  from assms obtain mp where mp: "mw_pools w pool = Some mp" "pool_ok (mp, mw_ds w, mw_hdrs w) F"
    by (auto simp: mbufs_ok_def)
  from pool_alloc_law [OF mp(2)] obtain m mp' ds' h' where
    a: "kns_mempool_alloc False (mp, mw_ds w, mw_hdrs w) = Inr (m, mp', ds', h')"
    and c: "m = NULL \<and> F = {} \<and> pool_ok (mp', ds', h') {} \<or> m \<in> F \<and> pool_ok (mp', ds', h') (F - {m})"
    by (metis prod_cases3)
  from c show ?thesis
  proof
    assume "m = NULL \<and> F = {} \<and> pool_ok (mp', ds', h') {}"
    then show ?thesis using a mp(1) by (simp add: mbuf_alloc_def mbufs_ok_def Let_def)
  next
    assume m: "m \<in> F \<and> pool_ok (mp', ds', h') (F - {m})"
    then have nz: "m \<noteq> NULL" using kmp.null_law [OF mp(2)] by metis
    have "pool_ok (touch_hdr (mp', ds', h') m pool (hdr_next_chunk h' m)) (F - {m})"
      by (rule kmp.touch_law) (use m in auto)
    then have "pool_ok (mp', ds', set_next h' m pool) (F - {m})"
      by (simp add: touch_hdr_def set_next_chunk_idem)
    then show ?thesis using a mp(1) m nz by (simp add: mbuf_alloc_def mbufs_ok_def mbuf_pool_def Let_def)
  qed
qed

lemma mbuf_free_law:
  assumes "mbufs_ok pool w F" and "mbuf_pool w m = pool" and "m \<noteq> NULL" and "m \<notin> F"
  shows "\<exists>w'. mbuf_free False m w = Inr w' \<and> mbufs_ok pool w' (insert m F) \<and>
    mw_mbufs w' = mw_mbufs w \<and> (\<forall>p. p \<noteq> pool \<longrightarrow> mw_pools w' p = mw_pools w p)"
proof -
  from assms(1) obtain mp where mp: "mw_pools w pool = Some mp" "pool_ok (mp, mw_ds w, mw_hdrs w) F"
    by (auto simp: mbufs_ok_def)
  from pool_free_law [OF mp(2) assms(3,4)] obtain mp' ds' h' where
    "kns_mempool_free False (mp, mw_ds w, mw_hdrs w) m = Inr (mp', ds', h')"
    "pool_ok (mp', ds', h') (insert m F)" by (metis prod_cases3)
  then show ?thesis using mp(1) assms(2) by (simp add: mbuf_free_def mbufs_ok_def)
qed

text \<open>C16: An allocated mbuf records its pool, has no successor and the default completion; whatever
  its owner then stores in it, completing its transmission puts it back into exactly that
  pool, leaves all other pools alone, and makes it available again.\<close>

theorem mbuf_alloc_complete:
  assumes "mbufs_ok pool w F" and "mbuf_alloc False pool w = Inr (m, w1)" and "m \<noteq> NULL"
    and "w2 = set_mbuf_len m len (w1\<lparr>mw_mbufs := (mw_mbufs w1)(m := b\<lparr>mb_done := mbuf_default_done\<rparr>)\<rparr>)"
  shows "m \<in> F \<and> mbuf_pool w1 m = pool \<and> mb_next (mw_mbufs w1 m) = NULL \<and>
    (\<exists>w3. mbuf_xmit_done False cb m w2 = Inr w3 \<and> mbufs_ok pool w3 F \<and>
      (\<forall>p. p \<noteq> pool \<longrightarrow> mw_pools w3 p = mw_pools w p))"
proof -
  from mbuf_alloc_law [OF assms(1)] assms(2,3) have a: "m \<in> F" "mbufs_ok pool w1 (F - {m})"
    "mbuf_pool w1 m = pool" "mb_next (mw_mbufs w1 m) = NULL" by auto
  have others: "mw_pools w1 p = mw_pools w p" if "p \<noteq> pool" for p
    using assms(2) that by (auto simp: mbuf_alloc_def bindR_def Let_def split: option.splits sum.splits prod.splits if_splits)
  from a(2) obtain mp where mp: "mw_pools w1 pool = Some mp" "pool_ok (mp, mw_ds w1, mw_hdrs w1) (F - {m})"
    by (auto simp: mbufs_ok_def)
  have "pool_ok (touch_hdr (mp, mw_ds w1, mw_hdrs w1) m (hdr_next (mw_hdrs w1) m) len) (F - {m})"
    by (rule kmp.touch_law [OF mp(2)]) simp
  then have "pool_ok (mp, mw_ds w1, set_next_chunk (mw_hdrs w1) m len) (F - {m})"
    by (cases "mw_hdrs w1") (simp add: touch_hdr_def set_next_def fun_upd_idem)
  then have w2: "mbufs_ok pool w2 (F - {m})" "mbuf_pool w2 m = pool"
    using mp(1) a(3) by (simp_all add: assms(4) set_mbuf_len_def mbufs_ok_def mbuf_pool_def)
  from mbuf_free_law [OF w2 assms(3)] obtain w3 where
    "mbuf_free False m w2 = Inr w3" "mbufs_ok pool w3 (insert m (F - {m}))"
    "\<forall>p. p \<noteq> pool \<longrightarrow> mw_pools w3 p = mw_pools w2 p" by auto
  moreover have "insert m (F - {m}) = F" using a(1) by auto
  moreover have "mb_done (mw_mbufs w2 m) = mbuf_default_done" "mw_pools w2 = mw_pools w1"
    by (simp_all add: assms(4) set_mbuf_len_def)
  ultimately show ?thesis using a others by (auto simp: mbuf_xmit_done_def)
qed

definition three_mbufs :: mbuf_world where
  "three_mbufs =
     \<lparr>mw_pools = [64 \<mapsto> fst three_pool], mw_ds = fst (snd three_pool), mw_hdrs = snd (snd three_pool),
      mw_mbufs = (\<lambda>_. \<lparr>mb_next = NULL, mb_iovs = NULL, mb_nr_iov = 0, mb_fg_id = 0, mb_ol_flags = 0,
        mb_done = mbuf_default_done, mb_done_data = 0, mb_timestamp = 0\<rparr>)\<rparr>"

lemma three_mbufs_ok: "mbufs_ok 64 three_mbufs {1000, 1016, 1032}"
  using three_pool_ok by (simp add: mbufs_ok_def three_mbufs_def)

theorem mbuf_alloc_complete_witness:
  "\<exists>m w1 w3. mbuf_alloc False 64 three_mbufs = Inr (m, w1) \<and> m = 1000 \<and>
     mbuf_xmit_done False (\<lambda>_ _ w. Inr w) m (set_mbuf_len m 60 (w1\<lparr>mw_mbufs := (mw_mbufs w1)
       (m := (mw_mbufs w1 m)\<lparr>mb_done := mbuf_default_done\<rparr>)\<rparr>)) = Inr w3 \<and>
     mbufs_ok 64 w3 {1000, 1016, 1032}"
proof -
  obtain w1 where w1: "mbuf_alloc False 64 three_mbufs = Inr (1000, w1)"
    by (auto simp: mbuf_alloc_def three_mbufs_def three_pool_def kns_mempool_alloc_def Let_def)
  from mbuf_alloc_complete [OF three_mbufs_ok w1 _ refl, where len = 60 and b = "mw_mbufs w1 1000" and cb = "\<lambda>_ _ w. Inr w"] w1 show ?thesis by auto
qed

end
