(* ===== verification/Pbuf.thy ===== *)
theory Pbuf
  imports Mbuf
begin

text \<open>
  Packet buffers of the TCP stack: \<open>lwip/pbuf.c\<close>, \<open>inc/lwip/lwip/pbuf.h\<close> and \<open>memp.h\<close>, as
  configured by \<open>inc/lwip/lwipopts.h\<close> (\<open>MEM_ALIGNMENT\<close> 1, \<open>LWIP_NOASSERT\<close>, no custom pbufs, no
  checksum on copy, window scaling on). A packet is a chain of pbufs linked by \<open>next\<close>;
  \<open>tot_len\<close> of each is the length of the rest of the packet, and \<open>ref\<close> counts the pointers
  to it.
\<close>

section \<open>Data\<close>

datatype pbuf_layer = PBUF_TRANSPORT | PBUF_IP | PBUF_LINK | PBUF_RAW

datatype pbuf_type = PBUF_RAM | PBUF_ROM | PBUF_REF | PBUF_POOL

record pbuf =
  pb_pool :: addr
  p_next :: addr
  tcp_api_next :: addr
  payload :: addr
  p_mbuf :: addr
  tot_len :: u16
  p_len :: u16
  p_type :: pbuf_type
  p_flags :: u8
  p_ref :: u16

text \<open>
  The machine: the pbufs and the bytes of memory by address, the two pools of the running
  CPU that pbufs come from (with the datastores they share), and the mbufs.
\<close>

record pbuf_state =
  pb :: "addr \<Rightarrow> pbuf"
  bytes :: "addr \<Rightarrow> u8"
  pbuf_mempool :: pool_state
  pbuf_with_payload_mempool :: pool_state
  mbufs :: mbuf_world

definition PBUF_TRANSPORT_HLEN :: nat where "PBUF_TRANSPORT_HLEN = 20"
definition PBUF_IP_HLEN :: nat where "PBUF_IP_HLEN = 20"
definition PBUF_LINK_HLEN :: nat where "PBUF_LINK_HLEN = 14"
definition PBUF_POOL_BUFSIZE_ALIGNED :: nat where "PBUF_POOL_BUFSIZE_ALIGNED = 1460 + 40 + 14"
definition SIZEOF_STRUCT_PBUF :: nat where "SIZEOF_STRUCT_PBUF = 5 * 8 + 2 + 2 + 1 + 1 + 2"
definition PBUF_FLAG_TCP_FIN :: u8 where "PBUF_FLAG_TCP_FIN = 0x20"

definition ERR_OK :: int where "ERR_OK = 0"
definition ERR_VAL :: int where "ERR_VAL = - 6"
definition ERR_ARG :: int where "ERR_ARG = - 14"

text \<open>Reading through a pointer, and storing a changed pbuf.\<close>

definition deref :: "pbuf_state \<Rightarrow> addr \<Rightarrow> pbuf res" where
  "deref s p = (if p = NULL then Inl Fault else Inr (pb s p))"

definition upd_pb :: "addr \<Rightarrow> (pbuf \<Rightarrow> pbuf) \<Rightarrow> pbuf_state \<Rightarrow> pbuf_state" where
  "upd_pb p f s = s\<lparr>pb := (pb s)(p := f (pb s p))\<rparr>"

definition memcpy :: "addr \<Rightarrow> addr \<Rightarrow> nat \<Rightarrow> pbuf_state \<Rightarrow> pbuf_state" where
  "memcpy dst src n s =
     s\<lparr>bytes := (\<lambda>a. if dst \<le> a \<and> a < dst + n then bytes s (src + (a - dst)) else bytes s a)\<rparr>"

section \<open>Pools (memp.h)\<close>

datatype memp_t = MEMP_PBUF | MEMP_PBUF_POOL

text \<open>There is no pool behind \<open>MEMP_PBUF_POOL\<close>: allocation gives NULL, release does nothing.\<close>

definition memp_malloc :: "bool \<Rightarrow> memp_t \<Rightarrow> pbuf_state \<Rightarrow> (addr \<times> pbuf_state) res" where
  "memp_malloc bugs t s =
     (case t of
        MEMP_PBUF \<Rightarrow> bindR (kns_mempool_alloc bugs (pbuf_mempool s)) (\<lambda>(p, m).
          Inr (p, s\<lparr>pbuf_mempool := m\<rparr>))
      | MEMP_PBUF_POOL \<Rightarrow> Inr (NULL, s))"

definition memp_free :: "bool \<Rightarrow> memp_t \<Rightarrow> addr \<Rightarrow> pbuf_state \<Rightarrow> pbuf_state res" where
  "memp_free bugs t p s =
     (case t of
        MEMP_PBUF \<Rightarrow> bindR (kns_mempool_free bugs (pbuf_mempool s) p) (\<lambda>m.
          Inr (s\<lparr>pbuf_mempool := m\<rparr>))
      | MEMP_PBUF_POOL \<Rightarrow> Inr s)"

section \<open>Releasing\<close>

text \<open>
  The loops over a chain take fuel, one unit per pbuf visited; running out means that the
  chain is circular and the loop never ends. \<open>mf\<close> is \<open>mem_free\<close>, which the repository
  declares (\<open>mem.h\<close>) but does not define.
\<close>

type_synonym mem_free_fn = "addr \<Rightarrow> pbuf_state \<Rightarrow> pbuf_state res"

fun pbuf_free_loop ::
  "bool \<Rightarrow> mem_free_fn \<Rightarrow> nat \<Rightarrow> addr \<Rightarrow> u8 \<Rightarrow> pbuf_state \<Rightarrow> (u8 \<times> pbuf_state) res" where
  "pbuf_free_loop bugs mf 0 p count s = (if p = NULL then Inr (count, s) else Inl Hang)"
| "pbuf_free_loop bugs mf (Suc fuel) p count s =
     (if p = NULL then Inr (count, s)
      else
        let ref = p_ref (pb s p) - 1;
            s1 = upd_pb p (\<lambda>b. b\<lparr>p_ref := ref\<rparr>) s
        in if ref = 0 then
             bindR (if p_mbuf (pb s1 p) \<noteq> NULL then
                      bindR (mbuf_free bugs (p_mbuf (pb s1 p)) (mbufs s1)) (\<lambda>w.
                      Inr (upd_pb p (\<lambda>b. b\<lparr>p_mbuf := NULL\<rparr>) (s1\<lparr>mbufs := w\<rparr>)))
                    else Inr s1) (\<lambda>s2.
             let q = p_next (pb s2 p);
                 type = p_type (pb s2 p)
             in bindR (if type = PBUF_POOL then memp_free bugs MEMP_PBUF_POOL p s2
                       else if type = PBUF_ROM \<or> type = PBUF_REF then memp_free bugs MEMP_PBUF p s2
                       else mf p s2) (\<lambda>s3.
                pbuf_free_loop bugs mf fuel q (count + 1) s3))
           else Inr (count, s1))"

definition pbuf_free ::
  "bool \<Rightarrow> mem_free_fn \<Rightarrow> nat \<Rightarrow> addr \<Rightarrow> pbuf_state \<Rightarrow> (u8 \<times> pbuf_state) res" where
  "pbuf_free bugs mf fuel p s = (if p = NULL then Inr (0, s) else pbuf_free_loop bugs mf fuel p 0 s)"

section \<open>Allocation\<close>

definition layer_offset :: "pbuf_layer \<Rightarrow> nat" where
  "layer_offset l =
     (case l of
        PBUF_TRANSPORT \<Rightarrow> PBUF_LINK_HLEN + PBUF_IP_HLEN + PBUF_TRANSPORT_HLEN
      | PBUF_IP \<Rightarrow> PBUF_LINK_HLEN + PBUF_IP_HLEN
      | PBUF_LINK \<Rightarrow> PBUF_LINK_HLEN
      | PBUF_RAW \<Rightarrow> 0)"

text \<open>The loop that chains further pool pbufs behind \<open>r\<close> for \<open>rem_len\<close> more bytes.\<close>

fun alloc_tail ::
  "bool \<Rightarrow> mem_free_fn \<Rightarrow> nat \<Rightarrow> addr \<Rightarrow> addr \<Rightarrow> int \<Rightarrow> pbuf_state \<Rightarrow> (addr \<times> pbuf_state) res" where
  "alloc_tail bugs mf 0 p r rem_len s = (if rem_len > 0 then Inl Hang else Inr (p, s))"
| "alloc_tail bugs mf (Suc fuel) p r rem_len s =
     (if rem_len > 0 then
        bindR (memp_malloc bugs MEMP_PBUF_POOL s) (\<lambda>(q, s1).
        if q = NULL then
          bindR (pbuf_free bugs mf (Suc fuel) p s1) (\<lambda>(_, s2). Inr (NULL, s2))
        else
          let qlen = min (of_int rem_len) (of_nat PBUF_POOL_BUFSIZE_ALIGNED) :: u16;
              s2 = upd_pb q (\<lambda>b. b\<lparr>p_type := PBUF_POOL, p_flags := 0, p_next := NULL,
                     tot_len := of_int rem_len, p_len := qlen,
                     payload := q + SIZEOF_STRUCT_PBUF, p_ref := 1\<rparr>)
                     (upd_pb r (\<lambda>b. b\<lparr>p_next := q\<rparr>) s1)
          in alloc_tail bugs mf fuel p q (rem_len - uint qlen) s2)
      else Inr (p, s))"

definition pbuf_alloc ::
  "bool \<Rightarrow> mem_free_fn \<Rightarrow> nat \<Rightarrow> pbuf_layer \<Rightarrow> u16 \<Rightarrow> pbuf_type \<Rightarrow> pbuf_state \<Rightarrow> (addr \<times> pbuf_state) res" where
  "pbuf_alloc bugs mf fuel layer plength type s =
     (let offset = layer_offset layer;
          finish = (\<lambda>p s. Inr (p, upd_pb p (\<lambda>b. b\<lparr>p_ref := 1, p_flags := 0\<rparr>) s))
      in case type of
           PBUF_POOL \<Rightarrow>
             bindR (memp_malloc bugs MEMP_PBUF_POOL s) (\<lambda>(p, s1).
             if p = NULL then Inr (NULL, s1)
             else
               let plen = min plength (of_nat (PBUF_POOL_BUFSIZE_ALIGNED - offset));
                   s2 = upd_pb p (\<lambda>b. b\<lparr>p_type := type, p_next := NULL,
                          payload := p + (SIZEOF_STRUCT_PBUF + offset), tot_len := plength,
                          p_len := plen, p_ref := 1\<rparr>) s1
               in bindR (alloc_tail bugs mf fuel p p (uint plength - uint plen) s2) (\<lambda>(p', s3).
                  if p' = NULL then Inr (NULL, s3) else finish p' s3))
         | PBUF_RAM \<Rightarrow>
             bindR (kns_mempool_alloc bugs (pbuf_with_payload_mempool s)) (\<lambda>(p, m).
             let s1 = s\<lparr>pbuf_with_payload_mempool := m\<rparr> in
             if p = NULL then Inr (NULL, s1)
             else finish p (upd_pb p (\<lambda>b. b\<lparr>payload := p + SIZEOF_STRUCT_PBUF + offset,
                    tot_len := plength, p_len := plength, p_next := NULL, p_type := type\<rparr>) s1))
         | _ \<Rightarrow>
             bindR (memp_malloc bugs MEMP_PBUF s) (\<lambda>(p, s1).
             if p = NULL then Inr (NULL, s1)
             else finish p (upd_pb p (\<lambda>b. b\<lparr>payload := NULL, tot_len := plength, p_len := plength,
                    p_next := NULL, p_type := type\<rparr>) s1)))"

section \<open>Shrinking, moving the payload\<close>

text \<open>The walk to the new last pbuf: the result is it and the length left for it.\<close>

fun realloc_walk ::
  "nat \<Rightarrow> addr \<Rightarrow> u16 \<Rightarrow> u16 \<Rightarrow> pbuf_state \<Rightarrow> (addr \<times> u16 \<times> pbuf_state) res" where
  "realloc_walk 0 q rem_len grow s = Inl Hang"
| "realloc_walk (Suc fuel) q rem_len grow s =
     bindR (deref s q) (\<lambda>b.
     if rem_len > p_len b then
       realloc_walk fuel (p_next b) (rem_len - p_len b) grow
         (upd_pb q (\<lambda>b. b\<lparr>tot_len := tot_len b + grow\<rparr>) s)
     else Inr (q, rem_len, s))"

text \<open>\<open>mem_trim\<close> is the identity.\<close>

definition pbuf_realloc ::
  "bool \<Rightarrow> mem_free_fn \<Rightarrow> nat \<Rightarrow> addr \<Rightarrow> u16 \<Rightarrow> pbuf_state \<Rightarrow> pbuf_state res" where
  "pbuf_realloc bugs mf fuel p new_len s =
     bindR (deref s p) (\<lambda>b.
     if new_len \<ge> tot_len b then Inr s
     else
       let grow = new_len - tot_len b
       in bindR (realloc_walk fuel p new_len grow s) (\<lambda>(q, rem_len, s1).
          let s2 = upd_pb q (\<lambda>b. b\<lparr>p_len := rem_len, tot_len := rem_len\<rparr>) s1
          in bindR (if p_next (pb s2 q) \<noteq> NULL
                    then bindR (pbuf_free bugs mf fuel (p_next (pb s2 q)) s2) (\<lambda>(_, s3). Inr s3)
                    else Inr s2) (\<lambda>s3.
             Inr (upd_pb q (\<lambda>b. b\<lparr>p_next := NULL\<rparr>) s3))))"

text \<open>\<open>inc\<close> is a signed 16-bit number; the result is 1 on failure.\<close>

definition pbuf_header :: "addr \<Rightarrow> 16 word \<Rightarrow> pbuf_state \<Rightarrow> u8 \<times> pbuf_state" where
  "pbuf_header p inc s =
     (if inc = 0 \<or> p = NULL then (0, s)
      else
        let b = pb s p;
            neg = (sint inc < 0);
            increment_magnitude = (if neg then - inc else inc);
            moved = int (payload b) - sint inc;
            done = upd_pb p (\<lambda>b. b\<lparr>payload := nat moved, p_len := p_len b + inc, tot_len := tot_len b + inc\<rparr>) s
        in if neg \<and> \<not> increment_magnitude \<le> p_len b then (1, s)
           else case p_type b of
             PBUF_RAM \<Rightarrow> if moved < int p + int SIZEOF_STRUCT_PBUF then (1, s) else (0, done)
           | PBUF_POOL \<Rightarrow> if moved < int p + int SIZEOF_STRUCT_PBUF then (1, s) else (0, done)
           | _ \<Rightarrow> if neg \<and> increment_magnitude \<le> p_len b then (0, done) else (1, s))"

section \<open>Chains\<close>

fun pbuf_clen_loop :: "nat \<Rightarrow> addr \<Rightarrow> u8 \<Rightarrow> pbuf_state \<Rightarrow> u8 res" where
  "pbuf_clen_loop 0 p len s = (if p = NULL then Inr len else Inl Hang)"
| "pbuf_clen_loop (Suc fuel) p len s =
     (if p = NULL then Inr len else pbuf_clen_loop fuel (p_next (pb s p)) (len + 1) s)"

definition pbuf_clen :: "nat \<Rightarrow> addr \<Rightarrow> pbuf_state \<Rightarrow> u8 res" where
  "pbuf_clen fuel p s = pbuf_clen_loop fuel p 0 s"

definition pbuf_ref :: "addr \<Rightarrow> pbuf_state \<Rightarrow> pbuf_state" where
  "pbuf_ref p s = (if p \<noteq> NULL then upd_pb p (\<lambda>b. b\<lparr>p_ref := p_ref b + 1\<rparr>) s else s)"

fun cat_walk :: "nat \<Rightarrow> addr \<Rightarrow> addr \<Rightarrow> pbuf_state \<Rightarrow> (addr \<times> pbuf_state) res" where
  "cat_walk 0 p t s = Inl Hang"
| "cat_walk (Suc fuel) p t s =
     (if p_next (pb s p) \<noteq> NULL then
        let s1 = upd_pb p (\<lambda>b. b\<lparr>tot_len := tot_len b + tot_len (pb s t)\<rparr>) s
        in cat_walk fuel (p_next (pb s1 p)) t s1
      else Inr (p, s))"

definition pbuf_cat :: "nat \<Rightarrow> addr \<Rightarrow> addr \<Rightarrow> pbuf_state \<Rightarrow> pbuf_state res" where
  "pbuf_cat fuel h t s =
     (if \<not> (h \<noteq> NULL \<and> t \<noteq> NULL) then Inr s
      else bindR (cat_walk fuel h t s) (\<lambda>(p, s1).
        let s2 = upd_pb p (\<lambda>b. b\<lparr>tot_len := tot_len b + tot_len (pb s1 t)\<rparr>) s1
        in Inr (upd_pb p (\<lambda>b. b\<lparr>p_next := t\<rparr>) s2)))"

definition pbuf_chain :: "nat \<Rightarrow> addr \<Rightarrow> addr \<Rightarrow> pbuf_state \<Rightarrow> pbuf_state res" where
  "pbuf_chain fuel h t s = bindR (pbuf_cat fuel h t s) (\<lambda>s1. Inr (pbuf_ref t s1))"

definition pbuf_dechain ::
  "bool \<Rightarrow> mem_free_fn \<Rightarrow> nat \<Rightarrow> addr \<Rightarrow> pbuf_state \<Rightarrow> (addr \<times> pbuf_state) res" where
  "pbuf_dechain bugs mf fuel p s =
     bindR (deref s p) (\<lambda>b.
     let q = p_next b in
     if q \<noteq> NULL then
       let s1 = upd_pb q (\<lambda>c. c\<lparr>tot_len := tot_len b - p_len b\<rparr>) s;
           s2 = upd_pb p (\<lambda>b. b\<lparr>p_next := NULL, tot_len := p_len b\<rparr>) s1
       in bindR (pbuf_free bugs mf fuel q s2) (\<lambda>(tail_gone, s3).
          Inr (if tail_gone > 0 then NULL else q, s3))
     else Inr (NULL, s))"

text \<open>\<open>pbuf_split_64k\<close>: the end of the first part and the rest, then the new totals.\<close>

fun split_walk :: "nat \<Rightarrow> u16 \<Rightarrow> addr \<Rightarrow> addr \<Rightarrow> pbuf_state \<Rightarrow> (addr \<times> addr) res" where
  "split_walk 0 front i r s = Inl Hang"
| "split_walk (Suc fuel) front i r s =
     (if r \<noteq> NULL \<and> front + p_len (pb s r) > front
      then split_walk fuel (front + p_len (pb s r)) r (p_next (pb s r)) s
      else Inr (i, r))"

fun split_totals :: "nat \<Rightarrow> addr \<Rightarrow> addr \<Rightarrow> pbuf_state \<Rightarrow> pbuf_state res" where
  "split_totals 0 i r s = (if i = NULL then Inr s else Inl Hang)"
| "split_totals (Suc fuel) i r s =
     (if i = NULL then Inr s
      else let s1 = upd_pb i (\<lambda>b. b\<lparr>tot_len := tot_len b - tot_len (pb s r)\<rparr>) s
           in split_totals fuel (p_next (pb s1 i)) r s1)"

definition pbuf_split_64k :: "nat \<Rightarrow> addr \<Rightarrow> pbuf_state \<Rightarrow> (addr \<times> pbuf_state) res" where
  "pbuf_split_64k fuel p s =
     (if p \<noteq> NULL \<and> p_next (pb s p) \<noteq> NULL then
        bindR (split_walk fuel (p_len (pb s p)) p (p_next (pb s p)) s) (\<lambda>(i, r).
        let s1 = upd_pb i (\<lambda>b. b\<lparr>p_next := NULL\<rparr>) s in
        if r \<noteq> NULL then
          bindR (split_totals fuel p r s1) (\<lambda>s2.
          let s3 = (if p_flags (pb s2 p) AND PBUF_FLAG_TCP_FIN \<noteq> 0
                    then upd_pb r (\<lambda>b. b\<lparr>p_flags := p_flags b OR PBUF_FLAG_TCP_FIN\<rparr>) s2 else s2)
          in Inr (r, s3))
        else Inr (NULL, s1))
      else Inr (NULL, s))"

section \<open>Copying\<close>

fun pbuf_copy_loop ::
  "nat \<Rightarrow> addr \<Rightarrow> u16 \<Rightarrow> addr \<Rightarrow> u16 \<Rightarrow> pbuf_state \<Rightarrow> (int \<times> pbuf_state) res" where
  "pbuf_copy_loop 0 p_to offset_to p_from offset_from s = Inl Hang"
| "pbuf_copy_loop (Suc fuel) p_to offset_to p_from offset_from s =
     bindR (deref s p_to) (\<lambda>t. bindR (deref s p_from) (\<lambda>f.
     let len = (if uint (p_len t) - uint offset_to \<ge> uint (p_len f) - uint offset_from
                then p_len f - offset_from else p_len t - offset_to);
         s1 = memcpy (payload t + unat offset_to) (payload f + unat offset_from) (unat len) s;
         to1 = offset_to + len;
         from1 = offset_from + len;
         (p_from2, from2) = (if from1 \<ge> p_len f then (p_next f, 0) else (p_from, from1));
         (p_to2, to2) = (if to1 = p_len t then (p_next t, 0) else (p_to, to1))
     in if to1 = p_len t \<and> \<not> (p_to2 \<noteq> NULL \<or> p_from2 = NULL) then Inr (ERR_ARG, s1)
        else if p_from2 \<noteq> NULL \<and> p_len (pb s p_from2) = tot_len (pb s p_from2) \<and> p_next (pb s p_from2) \<noteq> NULL
          then Inr (ERR_VAL, s1)
        else if p_to2 \<noteq> NULL \<and> p_len (pb s p_to2) = tot_len (pb s p_to2) \<and> p_next (pb s p_to2) \<noteq> NULL
          then Inr (ERR_VAL, s1)
        else if p_from2 \<noteq> NULL then pbuf_copy_loop fuel p_to2 to2 p_from2 from2 s1
        else Inr (ERR_OK, s1)))"

definition pbuf_copy :: "nat \<Rightarrow> addr \<Rightarrow> addr \<Rightarrow> pbuf_state \<Rightarrow> (int \<times> pbuf_state) res" where
  "pbuf_copy fuel p_to p_from s =
     (if \<not> (p_to \<noteq> NULL \<and> p_from \<noteq> NULL \<and> tot_len (pb s p_to) \<ge> tot_len (pb s p_from))
      then Inr (ERR_ARG, s)
      else pbuf_copy_loop fuel p_to 0 p_from 0 s)"

text \<open>\<open>left\<close> and \<open>copied_total\<close> are always equal and are one variable here.\<close>

fun copy_partial_loop ::
  "nat \<Rightarrow> addr \<Rightarrow> addr \<Rightarrow> u16 \<Rightarrow> u16 \<Rightarrow> u16 \<Rightarrow> pbuf_state \<Rightarrow> (u16 \<times> pbuf_state) res" where
  "copy_partial_loop 0 p dataptr left len offset s =
     (if len \<noteq> 0 \<and> p \<noteq> NULL then Inl Hang else Inr (left, s))"
| "copy_partial_loop (Suc fuel) p dataptr left len offset s =
     (if len \<noteq> 0 \<and> p \<noteq> NULL then
        if offset \<noteq> 0 \<and> offset \<ge> p_len (pb s p)
        then copy_partial_loop fuel (p_next (pb s p)) dataptr left len (offset - p_len (pb s p)) s
        else
          let avail = p_len (pb s p) - offset;
              n = (if avail > len then len else avail);
              s1 = memcpy (dataptr + unat left) (payload (pb s p) + unat offset) (unat n) s
          in copy_partial_loop fuel (p_next (pb s p)) dataptr (left + n) (len - n) 0 s1
      else Inr (left, s))"

definition pbuf_copy_partial ::
  "nat \<Rightarrow> addr \<Rightarrow> addr \<Rightarrow> u16 \<Rightarrow> u16 \<Rightarrow> pbuf_state \<Rightarrow> (u16 \<times> pbuf_state) res" where
  "pbuf_copy_partial fuel buf dataptr len offset s =
     (if buf = NULL \<or> dataptr = NULL then Inr (0, s)
      else copy_partial_loop fuel buf dataptr 0 len offset s)"

fun take_loop :: "nat \<Rightarrow> addr \<Rightarrow> addr \<Rightarrow> u16 \<Rightarrow> u16 \<Rightarrow> pbuf_state \<Rightarrow> pbuf_state res" where
  "take_loop 0 p dataptr copied left s = (if left = 0 then Inr s else Inl Hang)"
| "take_loop (Suc fuel) p dataptr copied left s =
     (if left = 0 then Inr s
      else bindR (deref s p) (\<lambda>b.
        let n = (if left > p_len b then p_len b else left)
        in take_loop fuel (p_next b) dataptr (copied + n) (left - n)
             (memcpy (payload b) (dataptr + unat copied) (unat n) s)))"

definition pbuf_take :: "nat \<Rightarrow> addr \<Rightarrow> addr \<Rightarrow> u16 \<Rightarrow> pbuf_state \<Rightarrow> (int \<times> pbuf_state) res" where
  "pbuf_take fuel buf dataptr len s =
     (if buf = NULL \<or> dataptr = NULL then Inr (0, s)
      else if tot_len (pb s buf) < len then Inr (ERR_ARG, s)
      else bindR (take_loop fuel buf dataptr 0 len s) (\<lambda>s1. Inr (ERR_OK, s1)))"

definition pbuf_coalesce ::
  "bool \<Rightarrow> mem_free_fn \<Rightarrow> nat \<Rightarrow> addr \<Rightarrow> pbuf_layer \<Rightarrow> pbuf_state \<Rightarrow> (addr \<times> pbuf_state) res" where
  "pbuf_coalesce bugs mf fuel p layer s =
     bindR (deref s p) (\<lambda>b.
     if p_next b = NULL then Inr (p, s)
     else
       bindR (pbuf_alloc bugs mf fuel layer (tot_len b) PBUF_RAM s) (\<lambda>(q, s1).
       if q = NULL then Inr (p, s1)
       else
         bindR (pbuf_copy fuel q p s1) (\<lambda>(err, s2).
         bindR (BUG_ON bugs (err \<noteq> ERR_OK)) (\<lambda>_.
         bindR (pbuf_free bugs mf fuel p s2) (\<lambda>(_, s3). Inr (q, s3))))))"

section \<open>Looking into a packet\<close>

fun seek :: "nat \<Rightarrow> addr \<Rightarrow> u16 \<Rightarrow> pbuf_state \<Rightarrow> (addr \<times> u16) res" where
  "seek 0 q off s = (if q \<noteq> NULL \<and> p_len (pb s q) \<le> off then Inl Hang else Inr (q, off))"
| "seek (Suc fuel) q off s =
     (if q \<noteq> NULL \<and> p_len (pb s q) \<le> off
      then seek fuel (p_next (pb s q)) (off - p_len (pb s q)) s
      else Inr (q, off))"

definition pbuf_get_at :: "nat \<Rightarrow> addr \<Rightarrow> u16 \<Rightarrow> pbuf_state \<Rightarrow> u8 res" where
  "pbuf_get_at fuel p offset s =
     bindR (seek fuel p offset s) (\<lambda>(q, copy_from).
     if q \<noteq> NULL \<and> p_len (pb s q) > copy_from
     then Inr (bytes s (payload (pb s q) + unat copy_from)) else Inr 0)"

text \<open>The comparison loop; \<open>s2\<close> is the memory compared with, \<open>k\<close> the iterations left.\<close>

fun memcmp_loop :: "nat \<Rightarrow> nat \<Rightarrow> addr \<Rightarrow> u16 \<Rightarrow> u8 list \<Rightarrow> u16 \<Rightarrow> pbuf_state \<Rightarrow> u16 res" where
  "memcmp_loop fuel 0 q start s2 i s = Inr 0"
| "memcmp_loop fuel (Suc k) q start s2 i s =
     bindR (pbuf_get_at fuel q (start + i) s) (\<lambda>a.
     bindR (rd s2 i) (\<lambda>b.
     if a \<noteq> b then Inr (i + 1) else memcmp_loop fuel k q start s2 (i + 1) s))"

definition pbuf_memcmp :: "nat \<Rightarrow> addr \<Rightarrow> u16 \<Rightarrow> u8 list \<Rightarrow> u16 \<Rightarrow> pbuf_state \<Rightarrow> u16 res" where
  "pbuf_memcmp fuel p offset s2 n s =
     bindR (seek fuel p offset s) (\<lambda>(q, start).
     if q \<noteq> NULL \<and> p_len (pb s q) > start
     then memcmp_loop fuel (unat n) q start s2 0 s else Inr 0xffff)"

fun memfind_loop ::
  "nat \<Rightarrow> nat \<Rightarrow> addr \<Rightarrow> u8 list \<Rightarrow> u16 \<Rightarrow> u16 \<Rightarrow> u16 \<Rightarrow> pbuf_state \<Rightarrow> u16 res" where
  "memfind_loop 0 fuel p mem mem_len mx i s = (if i \<le> mx then Inl Hang else Inr 0xFFFF)"
| "memfind_loop (Suc steps) fuel p mem mem_len mx i s =
     (if i \<le> mx then
        bindR (pbuf_memcmp fuel p i mem mem_len s) (\<lambda>plus.
        if plus = 0 then Inr i else memfind_loop steps fuel p mem mem_len mx (i + plus) s)
      else Inr 0xFFFF)"

definition pbuf_memfind ::
  "nat \<Rightarrow> nat \<Rightarrow> addr \<Rightarrow> u8 list \<Rightarrow> u16 \<Rightarrow> u16 \<Rightarrow> pbuf_state \<Rightarrow> u16 res" where
  "pbuf_memfind steps fuel p mem mem_len start_offset s =
     bindR (deref s p) (\<lambda>b.
     let mx = tot_len b - mem_len in
     if uint (tot_len b) \<ge> uint mem_len + uint start_offset
     then memfind_loop steps fuel p mem mem_len mx start_offset s else Inr 0xFFFF)"

text \<open>A C string is given by its bytes before the terminating 0; \<open>None\<close> is a null pointer.\<close>

definition pbuf_strstr :: "nat \<Rightarrow> nat \<Rightarrow> addr \<Rightarrow> u8 list option \<Rightarrow> pbuf_state \<Rightarrow> u16 res" where
  "pbuf_strstr steps fuel p substr s =
     (case substr of
        None \<Rightarrow> Inr 0xFFFF
      | Some str \<Rightarrow>
          if str = [] then Inr 0xFFFF
          else bindR (deref s p) (\<lambda>b.
            if tot_len b = 0xFFFF then Inr 0xFFFF
            else if length str \<ge> 0xFFFF then Inr 0xFFFF
            else pbuf_memfind steps fuel p str (of_nat (length str)) 0 s))"

end
