(* ===== verification/Pbuf_Spec.thy ===== *)
theory Pbuf_Spec
  imports Pbuf
begin

text \<open>
  What the pbuf operations do to packets: \<open>packet s p xs\<close> says that the pbufs \<open>xs\<close> form the
  packet at \<open>p\<close> with correct \<open>tot_len\<close> fields, \<open>content s xs\<close> is its byte string. Releasing,
  concatenating, copying out and searching are described on these.
\<close>

section \<open>Packets\<close>

abbreviation pnx :: "pbuf_state \<Rightarrow> addr \<Rightarrow> addr" where
  "pnx s \<equiv> \<lambda>a. p_next (pb s a)"

definition total :: "pbuf_state \<Rightarrow> addr list \<Rightarrow> nat" where
  "total s xs = (\<Sum>x\<leftarrow>xs. unat (p_len (pb s x)))"

fun tots_ok :: "pbuf_state \<Rightarrow> addr list \<Rightarrow> bool" where
  "tots_ok s [] \<longleftrightarrow> True"
| "tots_ok s (x # xs) \<longleftrightarrow> unat (tot_len (pb s x)) = total s (x # xs) \<and> tots_ok s xs"

definition packet :: "pbuf_state \<Rightarrow> addr \<Rightarrow> addr list \<Rightarrow> bool" where
  "packet s p xs \<longleftrightarrow> chain (pnx s) p xs \<and> distinct xs \<and> tots_ok s xs"

definition data :: "pbuf_state \<Rightarrow> addr \<Rightarrow> u8 list" where
  "data s x = map (\<lambda>i. bytes s (payload (pb s x) + i)) [0..<unat (p_len (pb s x))]"

definition content :: "pbuf_state \<Rightarrow> addr list \<Rightarrow> u8 list" where
  "content s xs = concat (map (data s) xs)"

lemma total_simps [simp]:
  "total s [] = 0" "total s (x # xs) = unat (p_len (pb s x)) + total s xs"
  "total s (xs @ ys) = total s xs + total s ys"
  by (simp_all add: total_def)

lemma content_simps [simp]:
  "content s [] = []" "content s (x # xs) = data s x @ content s xs"
  "content s (xs @ ys) = content s xs @ content s ys"
  by (simp_all add: content_def)

lemma length_data [simp]: "length (data s x) = unat (p_len (pb s x))"
  by (simp add: data_def)

lemma length_content [simp]: "length (content s xs) = total s xs"
  by (induction xs) simp_all

lemma upd_pb_sel [simp]:
  "pb (upd_pb p f s) = (pb s)(p := f (pb s p))" "bytes (upd_pb p f s) = bytes s"
  "pbuf_mempool (upd_pb p f s) = pbuf_mempool s"
  "pbuf_with_payload_mempool (upd_pb p f s) = pbuf_with_payload_mempool s"
  "mbufs (upd_pb p f s) = mbufs s"
  by (simp_all add: upd_pb_def)

lemma data_cong:
  "payload (pb s' x) = payload (pb s x) \<Longrightarrow> p_len (pb s' x) = p_len (pb s x) \<Longrightarrow> bytes s' = bytes s \<Longrightarrow>
    data s' x = data s x"
  by (simp add: data_def)

lemma content_cong:
  "(\<And>x. x \<in> set xs \<Longrightarrow> payload (pb s' x) = payload (pb s x) \<and> p_len (pb s' x) = p_len (pb s x)) \<Longrightarrow>
    bytes s' = bytes s \<Longrightarrow> content s' xs = content s xs"
  by (induction xs) (auto intro: data_cong)

lemma total_cong:
  "(\<And>x. x \<in> set xs \<Longrightarrow> p_len (pb s' x) = p_len (pb s x)) \<Longrightarrow> total s' xs = total s xs"
  by (induction xs) auto

lemma tots_ok_cong:
  "(\<And>x. x \<in> set xs \<Longrightarrow> p_len (pb s' x) = p_len (pb s x) \<and> tot_len (pb s' x) = tot_len (pb s x)) \<Longrightarrow>
    tots_ok s' xs = tots_ok s xs"
proof (induction xs)
  case (Cons x xs)
  have "total s' xs = total s xs" by (rule total_cong) (use Cons.prems in auto)
  then show ?case using Cons by auto
qed simp

section \<open>Releasing\<close>

text \<open>
  \<open>owned s F xs\<close>: the pbufs \<open>xs\<close> come from the pool of plain pbufs, whose free set is \<open>F\<close>,
  and carry no mbuf.
\<close>

definition owned :: "pbuf_state \<Rightarrow> addr set \<Rightarrow> addr list \<Rightarrow> bool" where
  "owned s F xs \<longleftrightarrow> pool_ok (pbuf_mempool s) F \<and> F \<inter> set xs = {} \<and>
     (\<forall>x \<in> set xs. p_mbuf (pb s x) = NULL \<and> p_type (pb s x) \<in> {PBUF_REF, PBUF_ROM})"

abbreviation leading_ones :: "pbuf_state \<Rightarrow> addr list \<Rightarrow> nat" where
  "leading_ones s xs \<equiv> length (takeWhile (\<lambda>x. p_ref (pb s x) = 1) xs)"

lemma pbuf_free_loop_null [simp]: "pbuf_free_loop bugs mf fuel NULL c s = Inr (c, s)"
  by (cases fuel) simp_all

lemma pbuf_free_loop_chain:
  assumes "chain (pnx s) p xs" and "distinct xs" and "owned s F xs" and "length xs \<le> fuel"
  defines "k \<equiv> leading_ones s xs"
  shows "\<exists>s'. pbuf_free_loop False mf fuel p c s = Inr (c + of_nat k, s') \<and>
    pool_ok (pbuf_mempool s') (F \<union> set (take k xs)) \<and> bytes s' = bytes s \<and>
    (\<forall>x. x \<notin> set (take k xs) \<longrightarrow>
      pb s' x = (if k < length xs \<and> x = xs ! k then (pb s x)\<lparr>p_ref := p_ref (pb s x) - 1\<rparr> else pb s x))"
  using assms(1-4) unfolding k_def
proof (induction xs arbitrary: p c s F fuel)
  case Nil
  then have "p = NULL" by simp
  then show ?case using Nil.prems by (cases fuel) (auto simp: owned_def)
next
  case (Cons x xs)
  from Cons.prems have p: "p = x" "x \<noteq> NULL" "chain (pnx s) (p_next (pb s x)) xs" by auto
  from Cons.prems obtain f where f: "fuel = Suc f" "length xs \<le> f" by (cases fuel) auto
  let ?s1 = "upd_pb x (\<lambda>b. b\<lparr>p_ref := p_ref (pb s x) - 1\<rparr>) s"
  show ?case
  proof (cases "p_ref (pb s x) = 1")
    case False
    then have "p_ref (pb s x) - 1 \<noteq> 0" by (metis eq_iff_diff_eq_0)
    then have "pbuf_free_loop False mf fuel p c s = Inr (c, ?s1)"
      using p f by (simp add: Let_def)
    then show ?thesis using Cons.prems False by (auto simp: owned_def)
  next
    case True
    have xt: "p_mbuf (pb s x) = NULL" "p_type (pb s x) \<noteq> PBUF_POOL"
      "p_type (pb s x) = PBUF_ROM \<or> p_type (pb s x) = PBUF_REF" "x \<notin> F" "pool_ok (pbuf_mempool s) F"
      using Cons.prems(3) by (auto simp: owned_def)
    from pool_free_law [OF xt(5) p(2) xt(4)] obtain m where m: "kns_mempool_free False (pbuf_mempool s) x = Inr m"
      "pool_ok m (insert x F)" by blast
    let ?s3 = "?s1\<lparr>pbuf_mempool := m\<rparr>"
    have step: "pbuf_free_loop False mf fuel p c s = pbuf_free_loop False mf f (p_next (pb s x)) (c + 1) ?s3"
      using p f True xt m by (simp add: Let_def memp_free_def)
    have nx: "x \<notin> set xs" using Cons.prems(2) by simp
    have "chain (pnx ?s3) (p_next (pb s x)) xs \<longleftrightarrow> chain (pnx s) (p_next (pb s x)) xs"
      by (rule chain_cong) (use nx in auto)
    moreover have "owned ?s3 (insert x F) xs" using Cons.prems(3) m(2) nx by (auto simp: owned_def)
    moreover have "leading_ones ?s3 xs = leading_ones s xs"
      by (rule arg_cong [of _ _ length], rule takeWhile_cong) (use nx in auto)
    ultimately obtain s' where s': "pbuf_free_loop False mf f (p_next (pb s x)) (c + 1) ?s3 =
        Inr (c + 1 + of_nat (leading_ones s xs), s')"
      "pool_ok (pbuf_mempool s') (insert x F \<union> set (take (leading_ones s xs) xs))" "bytes s' = bytes ?s3"
      "\<forall>y. y \<notin> set (take (leading_ones s xs) xs) \<longrightarrow> pb s' y =
        (if leading_ones s xs < length xs \<and> y = xs ! leading_ones s xs
         then (pb ?s3 y)\<lparr>p_ref := p_ref (pb ?s3 y) - 1\<rparr> else pb ?s3 y)"
      using Cons.IH [of ?s3 "p_next (pb s x)" "insert x F" f "c + 1"] Cons.prems(2) p(3) f(2) by auto
    then show ?thesis
      using step True by (intro exI [of _ s']) (auto simp: ac_simps)
  qed
qed

section \<open>Concatenation\<close>

lemma cat_walk_chain:
  assumes "chain (pnx s) p xs" and "xs \<noteq> []" and "distinct xs" and "t \<notin> set xs" and "length xs \<le> fuel"
  shows "\<exists>s'. cat_walk fuel p t s = Inr (last xs, s') \<and> bytes s' = bytes s \<and>
    (\<forall>x. pb s' x = (if x \<in> set (butlast xs) then (pb s x)\<lparr>tot_len := tot_len (pb s x) + tot_len (pb s t)\<rparr>
      else pb s x))"
  using assms
proof (induction xs arbitrary: p s fuel)
  case Nil
  then show ?case by simp
next
  case (Cons x xs)
  from Cons.prems obtain f where f: "fuel = Suc f" "length xs \<le> f" by (cases fuel) auto
  from Cons.prems have p: "p = x" "chain (pnx s) (p_next (pb s x)) xs" by auto
  show ?case
  proof (cases "xs = []")
    case True
    then show ?thesis using p f by auto
  next
    case False
    let ?s1 = "upd_pb x (\<lambda>b. b\<lparr>tot_len := tot_len b + tot_len (pb s t)\<rparr>) s"
    have nz: "p_next (pb s x) \<noteq> NULL" using p(2) False by (cases xs) auto
    have nx: "x \<notin> set xs" "t \<noteq> x" using Cons.prems by auto
    have "chain (pnx ?s1) (p_next (pb s x)) xs \<longleftrightarrow> chain (pnx s) (p_next (pb s x)) xs"
      by (rule chain_cong) (use nx in auto)
    with Cons.IH [of ?s1 "p_next (pb s x)" f] p(2) False Cons.prems f obtain s' where
      s': "cat_walk f (p_next (pb s x)) t ?s1 = Inr (last xs, s')" "bytes s' = bytes s"
        "\<forall>y. pb s' y = (if y \<in> set (butlast xs) then (pb ?s1 y)\<lparr>tot_len := tot_len (pb ?s1 y) + tot_len (pb ?s1 t)\<rparr>
          else pb ?s1 y)" by auto
    have "x \<notin> set (butlast xs)" using nx by (auto dest: in_set_butlastD)
    then show ?thesis using s' nz nx False p f by (auto simp: Let_def)
  qed
qed

lemma tots_ok_append:
  assumes "tots_ok s xs" and "tots_ok s' ys"
    and "\<And>x. x \<in> set xs \<Longrightarrow> p_len (pb s' x) = p_len (pb s x) \<and>
      unat (tot_len (pb s' x)) = unat (tot_len (pb s x)) + total s' ys"
  shows "tots_ok s' (xs @ ys)"
  using assms
proof (induction xs)
  case (Cons x xs)
  have "total s' xs = total s xs" by (rule total_cong) (use Cons.prems(3) in auto)
  moreover have "tots_ok s' (xs @ ys)" using Cons by auto
  ultimately show ?case using Cons.prems by auto
qed simp

lemma tots_ok_head: "tots_ok s xs \<Longrightarrow> chain (pnx s) p xs \<Longrightarrow> xs \<noteq> [] \<Longrightarrow> unat (tot_len (pb s p)) = total s xs"
  by (cases xs) auto

lemma tots_ok_bound: "tots_ok s xs \<Longrightarrow> x \<in> set xs \<Longrightarrow> unat (tot_len (pb s x)) \<le> total s xs"
  by (induction xs) auto

lemma pbuf_cat_packet:
  assumes hx: "packet s h xs" and ty: "packet s t ys" and ne: "xs \<noteq> []" "ys \<noteq> []"
    and disj: "set xs \<inter> set ys = {}" and lim: "total s xs + total s ys < 2 ^ 16" and fuel: "length xs \<le> fuel"
  shows "\<exists>s'. pbuf_cat fuel h t s = Inr s' \<and> packet s' h (xs @ ys) \<and> bytes s' = bytes s \<and>
    content s' (xs @ ys) = content s xs @ content s ys \<and>
    (\<forall>x. x \<notin> set xs \<longrightarrow> pb s' x = pb s x)"
proof -
  note h = hx [unfolded packet_def] and t = ty [unfolded packet_def]
  have th: "t = hd ys" "t \<noteq> NULL" "h \<noteq> NULL" using h t ne by (cases ys; cases xs; auto)+
  then have tx: "t \<notin> set xs" using disj ne(2) by auto
  from cat_walk_chain [of s h xs t fuel] h ne(1) tx fuel obtain s1 where
    s1: "cat_walk fuel h t s = Inr (last xs, s1)" "bytes s1 = bytes s"
    "\<And>x. pb s1 x = (if x \<in> set (butlast xs) then (pb s x)\<lparr>tot_len := tot_len (pb s x) + tot_len (pb s t)\<rparr>
      else pb s x)" by auto
  let ?l = "last xs"
  define s' where "s' = upd_pb ?l (\<lambda>b. b\<lparr>p_next := t\<rparr>)
    (upd_pb ?l (\<lambda>b. b\<lparr>tot_len := tot_len b + tot_len (pb s1 t)\<rparr>) s1)"
  have run: "pbuf_cat fuel h t s = Inr s'"
    using s1(1) th by (simp add: pbuf_cat_def s'_def Let_def)
  have bl: "x \<in> set (butlast xs) \<longleftrightarrow> x \<in> set xs \<and> x \<noteq> ?l" for x
  proof -
    have "xs = butlast xs @ [?l]" using ne(1) by simp
    moreover have "distinct (butlast xs @ [?l])" using h ne(1) by simp
    ultimately show ?thesis by (metis Un_iff distinct_append disjoint_iff list.set_intros(1) set_append set_ConsD empty_iff empty_set)
  qed
  have t1: "pb s1 t = pb s t" using s1(3) tx bl by auto
  have pb': "pb s' x = (if x \<in> set xs then (pb s x)\<lparr>tot_len := tot_len (pb s x) + tot_len (pb s t),
      p_next := (if x = ?l then t else p_next (pb s x))\<rparr> else pb s x)" for x
  proof (cases "x = ?l")
    case True
    then have "x \<in> set xs" "x \<notin> set (butlast xs)" using ne(1) bl by auto
    then show ?thesis using True t1 s1(3) by (simp add: s'_def)
  next
    case False
    then show ?thesis using s1(3) bl by (auto simp: s'_def)
  qed
  have ch: "chain (pnx s') h (xs @ ys)"
  proof -
    have "chain ((pnx s)(?l := t)) h (xs @ ys)"
      using h t ne disj by (intro chain_join) auto
    moreover have "pnx s' = (pnx s)(?l := t)" using ne(1) by (auto simp: pb' fun_eq_iff)
    ultimately show ?thesis by simp
  qed
  have ys: "pb s' y = pb s y" if "y \<in> set ys" for y using that disj pb' by auto
  have tot: "unat (tot_len (pb s t)) = total s ys" using tots_ok_head [of s ys t] t ne by auto
  have "total s' ys = total s ys" by (rule total_cong) (simp add: ys)
  moreover have "unat (tot_len (pb s x) + tot_len (pb s t)) = unat (tot_len (pb s x)) + total s ys"
    if "x \<in> set xs" for x
    using tots_ok_bound [of s xs x] that h lim tot by (subst unat_add_small) auto
  moreover have "tots_ok s' ys = tots_ok s ys" by (rule tots_ok_cong) (simp add: ys)
  ultimately have "tots_ok s' (xs @ ys)"
    using h t by (intro tots_ok_append [of s]) (simp_all add: pb')
  moreover have "bytes s' = bytes s" by (simp add: s'_def s1(2))
  moreover have "content s' xs = content s xs" "content s' ys = content s ys"
    by (rule content_cong; simp add: pb' \<open>bytes s' = bytes s\<close>)+
  ultimately show ?thesis
    using run ch h t disj pb' by (auto simp: packet_def)
qed

section \<open>Shrinking\<close>

text \<open>The pbufs that stay when the packet is cut to \<open>n\<close> bytes.\<close>

fun kept :: "pbuf_state \<Rightarrow> nat \<Rightarrow> addr list \<Rightarrow> addr list" where
  "kept s n [] = []"
| "kept s n (x # xs) = (if unat (p_len (pb s x)) < n then x # kept s (n - unat (p_len (pb s x))) xs else [x])"

lemma kept_prefix: "kept s n xs = take (length (kept s n xs)) xs"
  by (induction xs arbitrary: n) auto

lemma kept_nonempty: "xs \<noteq> [] \<Longrightarrow> kept s n xs \<noteq> []"
  by (cases xs) auto

lemma kept_set: "x \<in> set (kept s n xs) \<Longrightarrow> x \<in> set xs"
  using kept_prefix [of s n xs] by (metis in_set_takeD)

lemma realloc_walk_chain:
  assumes "chain (pnx s) p xs" and "distinct xs" and "xs \<noteq> []" and "unat n \<le> total s xs" and "length xs \<le> fuel"
  shows "\<exists>s' r. realloc_walk fuel p n g s = Inr (last (kept s (unat n) xs), r, s') \<and>
    unat r + total s (butlast (kept s (unat n) xs)) = unat n \<and>
    unat r \<le> unat (p_len (pb s (last (kept s (unat n) xs)))) \<and>
    pbuf_mempool s' = pbuf_mempool s \<and> bytes s' = bytes s \<and>
    (\<forall>x. pb s' x = (if x \<in> set (butlast (kept s (unat n) xs))
      then (pb s x)\<lparr>tot_len := tot_len (pb s x) + g\<rparr> else pb s x))"
  using assms
proof (induction xs arbitrary: p n s fuel)
  case Nil
  then show ?case by simp
next
  case (Cons x xs)
  from Cons.prems obtain f where f: "fuel = Suc f" "length xs \<le> f" by (cases fuel) auto
  from Cons.prems have p: "p = x" "x \<noteq> NULL" "chain (pnx s) (p_next (pb s x)) xs" by auto
  show ?case
  proof (cases "p_len (pb s x) < n")
    case False
    then show ?thesis using p f by (auto simp: deref_def word_less_nat_alt)
  next
    case True
    then have lt: "unat (p_len (pb s x)) < unat n" by (simp add: word_less_nat_alt)
    then have sub: "unat (n - p_len (pb s x)) = unat n - unat (p_len (pb s x))"
      by (intro unat_sub) (simp add: word_le_nat_alt)
    have ne: "xs \<noteq> []" using lt Cons.prems(4) by auto
    let ?s1 = "upd_pb x (\<lambda>b. b\<lparr>tot_len := tot_len b + g\<rparr>) s"
    let ?n = "unat n - unat (p_len (pb s x))"
    have nx: "x \<notin> set xs" using Cons.prems(2) by simp
    have len1: "p_len (pb ?s1 y) = p_len (pb s y)" for y by simp
    have k1: "kept ?s1 m ys = kept s m ys" for m ys by (induction ys arbitrary: m) auto
    have t1: "total ?s1 ys = total s ys" for ys by (rule total_cong) simp
    have ch: "chain (pnx ?s1) (p_next (pb s x)) xs"
      using p(3) nx by (subst chain_cong [where g = "pnx s"]) auto
    have "?n \<le> total s xs" using Cons.prems(4) by simp
    then have "unat (n - p_len (pb s x)) \<le> total ?s1 xs" by (simp only: t1 sub)
    note ih = Cons.IH [OF ch _ ne this f(2), unfolded k1 t1 sub]
    have "distinct xs" using Cons.prems(2) by simp
    from ih [OF this] obtain s' r where w: "realloc_walk f (p_next (pb s x)) (n - p_len (pb s x)) g ?s1 =
        Inr (last (kept s ?n xs), r, s')"
      "unat r + total s (butlast (kept s ?n xs)) = ?n"
      "unat r \<le> unat (p_len (pb ?s1 (last (kept s ?n xs))))"
      "pbuf_mempool s' = pbuf_mempool ?s1" "bytes s' = bytes ?s1"
      "\<forall>y. pb s' y = (if y \<in> set (butlast (kept s ?n xs))
        then (pb ?s1 y)\<lparr>tot_len := tot_len (pb ?s1 y) + g\<rparr> else pb ?s1 y)"
      by blast
    have kne: "kept s ?n xs \<noteq> []" using ne by (rule kept_nonempty)
    have xk: "x \<notin> set (butlast (kept s ?n xs))"
      using nx kept_set by (meson in_set_butlastD)
    have "realloc_walk fuel p n g s = Inr (last (kept s ?n xs), r, s')"
      using w(1) True p f by (simp add: deref_def)
    moreover have "pb s' y = (if y \<in> set (butlast (x # kept s ?n xs))
        then (pb s y)\<lparr>tot_len := tot_len (pb s y) + g\<rparr> else pb s y)" for y
      using w(6) kne xk by auto
    ultimately show ?thesis using w(2-5) lt kne len1 by auto
  qed
qed

lemma tots_ok_iff:
  "tots_ok s xs \<longleftrightarrow> (\<forall>as x bs. xs = as @ x # bs \<longrightarrow> unat (tot_len (pb s x)) = total s (x # bs))"
proof (induction xs)
  case Nil
  show ?case by simp
next
  case (Cons y xs)
  have "(\<forall>as x bs. y # xs = as @ x # bs \<longrightarrow> unat (tot_len (pb s x)) = total s (x # bs)) \<longleftrightarrow>
      unat (tot_len (pb s y)) = total s (y # xs) \<and>
      (\<forall>as x bs. xs = as @ x # bs \<longrightarrow> unat (tot_len (pb s x)) = total s (x # bs))"
    by (auto simp: Cons_eq_append_conv)
  then show ?case using Cons by simp
qed

lemma unat_shift:
  fixes a b c :: "'w::len word"
  assumes "unat a \<le> unat c" and "unat c \<le> unat a + unat b"
  shows "unat (a + (b - c)) = unat a + unat b - unat c"
proof -
  have "a + (b - c) = of_nat (unat a + unat b - unat c)"
    using assms(2) by (simp add: of_nat_diff)
  moreover have "unat a + unat b - unat c < 2 ^ LENGTH('w)"
    using assms(1) unsigned_less [of b, where 'a = nat] by linarith
  ultimately show ?thesis by (simp add: unat_of_nat_small)
qed

lemma realloc_split:
  assumes "xs \<noteq> []" and ks_def: "ks = kept s n xs"
  shows "xs = butlast ks @ last ks # drop (length ks) xs"
proof -
  have "ks \<noteq> []" unfolding ks_def using assms(1) by (rule kept_nonempty)
  moreover have "ks = take (length ks) xs" unfolding ks_def by (rule kept_prefix)
  ultimately show ?thesis
    by (metis append.assoc append_Cons append_Nil append_butlast_last_id append_take_drop_id)
qed

text \<open>The walk and the cut leave a correct packet of \<open>n\<close> bytes.\<close>

lemma cut_packet:
  assumes pk: "packet s p (bs @ q # ds)" and r: "unat r + total s bs = unat n" "unat r \<le> unat (p_len (pb s q))"
    and new: "\<And>x. x \<in> set bs \<Longrightarrow> pb s' x = (pb s x)\<lparr>tot_len := tot_len (pb s x) + (n - tot_len (pb s p))\<rparr>"
      "pb s' q = (pb s q)\<lparr>p_len := r, tot_len := r, p_next := NULL\<rparr>" "bytes s' = bytes s"
  shows "packet s' p (bs @ [q]) \<and> content s' (bs @ [q]) = take (unat n) (content s (bs @ q # ds))"
proof -
  note d = pk [unfolded packet_def]
  have q: "q \<notin> set bs" using d by auto
  let ?T = "total s (bs @ q # ds)"
  have T: "unat (tot_len (pb s p)) = ?T"
    using tots_ok_head [of s "bs @ q # ds" p] d by simp
  have bs: "total s' bs = total s bs" "content s' bs = content s bs"
    by (rule total_cong, simp add: new) (rule content_cong, simp_all add: new)
  have tot': "total s' (bs @ [q]) = unat n" using r(1) bs(1) new(2) by simp
  have "chain (pnx s') p (bs @ [q])"
  proof -
    have "chain ((pnx s)(last (bs @ [q]) := NULL)) p (bs @ [q])"
      using d by (intro chain_cut [of _ _ _ ds]) auto
    then show ?thesis
      by (subst chain_cong [where g = "(pnx s)(last (bs @ [q]) := NULL)"]) (use q in \<open>auto simp: new\<close>)
  qed
  moreover have "tots_ok s' (bs @ [q])"
    unfolding tots_ok_iff
  proof (intro allI impI)
    fix as x cs assume eq: "bs @ [q] = as @ x # cs"
    show "unat (tot_len (pb s' x)) = total s' (x # cs)"
    proof (cases "cs = []")
      case True
      then show ?thesis using eq new(2) by simp
    next
      case False
      then obtain cs' z where "cs = cs' @ [z]" by (metis rev_exhaust)
      with eq have bs_eq: "bs = as @ x # cs'" and cs: "cs = cs' @ [q]" by auto
      have "unat (tot_len (pb s x)) = total s (x # cs' @ q # ds)"
        using d bs_eq by (auto simp: tots_ok_iff)
      moreover have "total s' as = total s as" by (rule total_cong) (simp add: bs_eq new)
      moreover have "total s' (x # cs) = unat n - total s' as"
        using tot' unfolding eq by simp
      moreover have "unat (tot_len (pb s x) + (n - tot_len (pb s p))) =
          unat (tot_len (pb s x)) + unat n - unat (tot_len (pb s p))"
        using T r(1) calculation bs_eq by (intro unat_shift) simp_all
      ultimately show ?thesis using T new(1) [of x] bs_eq by simp
    qed
  qed
  moreover have "data s' q = take (unat r) (data s q)"
    using r(2) by (simp add: data_def new take_map min_absorb1)
  moreover have "distinct (bs @ [q])" using d by simp
  moreover have "unat n - total s bs = unat r" using r(1) by simp
  ultimately show ?thesis using r bs by (simp add: packet_def min_absorb1)
qed

lemma pbuf_realloc_packet:
  assumes pk: "packet s p xs" and ow: "owned s F xs" and n: "unat n < total s xs" and fuel: "length xs \<le> fuel"
  defines "ks \<equiv> kept s (unat n) xs"
  defines "ds \<equiv> drop (length ks) xs"
  shows "\<exists>s'. pbuf_realloc False mf fuel p n s = Inr s' \<and> packet s' p ks \<and>
    content s' ks = take (unat n) (content s xs) \<and> bytes s' = bytes s \<and>
    pool_ok (pbuf_mempool s') (F \<union> set (take (leading_ones s ds) ds))"
proof -
  note d = pk [unfolded packet_def]
  have ne: "xs \<noteq> []" using n by auto
  have p: "p \<noteq> NULL" "p = hd xs" using d ne by (cases xs; auto)+
  have tot: "unat (tot_len (pb s p)) = total s xs" using tots_ok_head [of s xs p] d ne by auto
  let ?q = "last ks" and ?bs = "butlast ks" and ?g = "n - tot_len (pb s p)"
  have kne: "ks \<noteq> []" unfolding ks_def using ne by (rule kept_nonempty)
  have ks: "ks = ?bs @ [?q]" using kne by simp
  have xs: "xs = ?bs @ ?q # ds" unfolding ds_def ks_def by (rule realloc_split [OF ne refl])
  have xks: "xs = ks @ ds" by (subst ks) (use xs in simp)
  have dis: "distinct ks" "?q \<notin> set ?bs" "?q \<notin> set ds" "set ?bs \<inter> set ds = {}" "distinct ds"
  proof -
    have "distinct (?bs @ ?q # ds)" using d xs by simp
    then show "?q \<notin> set ?bs" "?q \<notin> set ds" "set ?bs \<inter> set ds = {}" "distinct ds" by auto
    show "distinct ks" using d xks by simp
  qed
  from realloc_walk_chain [of s p xs n fuel ?g, folded ks_def] d ne n fuel obtain s1 r where
    w: "realloc_walk fuel p n ?g s = Inr (?q, r, s1)" "unat r + total s ?bs = unat n"
      "unat r \<le> unat (p_len (pb s ?q))" "pbuf_mempool s1 = pbuf_mempool s" "bytes s1 = bytes s"
      "\<And>x. pb s1 x = (if x \<in> set ?bs then (pb s x)\<lparr>tot_len := tot_len (pb s x) + ?g\<rparr> else pb s x)" by auto
  have chds: "chain (pnx s) (p_next (pb s ?q)) ds"
    using chain_tail [of "pnx s" p ks ds] d kne unfolding xks [symmetric] by simp
  define s2 where "s2 = upd_pb ?q (\<lambda>b. b\<lparr>p_len := r, tot_len := r\<rparr>) s1"
  have pb2: "pb s2 x = (if x \<in> set ?bs then (pb s x)\<lparr>tot_len := tot_len (pb s x) + ?g\<rparr>
      else if x = ?q then (pb s x)\<lparr>p_len := r, tot_len := r\<rparr> else pb s x)" for x
    using dis w(6) by (auto simp: s2_def)
  have m2: "pbuf_mempool s2 = pbuf_mempool s" "bytes s2 = bytes s" by (simp_all add: s2_def w)
  have ds2: "pb s2 x = pb s x" if "x \<in> set ds" for x using that dis pb2 by auto
  have "chain (pnx s2) (p_next (pb s2 ?q)) ds \<longleftrightarrow> chain (pnx s) (p_next (pb s ?q)) ds"
    using dis pb2 [of ?q] by (simp, intro chain_cong) (simp add: ds2)
  moreover have "owned s2 F ds" using ow xks by (auto simp: owned_def m2 ds2)
  moreover have lead: "leading_ones s2 ds = leading_ones s ds"
    by (rule arg_cong [of _ _ length], rule takeWhile_cong) (simp_all add: ds2)
  moreover have "length ds \<le> fuel" using fuel xks by simp
  ultimately have "\<exists>s3. pbuf_free_loop False mf fuel (p_next (pb s2 ?q)) 0 s2 =
      Inr (0 + of_nat (leading_ones s2 ds), s3) \<and>
    pool_ok (pbuf_mempool s3) (F \<union> set (take (leading_ones s2 ds) ds)) \<and> bytes s3 = bytes s2 \<and>
    (\<forall>x. x \<notin> set (take (leading_ones s2 ds) ds) \<longrightarrow> pb s3 x =
      (if leading_ones s2 ds < length ds \<and> x = ds ! leading_ones s2 ds
       then (pb s2 x)\<lparr>p_ref := p_ref (pb s2 x) - 1\<rparr> else pb s2 x))"
    using pbuf_free_loop_chain [of s2 "p_next (pb s2 ?q)" ds F fuel mf 0] chds dis(5) pb2 [of ?q] dis(2)
    by simp
  then obtain s3 where f: "pbuf_free_loop False mf fuel (p_next (pb s2 ?q)) 0 s2 =
      Inr (0 + of_nat (leading_ones s2 ds), s3)"
    "pool_ok (pbuf_mempool s3) (F \<union> set (take (leading_ones s ds) ds))" "bytes s3 = bytes s"
    and f3: "\<forall>x. x \<notin> set (take (leading_ones s2 ds) ds) \<longrightarrow> pb s3 x =
      (if leading_ones s2 ds < length ds \<and> x = ds ! leading_ones s2 ds
       then (pb s2 x)\<lparr>p_ref := p_ref (pb s2 x) - 1\<rparr> else pb s2 x)"
    using lead m2 by auto
  have pb3: "pb s3 x = pb s2 x" if "x \<in> set ks" for x
  proof -
    have "x \<notin> set ds" using that xks d by (auto dest: distinct_append [THEN iffD1])
    then have "x \<notin> set (take (leading_ones s2 ds) ds)"
      "\<not> (leading_ones s2 ds < length ds \<and> x = ds ! leading_ones s2 ds)"
      by (auto dest: in_set_takeD)
    then show ?thesis using f3 by simp
  qed
  define s' where "s' = upd_pb ?q (\<lambda>b. b\<lparr>p_next := NULL\<rparr>) s3"
  have pbs': "pb s' x = (if x = ?q then (pb s x)\<lparr>p_len := r, tot_len := r, p_next := NULL\<rparr>
      else (pb s x)\<lparr>tot_len := tot_len (pb s x) + ?g\<rparr>)" if "x \<in> set ks" for x
  proof (cases "x = ?q")
    case True
    then show ?thesis using pb3 [OF that] pb2 [of x] dis(2) by (simp add: s'_def)
  next
    case False
    then have "x \<in> set ?bs" using that ks by (metis UnE empty_iff empty_set list.simps(15) insertE set_append)
    then show ?thesis using False pb3 [OF that] pb2 [of x] by (simp add: s'_def)
  qed
  have "packet s' p (?bs @ [?q]) \<and> content s' (?bs @ [?q]) = take (unat n) (content s (?bs @ ?q # ds))"
  proof (rule cut_packet [OF _ w(2,3)])
    show "packet s p (?bs @ ?q # ds)" using pk xs by simp
    show "pb s' x = (pb s x)\<lparr>tot_len := tot_len (pb s x) + (n - tot_len (pb s p))\<rparr>" if "x \<in> set ?bs" for x
      using that dis(2) ks by (subst pbs') (auto dest: in_set_butlastD)
    show "pb s' ?q = (pb s ?q)\<lparr>p_len := r, tot_len := r, p_next := NULL\<rparr>" using kne by (simp add: pbs')
    show "bytes s' = bytes s" using f(3) by (simp add: s'_def)
  qed
  moreover have "pbuf_realloc False mf fuel p n s = Inr s'"
    using w(1) f(1) n p tot
    by (auto simp: pbuf_realloc_def deref_def pbuf_free_def Let_def s'_def s2_def word_le_nat_alt)
  ultimately show ?thesis using f(2,3) ks xs by (auto simp: s'_def)
qed

section \<open>Looking into a packet\<close>

lemma pbuf_get_at_step:
  "x \<noteq> NULL \<Longrightarrow> pbuf_get_at (Suc f) x off s =
    (if p_len (pb s x) \<le> off then pbuf_get_at f (p_next (pb s x)) (off - p_len (pb s x)) s
     else Inr (bytes s (payload (pb s x) + unat off)))"
  by (cases "p_len (pb s x) \<le> off") (simp_all add: pbuf_get_at_def, simp add: not_le)

lemma pbuf_get_at_chain:
  assumes "chain (pnx s) p xs" and "length xs \<le> fuel"
  shows "pbuf_get_at fuel p off s = Inr (if unat off < total s xs then content s xs ! unat off else 0)"
  using assms
proof (induction xs arbitrary: p off fuel)
  case Nil
  then show ?case by (cases fuel) (simp_all add: pbuf_get_at_def)
next
  case (Cons x xs)
  then obtain f where f: "fuel = Suc f" "length xs \<le> f" by (cases fuel) auto
  show ?case
  proof (cases "p_len (pb s x) \<le> off")
    case True
    then have "unat (off - p_len (pb s x)) = unat off - unat (p_len (pb s x))"
      "unat (p_len (pb s x)) \<le> unat off" by (simp_all add: unat_sub word_le_nat_alt)
    with Cons f True show ?thesis by (auto simp: pbuf_get_at_step nth_append)
  next
    case False
    then have "unat off < unat (p_len (pb s x))" by (simp add: word_le_nat_alt)
    with Cons f False show ?thesis by (auto simp: pbuf_get_at_step nth_append data_def)
  qed
qed

lemma seek_chain:
  assumes "chain (pnx s) p xs" and "length xs \<le> fuel" and "unat off < total s xs"
  shows "\<exists>q off' ys. seek fuel p off s = Inr (q, off') \<and> q \<noteq> NULL \<and> off' < p_len (pb s q) \<and>
    chain (pnx s) q ys \<and> length ys \<le> fuel \<and>
    drop (unat off') (content s ys) = drop (unat off) (content s xs) \<and>
    unat off' + total s xs = unat off + total s ys \<and> total s ys \<le> total s xs"
  using assms
proof (induction xs arbitrary: p off fuel)
  case Nil
  then show ?case by simp
next
  case (Cons x xs)
  then obtain f where f: "fuel = Suc f" "length xs \<le> f" by (cases fuel) auto
  show ?case
  proof (cases "p_len (pb s x) \<le> off")
    case True
    then have u: "unat (off - p_len (pb s x)) = unat off - unat (p_len (pb s x))"
      "unat (p_len (pb s x)) \<le> unat off" by (simp_all add: unat_sub word_le_nat_alt)
    have "chain (pnx s) (p_next (pb s x)) xs" "unat (off - p_len (pb s x)) < total s xs"
      using Cons.prems u by auto
    from Cons.IH [OF this(1) f(2) this(2)] obtain q off' ys where
      "seek f (p_next (pb s x)) (off - p_len (pb s x)) s = Inr (q, off')" "q \<noteq> NULL" "off' < p_len (pb s q)"
      "chain (pnx s) q ys" "length ys \<le> f"
      "drop (unat off') (content s ys) = drop (unat off - unat (p_len (pb s x))) (content s xs)"
      "unat off' + total s xs = unat off - unat (p_len (pb s x)) + total s ys" "total s ys \<le> total s xs"
      unfolding u(1) by blast
    then show ?thesis
      using Cons.prems f True u by (intro exI [of _ q] exI [of _ off'] exI [of _ ys]) auto
  next
    case False
    then show ?thesis using Cons.prems f
      by (intro exI [of _ x] exI [of _ off] exI [of _ "x # xs"]) auto
  qed
qed

text \<open>The comparison reports 0 for equality, or one more than the first differing index.\<close>

lemma memcmp_loop_spec:
  assumes "chain (pnx s) q ys" and "length ys \<le> fuel"
    and "unat start + unat i + k \<le> total s ys" and "total s ys < 2 ^ 16"
    and "unat i + k \<le> length m"
  shows "\<exists>r. memcmp_loop fuel k q start m i s = Inr r \<and>
    (r = 0 \<longrightarrow> (\<forall>j<k. content s ys ! (unat start + unat i + j) = m ! (unat i + j))) \<and>
    (r \<noteq> 0 \<longrightarrow> (\<exists>j<k. unat r = unat i + j + 1 \<and>
      content s ys ! (unat start + unat i + j) \<noteq> m ! (unat i + j)))"
  using assms(3-5)
proof (induction k arbitrary: i)
  case 0
  show ?case by simp
next
  case (Suc k)
  have u: "unat (start + i) = unat start + unat i" "unat (i + 1) = unat i + 1"
    using Suc.prems by (simp_all add: unat_add_small)
  have g: "pbuf_get_at fuel q (start + i) s = Inr (content s ys ! (unat start + unat i))"
    using pbuf_get_at_chain [OF assms(1,2), of "start + i"] Suc.prems u by simp
  show ?case
  proof (cases "content s ys ! (unat start + unat i) = m ! unat i")
    case False
    have "i + 1 \<noteq> 0" using u(2) by (metis add_is_0 one_neq_zero unat_0)
    with False show ?thesis using g Suc.prems u by (auto intro!: exI [of _ 0])
  next
    case True
    from Suc.IH [of "i + 1"] Suc.prems u obtain r where
      r: "memcmp_loop fuel k q start m (i + 1) s = Inr r"
      "r = 0 \<longrightarrow> (\<forall>j<k. content s ys ! (unat start + (unat i + 1) + j) = m ! (unat i + 1 + j))"
      "r \<noteq> 0 \<longrightarrow> (\<exists>j<k. unat r = unat i + 1 + j + 1 \<and>
        content s ys ! (unat start + (unat i + 1) + j) \<noteq> m ! (unat i + 1 + j))" by auto
    have "memcmp_loop fuel (Suc k) q start m i s = Inr r" using g r(1) True Suc.prems by simp
    moreover have "r = 0 \<longrightarrow> (\<forall>j<Suc k. content s ys ! (unat start + unat i + j) = m ! (unat i + j))"
      using r(2) True by (auto simp: less_Suc_eq_0_disj)
    moreover have "\<exists>j<Suc k. unat r = unat i + j + 1 \<and>
        content s ys ! (unat start + unat i + j) \<noteq> m ! (unat i + j)" if "r \<noteq> 0"
    proof -
      from that r(3) obtain j where "j < k" "unat r = unat i + 1 + j + 1"
        "content s ys ! (unat start + (unat i + 1) + j) \<noteq> m ! (unat i + 1 + j)" by auto
      then show ?thesis by (intro exI [of _ "Suc j"]) auto
    qed
    ultimately show ?thesis by auto
  qed
qed

lemma pbuf_memcmp_chain:
  assumes "chain (pnx s) p xs" and "length xs \<le> fuel" and "unat off < total s xs"
    and "unat off + unat n \<le> total s xs" and "total s xs < 2 ^ 16" and "unat n \<le> length m"
  shows "\<exists>r. pbuf_memcmp fuel p off m n s = Inr r \<and>
    (r = 0 \<longrightarrow> take (unat n) (drop (unat off) (content s xs)) = take (unat n) m) \<and>
    (r \<noteq> 0 \<longrightarrow> unat r \<le> unat n \<and>
      content s xs ! (unat off + (unat r - 1)) \<noteq> m ! (unat r - 1))"
proof -
  from seek_chain [OF assms(1-3)] obtain q off' ys where
    q: "seek fuel p off s = Inr (q, off')" "q \<noteq> NULL" "off' < p_len (pb s q)" "chain (pnx s) q ys"
      "length ys \<le> fuel" "drop (unat off') (content s ys) = drop (unat off) (content s xs)"
      "unat off' + total s xs = unat off + total s ys" "total s ys \<le> total s xs" by blast
  have nth: "content s ys ! (unat off' + j) = content s xs ! (unat off + j)"
    if "unat off + j < total s xs" for j
  proof -
    have "drop (unat off') (content s ys) ! j = drop (unat off) (content s xs) ! j" by (simp only: q(6))
    then show ?thesis using that q(7) by simp
  qed
  from memcmp_loop_spec [OF q(4,5), of off' 0 "unat n" m] assms q(7,8) obtain r where
    r: "memcmp_loop fuel (unat n) q off' m 0 s = Inr r"
    "r = 0 \<longrightarrow> (\<forall>j<unat n. content s ys ! (unat off' + j) = m ! j)"
    "r \<noteq> 0 \<longrightarrow> (\<exists>j<unat n. unat r = j + 1 \<and> content s ys ! (unat off' + j) \<noteq> m ! j)" by auto
  have "pbuf_memcmp fuel p off m n s = Inr r" using q r(1) by (simp add: pbuf_memcmp_def)
  moreover have "take (unat n) (drop (unat off) (content s xs)) = take (unat n) m" if "r = 0"
    by (rule nth_equalityI) (use assms r(2) that nth in auto)
  moreover have "unat r \<le> unat n \<and> content s xs ! (unat off + (unat r - 1)) \<noteq> m ! (unat r - 1)" if "r \<noteq> 0"
  proof -
    from r(3) that obtain j where "j < unat n" "unat r = j + 1" "content s ys ! (unat off' + j) \<noteq> m ! j"
      by blast
    then show ?thesis using nth [of j] assms(4) by simp
  qed
  ultimately show ?thesis by blast
qed

lemma memfind_loop_sound:
  assumes "chain (pnx s) p xs" and "length xs \<le> fuel" and "total s xs < 2 ^ 16"
    and "n \<noteq> 0" and "unat n \<le> length m" and "unat mx + unat n = total s xs"
    and "unat mx < unat i + steps"
  shows "\<exists>r. memfind_loop steps fuel p m n mx i s = Inr r \<and>
    (r \<noteq> 0xFFFF \<longrightarrow> unat i \<le> unat r \<and> unat r + unat n \<le> total s xs \<and>
      take (unat n) (drop (unat r) (content s xs)) = take (unat n) m)"
  using assms(7)
proof (induction steps arbitrary: i)
  case 0
  then have "\<not> i \<le> mx" by (simp add: word_le_nat_alt)
  then show ?case by simp
next
  case (Suc steps)
  show ?case
  proof (cases "i \<le> mx")
    case False
    then show ?thesis by simp
  next
    case True
    then have im: "unat i \<le> unat mx" by (simp add: word_le_nat_alt)
    have n0: "0 < unat n" using assms(4) by (simp add: unat_gt_0)
    from pbuf_memcmp_chain [OF assms(1,2), of i n m] im n0 assms obtain r where
      r: "pbuf_memcmp fuel p i m n s = Inr r"
      "r = 0 \<longrightarrow> take (unat n) (drop (unat i) (content s xs)) = take (unat n) m"
      "r \<noteq> 0 \<longrightarrow> unat r \<le> unat n" by auto
    show ?thesis
    proof (cases "r = 0")
      case True
      with r im assms(6) \<open>i \<le> mx\<close> show ?thesis by auto
    next
      case False
      then have "unat (i + r) = unat i + unat r"
        using r(3) im assms(3,6) by (intro unat_add_small) auto
      moreover have "0 < unat r" using False by (simp add: unat_gt_0)
      ultimately show ?thesis using Suc.IH [of "i + r"] Suc.prems r(1) False \<open>i \<le> mx\<close> by auto
    qed
  qed
qed

section \<open>Copying out\<close>

definition clear_of :: "pbuf_state \<Rightarrow> addr list \<Rightarrow> addr \<Rightarrow> nat \<Rightarrow> bool" where
  "clear_of s xs dst n \<longleftrightarrow> (\<forall>x \<in> set xs. \<forall>i < unat (p_len (pb s x)).
     payload (pb s x) + i < dst \<or> dst + n \<le> payload (pb s x) + i)"

lemma memcpy_sel [simp]: "pb (memcpy dst src n s) = pb s"
  "bytes (memcpy dst src n s) a = (if dst \<le> a \<and> a < dst + n then bytes s (src + (a - dst)) else bytes s a)"
  by (simp_all add: memcpy_def)

lemma data_memcpy:
  assumes "\<forall>i < unat (p_len (pb s x)). payload (pb s x) + i < dst \<or> dst + n \<le> payload (pb s x) + i"
  shows "data (memcpy dst src n s) x = data s x"
  using assms by (auto simp: data_def)

lemma copy_partial_loop_chain:
  fixes off :: u16
  assumes "chain (pnx s) p xs" and "length xs \<le> fuel" and "unat left + unat len < 2 ^ 16"
    and "clear_of s xs (dst + unat left) (unat len)"
  defines "out \<equiv> take (unat len) (drop (unat off) (content s xs))"
  shows "\<exists>s'. copy_partial_loop fuel p dst left len off s = Inr (left + of_nat (length out), s') \<and>
    pb s' = pb s \<and> (\<forall>a. bytes s' a = (if dst + unat left \<le> a \<and> a < dst + unat left + length out
      then out ! (a - (dst + unat left)) else bytes s a))"
  using assms(1-4) unfolding out_def
proof (induction xs arbitrary: p left len off s fuel)
  case Nil
  then show ?case by (cases fuel) auto
next
  case (Cons x xs)
  from Cons.prems obtain f where f: "fuel = Suc f" "length xs \<le> f" by (cases fuel) auto
  from Cons.prems have p: "p = x" "x \<noteq> NULL" "chain (pnx s) (p_next (pb s x)) xs" by auto
  let ?l = "p_len (pb s x)"
  show ?case
  proof (cases "len = 0")
    case True
    then show ?thesis using f by auto
  next
    case len: False
    show ?thesis
    proof (cases "off \<noteq> 0 \<and> off \<ge> ?l")
      case True
      then have u: "unat (off - ?l) = unat off - unat ?l" "unat ?l \<le> unat off"
        by (simp_all add: unat_sub word_le_nat_alt)
      have "clear_of s xs (dst + unat left) (unat len)" using Cons.prems(4) by (simp add: clear_of_def)
      note ih = Cons.IH [OF p(3) f(2) Cons.prems(3) this, of "off - ?l"]
      have eq: "drop (unat (off - ?l)) (content s xs) = drop (unat off) (content s (x # xs))"
        using u by simp
      have "copy_partial_loop fuel p dst left len off s =
          copy_partial_loop f (p_next (pb s x)) dst left len (off - ?l) s"
        using True len p f by simp
      then show ?thesis using ih unfolding eq by simp
    next
      case False
      then have fl: "(off \<noteq> 0 \<and> off \<ge> ?l) = False" by simp
      have ol: "unat off \<le> unat ?l" using False by (auto simp: word_le_nat_alt)
      define n where "n = (if ?l - off > len then len else ?l - off)"
      have un: "unat n = min (unat ?l - unat off) (unat len)"
        using ol by (auto simp: n_def unat_sub word_le_nat_alt word_less_nat_alt)
      define s1 where "s1 = memcpy (dst + unat left) (payload (pb s x) + unat off) (unat n) s"
      have step: "copy_partial_loop fuel p dst left len off s =
          copy_partial_loop f (p_next (pb s x)) dst (left + n) (len - n) 0 s1"
        using len p(2)
        by (simp only: f(1) p(1) copy_partial_loop.simps fl if_False Let_def n_def s1_def) simp
      have nl: "unat (left + n) = unat left + unat n" "unat (len - n) = unat len - unat n"
        using un Cons.prems(3) by (simp_all add: unat_add_small unat_sub word_le_nat_alt)
      have cl: "clear_of s xs (dst + unat left) (unat len)" using Cons.prems(4) by (simp add: clear_of_def)
      have con: "content s1 xs = content s xs"
        unfolding content_def
      proof (rule arg_cong [where f = concat], rule map_cong [OF refl])
        fix y assume "y \<in> set xs"
        then show "data s1 y = data s y"
          unfolding s1_def using cl un by (intro data_memcpy) (fastforce simp: clear_of_def)
      qed
      have pb1: "pb s1 = pb s" by (simp add: s1_def)
      have "clear_of s1 xs (dst + unat (left + n)) (unat (len - n))"
        using cl un unfolding clear_of_def pb1 nl by fastforce
      moreover have "unat (left + n) + unat (len - n) < 2 ^ 16" using nl un Cons.prems(3) by simp
      moreover have "chain (pnx s1) (p_next (pb s x)) xs" using p(3) by (simp add: pb1)
      ultimately obtain s' where s': "copy_partial_loop f (p_next (pb s x)) dst (left + n) (len - n) 0 s1 =
          Inr (left + n + of_nat (length (take (unat (len - n)) (drop (unat (0 :: u16)) (content s1 xs)))), s')"
        "pb s' = pb s1"
        "\<And>a. bytes s' a = (if dst + unat (left + n) \<le> a \<and>
            a < dst + unat (left + n) + length (take (unat (len - n)) (drop (unat (0 :: u16)) (content s1 xs)))
          then take (unat (len - n)) (drop (unat (0 :: u16)) (content s1 xs)) ! (a - (dst + unat (left + n)))
          else bytes s1 a)"
        using Cons.IH [of s1 "p_next (pb s x)" f "left + n" "len - n" 0] f(2) by blast
      define out where "out = take (unat len) (drop (unat off) (content s (x # xs)))"
      have out: "out = take (unat n) (drop (unat off) (data s x)) @ take (unat len - unat n) (content s xs)"
        unfolding out_def using ol un by (auto simp: min_def)
      define A where "A = take (unat n) (drop (unat off) (data s x))"
      define B where "B = take (unat len - unat n) (content s xs)"
      have A: "length A = unat n" using un by (simp add: A_def)
      have An: "A ! j = bytes s (payload (pb s x) + unat off + j)" if "j < unat n" for j
      proof -
        have "unat n \<le> unat ?l - unat off" using un by simp
        then have "unat off + j < unat ?l" using that by linarith
        then show ?thesis using that ol by (simp add: A_def data_def add.assoc)
      qed
      have s1A: "bytes s1 a = (if dst + unat left \<le> a \<and> a < dst + unat left + unat n
          then A ! (a - (dst + unat left)) else bytes s a)" for a
      proof (cases "dst + unat left \<le> a \<and> a < dst + unat left + unat n")
        case True
        then have "a - (dst + unat left) < unat n" by auto
        from An [OF this] True show ?thesis by (simp add: s1_def)
      qed (auto simp: s1_def)
      have s'B: "bytes s' a = (if dst + unat left + unat n \<le> a \<and> a < dst + unat left + unat n + length B
          then B ! (a - (dst + unat left + unat n)) else bytes s1 a)" for a
        using s'(3) [of a] unfolding con nl B_def by (simp add: add.assoc)
      have "bytes s' a = (if dst + unat left \<le> a \<and> a < dst + unat left + length out
          then out ! (a - (dst + unat left)) else bytes s a)" for a
        unfolding s'B s1A out [folded A_def B_def] by (auto simp: nth_append A)
      moreover have "left + n + of_nat (length (take (unat (len - n)) (drop (unat (0 :: u16)) (content s1 xs)))) =
          left + of_nat (length out)"
        unfolding con nl out [folded A_def B_def] by (simp add: A B_def)
      ultimately show ?thesis using step s'(1,2) pb1 unfolding out_def by auto
    qed
  qed
qed

section \<open>Properties\<close>

text \<open>A packet of two pbufs at 100 and 200 that holds "aaab".\<close>

definition aaab :: pbuf_state where
  "aaab =
     \<lparr>pb = (\<lambda>_. \<lparr>pb_pool = NULL, p_next = NULL, tcp_api_next = NULL, payload = 2000, p_mbuf = NULL,
              tot_len = 2, p_len = 2, p_type = PBUF_REF, p_flags = 0, p_ref = 1\<rparr>)
        (100 := \<lparr>pb_pool = NULL, p_next = 200, tcp_api_next = NULL, payload = 1000, p_mbuf = NULL,
              tot_len = 4, p_len = 2, p_type = PBUF_REF, p_flags = 0, p_ref = 1\<rparr>),
      bytes = (\<lambda>_. 97)(2001 := 98),
      pbuf_mempool = three_pool, pbuf_with_payload_mempool = three_pool, mbufs = three_mbufs\<rparr>"

lemma aaab_packet: "packet aaab 100 [100, 200]"
  by (simp add: aaab_def packet_def)

lemma aaab_content: "content aaab [100, 200] = [97, 97, 97, 98]"
  by (simp add: aaab_def data_def upt_conv_Cons)

lemma aaab_total: "total aaab [100, 200] = 4"
  by (simp add: aaab_def)

lemma aaab_owned: "owned aaab {1000, 1016, 1032} [100, 200]"
  using three_pool_ok by (simp add: owned_def aaab_def)



text \<open>C24: \<open>pbuf_cat\<close> makes one packet whose content is the two contents in order, with every
  \<open>tot_len\<close> correct.\<close>

theorem pbuf_cat_correct:
  assumes "packet s h xs" and "packet s t ys" and "xs \<noteq> []" and "ys \<noteq> []"
    and "set xs \<inter> set ys = {}" and "total s xs + total s ys < 2 ^ 16" and "length xs \<le> fuel"
  shows "\<exists>s'. pbuf_cat fuel h t s = Inr s' \<and> packet s' h (xs @ ys) \<and> bytes s' = bytes s \<and>
    content s' (xs @ ys) = content s xs @ content s ys \<and> (\<forall>x. x \<notin> set xs \<longrightarrow> pb s' x = pb s x)"
  using assms by (rule pbuf_cat_packet)

theorem pbuf_cat_correct_witness:
  "\<exists>s'. pbuf_cat 2 100 300 aaab = Inr s' \<and> packet s' 100 [100, 200, 300] \<and>
    content s' [100, 200, 300] = [97, 97, 97, 98, 97, 98]"
proof -
  have "packet aaab 300 [300]" "content aaab [300] = [97, 98]" "total aaab [300] = 2"
    by (simp_all add: aaab_def packet_def data_def upt_conv_Cons)
  with pbuf_cat_correct [OF aaab_packet, of 300 "[300]" 2] aaab_content aaab_total show ?thesis by auto
qed

text \<open>\<open>pbuf_realloc\<close> to fewer bytes keeps exactly the leading pbufs needed, with the first bytes
  of the packet as content and correct \<open>tot_len\<close> fields, and releases the rest.\<close>

theorem pbuf_realloc_correct:
  assumes "packet s p xs" and "owned s F xs" and "unat n < total s xs" and "length xs \<le> fuel"
    and "ks = kept s (unat n) xs" and "ds = drop (length ks) xs"
  shows "\<exists>s'. pbuf_realloc False mf fuel p n s = Inr s' \<and> packet s' p ks \<and>
    content s' ks = take (unat n) (content s xs) \<and> bytes s' = bytes s \<and>
    pool_ok (pbuf_mempool s') (F \<union> set (take (leading_ones s ds) ds))"
  using pbuf_realloc_packet [OF assms(1-4)] unfolding assms(5,6) .

theorem pbuf_realloc_correct_witness:
  "\<exists>s'. pbuf_realloc False (\<lambda>_ s. Inr s) 2 100 1 aaab = Inr s' \<and> packet s' 100 [100] \<and>
    content s' [100] = [97] \<and> pool_ok (pbuf_mempool s') {200, 1000, 1016, 1032}"
proof -
  have k: "[100] = kept aaab (unat (1 :: u16)) [100, 200]" "[200] = drop (length [100 :: addr]) [100, 200]"
    by (simp_all add: aaab_def)
  have l: "leading_ones aaab [200] = 1" by (simp add: aaab_def)
  have n: "unat (1 :: u16) < total aaab [100, 200]" "length [100, 200 :: addr] \<le> 2"
    by (simp_all add: aaab_total del: total_simps)
  obtain s' where "pbuf_realloc False (\<lambda>_ s. Inr s) 2 100 1 aaab = Inr s'" "packet s' 100 [100]"
    "content s' [100] = take (unat (1 :: u16)) (content aaab [100, 200])"
    "pool_ok (pbuf_mempool s') ({1000, 1016, 1032} \<union> set (take (leading_ones aaab [200]) [200]))"
    using pbuf_realloc_correct [OF aaab_packet aaab_owned n k, of "\<lambda>_ s. Inr s"] by blast
  then show ?thesis unfolding aaab_content l by (auto simp: insert_commute)
qed

text \<open>\<open>pbuf_copy_partial\<close> copies the requested window of the packet's content, cut off at its
  end, to the target, returns its length and changes no other byte.\<close>

theorem pbuf_copy_partial_correct:
  assumes "chain (pnx s) p xs" and "length xs \<le> fuel" and "xs \<noteq> []" and "dst \<noteq> NULL"
    and "clear_of s xs dst (unat len)" and "out = take (unat len) (drop (unat off) (content s xs))"
  shows "\<exists>s'. pbuf_copy_partial fuel p dst len off s = Inr (of_nat (length out), s') \<and>
    pb s' = pb s \<and> (\<forall>a. bytes s' a = (if dst \<le> a \<and> a < dst + length out then out ! (a - dst) else bytes s a))"
proof -
  have "p \<noteq> NULL" using assms(1,3) by (cases xs) auto
  moreover have "unat (0 :: u16) + unat len < 2 ^ 16" using unsigned_less [of len, where 'a = nat] by simp
  ultimately show ?thesis
    using copy_partial_loop_chain [OF assms(1,2), of 0 len dst off, unfolded unat_0 add_0_right add_0]
      assms(4,5)
    unfolding pbuf_copy_partial_def assms(6) by simp
qed

theorem pbuf_copy_partial_correct_witness:
  "\<exists>s'. pbuf_copy_partial 2 100 5000 10 1 aaab = Inr (3, s') \<and>
    bytes s' 5000 = 97 \<and> bytes s' 5001 = 97 \<and> bytes s' 5002 = 98"
proof -
  have c: "chain (pnx aaab) 100 [100, 200]" using aaab_packet by (simp add: packet_def)
  have cl: "clear_of aaab [100, 200] 5000 (unat (10 :: u16))" by (simp add: clear_of_def aaab_def)
  have len: "length [100, 200 :: addr] \<le> 2" "[100, 200 :: addr] \<noteq> []" "(5000 :: addr) \<noteq> NULL" by simp_all
  obtain s' where s': "pbuf_copy_partial 2 100 5000 10 1 aaab =
      Inr (of_nat (length (take (unat (10 :: u16)) (drop (unat (1 :: u16)) (content aaab [100, 200])))), s')"
    "\<And>a. bytes s' a = (if 5000 \<le> a \<and>
        a < 5000 + length (take (unat (10 :: u16)) (drop (unat (1 :: u16)) (content aaab [100, 200])))
      then take (unat (10 :: u16)) (drop (unat (1 :: u16)) (content aaab [100, 200])) ! (a - 5000) else bytes aaab a)"
    using pbuf_copy_partial_correct [OF c len cl refl] by blast
  show ?thesis
    using s'(1) unfolding aaab_content
    by (intro exI [of _ s']) (simp add: s'(2) aaab_content del: content_simps)
qed

text \<open>Every position \<open>pbuf_memfind\<close> reports is, at or behind the start offset, an occurrence of
  the whole pattern in the packet, and the search always ends.\<close>

theorem pbuf_memfind_sound:
  assumes "packet s p xs" and "xs \<noteq> []" and "length xs \<le> fuel" and "n \<noteq> 0" and "unat n \<le> length m"
    and "total s xs < steps"
  shows "\<exists>r. pbuf_memfind steps fuel p m n start s = Inr r \<and>
    (r \<noteq> 0xFFFF \<longrightarrow> unat start \<le> unat r \<and> unat r + unat n \<le> total s xs \<and>
      take (unat n) (drop (unat r) (content s xs)) = take (unat n) m)"
proof -
  have p: "p \<noteq> NULL" "chain (pnx s) p xs" using assms(1,2) by (cases xs; auto simp: packet_def)+
  have tot: "unat (tot_len (pb s p)) = total s xs"
    using tots_ok_head [of s xs p] assms(1,2) by (auto simp: packet_def)
  then have lim: "total s xs < 2 ^ 16" using unsigned_less [of "tot_len (pb s p)", where 'a = nat] by simp
  show ?thesis
  proof (cases "uint (tot_len (pb s p)) \<ge> uint n + uint start")
    case False
    then show ?thesis using p by (simp add: pbuf_memfind_def deref_def Let_def)
  next
    case True
    then have le: "unat n + unat start \<le> total s xs" unfolding uint_nat tot by linarith
    then have mx: "unat (tot_len (pb s p) - n) = total s xs - unat n"
      using tot by (subst unat_sub) (simp_all add: word_le_nat_alt)
    have "unat (tot_len (pb s p) - n) + unat n = total s xs"
      "unat (tot_len (pb s p) - n) < unat start + steps" using le mx assms(6) by linarith+
    from memfind_loop_sound [OF p(2) assms(3) lim assms(4,5) this]
    obtain r where "memfind_loop steps fuel p m n (tot_len (pb s p) - n) start s = Inr r"
      "r \<noteq> 0xFFFF \<longrightarrow> unat start \<le> unat r \<and> unat r + unat n \<le> total s xs \<and>
        take (unat n) (drop (unat r) (content s xs)) = take (unat n) m" by blast
    then show ?thesis using p True by (simp add: pbuf_memfind_def deref_def Let_def)
  qed
qed

theorem pbuf_memfind_sound_witness:
  "\<exists>r. pbuf_memfind 5 2 100 [97, 98] 2 2 aaab = Inr r \<and> (r \<noteq> 0xFFFF \<longrightarrow> 2 \<le> unat r)"
  using pbuf_memfind_sound [OF aaab_packet, of 2 2 "[97, 98]" 5 2] by (auto simp: aaab_total simp del: total_simps)

text \<open>It may miss an occurrence: after a mismatch behind a partial match it skips the partial match
  too. In "aaab" it does not find "aab".\<close>

theorem pbuf_memfind_misses:
  "pbuf_memfind 5 2 100 [97, 97, 98] 3 0 aaab = Inr 0xFFFF \<and>
    take 3 (drop 1 (content aaab [100, 200])) = [97, 97, 98]"
proof
  have g: "pbuf_get_at 2 100 off aaab = Inr (if unat off < 4 then [97, 97, 97, 98] ! unat off else 0)" for off
    using pbuf_get_at_chain [of aaab 100 "[100, 200]" 2 off] aaab_packet aaab_content aaab_total
    by (simp add: packet_def del: content_simps total_simps)
  have s0: "seek 2 100 0 aaab = Inr (100, 0)" by (simp add: aaab_def numeral_2_eq_2)
  have k: "unat (3 :: u16) = Suc (Suc (Suc 0))" by simp
  have "p_len (pb aaab 100) > 0" by (simp add: aaab_def)
  then have c0: "pbuf_memcmp 2 100 0 [97, 97, 98] 3 aaab = Inr 3"
    unfolding pbuf_memcmp_def s0 k by (simp add: g rd_def)
  show "pbuf_memfind 5 2 100 [97, 97, 98] 3 0 aaab = Inr 0xFFFF"
  proof -
    have five: "(5 :: nat) = Suc (Suc 3)" by simp
    have "memfind_loop 5 2 100 [97, 97, 98] 3 1 0 aaab = memfind_loop (Suc 3) 2 100 [97, 97, 98] 3 1 3 aaab"
      by (subst five, subst memfind_loop.simps(2)) (simp add: c0)
    also have "\<dots> = Inr 0xFFFF" by (subst memfind_loop.simps(2)) (simp add: word_le_nat_alt)
    finally have loop: "memfind_loop 5 2 100 [97, 97, 98] 3 1 0 aaab = Inr 0xFFFF" .
    have "tot_len (pb aaab 100) = 4" by (simp add: aaab_def)
    then show ?thesis by (simp add: pbuf_memfind_def deref_def loop Let_def)
  qed
  show "take 3 (drop 1 (content aaab [100, 200])) = [97, 97, 98]"
    unfolding aaab_content by simp
qed

end
