(* ===== verification/Metrics.thy ===== *)
theory Metrics
  imports Kns_Prelude "HOL-Library.Signed_Division"
begin

text \<open>
  The statistics that \<open>eth_process_recv\<close> (\<open>core/ethqueue.c\<close>) keeps for the control plane: the
  accumulators of the current period, the exponentially weighted averages of
  \<open>inc/kns/average.h\<close> they feed when the period ends, and the package power estimate.
  All quantities are machine words; signed division is C's, and traps.
\<close>

section \<open>Signed division and logarithm\<close>

definition c_sdiv :: "'w::len word \<Rightarrow> 'w word \<Rightarrow> 'w word res" where
  "c_sdiv a b = (if b = 0 \<or> (sint a = - (2 ^ (LENGTH('w) - 1)) \<and> b = - 1) then Inl DivZero
                 else Inr (word_of_int (sint a sdiv sint b)))"

definition c_udiv :: "'w::len word \<Rightarrow> 'w word \<Rightarrow> 'w word res" where
  "c_udiv a b = (if b = 0 then Inl DivZero else Inr (a div b))"

text \<open>The kernel's \<open>fls\<close>, the number of significant bits, and \<open>ilog2\<close>.\<close>

fun fls :: "nat \<Rightarrow> nat" where
  "fls n = (if n = 0 then 0 else Suc (fls (n div 2)))"

declare fls.simps [simp del]

definition ilog2 :: "u32 \<Rightarrow> u32" where
  "ilog2 w = of_nat (fls (unat w)) - 1"

section \<open>Moving averages\<close>

record ewma =
  internal :: u64
  precision :: u32
  weight_rcp :: u32

text \<open>The precision is at most 30 and the weight a power of two: \<open>ewma_init\<close> compiles for no
  other values. Both shift amounts of \<open>ewma_add\<close> are then less than 64.\<close>

definition ewma_config :: "u32 \<Rightarrow> u32 \<Rightarrow> bool" where
  "ewma_config p w \<longleftrightarrow> unat p \<le> 30 \<and> (\<exists>k<31. w = 2 ^ k)"

definition ewma_init :: "ewma \<Rightarrow> u32 \<Rightarrow> u32 \<Rightarrow> ewma" where
  "ewma_init e p w = e\<lparr>internal := 0, precision := p, weight_rcp := w\<rparr>"

definition ewma_read :: "ewma \<Rightarrow> u64" where
  "ewma_read e = drop_bit (unat (precision e)) (internal e)"

definition ewma_add :: "ewma \<Rightarrow> u64 \<Rightarrow> ewma" where
  "ewma_add e val =
     (let i = internal e;
          w = unat (scast (ilog2 (weight_rcp e)) :: u64);
          p = unat (scast (precision e) :: u64)
      in e\<lparr>internal := (if i \<noteq> 0 then drop_bit w ((push_bit w i - i) + push_bit p val)
                        else push_bit p val)\<rparr>)"

section \<open>The accumulators of a period\<close>

definition METRICS_PERIOD_US :: u64 where "METRICS_PERIOD_US = 10000"
definition POWER_PERIOD_US :: u64 where "POWER_PERIOD_US = 500000"

record metrics_accumulator =
  ma_timestamp :: u64
  ma_queuing_delay :: u64
  ma_batch_size :: u32
  ma_count :: u32
  ma_queue_size :: u64
  ma_loop_duration :: u64
  ma_prv_timestamp :: u64

record cpu_metrics =
  cm_queuing_delay :: ewma
  cm_batch_size :: ewma
  cm_queue_size :: "ewma list"
  cm_loop_duration :: ewma
  cm_idle :: "ewma list"

record metrics =
  acc :: metrics_accumulator
  cpum :: cpu_metrics
  idle_cycles :: u64

text \<open>The part of a loop turn up to the test of the period.\<close>

definition accumulate :: "u32 \<Rightarrow> u64 \<Rightarrow> u64 \<Rightarrow> u32 \<Rightarrow> u32 \<Rightarrow> metrics_accumulator \<Rightarrow> metrics_accumulator res" where
  "accumulate khz now mints count backlog a =
     bindR (if count \<noteq> 0
            then bindR (c_udiv ((now - mints) * 1000) (ucast khz)) (\<lambda>v. Inr (ucast v :: u32))
            else Inr 0) (\<lambda>val.
     Inr (a\<lparr>ma_count := ma_count a + 1,
            ma_queuing_delay := ma_queuing_delay a + scast val,
            ma_batch_size := ma_batch_size a + count,
            ma_queue_size := ma_queue_size a + scast (count + backlog),
            ma_loop_duration := ma_loop_duration a + (now - ma_prv_timestamp a),
            ma_prv_timestamp := now\<rparr>))"

definition period_over :: "u32 \<Rightarrow> u64 \<Rightarrow> u64 \<Rightarrow> u64 \<Rightarrow> bool" where
  "period_over khz now start period \<longleftrightarrow> now - start > ucast khz div 1000 * period"

text \<open>The values that the averages take at the end of a period.\<close>

definition period_values :: "u32 \<Rightarrow> u64 \<Rightarrow> metrics_accumulator \<Rightarrow> (u64 \<times> u64 \<times> u64 \<times> u64) res" where
  "period_values khz idle a =
     (if ma_count a = 0 then Inr (0, 0, 0, 0)
      else
        bindR (c_sdiv (ma_loop_duration a - idle) (ucast (khz div 1000))) (\<lambda>ld.
        bindR (c_sdiv (ma_queuing_delay a) (scast (ma_count a))) (\<lambda>qd.
        bindR (c_sdiv (ma_batch_size a) (ma_count a)) (\<lambda>bs.
        bindR (c_sdiv (ma_queue_size a) (scast (ma_count a))) (\<lambda>qs.
        bindR (c_sdiv ld (scast (ma_count a))) (\<lambda>ld'.
        Inr (qd, scast bs, qs, ld')))))))"

definition end_period :: "u32 \<Rightarrow> u64 \<Rightarrow> metrics \<Rightarrow> metrics res" where
  "end_period khz now m =
     bindR (c_udiv (idle_cycles m) (now - ma_timestamp (acc m))) (\<lambda>v.
     let idl = scast (ucast v :: u32) :: u64; c = cpum m in
     bindR (period_values khz (idle_cycles m) (acc m)) (\<lambda>(qd, bs, qs, ld).
     Inr (m\<lparr>cpum := \<lparr>cm_queuing_delay = ewma_add (cm_queuing_delay c) qd,
                      cm_batch_size = ewma_add (cm_batch_size c) bs,
                      cm_queue_size = map (\<lambda>e. ewma_add e qs) (cm_queue_size c),
                      cm_loop_duration = ewma_add (cm_loop_duration c) ld,
                      cm_idle = map (\<lambda>e. ewma_add e idl) (cm_idle c)\<rparr>,
            acc := (acc m)\<lparr>ma_timestamp := now, ma_count := 0, ma_queuing_delay := 0,
                           ma_batch_size := 0, ma_queue_size := 0, ma_loop_duration := 0\<rparr>,
            idle_cycles := 0\<rparr>)))"

definition update_metrics :: "u32 \<Rightarrow> u64 \<Rightarrow> u64 \<Rightarrow> u32 \<Rightarrow> u32 \<Rightarrow> metrics \<Rightarrow> metrics res" where
  "update_metrics khz now mints count backlog m =
     bindR (accumulate khz now mints count backlog (acc m)) (\<lambda>a.
     let m1 = m\<lparr>acc := a\<rparr> in
     if period_over khz now (ma_timestamp a) METRICS_PERIOD_US then end_period khz now m1
     else Inr m1)"

section \<open>Package power\<close>

record power_accumulator =
  prv_energy :: u32
  prv_timestamp :: u64
  pkg_power :: u64

text \<open>\<open>energy\<close> is the value of the energy counter register. Only CPU 0 calls this.\<close>

definition update_power :: "u32 \<Rightarrow> u64 \<Rightarrow> u64 \<Rightarrow> u64 \<Rightarrow> power_accumulator \<Rightarrow> power_accumulator res" where
  "update_power khz now energy energy_unit pa =
     (if \<not> period_over khz now (prv_timestamp pa) POWER_PERIOD_US then Inr pa
      else
        bindR (if prv_timestamp pa \<noteq> 0 then
                 let d = ucast (energy - scast (prv_energy pa)) :: u32;
                     diff = (if sint d < 0 then d + push_bit 31 1 else d)
                 in bindR (c_udiv (scast diff * energy_unit) (now - prv_timestamp pa)) (\<lambda>q.
                    Inr (q * ucast khz div 1000 * 1000000 * 1000))
               else Inr 0) (\<lambda>pw.
        Inr (pa\<lparr>pkg_power := pw, prv_timestamp := now, prv_energy := ucast energy\<rparr>)))"

end
