(* ===== verification/Metrics_Spec.thy ===== *)
theory Metrics_Spec
  imports Metrics
begin

text \<open>
  The averages of \<open>average.h\<close>: when the fixed-point product fits in 64 bits, a new value moves
  the average towards itself and never past it.
\<close>

lemma fls_0 [simp]: "fls 0 = 0"
  by (simp add: fls.simps [of 0])

lemma fls_pow2: "fls (2 ^ k) = Suc k"
proof (induction k)
  case 0
  show ?case by (subst fls.simps) simp
next
  case (Suc k)
  have "2 ^ Suc k div (2 :: nat) = 2 ^ k" by simp
  with Suc show ?case by (subst fls.simps) simp
qed

lemma ilog2_pow2: "k < 31 \<Longrightarrow> ilog2 (2 ^ k) = of_nat k"
  by (simp add: ilog2_def unat_pow2 fls_pow2)

lemma scast_small:
  fixes c :: u32
  assumes "unat c < 2 ^ 31"
  shows "unat (scast c :: u64) = unat c"
proof -
  have "int (unat c) < int (2 ^ 31)" using assms by (simp only: of_nat_less_iff)
  then have "int (unat c) < 2 ^ 31" by simp
  then have "uint c < 2 ^ 31" by (simp only: uint_nat)
  then have "sint c = uint c"
    by (simp add: sint_uint signed_take_bit_eq_if_positive bit_iff_odd take_bit_int_eq_self)
  then have "(scast c :: u64) = ucast c" by (simp add: scast_eq)
  then show ?thesis by (simp add: unat_ucast_32_64)
qed

text \<open>The exact value of an update.\<close>

lemma ewma_add_value:
  assumes "ewma_config (precision e) (weight_rcp e)" and "weight_rcp e = 2 ^ k" and "k < 31"
    and "unat (internal e) * 2 ^ k + unat val * 2 ^ unat (precision e) < 2 ^ 64"
  shows "unat (internal (ewma_add e val)) =
    (if internal e = 0 then unat val * 2 ^ unat (precision e)
     else (unat (internal e) * 2 ^ k - unat (internal e) + unat val * 2 ^ unat (precision e)) div 2 ^ k)"
proof -
  let ?i = "unat (internal e)" and ?p = "unat (precision e)"
  have p30: "?p \<le> 30" using assms(1) by (simp add: ewma_config_def)
  have w: "unat (scast (ilog2 (weight_rcp e)) :: u64) = k"
  proof -
    have "unat (of_nat k :: u32) = k" by (rule unat_of_nat_small) (use assms(3) in simp)
    then show ?thesis using assms(2,3) by (simp add: ilog2_pow2 scast_small)
  qed
  have p: "unat (scast (precision e) :: u64) = ?p" using p30 by (simp add: scast_small)
  have v: "unat (push_bit ?p val) = unat val * 2 ^ ?p" by (rule unat_push) (use assms(4) in simp)
  have i: "unat (push_bit k (internal e)) = ?i * 2 ^ k" by (rule unat_push) (use assms(4) in simp)
  have le: "?i \<le> ?i * 2 ^ k" by simp
  then have d: "unat (push_bit k (internal e) - internal e) = ?i * 2 ^ k - ?i"
    using i by (simp add: unat_sub_le word_le_nat_alt)
  have "unat (push_bit k (internal e) - internal e + push_bit ?p val) = ?i * 2 ^ k - ?i + unat val * 2 ^ ?p"
    using d v assms(4) le by (subst unat_add_small) auto
  then show ?thesis unfolding ewma_add_def Let_def w p by (simp add: v unat_drop del: push_bit_of_Suc_0)
qed

text \<open>The averaging step on natural numbers.\<close>

lemma avg_low:
  fixes i v n :: nat
  assumes "0 < n" and "v \<le> i"
  shows "v * n \<le> i * n - i + v"
proof -
  obtain m where "n = Suc m" using assms(1) by (cases n) auto
  with assms(2) show ?thesis by (simp add: mult_le_mono1)
qed

lemma avg_high:
  fixes i v n :: nat
  assumes "0 < n" and "i \<le> v"
  shows "i * n - i + v \<le> v * n"
proof -
  obtain m where "n = Suc m" using assms(1) by (cases n) auto
  with assms(2) show ?thesis by (simp add: mult_le_mono1)
qed

text \<open>Without overflow an update leaves the average between its old value and the new
  sample.\<close>

theorem ewma_add_between:
  assumes "ewma_config (precision e) (weight_rcp e)" and "weight_rcp e = 2 ^ k" and "k < 31"
    and "unat (internal e) * 2 ^ k + unat val * 2 ^ unat (precision e) < 2 ^ 64" and "internal e \<noteq> 0"
  shows "min (unat (internal e)) (unat val * 2 ^ unat (precision e)) \<le> unat (internal (ewma_add e val)) \<and>
    unat (internal (ewma_add e val)) \<le> max (unat (internal e)) (unat val * 2 ^ unat (precision e))"
proof -
  let ?i = "unat (internal e)" and ?v = "unat val * 2 ^ unat (precision e)" and ?n = "2 ^ k :: nat"
  have e: "unat (internal (ewma_add e val)) = (?i * ?n - ?i + ?v) div ?n"
    using ewma_add_value [OF assms(1-4)] assms(5) by simp
  have le: "?i \<le> ?i * ?n" by simp
  show ?thesis
  proof (cases "?v \<le> ?i")
    case True
    then have "?i * ?n - ?i + ?v \<le> ?i * ?n" using le by linarith
    then have "(?i * ?n - ?i + ?v) div ?n \<le> ?i * ?n div ?n" by (rule div_le_mono)
    moreover have "?v * ?n \<le> ?i * ?n - ?i + ?v" by (rule avg_low [OF _ True]) simp
    then have "?v * ?n div ?n \<le> (?i * ?n - ?i + ?v) div ?n" by (rule div_le_mono)
    ultimately show ?thesis unfolding e using True by simp
  next
    case False
    then have "?i * ?n \<le> ?i * ?n - ?i + ?v" using le by linarith
    then have "?i * ?n div ?n \<le> (?i * ?n - ?i + ?v) div ?n" by (rule div_le_mono)
    moreover have "?i * ?n - ?i + ?v \<le> ?v * ?n" by (rule avg_high) (use False in simp_all)
    then have "(?i * ?n - ?i + ?v) div ?n \<le> ?v * ?n div ?n" by (rule div_le_mono)
    ultimately show ?thesis unfolding e using False by simp
  qed
qed

theorem ewma_add_between_witness:
  "unat (internal (ewma_add \<lparr>internal = 1024, precision = 10, weight_rcp = 8\<rparr> 3)) \<in> {1024..3072}"
  using ewma_add_between [of "\<lparr>internal = 1024, precision = 10, weight_rcp = 8\<rparr>" 3 3]
  by (simp add: ewma_config_def exI [of _ 3])

end
