(* ===== verification/Flow_Groups.thy ===== *)
theory Flow_Groups
  imports Mbuf Metrics
begin

text \<open>
  Receive queues (\<open>inc/kns/ethqueue.h\<close>, \<open>core/ethqueue.c\<close>) and flow groups
  (\<open>core/ethfg.c\<close>, \<open>inc/kns/ethfg.h\<close>), the unit of load balancing: a flow group belongs to
  one CPU, and migrating it to another moves its queued packets to a queue of the target
  CPU, holds back the packets that arrive on either side meanwhile, and hands all of them to
  the stack when the transition ends. Packets given to \<open>eth_input\<close> are recorded, per CPU,
  in \<open>delivered\<close>. CPUs are numbered by 32-bit words, and \<open>- 1\<close> is no CPU.
\<close>

section \<open>State\<close>

definition ETH_MAX_NUM_FG :: nat where "ETH_MAX_NUM_FG = 512"
definition NETHDEV :: nat where "NETHDEV = 16"
definition ETH_MAX_TOTAL_FG :: nat where "ETH_MAX_TOTAL_FG = ETH_MAX_NUM_FG * NETHDEV"
definition ETH_RX_MAX_DEPTH :: int where "ETH_RX_MAX_DEPTH = 32768"
definition eth_rx_max_batch :: nat where "eth_rx_max_batch = 64"

record rx_queue =
  rxq_head :: addr
  rxq_tail :: addr
  rxq_len :: int
  rxq_dev :: nat

record pkt_queue =
  q_head :: addr
  q_tail :: addr

record eth_fg =
  fg_id :: u16
  in_transition :: bool
  cur_cpu :: u32
  target_cpu :: u32
  prev_cpu :: u32
  fg_idx :: u16
  fg_dev :: nat

record migration_info =
  mi_prev_cpu :: u32
  mi_target_cpu :: u32
  mi_bitmap :: "nat \<Rightarrow> bool"
  mi_timer :: bool

text \<open>The redirection table entries to be changed on one device: an array of 128.\<close>

definition ETH_RSS_RETA_NUM_ENTRIES :: nat where "ETH_RSS_RETA_NUM_ENTRIES = 128"

record rss_reta =
  mask_lo :: u64
  mask_hi :: u64
  reta :: "u16 list"

text \<open>Functions posted to other CPUs with \<open>cpu_run_on_one\<close>: the argument is the CPU whose
  \<open>migration_info\<close> is passed.\<close>

datatype remote_call = Transition_target u32 | Early_transition_prev

record eth_state =
  links :: "addr \<Rightarrow> addr"
  pkt_fg :: "addr \<Rightarrow> u16"
  rxqs :: "u32 \<Rightarrow> rx_queue list"
  fgs :: "nat \<Rightarrow> eth_fg option"
  remote_q :: "u32 \<Rightarrow> pkt_queue"
  local_q :: "u32 \<Rightarrow> pkt_queue"
  mig :: "u32 \<Rightarrow> migration_info"
  ready :: "u32 \<Rightarrow> bool"
  flow_cpu :: "nat \<Rightarrow> u32"
  reta_log :: "(nat \<times> rss_reta) list"
  calls :: "(u32 \<times> remote_call) list"
  scratchpad_idx :: u32
  cpu_stats :: "u32 \<Rightarrow> metrics"
  power_acc :: power_accumulator
  tstamp :: "addr \<Rightarrow> u64"
  reuse :: "addr \<Rightarrow> addr"
  delivered :: "u32 \<Rightarrow> addr list"

text \<open>\<open>eth_input\<close>: the packet goes up the stack (\<open>net/ip.c\<close>), which may free it, so that its
  link afterwards is whatever the new owner writes there (\<open>reuse\<close>, any function).\<close>

definition eth_input :: "u32 \<Rightarrow> addr \<Rightarrow> eth_state \<Rightarrow> eth_state" where
  "eth_input cpu p s = s\<lparr>delivered := (delivered s)(cpu := delivered s cpu @ [p]),
                          links := (links s)(p := reuse s p)\<rparr>"

section \<open>Flow groups: set-up\<close>

definition eth_fg_init :: "eth_fg \<Rightarrow> u16 \<Rightarrow> eth_fg" where
  "eth_fg_init fg idx = fg\<lparr>fg_idx := idx, cur_cpu := - 1, in_transition := False\<rparr>"

definition init_migration_cpu :: "u32 \<Rightarrow> eth_state \<Rightarrow> eth_state" where
  "init_migration_cpu cpu s = s\<lparr>mig := (mig s)(cpu := (mig s cpu)\<lparr>mi_prev_cpu := - 1\<rparr>)\<rparr>"

definition outbound_fg_idx_remote :: "u32 \<Rightarrow> nat" where
  "outbound_fg_idx_remote cpu = ETH_MAX_TOTAL_FG + unat cpu"

definition eth_fg_set_current :: "bool \<Rightarrow> u32 \<Rightarrow> eth_fg \<Rightarrow> unit res" where
  "eth_fg_set_current bugs cpu fg = BUG_ON bugs (cur_cpu fg = cpu)"

section \<open>Receiving\<close>

type_synonym nexts = "addr \<Rightarrow> addr"

definition enqueue :: "pkt_queue \<Rightarrow> addr \<Rightarrow> nexts \<Rightarrow> pkt_queue \<times> nexts" where
  "enqueue q p nx =
     (let nx1 = nx(p := NULL)
      in if q_head q = NULL then (q\<lparr>q_head := p, q_tail := p\<rparr>, nx1)
         else (q\<lparr>q_tail := p\<rparr>, nx1(q_tail q := p)))"

definition eth_recv_at_prev :: "addr \<Rightarrow> eth_state \<Rightarrow> eth_state res" where
  "eth_recv_at_prev p s =
     (case fgs s (unat (pkt_fg s p)) of
        None \<Rightarrow> Inl Fault
      | Some fg \<Rightarrow>
          let (q', nx') = enqueue (remote_q s (target_cpu fg)) p (links s)
          in Inr (s\<lparr>links := nx', remote_q := (remote_q s)(target_cpu fg := q')\<rparr>))"

definition eth_recv_at_target :: "u32 \<Rightarrow> addr \<Rightarrow> eth_state \<Rightarrow> eth_state" where
  "eth_recv_at_target cpu p s =
     (let q = local_q s cpu;
          s1 = (if q_head q = NULL
                then s\<lparr>calls := calls s @ [(mi_prev_cpu (mig s cpu), Early_transition_prev)]\<rparr> else s);
          (q', nx') = enqueue q p (links s1)
      in s1\<lparr>links := nx', local_q := (local_q s1)(cpu := q')\<rparr>)"

text \<open>The result says whether the packet has been taken care of (also when it is dropped).\<close>

definition eth_recv_handle_fg_transition :: "u32 \<Rightarrow> addr \<Rightarrow> eth_state \<Rightarrow> (bool \<times> eth_state) res" where
  "eth_recv_handle_fg_transition cpu p s =
     (let s1 = (if pkt_fg s p = MBUF_INVALID_FG_ID
                then s\<lparr>pkt_fg := (pkt_fg s)(p := of_nat (outbound_fg_idx_remote cpu))\<rparr> else s)
      in case fgs s1 (unat (pkt_fg s1 p)) of
           None \<Rightarrow> Inl Fault
         | Some fg \<Rightarrow>
             if \<not> in_transition fg \<and> cur_cpu fg = cpu then Inr (False, s1)
             else if in_transition fg \<and> prev_cpu fg = cpu then
               bindR (eth_recv_at_prev p s1) (\<lambda>s2. Inr (True, s2))
             else if in_transition fg \<and> target_cpu fg = cpu then Inr (True, eth_recv_at_target cpu p s1)
             else Inr (True, s1))"

text \<open>\<open>eth_recv\<close> on the \<open>i\<close>-th receive queue of the CPU: 0, or \<open>- EBUSY\<close> when it is full.
  \<open>rxq_append\<close> is its last part, the linking of the packet.\<close>

definition rxq_append :: "rx_queue \<Rightarrow> addr \<Rightarrow> nexts \<Rightarrow> rx_queue \<times> nexts" where
  "rxq_append rxq p nx =
     (let nx1 = nx(p := NULL);
          (rxq', nx2) =
            (if rxq_head rxq = NULL then (rxq\<lparr>rxq_head := p, rxq_tail := p\<rparr>, nx1)
             else (rxq\<lparr>rxq_tail := p\<rparr>, nx1(rxq_tail rxq := p)))
      in (rxq'\<lparr>rxq_len := rxq_len rxq' + 1\<rparr>, nx2))"

definition eth_recv :: "u32 \<Rightarrow> nat \<Rightarrow> addr \<Rightarrow> eth_state \<Rightarrow> (u32 \<times> eth_state) res" where
  "eth_recv cpu i p s =
     bindR (eth_recv_handle_fg_transition cpu p s) (\<lambda>(handled, s1).
     if handled then Inr (0, s1)
     else if rxq_len (rxqs s1 cpu ! i) \<ge> ETH_RX_MAX_DEPTH then Inr (- EBUSY, s1)
     else
       let (rxq', nx') = rxq_append (rxqs s1 cpu ! i) p (links s1)
       in Inr (0, s1\<lparr>links := nx', rxqs := (rxqs s1)(cpu := (rxqs s1 cpu)[i := rxq'])\<rparr>))"

section \<open>Processing received packets\<close>

text \<open>The result is \<open>True\<close> for 0 and \<open>False\<close> for \<open>- EAGAIN\<close>.\<close>

definition eth_process_recv_queue :: "u32 \<Rightarrow> nat \<Rightarrow> eth_state \<Rightarrow> bool \<times> eth_state" where
  "eth_process_recv_queue cpu i s =
     (let rxq = rxqs s cpu ! i;
          pos = rxq_head rxq
      in if pos = NULL then (False, s)
         else
           let s1 = s\<lparr>rxqs := (rxqs s)(cpu := (rxqs s cpu)
                 [i := rxq\<lparr>rxq_head := links s pos, rxq_len := rxq_len rxq - 1\<rparr>])\<rparr>
           in (True, eth_input cpu pos s1))"

text \<open>One turn of the loop body over the queues, and the loop until all are empty or the
  batch is full. The result is the flag \<open>empty\<close>, the number of packets and the least
  timestamp seen.\<close>

fun recv_round :: "u32 \<Rightarrow> nat list \<Rightarrow> bool \<times> nat \<times> u64 \<times> eth_state \<Rightarrow> bool \<times> nat \<times> u64 \<times> eth_state" where
  "recv_round cpu [] st = st"
| "recv_round cpu (i # is) (emp, count, mints, s) =
     (let pos = rxq_head (rxqs s cpu ! i);
          mints' = (if pos \<noteq> NULL then min mints (tstamp s pos) else mints);
          (got, s') = eth_process_recv_queue cpu i s
      in recv_round cpu is (if got then (False, count + 1, mints', s') else (emp, count, mints', s')))"

fun recv_loop :: "nat \<Rightarrow> u32 \<Rightarrow> nat \<times> u64 \<times> eth_state \<Rightarrow> (bool \<times> nat \<times> u64 \<times> eth_state) res" where
  "recv_loop 0 cpu st = Inl Hang"
| "recv_loop (Suc fuel) cpu (count, mints, s) =
     (let (emp, count', mints', s') = recv_round cpu [0..<length (rxqs s cpu)] (True, count, mints, s)
      in if \<not> emp \<and> count' < eth_rx_max_batch then recv_loop fuel cpu (count', mints', s')
         else Inr (emp, count', mints', s'))"

text \<open>The inputs that the statistics read: the time stamp counter, the clock rate, the energy
  counter and its unit.\<close>

record clock =
  ck_now :: u64
  ck_khz :: u32
  ck_energy :: u64
  ck_unit :: u64

definition eth_process_recv :: "nat \<Rightarrow> clock \<Rightarrow> u32 \<Rightarrow> eth_state \<Rightarrow> (bool \<times> eth_state) res" where
  "eth_process_recv fuel ck cpu s =
     bindR (recv_loop fuel cpu (0, - 1, s)) (\<lambda>(emp, count, mints, s1).
     let backlog = word_of_int (sum_list (map rxq_len (rxqs s1 cpu))) in
     bindR (update_metrics (ck_khz ck) (ck_now ck) mints (of_nat count) backlog (cpu_stats s1 cpu)) (\<lambda>m.
     let s2 = s1\<lparr>cpu_stats := (cpu_stats s1)(cpu := m)\<rparr> in
     bindR (if cpu = 0 then update_power (ck_khz ck) (ck_now ck) (ck_energy ck) (ck_unit ck) (power_acc s2)
            else Inr (power_acc s2)) (\<lambda>pa.
     Inr (emp, s2\<lparr>power_acc := pa\<rparr>))))"

section \<open>Migration\<close>

text \<open>The index of the queue of the running CPU that belongs to the device of the group.\<close>

definition queue_from_fg :: "bool \<Rightarrow> u32 \<Rightarrow> eth_fg \<Rightarrow> eth_state \<Rightarrow> nat res" where
  "queue_from_fg bugs cpu fg s =
     (case find (\<lambda>i. rxq_dev (rxqs s cpu ! i) = fg_dev fg) [0..<length (rxqs s cpu)] of
        Some i \<Rightarrow> Inr i
      | None \<Rightarrow> bindR (BUG_ON bugs True) (\<lambda>_. Inl Fault))"

text \<open>
  The walk over the receive queue. \<open>prv\<close> is the cell that points to \<open>pkt\<close>: the head field
  of the queue, or the \<open>next\<close> field of a packet; a packet of the group is unlinked and
  appended to the remote queue \<open>q\<close>.
\<close>

datatype cell = Head | Next_of addr

definition set_cell :: "cell \<Rightarrow> addr \<Rightarrow> rx_queue \<times> nexts \<Rightarrow> rx_queue \<times> nexts" where
  "set_cell c v = (\<lambda>(rxq, nx). case c of Head \<Rightarrow> (rxq\<lparr>rxq_head := v\<rparr>, nx) | Next_of a \<Rightarrow> (rxq, nx(a := v)))"

definition get_cell :: "cell \<Rightarrow> rx_queue \<times> nexts \<Rightarrow> addr" where
  "get_cell c = (\<lambda>(rxq, nx). case c of Head \<Rightarrow> rxq_head rxq | Next_of a \<Rightarrow> nx a)"

fun migrate_walk ::
  "nat \<Rightarrow> (addr \<Rightarrow> u16) \<Rightarrow> u16 \<Rightarrow> cell \<Rightarrow> addr \<Rightarrow> rx_queue \<times> pkt_queue \<times> nexts \<Rightarrow>
   (cell \<times> rx_queue \<times> pkt_queue \<times> nexts) res" where
  "migrate_walk 0 fgof g prv pkt st = (if pkt = NULL then Inr (prv, st) else Inl Hang)"
| "migrate_walk (Suc fuel) fgof g prv pkt (rxq, q, nx) =
     (if pkt = NULL then Inr (prv, rxq, q, nx)
      else if g = fgof pkt then
        let (rxq1, nx1) = set_cell prv (nx pkt) (rxq, nx);
            (q', nx2) = enqueue q pkt nx1;
            rxq2 = rxq1\<lparr>rxq_len := rxq_len rxq1 - 1\<rparr>
        in migrate_walk fuel fgof g prv (get_cell prv (rxq2, nx2)) (rxq2, q', nx2)
      else migrate_walk fuel fgof g (Next_of pkt) (nx pkt) (rxq, q, nx))"

text \<open>
  \<open>container_of(prv, struct mbuf, next)\<close> is the last packet, or, when none is left, an
  address computed from the head field; the model writes NULL for it.
\<close>

definition migrate_pkts_to_remote :: "bool \<Rightarrow> nat \<Rightarrow> u32 \<Rightarrow> eth_fg \<Rightarrow> eth_state \<Rightarrow> eth_state res" where
  "migrate_pkts_to_remote bugs fuel cpu fg s =
     bindR (queue_from_fg bugs cpu fg s) (\<lambda>i.
     let rxq = rxqs s cpu ! i; t = target_cpu fg
     in bindR (migrate_walk fuel (pkt_fg s) (fg_id fg) Head (rxq_head rxq) (rxq, remote_q s t, links s))
        (\<lambda>(prv, rxq', q', nx').
          let rxq2 = rxq'\<lparr>rxq_tail := (case prv of Head \<Rightarrow> NULL | Next_of a \<Rightarrow> a)\<rparr>
          in Inr (s\<lparr>links := nx', rxqs := (rxqs s)(cpu := (rxqs s cpu)[i := rxq2]),
                     remote_q := (remote_q s)(t := q')\<rparr>)))"

text \<open>\<open>dev\<close> is the variable \<open>*eth\<close> of the caller, \<open>rss\<close> the table to fill in.\<close>

definition eth_fg_assign_single_to_cpu ::
  "bool \<Rightarrow> nat \<Rightarrow> u32 \<Rightarrow> nat \<Rightarrow> u32 \<Rightarrow> rss_reta \<Rightarrow> nat option \<Rightarrow> eth_state \<Rightarrow>
   (bool \<times> rss_reta \<times> nat option \<times> eth_state) res" where
  "eth_fg_assign_single_to_cpu bugs fuel me fgno cpu rss dev s =
     (case fgs s fgno of
        None \<Rightarrow> Inl Fault
      | Some fg \<Rightarrow>
          bindR (BUG_ON bugs (\<not> in_transition fg)) (\<lambda>_.
          if cur_cpu fg = cpu then Inr (False, rss, dev, s)
          else
            bindR (if cur_cpu fg = - 1 then
                     Inr (False, s\<lparr>fgs := (fgs s)(fgno := Some (fg\<lparr>cur_cpu := cpu\<rparr>))\<rparr>)
                   else
                     bindR (BUG_ON bugs (cur_cpu fg = me)) (\<lambda>_.
                     let fg1 = fg\<lparr>in_transition := True, prev_cpu := cur_cpu fg, cur_cpu := - 1,
                                 target_cpu := cpu\<rparr>
                     in bindR (migrate_pkts_to_remote bugs fuel me fg1
                                (s\<lparr>fgs := (fgs s)(fgno := Some fg1)\<rparr>)) (\<lambda>s1.
                        Inr (True, s1)))) (\<lambda>(ret, s1).
            let rss1 = (if fg_idx fg \<ge> 64
                        then rss\<lparr>mask_hi := mask_hi rss OR push_bit (unat (fg_idx fg - 64)) 1\<rparr>
                        else rss\<lparr>mask_lo := mask_lo rss OR push_bit (unat (fg_idx fg)) 1\<rparr>)
            in bindR (wr (reta rss1) (fg_idx fg) (ucast cpu)) (\<lambda>tbl.
               Inr (ret, rss1\<lparr>reta := tbl\<rparr>, Some (fg_dev fg),
                    s1\<lparr>flow_cpu := (flow_cpu s1)(fgno := cpu)\<rparr>)))))"

text \<open>
  The loops of \<open>eth_fg_assign_to_cpu\<close>. \<open>__bitmap_empty\<close> only tests the bitmap of the
  running CPU, so bits of earlier migrations stay set. The state of the inner loop is
  \<open>first_eth\<close>, \<open>eth[i]\<close>, the table, \<open>real\<close> and the state.
\<close>

type_synonym assign_loop = "nat option \<times> nat option \<times> rss_reta \<times> bool \<times> eth_state"

fun assign_groups ::
  "bool \<Rightarrow> nat \<Rightarrow> u32 \<Rightarrow> (nat \<Rightarrow> bool) \<Rightarrow> u32 \<Rightarrow> nat list \<Rightarrow> assign_loop \<Rightarrow> assign_loop res" where
  "assign_groups bugs fuel me bitmap cpu [] st = Inr st"
| "assign_groups bugs fuel me bitmap cpu (g # gs) (first, dev, rss, real, s) =
     (if \<not> bitmap g then assign_groups bugs fuel me bitmap cpu gs (first, dev, rss, real, s)
      else
        bindR (eth_fg_assign_single_to_cpu bugs fuel me g cpu rss dev s) (\<lambda>(ret, rss1, dev1, s1).
        let s2 = (if ret then s1\<lparr>mig := (mig s1)(me :=
                    (mig s1 me)\<lparr>mi_bitmap := (mi_bitmap (mig s1 me))(g := True)\<rparr>)\<rparr> else s1)
        in bindR (if first = None then Inr dev1
                  else bindR (BUG_ON bugs (first = dev1)) (\<lambda>_. Inr first)) (\<lambda>first1.
           assign_groups bugs fuel me bitmap cpu gs (first1, dev1, rss1, real \<or> ret, s2))))"

text \<open>One entry per device: \<open>eth[i]\<close> with its table, when a group of it was assigned.\<close>

fun assign_devices ::
  "(nat \<Rightarrow> u16 list) \<Rightarrow> bool \<Rightarrow> nat \<Rightarrow> u32 \<Rightarrow> (nat \<Rightarrow> bool) \<Rightarrow> u32 \<Rightarrow> nat list \<Rightarrow>
   (nat \<times> rss_reta) option list \<times> bool \<times> eth_state \<Rightarrow> ((nat \<times> rss_reta) option list \<times> bool \<times> eth_state) res" where
  "assign_devices tbls bugs fuel me bitmap cpu [] st = Inr st"
| "assign_devices tbls bugs fuel me bitmap cpu (i # is) (eths, real, s) =
     bindR (assign_groups bugs fuel me bitmap cpu [i * ETH_MAX_NUM_FG..<(i + 1) * ETH_MAX_NUM_FG]
              (None, None, \<lparr>mask_lo = 0, mask_hi = 0, reta = tbls i\<rparr>, real, s))
       (\<lambda>(_, dev, rss, real1, s1).
     assign_devices tbls bugs fuel me bitmap cpu is (eths @ [map_option (\<lambda>d. (d, rss)) dev], real1, s1))"

text \<open>
  \<open>migrate_fdir\<close> hands a flow-director group over at once. \<open>flows dev\<close> stands for its loop
  over the connections of the group, which replaces the filters of device \<open>dev\<close> and moves the
  connections between the hash tables (not modelled).
\<close>

definition migrate_fdir ::
  "bool \<Rightarrow> (nat option \<Rightarrow> nat \<Rightarrow> u32 \<Rightarrow> eth_state \<Rightarrow> eth_state res) \<Rightarrow> u32 \<Rightarrow> nat option \<Rightarrow> nat \<Rightarrow> u32 \<Rightarrow>
   eth_state \<Rightarrow> eth_state res" where
  "migrate_fdir bugs flows me dev g cpu s =
     (case fgs s g of
        None \<Rightarrow> Inl Fault
      | Some fg \<Rightarrow>
          bindR (BUG_ON bugs (cur_cpu fg = me)) (\<lambda>_.
          bindR (flows dev g cpu (s\<lparr>fgs := (fgs s)(g := Some (fg\<lparr>target_cpu := cpu\<rparr>))\<rparr>)) (\<lambda>s1.
          Inr (s1\<lparr>fgs := (fgs s1)(g := map_option (\<lambda>fg. fg\<lparr>cur_cpu := cpu\<rparr>) (fgs s1 g))\<rparr>))))"

fun migrate_outbound ::
  "bool \<Rightarrow> (nat option \<Rightarrow> nat \<Rightarrow> u32 \<Rightarrow> eth_state \<Rightarrow> eth_state res) \<Rightarrow> u32 \<Rightarrow> nat option \<Rightarrow> u32 \<Rightarrow> nat list \<Rightarrow>
   eth_state \<Rightarrow> eth_state res" where
  "migrate_outbound bugs flows me dev cpu [] s = Inr s"
| "migrate_outbound bugs flows me dev cpu (i # is) s =
     (case fgs s (ETH_MAX_TOTAL_FG + i) of
        None \<Rightarrow> migrate_outbound bugs flows me dev cpu is s
      | Some fg \<Rightarrow>
          if cur_cpu fg \<noteq> me then migrate_outbound bugs flows me dev cpu is s
          else bindR (migrate_fdir bugs flows me dev (ETH_MAX_TOTAL_FG + i) cpu s)
                 (migrate_outbound bugs flows me dev cpu is))"

text \<open>
  \<open>tbls\<close> holds the fresh memory of the redirection tables, of which only the two masks are
  cleared; the filled tables go to the devices. \<open>eths\<close> is \<open>eth[0]\<close>, used for the
  flow-director groups. The last loop of the function never acts, since \<open>migrate\<close> is 0.
\<close>

definition eth_fg_assign_to_cpu ::
  "(nat \<Rightarrow> u16 list) \<Rightarrow> bool \<Rightarrow> nat \<Rightarrow> nat \<Rightarrow> (nat option \<Rightarrow> nat \<Rightarrow> u32 \<Rightarrow> eth_state \<Rightarrow> eth_state res) \<Rightarrow>
   u32 \<Rightarrow> (nat \<Rightarrow> bool) \<Rightarrow> u32 \<Rightarrow> eth_state \<Rightarrow> eth_state res" where
  "eth_fg_assign_to_cpu tbls bugs fuel nr_cpus flows me bitmap cpu s =
     bindR (BUG_ON bugs (mi_prev_cpu (mig s me) = - 1)) (\<lambda>_.
     bindR (BUG_ON bugs (mi_prev_cpu (mig s cpu) = - 1)) (\<lambda>_.
     bindR (assign_devices tbls bugs fuel me bitmap cpu [0..<NETHDEV] ([], False, s)) (\<lambda>(eths, real, s1).
     let s2 = (if \<not> real then s1\<lparr>ready := (ready s1)(me := True)\<rparr>
               else
                 let mi = (mig s1 me)\<lparr>mi_prev_cpu := me, mi_target_cpu := cpu, mi_timer := True\<rparr>
                 in s1\<lparr>mig := (mig s1)(me := mi, cpu := mi)\<rparr>);
         s3 = s2\<lparr>reta_log := reta_log s2 @ List.map_filter (\<lambda>e. e) eths\<rparr>
     in if \<exists>i<ETH_MAX_TOTAL_FG. \<exists>fg. fgs s3 i = Some fg \<and> cur_cpu fg = me then Inr s3
        else migrate_outbound bugs flows me (map_option fst (hd eths)) cpu [0..<nr_cpus] s3)))"

section \<open>The end of a transition\<close>

fun deliver_all :: "nat \<Rightarrow> u32 \<Rightarrow> addr \<Rightarrow> eth_state \<Rightarrow> eth_state res" where
  "deliver_all 0 cpu p s = (if p = NULL then Inr s else Inl Hang)"
| "deliver_all (Suc fuel) cpu p s =
     (if p = NULL then Inr s
      else let nxt = links s p in deliver_all fuel cpu nxt (eth_input cpu p s))"

fun finish_groups :: "(nat \<Rightarrow> bool) \<Rightarrow> nat list \<Rightarrow> eth_state \<Rightarrow> eth_state res" where
  "finish_groups bitmap [] s = Inr s"
| "finish_groups bitmap (g # gs) s =
     (if \<not> bitmap g then finish_groups bitmap gs s
      else case fgs s g of
        None \<Rightarrow> Inl Fault
      | Some fg \<Rightarrow> finish_groups bitmap gs (s\<lparr>fgs := (fgs s)(g := Some (fg\<lparr>in_transition := False,
          cur_cpu := target_cpu fg, target_cpu := - 1, prev_cpu := - 1\<rparr>))\<rparr>))"

text \<open>Runs on CPU \<open>me\<close> with the \<open>migration_info\<close> of CPU \<open>owner\<close>.\<close>

definition transition_handler_target :: "bool \<Rightarrow> nat \<Rightarrow> u32 \<Rightarrow> u32 \<Rightarrow> eth_state \<Rightarrow> eth_state res" where
  "transition_handler_target bugs fuel me owner s =
     (let prev = mi_prev_cpu (mig s owner) in
      bindR (finish_groups (mi_bitmap (mig s owner)) [0..<ETH_MAX_TOTAL_FG] s) (\<lambda>s1.
      bindR (deliver_all fuel me (q_head (remote_q s1 me)) s1) (\<lambda>s2.
      let s3 = s2\<lparr>remote_q := (remote_q s2)(me := \<lparr>q_head = NULL, q_tail = NULL\<rparr>)\<rparr> in
      bindR (deliver_all fuel me (q_head (local_q s3 me)) s3) (\<lambda>s4.
      let s5 = s4\<lparr>local_q := (local_q s4)(me := \<lparr>q_head = NULL, q_tail = NULL\<rparr>),
                  scratchpad_idx := scratchpad_idx s4 + 1\<rparr>
      in bindR (BUG_ON bugs (scratchpad_idx s5 < 1024)) (\<lambda>_.
         let s6 = s5\<lparr>mig := (mig s5)(me := (mig s5 me)\<lparr>mi_prev_cpu := - 1\<rparr>)\<rparr>
         in Inr (s6\<lparr>mig := (mig s6)(owner := (mig s6 owner)\<lparr>mi_prev_cpu := - 1\<rparr>),
                    ready := (ready s6)(prev := True)\<rparr>))))))"

text \<open>The timer of the previous CPU, and the early end that the target CPU asks for: \<open>poll\<close> is
  \<open>eth_process_poll\<close>, which receives what the hardware still holds.\<close>

definition transition_handler_prev :: "u32 \<Rightarrow> eth_state \<Rightarrow> eth_state" where
  "transition_handler_prev me s =
     s\<lparr>calls := calls s @ [(mi_target_cpu (mig s me), Transition_target me)]\<rparr>"

definition early_transition_handler_prev ::
  "(u32 \<Rightarrow> eth_state \<Rightarrow> eth_state res) \<Rightarrow> u32 \<Rightarrow> eth_state \<Rightarrow> eth_state res" where
  "early_transition_handler_prev poll me s =
     (if \<not> mi_timer (mig s me) then Inr s
      else
        bindR (poll me (s\<lparr>mig := (mig s)(me := (mig s me)\<lparr>mi_timer := False\<rparr>)\<rparr>)) (\<lambda>s1.
        Inr (s1\<lparr>calls := calls s1 @ [(mi_target_cpu (mig s1 me), Transition_target me)]\<rparr>)))"

section \<open>Sending\<close>

record eth_tx_queue =
  tx_cap :: int
  tx_bufs :: "addr list"

definition ETH_DEV_TX_QUEUE_SZ :: nat where "ETH_DEV_TX_QUEUE_SZ = 2048"

text \<open>\<open>bufs\<close> is the used part of the array of 2048 cells; writing behind it is a fault.\<close>

definition eth_send :: "eth_tx_queue \<Rightarrow> (addr \<Rightarrow> mbuf) \<Rightarrow> addr \<Rightarrow> (u32 \<times> eth_tx_queue) res" where
  "eth_send txq mbs m =
     (let nr = 1 + sint (mb_nr_iov (mbs m))
      in if nr > tx_cap txq then Inr (- EBUSY, txq)
         else if length (tx_bufs txq) \<ge> ETH_DEV_TX_QUEUE_SZ then Inl Fault
         else Inr (0, txq\<lparr>tx_bufs := tx_bufs txq @ [m], tx_cap := tx_cap txq - nr\<rparr>))"

definition eth_send_one :: "eth_tx_queue \<Rightarrow> mbuf_world \<Rightarrow> addr \<Rightarrow> nat \<Rightarrow> ((u32 \<times> eth_tx_queue) res) \<times> mbuf_world" where
  "eth_send_one txq w m len =
     (let w1 = set_mbuf_len m len w;
          w2 = w1\<lparr>mw_mbufs := (mw_mbufs w1)(m := (mw_mbufs w1 m)\<lparr>mb_nr_iov := 0\<rparr>)\<rparr>
      in (eth_send txq (mw_mbufs w2) m, w2))"

end
