(* ===== verification/Migration_Spec.thy ===== *)
theory Migration_Spec
  imports Flow_Groups_Spec
begin

text \<open>
  Migration of a flow group (\<open>core/ethfg.c\<close>): the split of the receive queue, the arrivals
  during the transition, and the hand-over at its end.
\<close>

section \<open>Splitting the receive queue\<close>

lemma disjointD_last: "ks \<noteq> [] \<Longrightarrow> set ks \<inter> A = {} \<Longrightarrow> last ks \<notin> A"
  using last_in_set by blast

lemma chain_unlink:
  assumes "chain nx p (ks @ x # xs)" and "ks \<noteq> []" and "distinct (ks @ x # xs)"
  shows "chain (nx(last ks := nx x)) p (ks @ xs)"
proof -
  have "chain nx x (x # xs)" using chain_tail [OF assms(1)] assms(2) by auto
  then have "chain nx (nx x) xs" by simp
  moreover have "last ks \<notin> set xs"
    using assms(3) disjointD_last [OF assms(2)] by auto
  ultimately have t: "chain (nx(last ks := NULL)) (nx x) xs" by simp
  have k: "chain (nx(last ks := NULL)) p ks" by (rule chain_cut [OF assms(1,2)]) (use assms(3) in simp)
  have "chain ((nx(last ks := NULL))(last ks := nx x)) p (ks @ xs)"
    by (rule chain_join [OF k assms(2) _ t]) (use assms(3) in auto)
  then show ?thesis by simp
qed

definition cell_of :: "addr list \<Rightarrow> cell" where
  "cell_of ks = (if ks = [] then Head else Next_of (last ks))"

lemma get_cell_of: "chain nx (rxq_head r) (ks @ xs) \<Longrightarrow> get_cell (cell_of ks) (r, nx) = (if xs = [] then NULL else hd xs)"
  using chain_tail [of nx "rxq_head r" ks xs]
  by (cases xs) (auto simp: cell_of_def get_cell_def split: if_splits)

lemma cell_of_snoc: "cell_of (ks @ [x]) = Next_of x"
  by (simp add: cell_of_def)

lemma set_cell_unlink:
  assumes "chain nx (rxq_head r) (ks @ x # xs)" and "distinct (ks @ x # xs)"
    and "set_cell (cell_of ks) (nx x) (r, nx) = (r1, nx1)"
  shows "chain nx1 (rxq_head r1) (ks @ xs)" and "rxq_len r1 = rxq_len r" and "rxq_dev r1 = rxq_dev r"
    and "\<And>a. a \<notin> set ks \<Longrightarrow> nx1 a = nx a"
  using assms chain_unlink [OF assms(1) _ assms(2)]
  by (auto simp: set_cell_def cell_of_def split: if_splits)

lemma migrate_walk_splits:
  assumes "chain nx (rxq_head r) (ks @ xs)" and "distinct (ks @ xs)" and "fifo_ok nx q ys"
    and "set ys \<inter> set (ks @ xs) = {}" and "length xs \<le> fuel" and "chain nx p xs"
  shows "\<exists>r' q' nx'. migrate_walk fuel fgof g (cell_of ks) p (r, q, nx) =
       Inr (cell_of (ks @ filter (\<lambda>p. fgof p \<noteq> g) xs), r', q', nx') \<and>
     chain nx' (rxq_head r') (ks @ filter (\<lambda>p. fgof p \<noteq> g) xs) \<and>
     fifo_ok nx' q' (ys @ filter (\<lambda>p. fgof p = g) xs) \<and>
     rxq_len r' = rxq_len r - int (length (filter (\<lambda>p. fgof p = g) xs)) \<and> rxq_dev r' = rxq_dev r \<and>
     (\<forall>a. a \<notin> set (ks @ xs) \<longrightarrow> a \<notin> set ys \<longrightarrow> nx' a = nx a)"
  using assms
proof (induction xs arbitrary: ks ys nx r q p fuel)
  case Nil
  then have "migrate_walk fuel fgof g (cell_of ks) p (r, q, nx) = Inr (cell_of ks, r, q, nx)"
    by (cases fuel) auto
  with Nil show ?case by simp
next
  case (Cons x xs)
  then obtain n where n: "fuel = Suc n" "length xs \<le> n" by (cases fuel) auto
  have p: "p = x" "x \<noteq> NULL" and ch: "chain nx (nx x) xs" using Cons.prems(6) by auto
  show ?case
  proof (cases "fgof x = g")
    case False
    have "\<exists>r' q' nx'. migrate_walk n fgof g (cell_of (ks @ [x])) (nx x) (r, q, nx) =
       Inr (cell_of ((ks @ [x]) @ filter (\<lambda>p. fgof p \<noteq> g) xs), r', q', nx') \<and>
     chain nx' (rxq_head r') ((ks @ [x]) @ filter (\<lambda>p. fgof p \<noteq> g) xs) \<and>
     fifo_ok nx' q' (ys @ filter (\<lambda>p. fgof p = g) xs) \<and>
     rxq_len r' = rxq_len r - int (length (filter (\<lambda>p. fgof p = g) xs)) \<and> rxq_dev r' = rxq_dev r \<and>
     (\<forall>a. a \<notin> set ((ks @ [x]) @ xs) \<longrightarrow> a \<notin> set ys \<longrightarrow> nx' a = nx a)"
      by (rule Cons.IH) (use Cons.prems ch n in auto)
    then show ?thesis using False p n by (simp add: cell_of_snoc)
  next
    case True
    obtain r1 nx1 where s: "set_cell (cell_of ks) (nx x) (r, nx) = (r1, nx1)" by fastforce
    note u = set_cell_unlink [OF Cons.prems(1,2) s]
    have dis: "set ys \<inter> set ks = {}" "x \<notin> set ys" "set ys \<inter> set xs = {}" using Cons.prems(4) by auto
    have q1: "fifo_ok nx1 q ys"
      by (rule pq.ok_agree [OF _ Cons.prems(3)]) (use u(4) dis in \<open>auto simp: disjoint_iff\<close>)
    obtain q2 nx2 where e: "enqueue q x nx1 = (q2, nx2)" and q2: "fifo_ok nx2 q2 (ys @ [x])"
      and f2: "\<forall>a. a \<noteq> x \<longrightarrow> a \<notin> set ys \<longrightarrow> nx2 a = nx1 a"
      using pq.put_cases [OF q1 p(2) dis(2)] by blast
    have c2: "chain nx2 (rxq_head r1) (ks @ xs)"
      using pq.put_chain [OF q1 e, of "ks @ xs"] u(1) dis Cons.prems(2) by auto
    let ?r = "r1\<lparr>rxq_len := rxq_len r1 - 1\<rparr>"
    have g2: "get_cell (cell_of ks) (?r, nx2) = (if xs = [] then NULL else hd xs)"
      by (rule get_cell_of) (use c2 in simp)
    have t2: "chain nx2 (get_cell (cell_of ks) (?r, nx2)) xs"
      using chain_tail [OF c2] by (auto simp: cell_of_def get_cell_def)
    have "\<exists>r' q' nx'. migrate_walk n fgof g (cell_of ks) (get_cell (cell_of ks) (?r, nx2)) (?r, q2, nx2) =
       Inr (cell_of (ks @ filter (\<lambda>p. fgof p \<noteq> g) xs), r', q', nx') \<and>
     chain nx' (rxq_head r') (ks @ filter (\<lambda>p. fgof p \<noteq> g) xs) \<and>
     fifo_ok nx' q' ((ys @ [x]) @ filter (\<lambda>p. fgof p = g) xs) \<and>
     rxq_len r' = rxq_len ?r - int (length (filter (\<lambda>p. fgof p = g) xs)) \<and> rxq_dev r' = rxq_dev ?r \<and>
     (\<forall>a. a \<notin> set (ks @ xs) \<longrightarrow> a \<notin> set (ys @ [x]) \<longrightarrow> nx' a = nx2 a)"
      by (rule Cons.IH [OF _ _ q2]) (use Cons.prems c2 t2 n in auto)
    then obtain r' q' nx' where w: "migrate_walk n fgof g (cell_of ks) (get_cell (cell_of ks) (?r, nx2)) (?r, q2, nx2) =
       Inr (cell_of (ks @ filter (\<lambda>p. fgof p \<noteq> g) xs), r', q', nx')"
      and res: "chain nx' (rxq_head r') (ks @ filter (\<lambda>p. fgof p \<noteq> g) xs)"
       "fifo_ok nx' q' ((ys @ [x]) @ filter (\<lambda>p. fgof p = g) xs)"
       "rxq_len r' = rxq_len ?r - int (length (filter (\<lambda>p. fgof p = g) xs))" "rxq_dev r' = rxq_dev ?r"
       "\<forall>a. a \<notin> set (ks @ xs) \<longrightarrow> a \<notin> set (ys @ [x]) \<longrightarrow> nx' a = nx2 a"
      by blast
    have "migrate_walk fuel fgof g (cell_of ks) p (r, q, nx) =
       Inr (cell_of (ks @ filter (\<lambda>p. fgof p \<noteq> g) (x # xs)), r', q', nx')"
      using w True p n s e by (simp add: Let_def)
    moreover have "\<forall>a. a \<notin> set (ks @ x # xs) \<longrightarrow> a \<notin> set ys \<longrightarrow> nx' a = nx a"
      using res(5) f2 u(4) by simp
    ultimately show ?thesis using res(1-4) True u(2,3) by auto
  qed
qed


lemma queue_from_fg_found:
  assumes "i < length (rxqs s me)" and "rxq_dev (rxqs s me ! i) = fg_dev fg"
    and "\<forall>j<i. rxq_dev (rxqs s me ! j) \<noteq> fg_dev fg"
  shows "queue_from_fg bugs me fg s = Inr i"
proof -
  have "find (\<lambda>i. rxq_dev (rxqs s me ! i) = fg_dev fg) [0..<length (rxqs s me)] = Some i"
    unfolding find_Some_iff using assms by (intro exI [of _ i]) auto
  then show ?thesis by (simp add: queue_from_fg_def)
qed

text \<open>Replacing one receive queue while all other chains stay.\<close>

lemma rx_lists_replace:
  assumes "rx_lists me qs s" and "i < length qs" and "rx_list nx' r' zs" and "set zs \<subseteq> set (qs ! i)"
    and "\<And>a. a \<notin> set (qs ! i) \<Longrightarrow> a \<notin> set ys \<Longrightarrow> nx' a = links s a"
    and "\<forall>j<length qs. set ys \<inter> set (qs ! j) = {}"
  shows "rx_lists me (qs[i := zs]) (s\<lparr>links := nx', rxqs := (rxqs s)(me := (rxqs s me)[i := r'])\<rparr>)"
proof -
  have dis: "set (qs ! j) \<inter> set (qs ! k) = {}" if "j < length qs" "k < length qs" "j \<noteq> k" for j k
    using assms(1) that by (simp add: rx_lists_def)
  have other: "rx_list nx' (rxqs s me ! j) (qs ! j)" if "j < length qs" "j \<noteq> i" for j
    by (rule rq.ok_agree [OF _ rx_lists_nth [OF assms(1) that(1)]])
      (use assms(5,6) dis [OF that(1) assms(2) that(2)] that(1) in \<open>force simp: disjoint_iff\<close>)
  show ?thesis unfolding rx_lists_def
  proof (intro conjI allI impI)
    fix j assume "j < length (qs[i := zs])"
    then show "rx_list (links (s\<lparr>links := nx', rxqs := (rxqs s)(me := (rxqs s me)[i := r'])\<rparr>))
        (rxqs (s\<lparr>links := nx', rxqs := (rxqs s)(me := (rxqs s me)[i := r'])\<rparr>) me ! j) (qs[i := zs] ! j)"
      using other [of j] assms(1-3) by (cases "j = i") (simp_all add: rx_lists_def)
  next
    fix j k assume "j < length (qs[i := zs])" "k < length (qs[i := zs])" "j \<noteq> k"
    then show "set (qs[i := zs] ! j) \<inter> set (qs[i := zs] ! k) = {}"
      using dis [of j k] assms(2,4) by (cases "j = i"; cases "k = i") auto
  qed (use assms(1) in \<open>simp add: rx_lists_def\<close>)
qed

lemma migrate_pkts_splits:
  assumes "rx_lists me qs s" and "i < length qs" and "queue_from_fg bugs me fg s = Inr i"
    and "fifo_ok (links s) (remote_q s (target_cpu fg)) ys" and "\<forall>j<length qs. set ys \<inter> set (qs ! j) = {}"
    and "length (qs ! i) \<le> fuel"
  shows "\<exists>s'. migrate_pkts_to_remote bugs fuel me fg s = Inr s' \<and>
     rx_lists me (qs[i := filter (\<lambda>p. pkt_fg s p \<noteq> fg_id fg) (qs ! i)]) s' \<and>
     fifo_ok (links s') (remote_q s' (target_cpu fg)) (ys @ filter (\<lambda>p. pkt_fg s p = fg_id fg) (qs ! i)) \<and>
     s' = s\<lparr>links := links s', rxqs := (rxqs s)(me := rxqs s' me),
            remote_q := (remote_q s)(target_cpu fg := remote_q s' (target_cpu fg))\<rparr>"
proof -
  let ?xs = "qs ! i" and ?t = "target_cpu fg" and ?r = "rxqs s me ! i"
  let ?keep = "filter (\<lambda>p. pkt_fg s p \<noteq> fg_id fg) ?xs" and ?go = "filter (\<lambda>p. pkt_fg s p = fg_id fg) ?xs"
  have r: "chain (links s) (rxq_head ?r) ?xs" "distinct ?xs" "rxq_len ?r = int (length ?xs)"
    using rx_lists_nth [OF assms(1,2)] by (auto simp: rx_list_def)
  have "set ys \<inter> set ?xs = {}" using assms(2,5) by blast
  then obtain r' q' nx' where w: "migrate_walk fuel (pkt_fg s) (fg_id fg) Head (rxq_head ?r) (?r, remote_q s ?t, links s) =
       Inr (cell_of ?keep, r', q', nx')" and k: "chain nx' (rxq_head r') ?keep" and g: "fifo_ok nx' q' (ys @ ?go)"
    and l: "rxq_len r' = rxq_len ?r - int (length ?go)"
    and f: "\<forall>a. a \<notin> set ?xs \<longrightarrow> a \<notin> set ys \<longrightarrow> nx' a = links s a"
    using migrate_walk_splits [of "links s" ?r "[]" ?xs "remote_q s ?t" ys fuel "rxq_head ?r" "pkt_fg s" "fg_id fg"]
      r assms(4,6) by (auto simp: cell_of_def)
  define r2 where "r2 = r'\<lparr>rxq_tail := (case cell_of ?keep of Head \<Rightarrow> NULL | Next_of a \<Rightarrow> a)\<rparr>"
  have "length ?keep + length ?go = length ?xs"
    using sum_length_filter_compl [of "\<lambda>p. pkt_fg s p = fg_id fg" ?xs] by (simp add: add.commute)
  then have "rx_list nx' r2 ?keep"
    using k l r by (auto simp: rx_list_def r2_def cell_of_def)
  then have rl: "rx_lists me (qs[i := ?keep]) (s\<lparr>links := nx', rxqs := (rxqs s)(me := (rxqs s me)[i := r2])\<rparr>)"
    by (rule rx_lists_replace [OF assms(1,2)]) (use f assms(5) in auto)
  have "migrate_pkts_to_remote bugs fuel me fg s = Inr (s\<lparr>links := nx', rxqs := (rxqs s)(me := (rxqs s me)[i := r2]),
                     remote_q := (remote_q s)(?t := q')\<rparr>)"
    by (simp add: migrate_pkts_to_remote_def assms(3) w r2_def Let_def)
  then show ?thesis using rl g by (simp add: rx_lists_def)
qed

text \<open>C26: Assigning an owned group to another CPU splits the receive queue by group,
  keeping both orders, and marks the group in transition.\<close>

theorem assign_starts_transition:
  assumes "fgs s g = Some fg" and "cur_cpu fg = me" and "me \<noteq> - 1" and "me \<noteq> cpu"
    and "rx_lists me qs s" and "i < length qs" and "rxq_dev (rxqs s me ! i) = fg_dev fg"
    and "\<forall>j<i. rxq_dev (rxqs s me ! j) \<noteq> fg_dev fg"
    and "fifo_ok (links s) (remote_q s cpu) ys" and "\<forall>j<length qs. set ys \<inter> set (qs ! j) = {}"
    and "length (qs ! i) \<le> fuel" and "length (reta rss) = 128" and "unat (fg_idx fg) < 128"
  shows "\<exists>rss' s'. eth_fg_assign_single_to_cpu False fuel me g cpu rss dev s = Inr (True, rss', Some (fg_dev fg), s') \<and>
     fgs s' g = Some (fg\<lparr>in_transition := True, prev_cpu := me, cur_cpu := - 1, target_cpu := cpu\<rparr>) \<and>
     rx_lists me (qs[i := filter (\<lambda>p. pkt_fg s p \<noteq> fg_id fg) (qs ! i)]) s' \<and>
     fifo_ok (links s') (remote_q s' cpu) (ys @ filter (\<lambda>p. pkt_fg s p = fg_id fg) (qs ! i)) \<and>
     local_q s' = local_q s \<and> delivered s' = delivered s \<and> pkt_fg s' = pkt_fg s \<and>
     reta rss' = (reta rss)[unat (fg_idx fg) := ucast cpu] \<and> flow_cpu s' g = cpu"
proof -
  let ?fg = "fg\<lparr>in_transition := True, prev_cpu := me, cur_cpu := - 1, target_cpu := cpu\<rparr>"
  let ?s = "s\<lparr>fgs := (fgs s)(g := Some ?fg)\<rparr>"
  have len: "length (rxqs s me) = length qs" using assms(5) by (simp add: rx_lists_def)
  have q: "queue_from_fg False me ?fg ?s = Inr i"
    by (rule queue_from_fg_found) (use assms(6-8) len in auto)
  obtain s' where m: "migrate_pkts_to_remote False fuel me ?fg ?s = Inr s'"
    and rl: "rx_lists me (qs[i := filter (\<lambda>p. pkt_fg s p \<noteq> fg_id fg) (qs ! i)]) s'"
    and ff: "fifo_ok (links s') (remote_q s' cpu) (ys @ filter (\<lambda>p. pkt_fg s p = fg_id fg) (qs ! i))"
    and fr: "s' = ?s\<lparr>links := links s', rxqs := (rxqs ?s)(me := rxqs s' me),
            remote_q := (remote_q ?s)(cpu := remote_q s' cpu)\<rparr>"
    using migrate_pkts_splits [OF _ assms(6) q _ assms(10,11)] assms(5,9) by (auto simp: rx_lists_def)
  have keep: "fgs s' = (fgs s)(g := Some ?fg)" "local_q s' = local_q s" "delivered s' = delivered s" "pkt_fg s' = pkt_fg s"
    by (subst fr, simp)+
  show ?thesis using rl ff keep assms(1-4,12,13)
    by (auto simp: eth_fg_assign_single_to_cpu_def m Let_def rx_lists_def)
qed


text \<open>A witness: CPU 0 gives group 0 to CPU 1. The packets of group 7 stay.\<close>

definition before_move :: eth_state where
  "before_move = two_queues\<lparr>pkt_fg := (\<lambda>_. 0)(20 := 7),
     rxqs := (rxqs two_queues)(0 := [\<lparr>rxq_head = 10, rxq_tail = 20, rxq_len = 2, rxq_dev = 1\<rparr>,
        \<lparr>rxq_head = 30, rxq_tail = 30, rxq_len = 1, rxq_dev = 2\<rparr>])\<rparr>"

lemma before_move_lists: "rx_lists 0 [[10, 20], [30]] before_move"
  by (auto simp: rx_lists_def rx_list_def before_move_def two_queues_def less_Suc_eq)

definition rss0 :: rss_reta where "rss0 = \<lparr>mask_lo = 0, mask_hi = 0, reta = replicate 128 0\<rparr>"

theorem assign_starts_transition_witness:
  "\<exists>rss' s'. eth_fg_assign_single_to_cpu False 2 0 0 1 rss0 None before_move = Inr (True, rss', Some 1, s') \<and>
     rx_lists 0 [[20], [30]] s' \<and> fifo_ok (links s') (remote_q s' 1) [10]"
proof -
  have q: "fifo_ok (links before_move) (remote_q before_move 1) []"
    by (simp add: fifo_ok_def before_move_def two_queues_def)
  show ?thesis
    using assign_starts_transition [OF _ _ _ _ before_move_lists _ _ _ q, of 0 "fg_at 0" 0 2 rss0 None]
    by (force simp: before_move_def two_queues_def fg_at_def rss0_def less_Suc_eq)
qed

section \<open>Arrivals during a transition\<close>

text \<open>Group \<open>g\<close> is moving from \<open>prv\<close> to \<open>tgt\<close>; \<open>R\<close> and \<open>L\<close> are the packets held back on the
  two sides.\<close>

definition migrating :: "nat \<Rightarrow> eth_fg \<Rightarrow> addr list \<Rightarrow> addr list \<Rightarrow> eth_state \<Rightarrow> bool" where
  "migrating g fg R L s \<longleftrightarrow> fgs s g = Some fg \<and> in_transition fg \<and> prev_cpu fg \<noteq> target_cpu fg \<and>
     fifo_ok (links s) (remote_q s (target_cpu fg)) R \<and> fifo_ok (links s) (local_q s (target_cpu fg)) L \<and>
     set R \<inter> set L = {}"

text \<open>A run of receptions: CPU, receive queue and packet of each.\<close>

type_synonym arrival = "u32 \<times> nat \<times> addr"

fun receive_all :: "arrival list \<Rightarrow> eth_state \<Rightarrow> eth_state res" where
  "receive_all [] s = Inr s"
| "receive_all ((cpu, i, p) # evs) s =
     bindR (eth_recv cpu i p s) (\<lambda>(rc, s1). if rc = 0 then receive_all evs s1 else Inl Fault)"

definition arrivals_at :: "u32 \<Rightarrow> arrival list \<Rightarrow> addr list" where
  "arrivals_at cpu evs = map (snd \<circ> snd) (filter (\<lambda>e. fst e = cpu) evs)"

definition of_group :: "nat \<Rightarrow> eth_state \<Rightarrow> addr \<Rightarrow> bool" where
  "of_group g s p \<longleftrightarrow> pkt_fg s p \<noteq> MBUF_INVALID_FG_ID \<and> unat (pkt_fg s p) = g \<and> p \<noteq> NULL"

lemma recv_prev:
  assumes "migrating g fg R L s" and "of_group g s p" and "p \<notin> set R \<union> set L"
  shows "\<exists>s'. eth_recv (prev_cpu fg) i p s = Inr (0, s') \<and> migrating g fg (R @ [p]) L s' \<and>
     delivered s' = delivered s \<and> pkt_fg s' = pkt_fg s \<and> mig s' = mig s \<and> fgs s' = fgs s"
proof -
  let ?t = "target_cpu fg"
  have m: "fgs s g = Some fg" "in_transition fg" "fifo_ok (links s) (remote_q s ?t) R"
    "fifo_ok (links s) (local_q s ?t) L" "set R \<inter> set L = {}" "prev_cpu fg \<noteq> ?t"
    using assms(1) by (auto simp: migrating_def)
  have p: "p \<noteq> NULL" "p \<notin> set R" "p \<notin> set L" using assms(2,3) by (auto simp: of_group_def)
  obtain q' nx' where e: "enqueue (remote_q s ?t) p (links s) = (q', nx')" and ok: "fifo_ok nx' q' (R @ [p])"
    using pq.put_cases [OF m(3) p(1,2)] by blast
  have L: "fifo_ok nx' (local_q s ?t) L" by (rule pq.put_keeps [OF m(3) e p(3) m(5,4)])
  show ?thesis using assms(2) m p ok L
    by (simp add: eth_recv_def eth_recv_handle_fg_transition_def eth_recv_at_prev_def of_group_def e migrating_def)
qed

lemma recv_target:
  assumes "migrating g fg R L s" and "of_group g s p" and "p \<notin> set R \<union> set L"
  shows "\<exists>s'. eth_recv (target_cpu fg) i p s = Inr (0, s') \<and> migrating g fg R (L @ [p]) s' \<and>
     delivered s' = delivered s \<and> pkt_fg s' = pkt_fg s \<and> mig s' = mig s \<and> fgs s' = fgs s"
proof -
  let ?t = "target_cpu fg"
  have m: "fgs s g = Some fg" "in_transition fg" "fifo_ok (links s) (remote_q s ?t) R"
    "fifo_ok (links s) (local_q s ?t) L" "set R \<inter> set L = {}" "prev_cpu fg \<noteq> ?t"
    using assms(1) by (auto simp: migrating_def)
  have p: "p \<noteq> NULL" "p \<notin> set R" "p \<notin> set L" using assms(2,3) by (auto simp: of_group_def)
  obtain q' nx' where e: "enqueue (local_q s ?t) p (links s) = (q', nx')" and ok: "fifo_ok nx' q' (L @ [p])"
    using pq.put_cases [OF m(4) p(1,3)] by blast
  have R: "fifo_ok nx' (remote_q s ?t) R" by (rule pq.put_keeps [OF m(4) e p(2) _ m(3)]) (use m(5) in auto)
  show ?thesis using assms(2) m p ok R
    by (auto simp: eth_recv_def eth_recv_handle_fg_transition_def eth_recv_at_target_def of_group_def e migrating_def Let_def)
qed

lemma receive_all_migrating:
  assumes "migrating g fg R L s" and "\<forall>(cpu, i, p)\<in>set evs. (cpu = prev_cpu fg \<or> cpu = target_cpu fg) \<and> of_group g s p"
    and "distinct (map (snd \<circ> snd) evs)" and "(snd \<circ> snd) ` set evs \<inter> (set R \<union> set L) = {}"
  shows "\<exists>s'. receive_all evs s = Inr s' \<and>
     migrating g fg (R @ arrivals_at (prev_cpu fg) evs) (L @ arrivals_at (target_cpu fg) evs) s' \<and>
     delivered s' = delivered s \<and> mig s' = mig s \<and> fgs s' = fgs s"
  using assms
proof (induction evs arbitrary: R L s)
  case Nil
  then show ?case by (simp add: arrivals_at_def)
next
  case (Cons e evs)
  obtain cpu i p where e: "e = (cpu, i, p)" by (cases e)
  have pg: "of_group g s p" "p \<notin> set R \<union> set L" using Cons.prems(2,4) e by auto
  have ne: "prev_cpu fg \<noteq> target_cpu fg" using Cons.prems(1) by (simp add: migrating_def)
  have grp: "of_group g s' = of_group g s" if "pkt_fg s' = pkt_fg s" for s' using that by (simp add: of_group_def fun_eq_iff)
  show ?case
  proof (cases "cpu = prev_cpu fg")
    case True
    obtain s1 where s1: "eth_recv cpu i p s = Inr (0, s1)" "migrating g fg (R @ [p]) L s1"
      "delivered s1 = delivered s" "pkt_fg s1 = pkt_fg s" "mig s1 = mig s" "fgs s1 = fgs s"
      using recv_prev [OF Cons.prems(1) pg] True by blast
    have "\<exists>s'. receive_all evs s1 = Inr s' \<and>
       migrating g fg ((R @ [p]) @ arrivals_at (prev_cpu fg) evs) (L @ arrivals_at (target_cpu fg) evs) s' \<and>
       delivered s' = delivered s1 \<and> mig s' = mig s1 \<and> fgs s' = fgs s1"
      by (rule Cons.IH [OF s1(2)]) (use Cons.prems(2-4) e grp [OF s1(4)] in auto)
    with s1 True ne show ?thesis by (simp add: e arrivals_at_def)
  next
    case False
    with Cons.prems(2) e have c: "cpu = target_cpu fg" by auto
    obtain s1 where s1: "eth_recv cpu i p s = Inr (0, s1)" "migrating g fg R (L @ [p]) s1"
      "delivered s1 = delivered s" "pkt_fg s1 = pkt_fg s" "mig s1 = mig s" "fgs s1 = fgs s"
      using recv_target [OF Cons.prems(1) pg] c by blast
    have "\<exists>s'. receive_all evs s1 = Inr s' \<and>
       migrating g fg (R @ arrivals_at (prev_cpu fg) evs) ((L @ [p]) @ arrivals_at (target_cpu fg) evs) s' \<and>
       delivered s' = delivered s1 \<and> mig s' = mig s1 \<and> fgs s' = fgs s1"
      by (rule Cons.IH [OF s1(2)]) (use Cons.prems(2-4) e grp [OF s1(4)] in auto)
    with s1 False c show ?thesis by (simp add: e arrivals_at_def)
  qed
qed


section \<open>The end of a transition\<close>

lemma deliver_all_chain:
  assumes "chain (links s) p xs" and "distinct xs" and "length xs \<le> fuel"
  shows "\<exists>nx. deliver_all fuel cpu p s = Inr (s\<lparr>links := nx, delivered := (delivered s)(cpu := delivered s cpu @ xs)\<rparr>) \<and>
     (\<forall>a. a \<notin> set xs \<longrightarrow> nx a = links s a)"
  using assms
proof (induction xs arbitrary: p s fuel)
  case Nil
  then show ?case by (cases fuel) (auto intro!: exI [of _ "links s"])
next
  case (Cons x xs)
  then obtain n where n: "fuel = Suc n" "length xs \<le> n" by (cases fuel) auto
  let ?s = "eth_input cpu x s"
  have "chain (links ?s) (links s x) xs" using Cons.prems by (simp add: eth_input_def)
  moreover have "distinct xs" using Cons.prems(2) by simp
  ultimately obtain nx where
    nx: "deliver_all n cpu (links s x) ?s = Inr (?s\<lparr>links := nx, delivered := (delivered ?s)(cpu := delivered ?s cpu @ xs)\<rparr>)"
      "\<forall>a. a \<notin> set xs \<longrightarrow> nx a = links ?s a" using Cons.IH [OF _ _ n(2)] by blast
  have "deliver_all fuel cpu p s = Inr (s\<lparr>links := nx, delivered := (delivered s)(cpu := delivered s cpu @ x # xs)\<rparr>)"
    using nx(1) Cons.prems(1) n(1) by (simp add: Let_def eth_input_def)
  moreover have "\<forall>a. a \<notin> set (x # xs) \<longrightarrow> nx a = links s a" using nx(2) by (simp add: eth_input_def)
  ultimately show ?case by blast
qed

definition finished :: "eth_fg \<Rightarrow> eth_fg" where
  "finished fg = fg\<lparr>in_transition := False, cur_cpu := target_cpu fg, target_cpu := - 1, prev_cpu := - 1\<rparr>"

lemma finish_groups_all:
  assumes "distinct gs" and "\<forall>g\<in>set gs. bm g \<longrightarrow> fgs s g \<noteq> None"
  shows "finish_groups bm gs s =
    Inr (s\<lparr>fgs := (\<lambda>g. if g \<in> set gs \<and> bm g then map_option finished (fgs s g) else fgs s g)\<rparr>)"
  using assms
proof (induction gs arbitrary: s)
  case Nil
  then show ?case by simp
next
  case (Cons g gs)
  show ?case
  proof (cases "bm g")
    case False
    have "(\<lambda>h. if h \<in> set gs \<and> bm h then map_option finished (fgs s h) else fgs s h) =
      (\<lambda>h. if h \<in> set (g # gs) \<and> bm h then map_option finished (fgs s h) else fgs s h)"
      using False by auto
    moreover have "finish_groups bm gs s =
        Inr (s\<lparr>fgs := (\<lambda>h. if h \<in> set gs \<and> bm h then map_option finished (fgs s h) else fgs s h)\<rparr>)"
      by (rule Cons.IH) (use Cons.prems in auto)
    ultimately show ?thesis using False by simp
  next
    case True
    then obtain fg where fg: "fgs s g = Some fg" using Cons.prems by auto
    let ?s = "s\<lparr>fgs := (fgs s)(g := Some (finished fg))\<rparr>"
    have "finish_groups bm gs ?s =
        Inr (?s\<lparr>fgs := (\<lambda>h. if h \<in> set gs \<and> bm h then map_option finished (fgs ?s h) else fgs ?s h)\<rparr>)"
      by (rule Cons.IH) (use Cons.prems in auto)
    moreover have "(\<lambda>h. if h \<in> set gs \<and> bm h then map_option finished (fgs ?s h) else fgs ?s h) =
      (\<lambda>h. if h \<in> set (g # gs) \<and> bm h then map_option finished (fgs s h) else fgs s h)"
      using True fg Cons.prems(1) by auto
    ultimately show ?thesis using True fg by (simp add: finished_def)
  qed
qed

lemma handler_target_delivers:
  assumes "fifo_ok (links s) (remote_q s me) R" and "fifo_ok (links s) (local_q s me) L" and "set R \<inter> set L = {}"
    and "\<forall>h<ETH_MAX_TOTAL_FG. mi_bitmap (mig s owner) h \<longrightarrow> fgs s h \<noteq> None"
    and "length R \<le> fuel" and "length L \<le> fuel"
  shows "\<exists>s'. transition_handler_target False fuel me owner s = Inr s' \<and>
     delivered s' = (delivered s)(me := delivered s me @ R @ L) \<and>
     fgs s' = (\<lambda>h. if h < ETH_MAX_TOTAL_FG \<and> mi_bitmap (mig s owner) h then map_option finished (fgs s h) else fgs s h) \<and>
     fifo_ok (links s') (remote_q s' me) [] \<and> fifo_ok (links s') (local_q s' me) [] \<and>
     ready s' (mi_prev_cpu (mig s owner)) \<and> pkt_fg s' = pkt_fg s"
proof -
  let ?F = "\<lambda>h. if h < ETH_MAX_TOTAL_FG \<and> mi_bitmap (mig s owner) h then map_option finished (fgs s h) else fgs s h"
  let ?s1 = "s\<lparr>fgs := ?F\<rparr>"
  have f: "finish_groups (mi_bitmap (mig s owner)) [0..<ETH_MAX_TOTAL_FG] s = Inr ?s1"
    by (subst finish_groups_all) (use assms(4) in auto)
  obtain nx where d1: "deliver_all fuel me (q_head (remote_q ?s1 me)) ?s1 =
      Inr (?s1\<lparr>links := nx, delivered := (delivered ?s1)(me := delivered ?s1 me @ R)\<rparr>)" (is "_ = Inr ?s2")
    and nx: "\<forall>a. a \<notin> set R \<longrightarrow> nx a = links ?s1 a"
    using deliver_all_chain [of ?s1 "q_head (remote_q ?s1 me)" R fuel me] assms(1,5) by (auto simp: fifo_ok_def)
  let ?s3 = "?s2\<lparr>remote_q := (remote_q ?s2)(me := \<lparr>q_head = NULL, q_tail = NULL\<rparr>)\<rparr>"
  have "fifo_ok nx (local_q s me) L"
    by (rule pq.ok_agree [OF _ assms(2)]) (use nx assms(3) in auto)
  then have "chain (links ?s3) (q_head (local_q ?s3 me)) L" "distinct L" by (auto simp: fifo_ok_def)
  from deliver_all_chain [OF this assms(6), of me] obtain nx2 where
    d2: "deliver_all fuel me (q_head (local_q ?s3 me)) ?s3 =
      Inr (?s3\<lparr>links := nx2, delivered := (delivered ?s3)(me := delivered ?s3 me @ L)\<rparr>)"
    by blast
  show ?thesis
    unfolding transition_handler_target_def Let_def f bindR_Inr d1 d2
    by (simp add: fifo_ok_def)
qed

text \<open>C1: Whatever arrives on either CPU during a transition is delivered once on the
  target, the packets of the previous CPU first, and the group then belongs to the
  target.\<close>

theorem migration_delivers_in_order:
  assumes "migrating g fg R L s"
    and "\<forall>(cpu, i, p)\<in>set evs. (cpu = prev_cpu fg \<or> cpu = target_cpu fg) \<and> of_group g s p"
    and "distinct (map (snd \<circ> snd) evs)" and "(snd \<circ> snd) ` set evs \<inter> (set R \<union> set L) = {}"
    and "g < ETH_MAX_TOTAL_FG" and "mi_bitmap (mig s owner) g"
    and "\<forall>h<ETH_MAX_TOTAL_FG. mi_bitmap (mig s owner) h \<longrightarrow> fgs s h \<noteq> None"
    and "length R + length L + length evs \<le> fuel"
  shows "\<exists>s1 s2. receive_all evs s = Inr s1 \<and> transition_handler_target False fuel (target_cpu fg) owner s1 = Inr s2 \<and>
     delivered s2 = (delivered s)(target_cpu fg := delivered s (target_cpu fg) @
       (R @ arrivals_at (prev_cpu fg) evs) @ (L @ arrivals_at (target_cpu fg) evs)) \<and>
     fgs s2 g = Some (finished fg) \<and> ready s2 (mi_prev_cpu (mig s owner)) \<and>
     fifo_ok (links s2) (remote_q s2 (target_cpu fg)) [] \<and> fifo_ok (links s2) (local_q s2 (target_cpu fg)) []"
proof -
  let ?R = "R @ arrivals_at (prev_cpu fg) evs" and ?L = "L @ arrivals_at (target_cpu fg) evs"
  obtain s1 where s1: "receive_all evs s = Inr s1" "migrating g fg ?R ?L s1"
    "delivered s1 = delivered s" "mig s1 = mig s" "fgs s1 = fgs s"
    using receive_all_migrating [OF assms(1-4)] by blast
  have len: "length (arrivals_at c evs) \<le> length evs" for c by (simp add: arrivals_at_def)
  have l: "length ?R \<le> fuel" "length ?L \<le> fuel" using assms(8) len [of "prev_cpu fg"] len [of "target_cpu fg"] by simp_all
  have m: "fifo_ok (links s1) (remote_q s1 (target_cpu fg)) ?R" "fifo_ok (links s1) (local_q s1 (target_cpu fg)) ?L"
    "set ?R \<inter> set ?L = {}" using s1(2) by (auto simp: migrating_def)
  have g: "fgs s g = Some fg" using assms(1) by (simp add: migrating_def)
  have "\<forall>h<ETH_MAX_TOTAL_FG. mi_bitmap (mig s1 owner) h \<longrightarrow> fgs s1 h \<noteq> None" using assms(7) s1(4,5) by simp
  from handler_target_delivers [OF m this l] obtain s2 where
    "transition_handler_target False fuel (target_cpu fg) owner s1 = Inr s2"
    "delivered s2 = (delivered s1)(target_cpu fg := delivered s1 (target_cpu fg) @ ?R @ ?L)"
    "fgs s2 g = Some (finished fg)" "ready s2 (mi_prev_cpu (mig s owner))"
    "fifo_ok (links s2) (remote_q s2 (target_cpu fg)) []" "fifo_ok (links s2) (local_q s2 (target_cpu fg)) []"
    using assms(5,6) s1(4,5) g by auto
  with s1(1,3) show ?thesis by auto
qed

definition moving_fg :: eth_fg where
  "moving_fg = (fg_at 0)\<lparr>in_transition := True, prev_cpu := 0, cur_cpu := - 1, target_cpu := 1\<rparr>"

lemma moving_fg_simps [simp]: "prev_cpu moving_fg = 0" "target_cpu moving_fg = 1" "in_transition moving_fg"
  by (simp_all add: moving_fg_def)

definition mid_move :: eth_state where
  "mid_move = two_queues\<lparr>fgs := (\<lambda>_. None)(0 := Some moving_fg),
     remote_q := (\<lambda>_. \<lparr>q_head = 0, q_tail = 0\<rparr>)(1 := \<lparr>q_head = 60, q_tail = 60\<rparr>),
     mig := (\<lambda>_. \<lparr>mi_prev_cpu = 0, mi_target_cpu = 1, mi_bitmap = (\<lambda>_. False)(0 := True), mi_timer = True\<rparr>)\<rparr>"

theorem migration_delivers_in_order_witness:
  "\<exists>s1 s2. receive_all [(1, 0, 80), (0, 0, 70)] mid_move = Inr s1 \<and>
     transition_handler_target False 3 1 0 s1 = Inr s2 \<and> delivered s2 1 = [60, 70, 80]"
proof -
  let ?evs = "[(1, 0, 80), (0, 0, 70)] :: arrival list"
  have m: "migrating 0 moving_fg [60] [] mid_move"
    by (simp add: migrating_def mid_move_def two_queues_def fifo_ok_def)
  have e: "\<forall>(cpu, i, p)\<in>set ?evs. (cpu = prev_cpu moving_fg \<or> cpu = target_cpu moving_fg) \<and> of_group 0 mid_move p"
    "distinct (map (snd \<circ> snd) ?evs)" "(snd \<circ> snd) ` set ?evs \<inter> (set [60] \<union> set []) = {}"
    "0 < ETH_MAX_TOTAL_FG" "mi_bitmap (mig mid_move 0) 0"
    "\<forall>h<ETH_MAX_TOTAL_FG. mi_bitmap (mig mid_move 0) h \<longrightarrow> fgs mid_move h \<noteq> None"
    "length [60 :: addr] + length ([] :: addr list) + length ?evs \<le> 3"
    by (simp_all add: mid_move_def two_queues_def of_group_def MBUF_INVALID_FG_ID_def ETH_MAX_TOTAL_FG_def
        ETH_MAX_NUM_FG_def NETHDEV_def)
  have d: "delivered mid_move 1 = []" by (simp add: mid_move_def two_queues_def)
  have a: "arrivals_at 0 ?evs = [70]" "arrivals_at 1 ?evs = [80]" by (simp_all add: arrivals_at_def)
  obtain s1 s2 where "receive_all ?evs mid_move = Inr s1" "transition_handler_target False 3 1 0 s1 = Inr s2"
    "delivered s2 = (delivered mid_move)(1 := delivered mid_move 1 @ ([60] @ [70]) @ ([] @ [80]))"
    using migration_delivers_in_order [OF m e] unfolding moving_fg_simps a by blast
  with d show ?thesis by fastforce
qed

text \<open>C27: A group whose bit is still set from an earlier migration is left with no owner
  by the next one, and every packet of it is dropped from then on.\<close>

theorem stale_group_lost:
  assumes "transition_handler_target False fuel me owner s = Inr s'" and "mi_bitmap (mig s owner) h"
    and "h < ETH_MAX_TOTAL_FG" and "fgs s h = Some fh" and "\<not> in_transition fh" and "target_cpu fh = - 1"
    and "\<forall>h<ETH_MAX_TOTAL_FG. mi_bitmap (mig s owner) h \<longrightarrow> fgs s h \<noteq> None"
    and "fifo_ok (links s) (remote_q s me) R" and "fifo_ok (links s) (local_q s me) L" and "set R \<inter> set L = {}"
    and "length R \<le> fuel" and "length L \<le> fuel" and "of_group h s p" and "cpu \<noteq> - 1"
  shows "eth_recv cpu i p s' = Inr (0, s')"
proof -
  obtain t where "transition_handler_target False fuel me owner s = Inr t"
    "fgs t h = Some (finished fh)" "pkt_fg t = pkt_fg s"
    using handler_target_delivers [OF assms(8-10,7,11,12)] assms(2-4) by auto
  with assms(1) have "fgs s' h = Some (finished fh)" "pkt_fg s' = pkt_fg s" by auto
  with assms(6,13,14) show ?thesis
    by (auto simp: eth_recv_def eth_recv_handle_fg_transition_def of_group_def finished_def)
qed


definition stale_move :: eth_state where
  "stale_move = mid_move\<lparr>fgs := (\<lambda>_. None)(0 := Some ((fg_at 1)\<lparr>cur_cpu := 1\<rparr>)),
     remote_q := (\<lambda>_. \<lparr>q_head = 0, q_tail = 0\<rparr>)\<rparr>"

theorem stale_group_lost_witness:
  "\<exists>s'. transition_handler_target False 0 1 0 stale_move = Inr s' \<and> eth_recv 1 0 70 s' = Inr (0, s')"
proof -
  note defs = stale_move_def mid_move_def two_queues_def ETH_MAX_TOTAL_FG_def ETH_MAX_NUM_FG_def NETHDEV_def fg_at_def
  have q: "fifo_ok (links stale_move) (remote_q stale_move 1) []" "fifo_ok (links stale_move) (local_q stale_move 1) []"
    by (simp_all add: defs fifo_ok_def)
  have b: "\<forall>h<ETH_MAX_TOTAL_FG. mi_bitmap (mig stale_move 0) h \<longrightarrow> fgs stale_move h \<noteq> None"
    by (simp add: defs)
  obtain s' where s': "transition_handler_target False 0 1 0 stale_move = Inr s'"
    using handler_target_delivers [OF q _ b, of 0] by auto
  have "eth_recv 1 0 70 s' = Inr (0, s')"
    by (rule stale_group_lost [OF s' _ _ _ _ _ b q, of 0 "fg_at 1"]) (simp_all add: defs of_group_def MBUF_INVALID_FG_ID_def)
  with s' show ?thesis by blast
qed

end
