(* ===== verification/Hashing.thy ===== *)
theory Hashing
  imports Kns_Prelude
begin

text \<open>
  Hash functions: the Toeplitz hash of receive-side scaling, in the cached form of
  \<open>core/toeplitz.c\<close> and \<open>inc/kns/toeplitz.h\<close> and in the bitwise form of \<open>net/tcp_api.c\<close>,
  and the CityHash subset of \<open>inc/kns/hash.h\<close>. The \<open>crc32q\<close> instruction behind
  \<open>hash_crc32c_one\<close> and \<open>hash_crc32c_two\<close> is a parameter.
\<close>

section \<open>Toeplitz key and cache\<close>

definition NBBY :: nat where "NBBY = 8"
definition TOEPLITZ_KEYSEED_CNT :: nat where "TOEPLITZ_KEYSEED_CNT = 2"
definition TOEPLITZ_INIT_KEYLEN :: nat where "TOEPLITZ_INIT_KEYLEN = TOEPLITZ_KEYSEED_CNT + 4"
definition toeplitz_keyseeds :: "u32 list" where "toeplitz_keyseeds = [0x6d, 0x5a]"

definition toeplitz_get_key :: "u32 list \<Rightarrow> nat \<Rightarrow> u8 list" where
  "toeplitz_get_key seeds keylen = map (\<lambda>i. ucast (seeds ! (i mod TOEPLITZ_KEYSEED_CNT))) [0..<keylen]"

text \<open>The 32-bit key of bit \<open>b\<close> of byte \<open>i\<close>: the bits of the key string from \<open>8 i + b\<close> on.\<close>

definition key_bits :: "u8 list \<Rightarrow> nat \<Rightarrow> nat \<Rightarrow> u32" where
  "key_bits key_str i b =
     foldl (\<lambda>acc j. let bt = i * NBBY + b + j; k = key_str ! (bt div NBBY); shift = NBBY - bt mod NBBY - 1
                    in if (ucast k :: u32) AND push_bit shift 1 \<noteq> 0 then acc OR push_bit (31 - j) 1 else acc)
       0 [0..<32]"

definition cache_entry :: "u32 list \<Rightarrow> nat \<Rightarrow> u32" where
  "cache_entry key val =
     foldl (\<lambda>res b. if (of_nat val :: u32) AND push_bit (NBBY - b - 1) 1 \<noteq> 0 then res XOR key ! b else res) 0 [0..<NBBY]"

definition toeplitz_cache_create :: "nat \<Rightarrow> u8 list \<Rightarrow> u32 list list" where
  "toeplitz_cache_create cache_len key_str =
     map (\<lambda>i. let key = map (key_bits key_str i) [0..<NBBY] in map (cache_entry key) [0..<256]) [0..<cache_len]"

text \<open>The cache after \<open>toeplitz_init\<close>, which first cuts the seeds to bytes.\<close>

definition toeplitz_init :: "u32 list \<Rightarrow> u32 list list" where
  "toeplitz_init seeds =
     (let seeds' = map (\<lambda>x. x AND 0xff) seeds
      in toeplitz_cache_create TOEPLITZ_KEYSEED_CNT (toeplitz_get_key seeds' TOEPLITZ_INIT_KEYLEN))"

definition toeplitz_cache :: "u32 list list" where
  "toeplitz_cache = toeplitz_init toeplitz_keyseeds"

section \<open>The two hash functions\<close>

definition tc :: "u32 list list \<Rightarrow> nat \<Rightarrow> u32 \<Rightarrow> u32" where
  "tc cache i x = cache ! i ! unat (x AND 0xff)"

definition toeplitz_rawhash_addrport :: "u32 list list \<Rightarrow> u32 \<Rightarrow> u32 \<Rightarrow> u16 \<Rightarrow> u16 \<Rightarrow> u32" where
  "toeplitz_rawhash_addrport c faddr laddr fport lport =
     tc c 0 faddr XOR tc c 0 (drop_bit 16 faddr) XOR tc c 0 laddr XOR tc c 0 (drop_bit 16 laddr) XOR
     tc c 0 (ucast fport) XOR tc c 0 (ucast lport) XOR
     tc c 1 (drop_bit 8 faddr) XOR tc c 1 (drop_bit 24 faddr) XOR tc c 1 (drop_bit 8 laddr) XOR
     tc c 1 (drop_bit 24 laddr) XOR tc c 1 (drop_bit 8 (ucast fport)) XOR tc c 1 (drop_bit 8 (ucast lport))"

text \<open>The bytes of a value in memory, least significant first.\<close>

definition le_bytes :: "nat \<Rightarrow> 'w::len word \<Rightarrow> u8 list" where
  "le_bytes n x = map (\<lambda>i. ucast (drop_bit (8 * i) x)) [0..<n]"

definition tuple_bytes :: "u32 \<Rightarrow> u32 \<Rightarrow> u16 \<Rightarrow> u16 \<Rightarrow> u8 list" where
  "tuple_bytes src dst sp dp = le_bytes 4 src @ le_bytes 4 dst @ le_bytes 2 sp @ le_bytes 2 dp"

text \<open>\<open>htonl\<close> of the word at the start of the key.\<close>

definition be_word :: "u8 list \<Rightarrow> u32" where
  "be_word bs = foldl (\<lambda>acc b. push_bit 8 acc OR ucast b) 0 bs"

definition toeplitz_bit :: "u8 \<Rightarrow> u8 \<Rightarrow> u32 \<times> u32 \<Rightarrow> nat \<Rightarrow> u32 \<times> u32" where
  "toeplitz_bit inp nextkey = (\<lambda>(result, key_part) k.
     let j = push_bit (7 - k) 1;
         result' = (if inp AND j \<noteq> 0 then result XOR key_part else result);
         key1 = push_bit 1 key_part
     in (result', if nextkey AND j \<noteq> 0 then key1 OR 1 else key1))"

definition toeplitz_byte :: "u8 list \<Rightarrow> u32 \<times> u32 \<Rightarrow> nat \<times> u8 \<Rightarrow> u32 \<times> u32" where
  "toeplitz_byte key st = (\<lambda>(i, inp). foldl (toeplitz_bit inp (key ! (i + 4))) st [0..<8])"

definition compute_toeplitz_hash :: "u8 list \<Rightarrow> u32 \<Rightarrow> u32 \<Rightarrow> u16 \<Rightarrow> u16 \<Rightarrow> u32" where
  "compute_toeplitz_hash key src dst sp dp =
     fst (foldl (toeplitz_byte key) (0, be_word (take 4 key)) (List.enumerate 0 (tuple_bytes src dst sp dp)))"

section \<open>CityHash and CRC\<close>

definition hash_crc32c_one :: "(u64 \<Rightarrow> u64 \<Rightarrow> u64) \<Rightarrow> u32 \<Rightarrow> u64 \<Rightarrow> u32" where
  "hash_crc32c_one crc32q seed val = ucast (crc32q (ucast seed) val)"

definition hash_crc32c_two :: "(u64 \<Rightarrow> u64 \<Rightarrow> u64) \<Rightarrow> u32 \<Rightarrow> u64 \<Rightarrow> u64 \<Rightarrow> u32" where
  "hash_crc32c_two crc32q seed a b =
     (let seed' = ucast (crc32q (ucast seed) a) :: u32 in ucast (crc32q (ucast seed') b))"

definition HASH_CITY_K2 :: u64 where "HASH_CITY_K2 = 0x9ae16a3b2f90404f"

definition hash_city_len16 :: "u64 \<Rightarrow> u64 \<Rightarrow> u64 \<Rightarrow> u64" where
  "hash_city_len16 u v m =
     (let a = (u XOR v) * m; a' = a XOR drop_bit 47 a;
          b = (v XOR a') * m; b' = b XOR drop_bit 47 b
      in b' * m)"

definition hash_city_rotate :: "u64 \<Rightarrow> nat \<Rightarrow> u64" where
  "hash_city_rotate val shift = drop_bit shift val OR push_bit (64 - shift) val"

definition hash_city_one :: "u64 \<Rightarrow> u64" where
  "hash_city_one val =
     (let m = HASH_CITY_K2 + 16; a = val + HASH_CITY_K2; b = val;
          c = hash_city_rotate b 37 * m + a; d = (hash_city_rotate a 25 + b) * m
      in hash_city_len16 c d m)"

definition hash_city_two :: "u64 \<Rightarrow> u64 \<Rightarrow> u64" where
  "hash_city_two val_a val_b =
     (let m = HASH_CITY_K2 + 32; a = val_a + HASH_CITY_K2; b = val_b;
          c = hash_city_rotate b 37 * m + a; d = (hash_city_rotate a 25 + b) * m
      in hash_city_len16 c d m)"

end
