(* ===== verification/Hashing_Spec.thy ===== *)
theory Hashing_Spec
  imports Hashing
begin

text \<open>
  The cached Toeplitz hash computes the same function as the bitwise one on the replicated
  key, and the replicated key makes it symmetric in the two end points of a connection.
\<close>

lemma and_push_bit_1: "x AND push_bit n 1 \<noteq> 0 \<longleftrightarrow> bit x n" for x :: "'w::len word"
  by (simp add: push_bit_eq_mult and_exp_eq_0_iff_not_bit)

section \<open>The concrete keys\<close>

lemma init_key: "toeplitz_get_key (map (\<lambda>x. x AND 0xff) toeplitz_keyseeds) TOEPLITZ_INIT_KEYLEN =
    [0x6d, 0x5a, 0x6d, 0x5a, 0x6d, 0x5a]"
  by code_simp

definition keys0 :: "u32 list" where
  "keys0 = [0x6d5a6d5a, 3669285556, 3043603817, 1792240339, 3584480678, 2873994061, 1453020827, 2906041654]"

definition keys1 :: "u32 list" where
  "keys1 = [1517116013, 3034232026, 1773496757, 3546993514, 2799019733, 1303072171,  2606144342, 917321389]"

lemma keys0_eq: "map (key_bits [0x6d, 0x5a, 0x6d, 0x5a, 0x6d, 0x5a] 0) [0..<NBBY] = keys0"
  by code_simp

lemma keys1_eq: "map (key_bits [0x6d, 0x5a, 0x6d, 0x5a, 0x6d, 0x5a] 1) [0..<NBBY] = keys1"
  by code_simp

lemma toeplitz_cache_eq: "toeplitz_cache = [map (cache_entry keys0) [0..<256], map (cache_entry keys1) [0..<256]]"
proof -
  have "[0..<TOEPLITZ_KEYSEED_CNT] = [0, 1]" by (simp add: TOEPLITZ_KEYSEED_CNT_def upt_conv_Cons)
  then show ?thesis
    unfolding toeplitz_cache_def toeplitz_init_def Let_def init_key toeplitz_cache_create_def
    by (simp only: list.map keys0_eq keys1_eq)
qed

section \<open>One byte\<close>

text \<open>The contribution of a byte whose bits have the given keys.\<close>

definition byte_hash :: "u32 list \<Rightarrow> u8 \<Rightarrow> u32" where
  "byte_hash key v = cache_entry key (unat v)"

lemma unat_and_ff: "unat (x AND 0xff :: u32) = unat (ucast x :: u8)"
proof -
  have "(x AND 0xff :: u32) = take_bit 8 x" by (simp add: take_bit_eq_mask mask_eq_exp_minus_1)
  then show ?thesis by (simp only: unsigned_take_bit_eq unsigned_ucast_eq) simp
qed

lemma cache_lookup: "unat (x AND 0xff :: u32) < 256"
  unfolding unat_and_ff using unsigned_less [of "ucast x :: u8", where 'a = nat] by simp

lemma tc_byte: "tc toeplitz_cache 0 x = byte_hash keys0 (ucast x)" "tc toeplitz_cache 1 x = byte_hash keys1 (ucast x)"
  using cache_lookup [of x] by (simp_all add: tc_def toeplitz_cache_eq byte_hash_def unat_and_ff)

lemma xor_if: "(if P then r XOR k else r) = r XOR (if P then k else 0)" for r :: "'w::len word"
  by simp

lemma upt8: "[0..<8] = [0, 1, 2, 3, 4, 5, 6, 7 :: nat]"
  by code_simp

lemma byte_hash_xor: "byte_hash key v =
    (if bit v 7 then key ! 0 else 0) XOR (if bit v 6 then key ! 1 else 0) XOR (if bit v 5 then key ! 2 else 0) XOR
    (if bit v 4 then key ! 3 else 0) XOR (if bit v 3 then key ! 4 else 0) XOR (if bit v 2 then key ! 5 else 0) XOR
    (if bit v 1 then key ! 6 else 0) XOR (if bit v 0 then key ! 7 else 0)"
  unfolding byte_hash_def cache_entry_def NBBY_def upt8 and_push_bit_1 foldl.simps xor_if
  by (simp add: bit_ucast_iff xor.assoc split del: if_split)

text \<open>The key register advances by one key bit.\<close>

definition advance :: "u32 \<Rightarrow> bool \<Rightarrow> u32" where
  "advance kp b = (if b then push_bit 1 kp OR 1 else push_bit 1 kp)"

lemma toeplitz_bit_alt: "toeplitz_bit v nk (r, kp) k =
    (r XOR (if bit v (7 - k) then kp else 0), advance kp (bit nk (7 - k)))"
  unfolding toeplitz_bit_def Let_def prod.case and_push_bit_1 xor_if advance_def by (rule refl)

lemma run_byte:
  assumes "\<forall>k<8. advance (K ! k) (bit nk (7 - k)) = K ! (k + 1)"
  shows "foldl (toeplitz_bit v nk) (r, K ! 0) [0..<8] = (r XOR byte_hash K v, K ! 8)"
proof -
  have step: "toeplitz_bit v nk (r, K ! k) k = (r XOR (if bit v (7 - k) then K ! k else 0), K ! (k + 1))"
    if "k < 8" for r k
    using assms that by (simp only: toeplitz_bit_alt)
  show ?thesis
    using step [of 0] step [of 1] step [of 2] step [of 3] step [of 4] step [of 5] step [of 6] step [of 7]
    unfolding upt8 byte_hash_xor by (simp add: xor.assoc del: One_nat_def split del: if_split) (simp only: One_nat_def)
qed

lemma byte_hash_append: "length key = 8 \<Longrightarrow> byte_hash (key @ xs) v = byte_hash key v"
  by (simp add: byte_hash_xor nth_append)

lemma keys_facts: "length keys0 = 8" "length keys1 = 8" "keys0 ! 0 = 0x6d5a6d5a" "keys1 ! 0 = 0x5a6d5a6d"
  by (simp_all add: keys0_def keys1_def)

lemma all_less8: "(\<forall>k<8. P k) \<longleftrightarrow> (\<forall>k\<in>set [0..<8]. P k)" for P :: "nat \<Rightarrow> bool"
  by auto

lemma byte_even: "foldl (toeplitz_bit v 0x6d) (r, 0x6d5a6d5a) [0..<8] = (r XOR byte_hash keys0 v, 0x5a6d5a6d)"
proof -
  have "\<forall>k<8. advance ((keys0 @ [0x5a6d5a6d]) ! k) (bit (0x6d :: u8) (7 - k)) = (keys0 @ [0x5a6d5a6d]) ! (k + 1)"
    unfolding all_less8 by code_simp
  from run_byte [OF this, of v r] show ?thesis
    by (simp add: byte_hash_append nth_append keys_facts)
qed

lemma byte_odd: "foldl (toeplitz_bit v 0x5a) (r, 0x5a6d5a6d) [0..<8] = (r XOR byte_hash keys1 v, 0x6d5a6d5a)"
proof -
  have "\<forall>k<8. advance ((keys1 @ [0x6d5a6d5a]) ! k) (bit (0x5a :: u8) (7 - k)) = (keys1 @ [0x6d5a6d5a]) ! (k + 1)"
    unfolding all_less8 by code_simp
  from run_byte [OF this, of v r] show ?thesis
    by (simp add: byte_hash_append nth_append keys_facts)
qed

section \<open>Whole tuples\<close>

lemma full_key: "toeplitz_get_key toeplitz_keyseeds 40 = concat (replicate 20 [0x6d, 0x5a])"
  by code_simp

lemma key_nth: "i < 40 \<Longrightarrow> toeplitz_get_key toeplitz_keyseeds 40 ! i = (if even i then 0x6d else 0x5a)"
  by (simp add: toeplitz_get_key_def toeplitz_keyseeds_def TOEPLITZ_KEYSEED_CNT_def even_iff_mod_2_eq_zero)

lemma key_start: "be_word (take 4 (toeplitz_get_key toeplitz_keyseeds 40)) = 0x6d5a6d5a"
  by code_simp

lemma toeplitz_byte_even: "even i \<Longrightarrow> i < 12 \<Longrightarrow>
    toeplitz_byte (toeplitz_get_key toeplitz_keyseeds 40) (r, 0x6d5a6d5a) (i, v) = (r XOR byte_hash keys0 v, 0x5a6d5a6d)"
  unfolding toeplitz_byte_def prod.case by (simp only: key_nth) (simp add: byte_even)

lemma toeplitz_byte_odd: "odd i \<Longrightarrow> i < 12 \<Longrightarrow>
    toeplitz_byte (toeplitz_get_key toeplitz_keyseeds 40) (r, 0x5a6d5a6d) (i, v) = (r XOR byte_hash keys1 v, 0x6d5a6d5a)"
  unfolding toeplitz_byte_def prod.case by (simp only: key_nth) (simp add: byte_odd)

lemma less_12: "Suc 0 < 12" "Suc (Suc 0) < 12" "Suc (Suc (Suc 0)) < 12" "Suc (Suc (Suc (Suc 0))) < 12"
  "Suc (Suc (Suc (Suc (Suc 0)))) < 12" "Suc (Suc (Suc (Suc (Suc (Suc 0))))) < 12"
  "Suc (Suc (Suc (Suc (Suc (Suc (Suc 0)))))) < 12" "Suc (Suc (Suc (Suc (Suc (Suc (Suc (Suc 0))))))) < 12"
  "Suc (Suc (Suc (Suc (Suc (Suc (Suc (Suc (Suc 0)))))))) < 12"
  "Suc (Suc (Suc (Suc (Suc (Suc (Suc (Suc (Suc (Suc 0))))))))) < 12"
  "Suc (Suc (Suc (Suc (Suc (Suc (Suc (Suc (Suc (Suc (Suc 0)))))))))) < 12"
  by simp_all

lemma forms_agree:
  "compute_toeplitz_hash (toeplitz_get_key toeplitz_keyseeds 40) faddr laddr fport lport =
   toeplitz_rawhash_addrport toeplitz_cache faddr laddr fport lport"
proof -
  have b4: "le_bytes 4 x = [ucast x, ucast (drop_bit 8 x), ucast (drop_bit 16 x), ucast (drop_bit 24 x)]" for x :: u32
    by (simp add: le_bytes_def upt_conv_Cons)
  have u: "ucast (ucast x :: u32) = (ucast x :: u8)"
    "ucast (drop_bit 8 (ucast x :: u32)) = (ucast (drop_bit 8 x) :: u8)" for x :: u16
    by (rule bit_word_eqI; simp add: bit_ucast_iff bit_drop_bit_eq)+
  have b2: "le_bytes 2 x = [ucast x, ucast (drop_bit 8 x)]" for x :: u16
    by (simp add: le_bytes_def upt_conv_Cons)
  have f: "foldl (toeplitz_byte (toeplitz_get_key toeplitz_keyseeds 40)) (0, 0x6d5a6d5a)
      (List.enumerate 0 [a, b, c, d, e, f, g, h, i, j, k, l]) =
    (((((((((((((0 XOR byte_hash keys0 a) XOR byte_hash keys1 b) XOR byte_hash keys0 c) XOR byte_hash keys1 d)
     XOR byte_hash keys0 e) XOR byte_hash keys1 f) XOR byte_hash keys0 g) XOR byte_hash keys1 h)
     XOR byte_hash keys0 i) XOR byte_hash keys1 j) XOR byte_hash keys0 k) XOR byte_hash keys1 l), 0x6d5a6d5a)"
    for a b c d e f g h i j k l
    by (simp only: enumerate_simps foldl.simps toeplitz_byte_even toeplitz_byte_odd even_zero even_Suc
        zero_less_numeral not_not simp_thms less_12)
  show ?thesis
    unfolding compute_toeplitz_hash_def key_start tuple_bytes_def b4 b2 append.simps f
      toeplitz_rawhash_addrport_def tc_byte u fst_conv
    by (simp only: xor.assoc xor.left_commute xor.commute xor.left_neutral)
qed

text \<open>C28: The cached and the bitwise Toeplitz hash agree on every address and port
  pair.\<close>

theorem toeplitz_forms_agree:
  "compute_toeplitz_hash (toeplitz_get_key toeplitz_keyseeds 40) faddr laddr fport lport =
   toeplitz_rawhash_addrport toeplitz_cache faddr laddr fport lport"
  by (rule forms_agree)

text \<open>With the replicated key the bitwise hash does not change when the end points
  are swapped.\<close>

theorem toeplitz_symmetric:
  "compute_toeplitz_hash (toeplitz_get_key toeplitz_keyseeds 40) faddr laddr fport lport =
   compute_toeplitz_hash (toeplitz_get_key toeplitz_keyseeds 40) laddr faddr lport fport"
  unfolding forms_agree toeplitz_rawhash_addrport_def by (simp only: xor.assoc xor.left_commute xor.commute)

end
