(* ===== verification/Chksum.thy ===== *)
theory Chksum
  imports Kns_Prelude
begin

text \<open>
  The internet checksum of \<open>inc/kns/chksum.h\<close>, instruction by instruction: the carry flag is a
  boolean, memory operands are little-endian loads. The theorems compare it with the
  one's complement sum of RFC 1071 and show that a buffer holding its own checksum
  checks to zero.
\<close>

section \<open>Instructions\<close>

definition adc :: "'w::len word \<Rightarrow> 'w word \<Rightarrow> bool \<Rightarrow> 'w word \<times> bool" where
  "adc a b c = (a + b + of_bool c, 2 ^ LENGTH('w) \<le> unat a + unat b + of_bool c)"

text \<open>\<open>add\<close> followed by \<open>adc $0\<close>.\<close>

definition add_adc0 :: "'w::len word \<Rightarrow> 'w word \<Rightarrow> 'w word" where
  "add_adc0 a b = (let (s, c) = adc a b False in fst (adc s 0 c))"

definition load :: "u8 list \<Rightarrow> u64" where
  "load bs = foldr (\<lambda>b acc. acc * 256 + ucast b) bs 0"

fun adc_loop :: "nat \<Rightarrow> u64 \<times> bool \<Rightarrow> u8 list \<Rightarrow> (u64 \<times> bool) \<times> u8 list" where
  "adc_loop 0 sc buf = (sc, buf)"
| "adc_loop (Suc n) (s, c) buf = adc_loop n (adc s (load (take 8 buf)) c) (drop 8 buf)"

definition chksum_8 :: "u8 list \<Rightarrow> u64 \<times> u8 list" where
  "chksum_8 buf =
     (let n = length buf div 8
      in if n = 0 then (0, buf)
         else let ((s, c), rest) = adc_loop n (0, False) buf in (fst (adc s 0 c), rest))"

text \<open>The parts of 4, 2 and 1 bytes, when the bit of the length is set.\<close>

definition chksum_part :: "nat \<Rightarrow> nat \<Rightarrow> u64 \<times> u8 list \<Rightarrow> u64 \<times> u8 list" where
  "chksum_part len k = (\<lambda>(s, buf).
     if len div k mod 2 = 0 then (s, buf) else (add_adc0 s (load (take k buf)), drop k buf))"

definition chksum_fold :: "u64 \<Rightarrow> u16" where
  "chksum_fold s =
     (let s32 = add_adc0 (ucast (drop_bit 32 s)) (ucast s) :: u32;
          s16 = add_adc0 (ucast (drop_bit 16 s32)) (ucast s32) :: u16
      in NOT s16)"

definition chksum_internet :: "u8 list \<Rightarrow> u16" where
  "chksum_internet buf =
     (let st = chksum_part (length buf) 1 (chksum_part (length buf) 2 (chksum_part (length buf) 4 (chksum_8 buf)))
      in chksum_fold (fst st))"

section \<open>The reference\<close>

fun sum16 :: "u8 list \<Rightarrow> nat" where
  "sum16 [] = 0"
| "sum16 [a] = unat a"
| "sum16 (a # b # bs) = unat a + 256 * unat b + sum16 bs"

definition ones :: "nat \<Rightarrow> nat" where
  "ones s = (if s = 0 then 0 else (s - 1) mod 65535 + 1)"

text \<open>\<open>v\<close> and \<open>s\<close> are the same one's complement number.\<close>

definition rep :: "nat \<Rightarrow> nat \<Rightarrow> bool" where
  "rep v s \<longleftrightarrow> v mod 65535 = s mod 65535 \<and> (v = 0 \<longleftrightarrow> s = 0)"

lemma rep_refl [simp]: "rep v v"
  by (simp add: rep_def)

lemma rep_0 [simp]: "rep 0 0"
  by (simp add: rep_def)

lemma rep_trans: "rep a b \<Longrightarrow> rep b c \<Longrightarrow> rep a c"
  by (simp add: rep_def)

lemma rep_add: "rep a s \<Longrightarrow> rep b t \<Longrightarrow> rep (a + b) (s + t)"
  unfolding rep_def using mod_add_cong [of a 65535 s b t] by auto

text \<open>Moving a multiple of a power of \<open>2 ^ 16\<close> to the low end.\<close>

lemma pow_mod: "(2 :: nat) ^ (16 * k) mod 65535 = 1"
proof (induction k)
  case (Suc k)
  have "(2 :: nat) ^ (16 * Suc k) = 65536 * 2 ^ (16 * k)" by (simp add: power_add)
  also have "\<dots> mod 65535 = (65536 mod 65535) * (2 ^ (16 * k) mod 65535) mod 65535" by (rule mod_mult_eq [symmetric])
  finally show ?case using Suc by simp
qed simp

lemma rep_shift: "rep (a * 2 ^ (16 * k)) a"
proof -
  have "a * 2 ^ (16 * k) mod 65535 = a * (2 ^ (16 * k) mod 65535) mod 65535" by (rule mod_mult_right_eq [symmetric])
  also have "\<dots> = a mod 65535" by (simp add: pow_mod)
  finally show ?thesis by (simp add: rep_def)
qed

lemma rep_fold: "rep (a + b) s \<Longrightarrow> rep (a * 2 ^ (16 * k) + b) s"
  using rep_trans [OF rep_add [OF rep_shift rep_refl]] by blast

lemma rep_ones:
  assumes "rep r s" and "r < 65536"
  shows "r = ones s"
proof (cases "s = 0")
  case False
  then have r: "0 < r" using assms(1) by (simp add: rep_def)
  have "(r + 65534) mod 65535 = (s + 65534) mod 65535"
    using assms(1) by (intro mod_add_cong) (simp_all add: rep_def)
  moreover have "r + 65534 = (r - 1) + 65535" "s + 65534 = (s - 1) + 65535" using r False by simp_all
  ultimately have "(r - 1) mod 65535 = (s - 1) mod 65535" by (simp only: mod_add_self2)
  with r show ?thesis using False assms(2) by (simp add: ones_def)
qed (use assms in \<open>simp add: rep_def ones_def\<close>)


section \<open>Instructions as one's complement additions\<close>

lemma adc_value:
  fixes a b :: "'w::len word"
  assumes "adc a b c = (s, c')"
  shows "of_bool c' * 2 ^ LENGTH('w) + unat s = unat a + unat b + of_bool c"
proof -
  let ?t = "unat a + unat b + of_bool c"
  have b: "unat a < 2 ^ LENGTH('w)" "unat b < 2 ^ LENGTH('w)" by (rule unsigned_less)+
  moreover have "of_bool c \<le> (1 :: nat)" by simp
  ultimately have lt: "?t < 2 * 2 ^ LENGTH('w)" by linarith
  have "s = of_nat ?t" using assms by (auto simp: adc_def)
  then have s: "unat s = ?t mod 2 ^ LENGTH('w)" by (simp only: unat_of_nat take_bit_eq_mod)
  have c: "c' \<longleftrightarrow> 2 ^ LENGTH('w) \<le> ?t" using assms by (simp add: adc_def)
  show ?thesis
  proof (cases c')
    case True
    with c lt have "?t mod 2 ^ LENGTH('w) = ?t - 2 ^ LENGTH('w)" by (simp add: mod_if)
    with s True c show ?thesis by simp
  qed (use s c in simp)
qed

lemma adc_rep:
  fixes a b :: "'w::len word"
  assumes "adc a b c = (s, c')" and "LENGTH('w) = 16 * k" and "rep (unat a + of_bool c) x" and "rep (unat b) y"
  shows "rep (unat s + of_bool c') (x + y)"
proof -
  have v: "of_bool c' * 2 ^ (16 * k) + unat s = unat a + unat b + of_bool c"
    using adc_value [OF assms(1)] assms(2) by simp
  have "rep (of_bool c' * 2 ^ (16 * k) + unat s) (of_bool c' + unat s)" by (rule rep_add [OF rep_shift rep_refl])
  then have "rep (unat s + of_bool c') (of_bool c' * 2 ^ (16 * k) + unat s)" by (simp add: rep_def add.commute)
  moreover have "unat a + unat b + of_bool c = (unat a + of_bool c) + unat b" by simp
  ultimately show ?thesis unfolding v using rep_add [OF assms(3,4)] rep_trans by metis
qed

text \<open>The carry of an addition chain can always be added without another carry.\<close>

lemma adc_room:
  fixes a b :: "'w::len word"
  assumes "adc a b c = (s, c')" and "c \<longrightarrow> unat a < 2 ^ LENGTH('w) - 1"
  shows "c' \<longrightarrow> unat s < 2 ^ LENGTH('w) - 1"
proof
  assume "c'"
  have b: "unat a < 2 ^ LENGTH('w)" "unat b < 2 ^ LENGTH('w)" by (rule unsigned_less)+
  show "unat s < 2 ^ LENGTH('w) - 1"
  proof (cases c)
    case True
    with adc_value [OF assms(1)] \<open>c'\<close> have "2 ^ LENGTH('w) + unat s = unat a + unat b + 1" by simp
    moreover have "unat a < 2 ^ LENGTH('w) - 1" using assms(2) True by simp
    ultimately show ?thesis using b(2) by linarith
  next
    case False
    with adc_value [OF assms(1)] \<open>c'\<close> have "2 ^ LENGTH('w) + unat s = unat a + unat b" by simp
    then show ?thesis using b by linarith
  qed
qed

lemma adc0_value:
  fixes s :: "'w::len word"
  assumes "c \<longrightarrow> unat s < 2 ^ LENGTH('w) - 1"
  shows "unat (fst (adc s 0 c)) = unat s + of_bool c"
  using assms by (cases c) (simp_all add: adc_def unat_add_small)

lemma add_adc0_rep:
  fixes a b :: "'w::len word"
  assumes "LENGTH('w) = 16 * k" and "rep (unat a) x" and "rep (unat b) y"
  shows "rep (unat (add_adc0 a b)) (x + y)"
proof -
  obtain s c where e: "adc a b False = (s, c)" by fastforce
  have "rep (unat s + of_bool c) (x + y)" by (rule adc_rep [OF e assms(1)]) (use assms in simp_all)
  moreover have "c \<longrightarrow> unat s < 2 ^ LENGTH('w) - 1" by (rule adc_room [OF e]) simp
  ultimately show ?thesis by (simp add: add_adc0_def e adc0_value)
qed

section \<open>Loads\<close>

fun le_nat :: "u8 list \<Rightarrow> nat" where
  "le_nat [] = 0"
| "le_nat (b # bs) = unat b + 256 * le_nat bs"

lemma le_nat_less: "le_nat bs < 256 ^ length bs"
proof (induction bs)
  case (Cons b bs)
  have "unat b < 256" using unsigned_less [of b, where 'a = nat] by simp
  with Cons show ?case by simp
qed simp

lemma load_le_nat: "load bs = of_nat (le_nat bs)"
  by (induction bs) (simp_all add: load_def ac_simps)

lemma unat_load: "length bs \<le> 8 \<Longrightarrow> unat (load bs) = le_nat bs"
proof -
  assume "length bs \<le> 8"
  then have "(256 :: nat) ^ length bs \<le> 256 ^ 8" by (rule power_increasing) simp
  with le_nat_less [of bs] have "le_nat bs < 2 ^ 64" by simp
  then have "unat (of_nat (le_nat bs) :: u64) = le_nat bs" by (intro unat_of_nat_small) simp
  then show ?thesis by (simp only: load_le_nat)
qed

lemma le_nat_rep: "rep (le_nat bs) (sum16 bs)"
proof (induction bs rule: sum16.induct)
  case (3 a b bs)
  have "le_nat (a # b # bs) = (unat a + 256 * unat b) + le_nat bs * 2 ^ (16 * 1)" by simp
  moreover have "rep (unat a + 256 * unat b + le_nat bs * 2 ^ (16 * 1)) (unat a + 256 * unat b + sum16 bs)"
    by (rule rep_add [OF rep_refl rep_trans [OF rep_shift 3]])
  ultimately show ?case by (simp only: sum16.simps)
qed simp_all

lemma load_rep: "length bs \<le> 8 \<Longrightarrow> rep (unat (load bs)) (sum16 bs)"
  by (simp add: unat_load le_nat_rep)

lemma sum16_append: "even (length xs) \<Longrightarrow> sum16 (xs @ ys) = sum16 xs + sum16 ys"
  by (induction xs rule: sum16.induct) auto

lemma sum16_split: "even k \<Longrightarrow> k \<le> length bs \<Longrightarrow> sum16 bs = sum16 (take k bs) + sum16 (drop k bs)"
  using sum16_append [of "take k bs" "drop k bs"] by simp

section \<open>The whole checksum\<close>

lemma adc_loop_rep:
  assumes "rep (unat s + of_bool c) x" and "c \<longrightarrow> unat s < 2 ^ 64 - 1" and "8 * n \<le> length buf"
    and "adc_loop n (s, c) buf = ((s', c'), rest)"
  shows "rep (unat s' + of_bool c') (x + sum16 (take (8 * n) buf)) \<and> (c' \<longrightarrow> unat s' < 2 ^ 64 - 1) \<and> rest = drop (8 * n) buf"
  using assms
proof (induction n arbitrary: s c x buf)
  case 0
  then show ?case by simp
next
  case (Suc n)
  obtain t d where e: "adc s (load (take 8 buf)) c = (t, d)" by fastforce
  have r: "rep (unat t + of_bool d) (x + sum16 (take 8 buf))"
    by (rule adc_rep [OF e, of 4]) (use Suc.prems(1) load_rep in simp_all)
  have m: "d \<longrightarrow> unat t < 2 ^ 64 - 1" using adc_room [OF e] Suc.prems(2) by simp
  have "rep (unat s' + of_bool c') ((x + sum16 (take 8 buf)) + sum16 (take (8 * n) (drop 8 buf))) \<and>
      (c' \<longrightarrow> unat s' < 2 ^ 64 - 1) \<and> rest = drop (8 * n) (drop 8 buf)"
  proof (rule Suc.IH [OF r m])
    show "8 * n \<le> length (drop 8 buf)" using Suc.prems(3) by simp
    show "adc_loop n (t, d) (drop 8 buf) = ((s', c'), rest)" using Suc.prems(4) unfolding adc_loop.simps e .
  qed
  moreover have "sum16 (take (8 * Suc n) buf) = sum16 (take 8 buf) + sum16 (take (8 * n) (drop 8 buf))"
  proof -
    have "take (8 * Suc n) buf = take 8 buf @ take (8 * n) (drop 8 buf)" by (metis mult_Suc_right take_add)
    then show ?thesis using Suc.prems(3) by (simp add: sum16_append)
  qed
  moreover have "drop (8 * n) (drop 8 buf) = drop (8 * Suc n) buf" by (simp add: ac_simps)
  ultimately show ?case by (simp add: add.assoc del: mult_Suc_right)
qed

lemma chksum_8_rep:
  assumes "chksum_8 buf = (s, rest)"
  shows "rep (unat s) (sum16 (take (8 * (length buf div 8)) buf)) \<and> rest = drop (8 * (length buf div 8)) buf"
proof (cases "length buf div 8 = 0")
  case True
  with assms show ?thesis by (simp add: chksum_8_def)
next
  case False
  obtain t c r where e: "adc_loop (length buf div 8) (0, False) buf = ((t, c), r)" by (metis prod.collapse)
  have "rep (unat t + of_bool c) (0 + sum16 (take (8 * (length buf div 8)) buf)) \<and> (c \<longrightarrow> unat t < 2 ^ 64 - 1) \<and>
      r = drop (8 * (length buf div 8)) buf"
    by (rule adc_loop_rep [OF _ _ _ e]) simp_all
  moreover have "s = fst (adc t 0 c)" "rest = r" using assms False e by (auto simp: chksum_8_def Let_def)
  ultimately show ?thesis by (simp add: adc0_value)
qed


lemma chksum_part_rep:
  assumes "chksum_part len k (s, buf) = (s', rest)" and "rep (unat s) x" and "k \<le> 8" and "even k \<or> k = length buf"
    and "len div k mod 2 \<noteq> 0 \<longrightarrow> k \<le> length buf"
  shows "rep (unat s') (x + sum16 (if len div k mod 2 = 0 then [] else take k buf)) \<and>
    rest = (if len div k mod 2 = 0 then buf else drop k buf)"
proof (cases "len div k mod 2 = 0")
  case True
  with assms show ?thesis by (simp add: chksum_part_def)
next
  case False
  have "rep (unat (load (take k buf))) (sum16 (take k buf))" by (rule load_rep) (use assms(3) in simp)
  then have "rep (unat (add_adc0 s (load (take k buf)))) (x + sum16 (take k buf))"
    by (intro add_adc0_rep [of 4] assms(2)) simp_all
  with assms(1) False show ?thesis by (auto simp: chksum_part_def)
qed

text \<open>What is left of the length after the parts above \<open>k\<close>.\<close>

lemma parts_length: "n mod 8 = 4 * (n div 4 mod 2) + 2 * (n div 2 mod 2) + n mod 2" for n :: nat
  using mod_mult2_eq [of n 4 2] mod_mult2_eq [of n 2 2] by simp

lemma chksum_sum_rep:
  "rep (unat (fst (chksum_part (length buf) 1 (chksum_part (length buf) 2 (chksum_part (length buf) 4 (chksum_8 buf))))))
     (sum16 buf)"
proof -
  let ?n = "length buf"
  let ?b4 = "?n div 4 mod 2" and ?b2 = "?n div 2 mod 2" and ?b1 = "?n mod 2"
  let ?r8 = "drop (8 * (?n div 8)) buf"
  obtain s8 r8 where c8: "chksum_8 buf = (s8, r8)" by fastforce
  have p8: "rep (unat s8) (sum16 (take (8 * (?n div 8)) buf))" "r8 = ?r8" using chksum_8_rep [OF c8] by auto
  have l8: "length r8 = 4 * ?b4 + 2 * ?b2 + ?b1"
    unfolding p8(2) using parts_length [of ?n] by (simp add: minus_mult_div_eq_mod)
  obtain s4 r4 where c4: "chksum_part ?n 4 (s8, r8) = (s4, r4)" by fastforce
  have p4: "rep (unat s4) (sum16 (take (8 * (?n div 8)) buf) + sum16 (if ?b4 = 0 then [] else take 4 r8))"
    "r4 = (if ?b4 = 0 then r8 else drop 4 r8)"
    using chksum_part_rep [OF c4 p8(1)] l8 by auto
  have l4: "length r4 = 2 * ?b2 + ?b1" using l8 p4(2) by (cases "?b4 = 0") auto
  obtain s2 r2 where c2: "chksum_part ?n 2 (s4, r4) = (s2, r2)" by fastforce
  have p2: "rep (unat s2) (sum16 (take (8 * (?n div 8)) buf) + sum16 (if ?b4 = 0 then [] else take 4 r8) +
      sum16 (if ?b2 = 0 then [] else take 2 r4))" "r2 = (if ?b2 = 0 then r4 else drop 2 r4)"
    using chksum_part_rep [OF c2 p4(1)] l4 by auto
  have l2: "length r2 = ?b1" using l4 p2(2) by (cases "?b2 = 0") auto
  obtain s1 r1 where c1: "chksum_part ?n 1 (s2, r2) = (s1, r1)" by fastforce
  have p1: "rep (unat s1) (sum16 (take (8 * (?n div 8)) buf) + sum16 (if ?b4 = 0 then [] else take 4 r8) +
      sum16 (if ?b2 = 0 then [] else take 2 r4) + sum16 r2)"
  proof (cases "?b1 = 0")
    case True
    then show ?thesis using c1 p2(1) l2 by (simp add: chksum_part_def)
  next
    case False
    then have "length r2 = 1" using l2 by simp
    then show ?thesis using chksum_part_rep [OF c1 p2(1)] False by simp
  qed
  have "sum16 buf = sum16 (take (8 * (?n div 8)) buf) + sum16 r8"
    unfolding p8(2) by (rule sum16_split) simp_all
  moreover have "sum16 r8 = sum16 (if ?b4 = 0 then [] else take 4 r8) + sum16 r4"
    using sum16_split [of 4 r8] l8 p4(2) by auto
  moreover have "sum16 r4 = sum16 (if ?b2 = 0 then [] else take 2 r4) + sum16 r2"
    using sum16_split [of 2 r4] l4 p2(2) by auto
  ultimately show ?thesis unfolding c8 c4 c2 c1 fst_conv using p1 by (simp only: add.assoc)
qed

lemma halves_rep:
  assumes "n = 16 * k" and "unat h = unat a div 2 ^ n" and "unat l = unat a mod 2 ^ n"
  shows "rep (unat h + unat l) (unat (a :: 'w::len word))"
proof -
  have "unat a = unat h * 2 ^ (16 * k) + unat l" by (simp only: assms div_mult_mod_eq)
  moreover have "rep (unat h * 2 ^ (16 * k) + unat l) (unat h + unat l)" by (rule rep_add [OF rep_shift rep_refl])
  ultimately show ?thesis by (simp add: rep_def)
qed

lemma chksum_fold_ones:
  assumes "rep (unat s) x"
  shows "chksum_fold s = NOT (of_nat (ones x))"
proof -
  define s32 :: u32 where "s32 = add_adc0 (ucast (drop_bit 32 s)) (ucast s)"
  define s16 :: u16 where "s16 = add_adc0 (ucast (drop_bit 16 s32)) (ucast s32)"
  have "unat s < 2 ^ 64" "unat s32 < 2 ^ 32" using unsigned_less [of s, where 'a = nat] unsigned_less [of s32, where 'a = nat] by simp_all
  then have d: "unat s div 2 ^ 32 < 2 ^ 32" "unat s32 div 2 ^ 16 < 2 ^ 16"
    by (simp_all add: less_mult_imp_div_less)
  have "rep (unat (ucast (drop_bit 32 s) :: u32) + unat (ucast s :: u32)) (unat s)"
    by (rule halves_rep [of 32 2]) (use d in \<open>simp_all add: unsigned_ucast_eq unat_drop take_bit_eq_mod del: drop_bit_eq_div\<close>)
  moreover have "rep (unat s32) (unat (ucast (drop_bit 32 s) :: u32) + unat (ucast s :: u32))"
    unfolding s32_def by (rule add_adc0_rep [of 2]) simp_all
  ultimately have r32: "rep (unat s32) x" using assms rep_trans by blast
  have "rep (unat (ucast (drop_bit 16 s32) :: u16) + unat (ucast s32 :: u16)) (unat s32)"
    by (rule halves_rep [of 16 1]) (use d in \<open>simp_all add: unsigned_ucast_eq unat_drop take_bit_eq_mod del: drop_bit_eq_div\<close>)
  moreover have "rep (unat s16) (unat (ucast (drop_bit 16 s32) :: u16) + unat (ucast s32 :: u16))"
    unfolding s16_def by (rule add_adc0_rep [of 1]) simp_all
  ultimately have "rep (unat s16) x" using r32 rep_trans by blast
  then have "unat s16 = ones x" using unsigned_less [of s16, where 'a = nat] by (intro rep_ones) simp_all
  then have "s16 = of_nat (ones x)" by (metis of_nat_eqI)
  then show ?thesis by (simp add: chksum_fold_def Let_def s32_def s16_def)
qed

lemma chksum_value: "chksum_internet buf = NOT (of_nat (ones (sum16 buf)))"
  unfolding chksum_internet_def Let_def by (rule chksum_fold_ones [OF chksum_sum_rep])

text \<open>C29: The carry-chain assembly computes the one's complement sum of RFC 1071.\<close>

theorem chksum_internet_ones:
  "chksum_internet buf = NOT (of_nat (ones (sum16 buf)))"
  by (rule chksum_value)

section \<open>Verifying a stored checksum\<close>

lemma ones_less: "ones s < 65536"
proof -
  have "(s - 1) mod 65535 < 65535" by simp
  then show ?thesis by (simp add: ones_def)
qed

lemma not_of_nat: "n < 65536 \<Longrightarrow> unat (NOT (of_nat n :: u16)) = 65535 - n"
proof -
  assume n: "n < 65536"
  have "NOT (of_nat n :: u16) = of_nat (65535 - n)"
  proof -
    have "(of_nat (65535 - n) :: u16) = of_nat 65535 - of_nat n" using n by (simp add: of_nat_diff)
    also have "\<dots> = - 1 - of_nat n" by simp
    finally show ?thesis by (simp add: not_eq_complement)
  qed
  then show ?thesis using n unat_of_nat_small [of "65535 - n", where 'w = 16] by simp
qed

text \<open>C30: A buffer that holds its own checksum has checksum 0.\<close>

theorem chksum_verifies:
  assumes "even (length xs)"
    and "c = chksum_internet (xs @ [0, 0] @ ys)"
  shows "chksum_internet (xs @ [ucast c, ucast (drop_bit 8 c)] @ ys) = 0"
proof -
  let ?s = "sum16 xs + sum16 ys"
  have s0: "sum16 (xs @ [0, 0] @ ys) = ?s" using assms(1) by (simp add: sum16_append)
  have c: "unat c = 65535 - ones ?s"
    unfolding assms(2) chksum_value s0 by (rule not_of_nat [OF ones_less])
  have "unat c < 65536" using unsigned_less [of c, where 'a = nat] by simp
  then have "unat (ucast c :: u8) = unat c mod 256" "unat (ucast (drop_bit 8 c) :: u8) = unat c div 256"
    by (simp_all add: unsigned_ucast_eq unat_drop take_bit_eq_mod del: drop_bit_eq_div)
  then have "sum16 (xs @ [ucast c, ucast (drop_bit 8 c)] @ ys) = ?s + unat c"
    using assms(1) by (simp add: sum16_append)
  moreover have "ones (?s + unat c) = 65535"
  proof (cases "?s = 0")
    case True
    then show ?thesis using c by (simp add: ones_def)
  next
    case False
    let ?m = "(?s - 1) mod 65535"
    have o: "ones ?s = ?m + 1" using False by (simp add: ones_def)
    have m: "?m < 65535" by simp
    have "?s - 1 = 65535 * ((?s - 1) div 65535) + ?m" by simp
    then have "?s + unat c - 1 = 65535 * ((?s - 1) div 65535) + 65534" using o c m False by linarith
    then have "(?s + unat c - 1) mod 65535 = 65534" by simp
    then show ?thesis using False by (auto simp: ones_def)
  qed
  ultimately show ?thesis unfolding chksum_value by (simp add: not_eq_complement)
qed

theorem chksum_verifies_witness:
  "chksum_internet ([0x45, 0] @ [ucast (chksum_internet [0x45, 0, 0, 0, 7]), ucast (drop_bit 8 (chksum_internet [0x45, 0, 0, 0, 7]))] @ [7]) = 0"
  using chksum_verifies [of "[0x45, 0]" _ "[7]", OF _ refl] by simp

end
