(* ===== verification/Net_State.thy ===== *)
theory Net_State
  imports Flow_Groups Hashing Chksum
begin

text \<open>
  The state that the network layers share: the packet memory as bytes, the headers at
  offsets in it, the configuration, the transmit queues and the ARP tables. Multi-byte
  fields are stored in network byte order, which is what the \<open>htons\<close> and \<open>ntohl\<close> calls
  of the code amount to on the little-endian machine it is built for.
\<close>

section \<open>Bytes in packet memory\<close>

type_synonym bytemem = "addr \<Rightarrow> u8"
type_synonym eth_addr = "u8 list"

definition get_bytes :: "bytemem \<Rightarrow> addr \<Rightarrow> nat \<Rightarrow> u8 list" where
  "get_bytes m a n = map (\<lambda>i. m (a + i)) [0..<n]"

definition put_bytes :: "bytemem \<Rightarrow> addr \<Rightarrow> u8 list \<Rightarrow> bytemem" where
  "put_bytes m a bs = (\<lambda>x. if a \<le> x \<and> x < a + length bs then bs ! (x - a) else m x)"

definition be_bytes :: "nat \<Rightarrow> 'w::len word \<Rightarrow> u8 list" where
  "be_bytes n x = rev (le_bytes n x)"

definition be_value :: "u8 list \<Rightarrow> 'w::len word" where
  "be_value bs = foldl (\<lambda>acc b. acc * 256 + ucast b) 0 bs"

definition get16 :: "bytemem \<Rightarrow> addr \<Rightarrow> u16" where "get16 m a = be_value (get_bytes m a 2)"
definition get32 :: "bytemem \<Rightarrow> addr \<Rightarrow> u32" where "get32 m a = be_value (get_bytes m a 4)"
definition put16 :: "bytemem \<Rightarrow> addr \<Rightarrow> u16 \<Rightarrow> bytemem" where "put16 m a x = put_bytes m a (be_bytes 2 x)"
definition put32 :: "bytemem \<Rightarrow> addr \<Rightarrow> u32 \<Rightarrow> bytemem" where "put32 m a x = put_bytes m a (be_bytes 4 x)"

section \<open>Ethernet (inc/net/ethernet.h)\<close>

definition ETH_ADDR_LEN :: nat where "ETH_ADDR_LEN = 6"
definition ETH_ADDR_BROADCAST :: eth_addr where "ETH_ADDR_BROADCAST = replicate 6 0xff"
definition ETH_ADDR_GROUP :: u8 where "ETH_ADDR_GROUP = 1"
definition ETHTYPE_IP :: u16 where "ETHTYPE_IP = 0x0800"
definition ETHTYPE_ARP :: u16 where "ETHTYPE_ARP = 0x0806"
definition ETH_MTU :: nat where "ETH_MTU = 1500"
definition ETH_HDR_LEN :: nat where "ETH_HDR_LEN = 14"

definition eth_addr_is_multicast :: "eth_addr \<Rightarrow> bool" where
  "eth_addr_is_multicast a \<longleftrightarrow> a ! 0 AND ETH_ADDR_GROUP \<noteq> 0"

definition eth_addr_is_zero :: "eth_addr \<Rightarrow> bool" where
  "eth_addr_is_zero a \<longleftrightarrow> (\<forall>i\<in>set [0..<ETH_ADDR_LEN]. a ! i = 0)"

text \<open>Offsets of the fields of \<open>struct eth_hdr\<close>.\<close>

definition eth_dhost :: nat where "eth_dhost = 0"
definition eth_shost :: nat where "eth_shost = 6"
definition eth_type :: nat where "eth_type = 12"

section \<open>Configuration and state\<close>

record cfg_parameters =
  host_addr :: u32
  gateway_addr :: u32
  cfg_mask :: u32
  cfg_mac :: eth_addr

text \<open>What the functions read and do not change: the running CPU, its packet pool, the
  configuration, the CRC instruction and whether \<open>BUG_ON\<close> stops.\<close>

record net_env =
  this_cpu :: u32
  pool_ptr :: addr
  CFG :: cfg_parameters
  crc32q :: "u64 \<Rightarrow> u64 \<Rightarrow> u64"
  bugs_on :: bool

text \<open>\<open>inc/kns/hrtimer.h\<close>: a timer is active or not, and has an expiry in seconds.\<close>

record kns_hrtimer =
  t_active :: bool
  t_expires :: nat
  t_cur_fg :: addr

record arp_entry =
  ae_addr :: u32
  ae_mac :: eth_addr
  ae_flags :: u8
  ae_retries :: u8
  ae_timer :: kns_hrtimer
  ae_pending :: "addr list"

record pending_pkt =
  pp_dst :: u32
  pp_fg :: nat
  pp_mbuf :: addr
  pp_len :: u32
  pp_cpu :: u32
  pp_dispatched :: bool

record net_state =
  nw :: mbuf_world
  nmem :: bytemem
  iov_mem :: "addr \<Rightarrow> mbuf_iov"
  txqs :: "nat \<Rightarrow> eth_tx_queue"
  arp_tbl :: "nat \<Rightarrow> addr list"
  arp_ents :: "addr \<Rightarrow> arp_entry"
  arp_mempool :: pool_state
  pend_ents :: "addr \<Rightarrow> pending_pkt"
  pending_pkt_mempool :: pool_state
  arp_lock :: bool
  pending_pkt_lock :: bool
  arp_send_pkt_lock :: bool
  send_calls :: "(u32 \<times> addr) list"

text \<open>Taking a lock that is held waits for ever: nothing else runs on the CPU.\<close>

definition spin_lock :: "bool \<Rightarrow> unit res" where
  "spin_lock held = (if held then Inl Hang else Inr ())"

definition upd_mem :: "(bytemem \<Rightarrow> bytemem) \<Rightarrow> net_state \<Rightarrow> net_state" where
  "upd_mem f s = s\<lparr>nmem := f (nmem s)\<rparr>"

definition upd_mbuf :: "addr \<Rightarrow> (mbuf \<Rightarrow> mbuf) \<Rightarrow> net_state \<Rightarrow> net_state" where
  "upd_mbuf m f s = s\<lparr>nw := (nw s)\<lparr>mw_mbufs := (mw_mbufs (nw s))(m := f (mw_mbufs (nw s) m))\<rparr>\<rparr>"

definition upd_arp :: "addr \<Rightarrow> (arp_entry \<Rightarrow> arp_entry) \<Rightarrow> net_state \<Rightarrow> net_state" where
  "upd_arp e f s = s\<lparr>arp_ents := (arp_ents s)(e := f (arp_ents s e))\<rparr>"

text \<open>\<open>mbuf_alloc_local\<close>, \<open>mbuf_free\<close> and \<open>eth_send_one\<close> on this state.\<close>

definition mbuf_alloc_local :: "net_env \<Rightarrow> net_state \<Rightarrow> (addr \<times> net_state) res" where
  "mbuf_alloc_local env s =
     bindR (mbuf_alloc (bugs_on env) (pool_ptr env) (nw s)) (\<lambda>(m, w). Inr (m, s\<lparr>nw := w\<rparr>))"

definition net_mbuf_free :: "net_env \<Rightarrow> addr \<Rightarrow> net_state \<Rightarrow> net_state res" where
  "net_mbuf_free env m s = bindR (mbuf_free (bugs_on env) m (nw s)) (\<lambda>w. Inr (s\<lparr>nw := w\<rparr>))"

definition net_send_one :: "nat \<Rightarrow> addr \<Rightarrow> nat \<Rightarrow> net_state \<Rightarrow> (u32 \<times> net_state) res" where
  "net_send_one dev m len s =
     (let (r, w) = eth_send_one (txqs s dev) (nw s) m len
      in bindR r (\<lambda>(rc, q). Inr (rc, s\<lparr>nw := w, txqs := (txqs s)(dev := q)\<rparr>)))"

section \<open>Byte access laws\<close>

lemma length_get_bytes [simp]: "length (get_bytes m a n) = n"
  by (simp add: get_bytes_def)

lemma get_put_same [simp]: "get_bytes (put_bytes m a bs) a (length bs) = bs"
  by (rule nth_equalityI) (simp_all add: get_bytes_def put_bytes_def)

lemma get_put_other: "a + n \<le> b \<or> b + length bs \<le> a \<Longrightarrow> get_bytes (put_bytes m b bs) a n = get_bytes m a n"
  by (rule nth_equalityI) (auto simp: get_bytes_def put_bytes_def)

lemma length_be_bytes [simp]: "length (be_bytes n x) = n"
  by (simp add: be_bytes_def le_bytes_def)

text \<open>Storing in network byte order and reading back.\<close>

lemma be_value_rev: "be_value (rev bs) = of_nat (le_nat bs)"
proof (induction bs)
  case Nil
  show ?case by (simp add: be_value_def)
next
  case (Cons b bs)
  have "be_value (rev (b # bs)) = (be_value (rev bs) * 256 + ucast b :: 'a word)" by (simp add: be_value_def)
  also have "\<dots> = of_nat (le_nat bs) * 256 + of_nat (unat b)" unfolding Cons by simp
  finally show ?case by (simp add: ac_simps)
qed

lemma le_nat_snoc: "le_nat (bs @ [b]) = le_nat bs + 256 ^ length bs * unat b"
  by (induction bs) (simp_all add: algebra_simps)

lemma le_nat_le_bytes: "le_nat (le_bytes n x) = unat x mod 256 ^ n" for x :: "'w::len word"
proof (induction n)
  case 0
  show ?case by (simp add: le_bytes_def)
next
  case (Suc n)
  have "unat (ucast (drop_bit (8 * n) x) :: u8) = unat x div 256 ^ n mod 256"
    by (simp add: unsigned_ucast_eq unat_drop take_bit_eq_mod power_mult del: drop_bit_eq_div)
  moreover have "le_bytes (Suc n) x = le_bytes n x @ [ucast (drop_bit (8 * n) x)]" by (simp add: le_bytes_def)
  moreover have "length (le_bytes n x) = n" by (simp add: le_bytes_def)
  ultimately have "le_nat (le_bytes (Suc n) x) = unat x mod 256 ^ n + 256 ^ n * (unat x div 256 ^ n mod 256)"
    using Suc by (simp add: le_nat_snoc)
  also have "\<dots> = unat x mod 256 ^ Suc n"
    using mod_mult2_eq [of "unat x" "256 ^ n" 256] by (simp add: mult.commute)
  finally show ?case .
qed

lemma be_value_bytes:
  fixes x :: "'w::len word"
  assumes "LENGTH('w) = 8 * n"
  shows "be_value (be_bytes n x) = x"
proof -
  have "unat x < 256 ^ n" using unsigned_less [of x, where 'a = nat] assms by (simp add: power_mult)
  then show ?thesis by (simp add: be_bytes_def be_value_rev le_nat_le_bytes)
qed

lemma get16_put16 [simp]: "get16 (put16 m a x) a = x"
  using get_put_same [of m a "be_bytes 2 x"] be_value_bytes [of 2 x] by (simp add: get16_def put16_def)

lemma get32_put32 [simp]: "get32 (put32 m a x) a = x"
  using get_put_same [of m a "be_bytes 4 x"] be_value_bytes [of 4 x] by (simp add: get32_def put32_def)

end
