(* ===== verification/Arp.thy ===== *)
theory Arp
  imports Net_State
begin

text \<open>
  The Address Resolution Protocol (\<open>net/arp.c\<close>, \<open>inc/net/arp.h\<close>): a hash table of entries
  from a memory pool, one timer per entry, and packets that wait for an address. Addresses
  are in host byte order in the table and in network byte order in packets.
\<close>

section \<open>Constants and layout\<close>

definition ARP_FLAG_RESOLVING :: u8 where "ARP_FLAG_RESOLVING = 1"
definition ARP_FLAG_VALID :: u8 where "ARP_FLAG_VALID = 2"
definition ARP_FLAG_STATIC :: u8 where "ARP_FLAG_STATIC = 4"
definition ARP_MAX_ATTEMPTS :: u8 where "ARP_MAX_ATTEMPTS = 3"
definition ARP_MAX_ENTRIES :: nat where "ARP_MAX_ENTRIES = 65536"
definition ARP_HASH_SEED :: u32 where "ARP_HASH_SEED = 0xa36bdcbe"
definition MAX_PENDING_PKTS :: nat where "MAX_PENDING_PKTS = 1024"
definition ARP_HTYPE_ETHER :: u16 where "ARP_HTYPE_ETHER = 1"
definition ARP_OP_REQUEST :: u16 where "ARP_OP_REQUEST = 1"
definition ARP_OP_REPLY :: u16 where "ARP_OP_REPLY = 2"

lemmas arp_flags = ARP_FLAG_RESOLVING_def ARP_FLAG_VALID_def ARP_FLAG_STATIC_def

text \<open>\<open>struct arp_hdr\<close> (8 bytes) and \<open>struct arp_hdr_ethip\<close> (20 bytes), packed.\<close>

definition ah_htype :: nat where "ah_htype = 0"
definition ah_ptype :: nat where "ah_ptype = 2"
definition ah_hlen :: nat where "ah_hlen = 4"
definition ah_plen :: nat where "ah_plen = 5"
definition ah_op :: nat where "ah_op = 6"
definition ARP_HDR_LEN :: nat where "ARP_HDR_LEN = 8"
definition ei_sender_mac :: nat where "ei_sender_mac = 0"
definition ei_sender_ip :: nat where "ei_sender_ip = 6"
definition ei_target_mac :: nat where "ei_target_mac = 10"
definition ei_target_ip :: nat where "ei_target_ip = 16"
definition ARP_ETHIP_LEN :: nat where "ARP_ETHIP_LEN = 20"
definition ARP_PKT_SIZE :: nat where "ARP_PKT_SIZE = ETH_HDR_LEN + ARP_HDR_LEN + ARP_ETHIP_LEN"

lemmas arp_layout = ah_htype_def ah_ptype_def ah_hlen_def ah_plen_def ah_op_def ARP_HDR_LEN_def
  ei_sender_mac_def ei_sender_ip_def ei_target_mac_def ei_target_ip_def ARP_ETHIP_LEN_def
  ARP_PKT_SIZE_def ETH_HDR_LEN_def eth_dhost_def eth_shost_def eth_type_def MBUF_HEADER_LEN_def

section \<open>The table\<close>

definition arp_ip_to_idx :: "net_env \<Rightarrow> u32 \<Rightarrow> nat" where
  "arp_ip_to_idx env addr =
     unat (hash_crc32c_one (crc32q env) ARP_HASH_SEED (ucast addr) AND of_nat (ARP_MAX_ENTRIES - 1))"

text \<open>\<open>__arp_lookup\<close>: the entry with the address in a bucket, or NULL.\<close>

definition arp_find :: "(addr \<Rightarrow> arp_entry) \<Rightarrow> addr list \<Rightarrow> u32 \<Rightarrow> addr" where
  "arp_find es h addr = (case find (\<lambda>e. ae_addr (es e) = addr) h of Some e \<Rightarrow> e | None \<Rightarrow> NULL)"

text \<open>\<open>hrtimer_init\<close> leaves the timer inactive and does not touch the kns fields.\<close>

definition hrtimer_init :: "kns_hrtimer \<Rightarrow> kns_hrtimer" where
  "hrtimer_init t = t\<lparr>t_active := False\<rparr>"

definition arp_lookup :: "net_env \<Rightarrow> u32 \<Rightarrow> bool \<Rightarrow> net_state \<Rightarrow> (addr \<times> net_state) res" where
  "arp_lookup env addr create_okay s =
     (let i = arp_ip_to_idx env addr; e = arp_find (arp_ents s) (arp_tbl s i) addr
      in if e \<noteq> NULL then Inr (e, s)
         else if create_okay then
           bindR (spin_lock (arp_lock s)) (\<lambda>_.
           let s1 = s\<lparr>arp_lock := True\<rparr>; e1 = arp_find (arp_ents s1) (arp_tbl s1 i) addr
           in if e1 \<noteq> NULL then Inr (e1, s1\<lparr>arp_lock := False\<rparr>)
              else
                bindR (kns_mempool_alloc (bugs_on env) (arp_mempool s1)) (\<lambda>(e2, pool).
                let s2 = s1\<lparr>arp_mempool := pool\<rparr>
                in if e2 = NULL then Inr (NULL, s2)
                   else
                     let s3 = upd_arp e2 (\<lambda>e. e\<lparr>ae_addr := addr, ae_flags := 0, ae_retries := 0,
                                ae_timer := hrtimer_init (ae_timer e)\<rparr>) s2
                     in Inr (e2, s3\<lparr>arp_tbl := (arp_tbl s3)(i := e2 # arp_tbl s3 i), arp_lock := False\<rparr>)))
         else Inr (NULL, s))"

text \<open>The packets that are not dispatched yet are posted to their CPUs.\<close>

fun dispatch_pending :: "addr list \<Rightarrow> net_state \<Rightarrow> net_state" where
  "dispatch_pending [] s = s"
| "dispatch_pending (p # ps) s =
     (if \<not> pp_dispatched (pend_ents s p)
      then dispatch_pending ps (s\<lparr>send_calls := send_calls s @ [(pp_cpu (pend_ents s p), p)],
             pend_ents := (pend_ents s)(p := (pend_ents s p)\<lparr>pp_dispatched := True\<rparr>)\<rparr>)
      else dispatch_pending ps s)"

definition arp_update_mac :: "net_env \<Rightarrow> u32 \<Rightarrow> eth_addr \<Rightarrow> bool \<Rightarrow> net_state \<Rightarrow> (u32 \<times> net_state) res" where
  "arp_update_mac env addr mac create_okay s =
     bindR (arp_lookup env addr create_okay s) (\<lambda>(e, s1).
     if e = NULL then Inr (- ENOMEM, s1)
     else if ae_flags (arp_ents s1 e) AND ARP_FLAG_STATIC \<noteq> 0 then Inr (0, s1)
     else
       let s2 = upd_arp e (\<lambda>x. x\<lparr>ae_mac := mac, ae_flags := ARP_FLAG_VALID, ae_retries := 0\<rparr>) s1;
           s3 = (if t_active (ae_timer (arp_ents s2 e))
                 then upd_arp e (\<lambda>x. x\<lparr>ae_timer := (ae_timer x)\<lparr>t_expires := 10, t_cur_fg := NULL, t_active := True\<rparr>\<rparr>) s2
                 else s2)
       in bindR (spin_lock (pending_pkt_lock s3)) (\<lambda>_.
          Inr (0, dispatch_pending (ae_pending (arp_ents s3 e)) s3)))"

section \<open>Packets\<close>

definition arp_send_pkt :: "net_env \<Rightarrow> u16 \<Rightarrow> u32 \<Rightarrow> eth_addr \<Rightarrow> net_state \<Rightarrow> (u32 \<times> net_state) res" where
  "arp_send_pkt env op target_ip target_mac s =
     bindR (mbuf_alloc_local env s) (\<lambda>(pkt, s1).
     if pkt = NULL then Inr (- ENOMEM, s1)
     else
       let ethhdr = mbuf_mtod pkt; arphdr = ethhdr + ETH_HDR_LEN; ethip = arphdr + ARP_HDR_LEN;
           s2 = upd_mem (\<lambda>m.
                 let m = put_bytes m (ethhdr + eth_dhost) target_mac;
                     m = put_bytes m (ethhdr + eth_shost) (cfg_mac (CFG env));
                     m = put16 m (ethhdr + eth_type) ETHTYPE_ARP;
                     m = put16 m (arphdr + ah_htype) ARP_HTYPE_ETHER;
                     m = put16 m (arphdr + ah_ptype) ETHTYPE_IP;
                     m = put_bytes m (arphdr + ah_hlen) [6];
                     m = put_bytes m (arphdr + ah_plen) [4];
                     m = put16 m (arphdr + ah_op) op;
                     m = put_bytes m (ethip + ei_sender_mac) (cfg_mac (CFG env));
                     m = put32 m (ethip + ei_sender_ip) (host_addr (CFG env));
                     m = put_bytes m (ethip + ei_target_mac) target_mac
                 in put32 m (ethip + ei_target_ip) target_ip) s1;
           s3 = upd_mbuf pkt (\<lambda>b. b\<lparr>mb_ol_flags := 0\<rparr>) s2
       in bindR (net_send_one 0 pkt ARP_PKT_SIZE s3) (\<lambda>(ret, s4).
          if ret \<noteq> 0 then bindR (net_mbuf_free env pkt s4) (\<lambda>s5. Inr (- EIO, s5)) else Inr (0, s4)))"

text \<open>The request is turned into the reply in place.\<close>

definition reply_bytes :: "net_env \<Rightarrow> addr \<Rightarrow> addr \<Rightarrow> addr \<Rightarrow> bytemem \<Rightarrow> bytemem" where
  "reply_bytes env ethhdr arphdr ethip m =
     (let m = put_bytes m (ethhdr + eth_dhost) (get_bytes m (ethhdr + eth_shost) 6);
          m = put16 m (arphdr + ah_op) ARP_OP_REPLY;
          m = put_bytes m (ethip + ei_target_mac) (get_bytes m (ethip + ei_sender_mac) 6);
          m = put_bytes m (ethip + ei_target_ip) (get_bytes m (ethip + ei_sender_ip) 4);
          m = put_bytes m (ethhdr + eth_shost) (cfg_mac (CFG env));
          m = put32 m (ethip + ei_sender_ip) (host_addr (CFG env))
      in put_bytes m (ethip + ei_sender_mac) (cfg_mac (CFG env)))"

definition arp_send_response_reuse :: "net_env \<Rightarrow> addr \<Rightarrow> addr \<Rightarrow> addr \<Rightarrow> net_state \<Rightarrow> (u32 \<times> net_state) res" where
  "arp_send_response_reuse env pkt arphdr ethip s =
     (let s2 = upd_mem (reply_bytes env (mbuf_mtod pkt) arphdr ethip) s;
          s3 = upd_mbuf pkt (\<lambda>b. b\<lparr>mb_ol_flags := 0\<rparr>) s2
      in bindR (net_send_one 0 pkt ARP_PKT_SIZE s3) (\<lambda>(ret, s4).
         if ret \<noteq> 0 then bindR (net_mbuf_free env pkt s4) (\<lambda>s5. Inr (- EIO, s5)) else Inr (0, s4)))"

definition arp_input :: "net_env \<Rightarrow> addr \<Rightarrow> addr \<Rightarrow> net_state \<Rightarrow> net_state res" where
  "arp_input env pkt hdr s =
     (let m = nmem s; ethip = mbuf_nextd_off hdr ARP_HDR_LEN in
      if \<not> mbuf_enough_space (nw s) pkt hdr ARP_HDR_LEN then net_mbuf_free env pkt s
      else if get16 m (hdr + ah_htype) \<noteq> ARP_HTYPE_ETHER \<or> get16 m (hdr + ah_ptype) \<noteq> ETHTYPE_IP \<or>
              m (hdr + ah_hlen) \<noteq> 6 \<or> m (hdr + ah_plen) \<noteq> 4 then net_mbuf_free env pkt s
      else if \<not> mbuf_enough_space (nw s) pkt ethip ARP_ETHIP_LEN then net_mbuf_free env pkt s
      else
        let op = get16 m (hdr + ah_op);
            sender_ip = get32 m (ethip + ei_sender_ip);
            target_ip = get32 m (ethip + ei_target_ip);
            sender_mac = get_bytes m (ethip + ei_sender_mac) 6
        in if eth_addr_is_multicast sender_mac then net_mbuf_free env pkt s
           else
             let am_target = (host_addr (CFG env) = target_ip)
             in bindR (arp_update_mac env sender_ip sender_mac am_target s) (\<lambda>(_, s1).
                if am_target \<and> op = ARP_OP_REQUEST
                then bindR (arp_send_response_reuse env pkt hdr ethip s1) (\<lambda>(_, s2). Inr s2)
                else net_mbuf_free env pkt s1))"

section \<open>Resolution\<close>

text \<open>The result is the return value and, for 0, the address written to \<open>mac\<close>.\<close>

definition arp_lookup_mac :: "net_env \<Rightarrow> u32 \<Rightarrow> net_state \<Rightarrow> (u32 \<times> eth_addr option \<times> net_state) res" where
  "arp_lookup_mac env addr s =
     bindR (arp_lookup env addr True s) (\<lambda>(e, s1).
     if e = NULL then Inr (- ENOENT, None, s1)
     else if ae_flags (arp_ents s1 e) AND ARP_FLAG_VALID = 0 then
       bindR (spin_lock (arp_send_pkt_lock s1)) (\<lambda>_.
       bindR (if t_active (ae_timer (arp_ents s1 e)) then
                let s2 = upd_arp e (\<lambda>x. x\<lparr>ae_flags := ae_flags x OR ARP_FLAG_RESOLVING\<rparr>)
                           (s1\<lparr>arp_send_pkt_lock := True\<rparr>)
                in bindR (arp_send_pkt env ARP_OP_REQUEST addr ETH_ADDR_BROADCAST s2) (\<lambda>(_, s3).
                   Inr (upd_arp e (\<lambda>x. x\<lparr>ae_timer := (ae_timer x)\<lparr>t_active := True, t_expires := 1, t_cur_fg := NULL\<rparr>\<rparr>)
                          (s3\<lparr>arp_send_pkt_lock := False\<rparr>)))
              else Inr s1) (\<lambda>s4.
       Inr (- EAGAIN, None, s4)))
     else Inr (0, Some (ae_mac (arp_ents s1 e)), s1))"

definition arp_insert :: "net_env \<Rightarrow> u32 \<Rightarrow> eth_addr \<Rightarrow> net_state \<Rightarrow> (u32 \<times> net_state) res" where
  "arp_insert env addr mac s =
     bindR (arp_lookup env addr False s) (\<lambda>(e0, s1).
     bindR (if e0 \<noteq> NULL then Inr (e0, s1)
            else
              let i = arp_ip_to_idx env addr
              in bindR (kns_mempool_alloc (bugs_on env) (arp_mempool s1)) (\<lambda>(e2, pool).
                 let s2 = s1\<lparr>arp_mempool := pool\<rparr>
                 in if e2 = NULL then Inr (NULL, s2)
                    else
                      let s3 = upd_arp e2 (\<lambda>e. e\<lparr>ae_addr := addr, ae_flags := ARP_FLAG_VALID OR ARP_FLAG_STATIC,
                                 ae_retries := 0, ae_timer := hrtimer_init (ae_timer e)\<rparr>) s2
                      in Inr (e2, s3\<lparr>arp_tbl := (arp_tbl s3)(i := e2 # arp_tbl s3 i)\<rparr>))) (\<lambda>(e, s4).
     if e = NULL then Inr (- ENOMEM, s4)
     else Inr (0, upd_arp e (\<lambda>x. x\<lparr>ae_timer := (ae_timer x)\<lparr>t_active := False\<rparr>, ae_mac := mac\<rparr>) s4)))"

text \<open>
  The loop over the pending packets of a dead entry. The macro is
  \<open>hlist_for_each_safe(pos, n, head)\<close>, which keeps the successor of \<open>pos\<close> in \<open>n\<close>; the body
  works on \<open>n\<close>, so it dereferences NULL for the last packet and, before that, frees the
  packet it goes to next. Only the empty list is left alone.
\<close>

definition drop_pending :: "addr list \<Rightarrow> unit res" where
  "drop_pending ps = (if ps = [] then Inr () else Inl Fault)"

text \<open>The result is \<open>True\<close> for \<open>HRTIMER_RESTART\<close>.\<close>

definition arp_timer_handler :: "net_env \<Rightarrow> addr \<Rightarrow> net_state \<Rightarrow> (bool \<times> net_state) res" where
  "arp_timer_handler env e s =
     bindR (BUG_ON (bugs_on env) (t_cur_fg (ae_timer (arp_ents s e)) \<noteq> NULL)) (\<lambda>_.
     let s1 = upd_arp e (\<lambda>x. x\<lparr>ae_retries := ae_retries x + 1\<rparr>) s; x1 = arp_ents s1 e
     in if ae_retries x1 \<ge> ARP_MAX_ATTEMPTS then
          bindR (spin_lock (pending_pkt_lock s1)) (\<lambda>_.
          bindR (drop_pending (ae_pending x1)) (\<lambda>_.
          let i = arp_ip_to_idx env (ae_addr x1);
              s2 = s1\<lparr>arp_tbl := (arp_tbl s1)(i := remove1 e (arp_tbl s1 i))\<rparr>
          in bindR (kns_mempool_free (bugs_on env) (arp_mempool s2) e) (\<lambda>pool.
             Inr (False, upd_arp e (\<lambda>x. x\<lparr>ae_timer := (ae_timer x)\<lparr>t_active := False\<rparr>\<rparr>) (s2\<lparr>arp_mempool := pool\<rparr>)))))
        else
          let s2 = upd_arp e (\<lambda>x. x\<lparr>ae_flags := ae_flags x OR ARP_FLAG_RESOLVING\<rparr>) s1; x2 = arp_ents s2 e
          in bindR (arp_send_pkt env ARP_OP_REQUEST (ae_addr x2)
                     (if ae_flags x2 AND ARP_FLAG_VALID \<noteq> 0 then ae_mac x2 else ETH_ADDR_BROADCAST) s2) (\<lambda>(_, s3).
             Inr (True, upd_arp e (\<lambda>x. x\<lparr>ae_timer := (ae_timer x)\<lparr>t_cur_fg := NULL, t_expires := 1, t_active := True\<rparr>\<rparr>) s3)))"

definition arp_add_pending_pkt :: "net_env \<Rightarrow> u32 \<Rightarrow> nat \<Rightarrow> addr \<Rightarrow> u32 \<Rightarrow> net_state \<Rightarrow> (u32 \<times> net_state) res" where
  "arp_add_pending_pkt env dst fg mbuf len s =
     bindR (arp_lookup env dst False s) (\<lambda>(e, s1).
     if e = NULL then Inr (- ENOENT, s1)
     else
       bindR (spin_lock (pending_pkt_lock s1)) (\<lambda>_.
       bindR (kns_mempool_alloc (bugs_on env) (pending_pkt_mempool s1)) (\<lambda>(p, pool).
       let s2 = s1\<lparr>pending_pkt_mempool := pool\<rparr>
       in if p = NULL then Inr (- ENOMEM, s2)
          else
            let s3 = s2\<lparr>pend_ents := (pend_ents s2)(p := \<lparr>pp_dst = dst, pp_fg = fg, pp_mbuf = mbuf, pp_len = len,
                       pp_cpu = this_cpu env, pp_dispatched = False\<rparr>)\<rparr>
            in Inr (0, upd_arp e (\<lambda>x. x\<lparr>ae_pending := p # ae_pending x\<rparr>) s3))))"

section \<open>Start-up\<close>

text \<open>
  \<open>sz_pending\<close> and \<open>sz_entry\<close> are the sizes of the two structures, which contain kernel
  types; \<open>buf1\<close> and \<open>buf2\<close> what \<open>page_alloc\<close> returns, \<open>ds1\<close> and \<open>ds2\<close> the addresses of the
  datastores and \<open>all\<close> the list of all datastores.
\<close>

definition arp_init ::
  "net_env \<Rightarrow> nat \<Rightarrow> nat \<Rightarrow> addr \<Rightarrow> addr \<Rightarrow> addr \<Rightarrow> addr \<Rightarrow> addr \<Rightarrow> net_state \<Rightarrow> (u32 \<times> addr \<times> net_state) res" where
  "arp_init env sz_pending sz_entry buf1 buf2 ds1 ds2 all s =
     (let (mp, mds, h) = pending_pkt_mempool s in
      bindR (mempool_create_datastore (bugs_on env) buf1 ds1 (mds, h, all) MAX_PENDING_PKTS sz_pending False
               MEMPOOL_DEFAULT_CHUNKSIZE ''pending_pkt'') (\<lambda>(ret, mds', h', all1).
      if ret \<noteq> 0 then Inr (ret, all1, s\<lparr>pending_pkt_mempool := (mp, mds', h')\<rparr>)
      else
        bindR (kns_mempool_create (bugs_on env) mp ds1 mds' 0 0) (\<lambda>(ret2, mp').
        let s1 = s\<lparr>pending_pkt_mempool := (mp', mds', h')\<rparr> in
        if ret2 \<noteq> 0 then Inr (ret2, all1, s1)
        else
          let (amp, amds, ah) = arp_mempool s1 in
          bindR (mempool_create_datastore (bugs_on env) buf2 ds2 (amds, ah, all1) ARP_MAX_ENTRIES sz_entry False
                   MEMPOOL_DEFAULT_CHUNKSIZE ''arp'') (\<lambda>(ret3, amds', ah', all2).
          if ret3 \<noteq> 0 then Inr (ret3, all2, s1\<lparr>arp_mempool := (amp, amds', ah')\<rparr>)
          else
            bindR (kns_mempool_create (bugs_on env) amp ds2 amds' 0 0) (\<lambda>(ret4, amp').
            Inr (ret4, all2, s1\<lparr>arp_mempool := (amp', amds', ah')\<rparr>))))))"

end
