(* ===== verification/Arp_Spec.thy ===== *)
theory Arp_Spec
  imports Arp
begin

text \<open>
  ARP as a map from addresses to hardware addresses: the table invariant, learning and
  resolving, static entries, the reply to a request; and two defects, the timers that never
  start and the lock that a failed allocation keeps.
\<close>

section \<open>The table as a map\<close>

definition entry_of :: "net_env \<Rightarrow> net_state \<Rightarrow> u32 \<Rightarrow> addr" where
  "entry_of env s a = arp_find (arp_ents s) (arp_tbl s (arp_ip_to_idx env a)) a"

definition arp_view :: "net_env \<Rightarrow> net_state \<Rightarrow> u32 \<Rightarrow> (eth_addr \<times> u8) option" where
  "arp_view env s a =
     (let e = entry_of env s a in if e = NULL then None else Some (ae_mac (arp_ents s e), ae_flags (arp_ents s e)))"

text \<open>\<open>F\<close> are the free entries of the pool: none of them is in the table.\<close>

definition arp_ok :: "addr set \<Rightarrow> net_state \<Rightarrow> bool" where
  "arp_ok F s \<longleftrightarrow> pool_ok (arp_mempool s) F \<and> (\<forall>i. NULL \<notin> set (arp_tbl s i) \<and> set (arp_tbl s i) \<inter> F = {}) \<and>
     \<not> arp_lock s \<and> \<not> pending_pkt_lock s \<and> \<not> arp_send_pkt_lock s"

lemma arp_find_SomeD: "arp_find es h a = e \<Longrightarrow> e \<noteq> NULL \<Longrightarrow> e \<in> set h \<and> ae_addr (es e) = a"
  by (auto simp: arp_find_def find_Some_iff split: option.splits)

lemma arp_find_cong: "(\<And>x. x \<in> set h \<Longrightarrow> ae_addr (es x) = ae_addr (es' x)) \<Longrightarrow> arp_find es h a = arp_find es' h a"
  unfolding arp_find_def by (simp cong: find_cong)

lemma arp_find_Cons: "arp_find es (x # h) a = (if ae_addr (es x) = a then x else arp_find es h a)"
  by (simp add: arp_find_def)

lemma upd_arp_sel [simp]:
  "arp_ents (upd_arp e f s) x = (if x = e then f (arp_ents s e) else arp_ents s x)"
  "arp_tbl (upd_arp e f s) = arp_tbl s" "arp_mempool (upd_arp e f s) = arp_mempool s"
  "arp_lock (upd_arp e f s) = arp_lock s" "pending_pkt_lock (upd_arp e f s) = pending_pkt_lock s"
  "arp_send_pkt_lock (upd_arp e f s) = arp_send_pkt_lock s" "nw (upd_arp e f s) = nw s"
  "txqs (upd_arp e f s) = txqs s" "nmem (upd_arp e f s) = nmem s" "pend_ents (upd_arp e f s) = pend_ents s"
  "pending_pkt_mempool (upd_arp e f s) = pending_pkt_mempool s"
  by (simp_all add: upd_arp_def)

lemma entry_of_keep:
  assumes "arp_tbl s' = arp_tbl s" and "\<And>x. ae_addr (arp_ents s' x) = ae_addr (arp_ents s x)"
  shows "entry_of env s' a = entry_of env s a"
  unfolding entry_of_def assms(1) by (rule arp_find_cong) (rule assms(2))

section \<open>Looking up\<close>

text \<open>An address in the table is found and nothing changes; an absent one gets a fresh entry
  without flags, as long as the pool has one.\<close>

lemma lookup_present: "entry_of env s a \<noteq> NULL \<Longrightarrow> arp_lookup env a c s = Inr (entry_of env s a, s)"
  by (simp add: arp_lookup_def entry_of_def Let_def)

lemma lookup_absent: "entry_of env s a = NULL \<Longrightarrow> arp_lookup env a False s = Inr (NULL, s)"
  by (simp add: arp_lookup_def entry_of_def Let_def)

lemma lookup_create:
  assumes "arp_ok F s" and "entry_of env s a = NULL" and "F \<noteq> {}" and "\<not> bugs_on env"
  shows "\<exists>e s'. arp_lookup env a True s = Inr (e, s') \<and> e \<in> F \<and> e \<noteq> NULL \<and> arp_ok (F - {e}) s' \<and>
     entry_of env s' a = e \<and> ae_flags (arp_ents s' e) = 0 \<and> \<not> t_active (ae_timer (arp_ents s' e)) \<and>
     (\<forall>b. b \<noteq> a \<longrightarrow> entry_of env s' b = entry_of env s b) \<and> (\<forall>x. x \<noteq> e \<longrightarrow> arp_ents s' x = arp_ents s x) \<and>
     nw s' = nw s \<and> nmem s' = nmem s \<and> txqs s' = txqs s"
proof -
  have p: "pool_ok (arp_mempool s) F" using assms(1) by (simp add: arp_ok_def)
  obtain e pool where al: "kns_mempool_alloc False (arp_mempool s) = Inr (e, pool)"
    and e: "e \<in> F" "pool_ok pool (F - {e})" using pool_alloc_law [OF p] assms(3) by blast
  have ne: "e \<noteq> NULL" using kmp.null_law [OF p] e(1) by metis
  let ?i = "arp_ip_to_idx env a"
  let ?f = "\<lambda>x. x\<lparr>ae_addr := a, ae_flags := 0, ae_retries := 0, ae_timer := hrtimer_init (ae_timer x)\<rparr>"
  let ?s3 = "upd_arp e ?f (s\<lparr>arp_lock := True, arp_mempool := pool\<rparr>)"
  let ?s = "?s3\<lparr>arp_tbl := (arp_tbl ?s3)(?i := e # arp_tbl ?s3 ?i), arp_lock := False\<rparr>"
  have l: "arp_lookup env a True s = Inr (e, ?s)"
    using assms(1,2,4) al ne by (simp add: arp_lookup_def entry_of_def Let_def spin_lock_def arp_ok_def)
  have tbl: "e \<notin> set (arp_tbl s i)" for i using assms(1) e(1) by (auto simp: arp_ok_def)
  have ok: "arp_ok (F - {e}) ?s"
    using assms(1) e ne tbl by (auto simp: arp_ok_def)
  have same: "arp_find (arp_ents ?s) (arp_tbl s i) b = arp_find (arp_ents s) (arp_tbl s i) b" for i b
    by (rule arp_find_cong) (use tbl in auto)
  have en: "entry_of env ?s a = e" by (simp add: entry_of_def arp_find_Cons)
  have oth: "entry_of env ?s b = entry_of env s b" if "b \<noteq> a" for b
    using same [of "arp_ip_to_idx env b" b] that
    by (cases "arp_ip_to_idx env b = ?i") (simp_all add: entry_of_def arp_find_Cons)
  show ?thesis using l e(1) ne ok en oth by (intro exI [of _ e] exI [of _ ?s]) (simp add: hrtimer_init_def)
qed

text \<open>When the pool is empty, a creating lookup fails and keeps the lock.\<close>

lemma lookup_exhausted:
  assumes "arp_ok {} s" and "entry_of env s a = NULL" and "\<not> bugs_on env"
  shows "\<exists>pool. arp_lookup env a True s = Inr (NULL, s\<lparr>arp_lock := True, arp_mempool := pool\<rparr>)"
proof -
  have p: "pool_ok (arp_mempool s) {}" using assms(1) by (simp add: arp_ok_def)
  obtain pool where "kns_mempool_alloc False (arp_mempool s) = Inr (NULL, pool)" using pool_alloc_law [OF p] by blast
  then have "arp_lookup env a True s = Inr (NULL, s\<lparr>arp_lock := True, arp_mempool := pool\<rparr>)"
    using assms by (simp add: arp_lookup_def entry_of_def Let_def spin_lock_def arp_ok_def)
  then show ?thesis by blast
qed

section \<open>Learning\<close>

lemma dispatch_pending_keeps:
  "arp_tbl (dispatch_pending ps s) = arp_tbl s \<and> arp_ents (dispatch_pending ps s) = arp_ents s \<and>
   arp_mempool (dispatch_pending ps s) = arp_mempool s \<and> arp_lock (dispatch_pending ps s) = arp_lock s \<and>
   pending_pkt_lock (dispatch_pending ps s) = pending_pkt_lock s \<and>
   arp_send_pkt_lock (dispatch_pending ps s) = arp_send_pkt_lock s \<and> nw (dispatch_pending ps s) = nw s \<and>
   nmem (dispatch_pending ps s) = nmem s \<and> txqs (dispatch_pending ps s) = txqs s"
  by (induction ps s rule: dispatch_pending.induct) auto

lemma learn_found:
  assumes "arp_lookup env a c s = Inr (e, s1)" and "e \<noteq> NULL" and "entry_of env s1 a = e" and "arp_ok F s1"
  shows "\<exists>s2. arp_update_mac env a mac c s = Inr (0, s2) \<and> arp_ok F s2 \<and>
     arp_tbl s2 = arp_tbl s1 \<and> (\<forall>x. x \<noteq> e \<longrightarrow> arp_ents s2 x = arp_ents s1 x) \<and>
     ae_addr (arp_ents s2 e) = ae_addr (arp_ents s1 e) \<and>
     (if ae_flags (arp_ents s1 e) AND ARP_FLAG_STATIC \<noteq> 0
      then s2 = s1
      else ae_mac (arp_ents s2 e) = mac \<and> ae_flags (arp_ents s2 e) = ARP_FLAG_VALID \<and>
           t_active (ae_timer (arp_ents s2 e)) = t_active (ae_timer (arp_ents s1 e))) \<and>
     nw s2 = nw s1 \<and> nmem s2 = nmem s1 \<and> txqs s2 = txqs s1"
proof (cases "ae_flags (arp_ents s1 e) AND ARP_FLAG_STATIC \<noteq> 0")
  case True
  with assms show ?thesis by (simp add: arp_update_mac_def)
next
  case False
  let ?s2 = "upd_arp e (\<lambda>x. x\<lparr>ae_mac := mac, ae_flags := ARP_FLAG_VALID, ae_retries := 0\<rparr>) s1"
  let ?s3 = "if t_active (ae_timer (arp_ents ?s2 e))
     then upd_arp e (\<lambda>x. x\<lparr>ae_timer := (ae_timer x)\<lparr>t_expires := 10, t_cur_fg := NULL, t_active := True\<rparr>\<rparr>) ?s2 else ?s2"
  have "\<not> pending_pkt_lock ?s3" using assms(4) by (simp add: arp_ok_def)
  then have u: "arp_update_mac env a mac c s = Inr (0, dispatch_pending (ae_pending (arp_ents ?s3 e)) ?s3)"
    using assms(1,2) False by (simp add: arp_update_mac_def spin_lock_def Let_def)
  show ?thesis unfolding u using assms(4) False dispatch_pending_keeps [of "ae_pending (arp_ents ?s3 e)" ?s3]
    by (auto simp: arp_ok_def)
qed

lemma view_other:
  assumes "arp_tbl s2 = arp_tbl s1" and "\<forall>x. x \<noteq> e \<longrightarrow> arp_ents s2 x = arp_ents s1 x"
    and "ae_addr (arp_ents s2 e) = ae_addr (arp_ents s1 e)"
  shows "entry_of env s2 b = entry_of env s1 b"
  by (rule entry_of_keep [OF assms(1)]) (use assms(2,3) in metis)

lemma entry_addr: "entry_of env s a = e \<Longrightarrow> e \<noteq> NULL \<Longrightarrow> ae_addr (arp_ents s e) = a"
  unfolding entry_of_def using arp_find_SomeD by blast

lemma flag_valid [simp]: "ARP_FLAG_VALID AND ARP_FLAG_VALID \<noteq> 0" "ARP_FLAG_VALID AND ARP_FLAG_STATIC = 0"
  by (simp_all add: arp_flags)

lemma resolve_valid:
  "entry_of env s a = e \<Longrightarrow> e \<noteq> NULL \<Longrightarrow> ae_flags (arp_ents s e) AND ARP_FLAG_VALID \<noteq> 0 \<Longrightarrow>
   arp_lookup_mac env a s = Inr (0, Some (ae_mac (arp_ents s e)), s)"
  by (simp add: arp_lookup_mac_def lookup_present)

lemma learn_any:
  assumes "arp_ok F s" and "\<not> bugs_on env" and "entry_of env s a \<noteq> NULL \<or> F \<noteq> {}"
    and "arp_view env s a = None \<or> (\<exists>old fl. arp_view env s a = Some (old, fl) \<and> fl AND ARP_FLAG_STATIC = 0)"
  shows "\<exists>s2 F2. arp_update_mac env a mac True s = Inr (0, s2) \<and> arp_ok F2 s2 \<and> F2 \<subseteq> F \<and>
     arp_view env s2 = (arp_view env s)(a \<mapsto> (mac, ARP_FLAG_VALID)) \<and> nw s2 = nw s \<and> nmem s2 = nmem s \<and> txqs s2 = txqs s"
proof -
  obtain e s1 F1 where l: "arp_lookup env a True s = Inr (e, s1)" and e: "e \<noteq> NULL" "entry_of env s1 a = e"
    and ok: "arp_ok F1 s1" "F1 \<subseteq> F" and st: "ae_flags (arp_ents s1 e) AND ARP_FLAG_STATIC = 0"
    and oth: "\<forall>b. b \<noteq> a \<longrightarrow> arp_view env s1 b = arp_view env s b"
    and keep: "nw s1 = nw s" "nmem s1 = nmem s" "txqs s1 = txqs s"
  proof (cases "entry_of env s a = NULL")
    case False
    then show ?thesis using that [OF lookup_present [OF False] False refl assms(1)] assms(4)
      by (auto simp: arp_view_def Let_def)
  next
    case True
    then obtain e s1 where c: "arp_lookup env a True s = Inr (e, s1)" "e \<in> F" "e \<noteq> NULL" "arp_ok (F - {e}) s1"
      "entry_of env s1 a = e" "ae_flags (arp_ents s1 e) = 0"
      "\<forall>b. b \<noteq> a \<longrightarrow> entry_of env s1 b = entry_of env s b" "\<forall>x. x \<noteq> e \<longrightarrow> arp_ents s1 x = arp_ents s x"
      "nw s1 = nw s" "nmem s1 = nmem s" "txqs s1 = txqs s"
      using lookup_create [OF assms(1) True _ assms(2)] assms(3) by blast
    have "arp_view env s1 b = arp_view env s b" if "b \<noteq> a" for b
    proof (cases "entry_of env s b = NULL")
      case False
      have "entry_of env s1 b \<noteq> e" using that entry_addr [of env s1 b e] entry_addr [OF c(5,3)] c(3) by auto
      then show ?thesis using c(7,8) that by (simp add: arp_view_def Let_def)
    qed (use c(7) that in \<open>simp add: arp_view_def\<close>)
    then show ?thesis using that [OF c(1,3,5,4)] c(6,9,10,11) by auto
  qed
  obtain s2 where u: "arp_update_mac env a mac True s = Inr (0, s2)" and ok2: "arp_ok F1 s2"
    and t: "arp_tbl s2 = arp_tbl s1" "\<forall>x. x \<noteq> e \<longrightarrow> arp_ents s2 x = arp_ents s1 x"
      "ae_addr (arp_ents s2 e) = ae_addr (arp_ents s1 e)"
    and m: "ae_mac (arp_ents s2 e) = mac" "ae_flags (arp_ents s2 e) = ARP_FLAG_VALID"
    and k: "nw s2 = nw s1" "nmem s2 = nmem s1" "txqs s2 = txqs s1"
    using learn_found [OF l e ok(1)] st by auto
  have en: "entry_of env s2 b = entry_of env s1 b" for b by (rule view_other [OF t])
  have "arp_view env s2 b = ((arp_view env s)(a \<mapsto> (mac, ARP_FLAG_VALID))) b" for b
  proof (cases "b = a")
    case True
    then show ?thesis using en e m by (simp add: arp_view_def)
  next
    case False
    then have "entry_of env s1 b \<noteq> e" using entry_addr [of env s1 b e] entry_addr [OF e(2,1)] e(1) by auto
    then have "arp_view env s2 b = arp_view env s1 b" using en t(2) by (simp add: arp_view_def Let_def)
    then show ?thesis using oth False by simp
  qed
  then have "arp_view env s2 = (arp_view env s)(a \<mapsto> (mac, ARP_FLAG_VALID))" by (rule ext)
  then show ?thesis using u ok2 ok(2) keep k by auto
qed


text \<open>What the table answers to a resolution.\<close>

definition known :: "net_env \<Rightarrow> net_state \<Rightarrow> u32 \<Rightarrow> eth_addr option" where
  "known env s a = (case arp_view env s a of Some (mac, fl) \<Rightarrow> if fl AND ARP_FLAG_VALID \<noteq> 0 then Some mac else None
                    | None \<Rightarrow> None)"

lemma resolve_known: "known env s a = Some mac \<Longrightarrow> arp_lookup_mac env a s = Inr (0, Some mac, s)"
  by (auto simp: known_def arp_view_def Let_def resolve_valid split: if_splits)

text \<open>C31: Learning an address (\<open>arp_update_mac\<close>) adds or replaces exactly
  that binding of the table, keeps the table and pool invariant, and the next
  \<open>arp_lookup_mac\<close> answers with the learned hardware address.\<close>

theorem arp_learns:
  assumes "arp_ok F s" and "\<not> bugs_on env" and "arp_view env s a \<noteq> None \<or> F \<noteq> {}"
    and "arp_view env s a = None \<or> (\<exists>old fl. arp_view env s a = Some (old, fl) \<and> fl AND ARP_FLAG_STATIC = 0)"
  shows "\<exists>s2 F2. arp_update_mac env a mac True s = Inr (0, s2) \<and> arp_ok F2 s2 \<and> F2 \<subseteq> F \<and>
     arp_view env s2 = (arp_view env s)(a \<mapsto> (mac, ARP_FLAG_VALID)) \<and>
     arp_lookup_mac env a s2 = Inr (0, Some mac, s2)"
proof -
  have "entry_of env s a \<noteq> NULL \<or> F \<noteq> {}" using assms(3) by (auto simp: arp_view_def Let_def split: if_splits)
  from learn_any [OF assms(1,2) this assms(4), of mac] obtain s2 F2 where
    u: "arp_update_mac env a mac True s = Inr (0, s2)" "arp_ok F2 s2" "F2 \<subseteq> F"
    "arp_view env s2 = (arp_view env s)(a \<mapsto> (mac, ARP_FLAG_VALID))" by blast
  have "known env s2 a = Some mac" using u(4) by (simp add: known_def arp_flags)
  from resolve_known [OF this] u show ?thesis by blast
qed

text \<open>A witness: an empty table over a pool of three entries.\<close>

definition env0 :: net_env where
  "env0 = \<lparr>this_cpu = 0, pool_ptr = 64,
     CFG = \<lparr>host_addr = 0x0A000001, gateway_addr = 0x0A0000FE, cfg_mask = 0xFFFFFF00, cfg_mac = [2, 0, 0, 0, 0, 1]\<rparr>,
     crc32q = (\<lambda>a b. a XOR b), bugs_on = False\<rparr>"

definition entry0 :: arp_entry where
  "entry0 = \<lparr>ae_addr = 0, ae_mac = replicate 6 0, ae_flags = 0, ae_retries = 0,
     ae_timer = \<lparr>t_active = False, t_expires = 0, t_cur_fg = 0\<rparr>, ae_pending = []\<rparr>"

definition net0 :: net_state where
  "net0 = \<lparr>nw = three_mbufs, nmem = (\<lambda>_. 0), iov_mem = (\<lambda>_. \<lparr>iov_base = 0, iov_maddr = 0, iov_len = 0\<rparr>),
     txqs = (\<lambda>_. \<lparr>tx_cap = 2048, tx_bufs = []\<rparr>), arp_tbl = (\<lambda>_. []), arp_ents = (\<lambda>_. entry0),
     arp_mempool = three_pool, pend_ents = (\<lambda>_. \<lparr>pp_dst = 0, pp_fg = 0, pp_mbuf = 0, pp_len = 0, pp_cpu = 0, pp_dispatched = False\<rparr>),
     pending_pkt_mempool = three_pool, arp_lock = False, pending_pkt_lock = False, arp_send_pkt_lock = False,
     send_calls = []\<rparr>"

lemma net0_ok: "arp_ok {1000, 1016, 1032} net0"
  using three_pool_ok by (simp add: arp_ok_def net0_def)

lemma net0_view [simp]: "arp_view env net0 a = None"
  by (simp add: arp_view_def entry_of_def arp_find_def net0_def)

theorem arp_learns_witness:
  "\<exists>s2. arp_update_mac env0 5 [2, 0, 0, 0, 0, 9] True net0 = Inr (0, s2) \<and>
     arp_lookup_mac env0 5 s2 = Inr (0, Some [2, 0, 0, 0, 0, 9], s2)"
  using arp_learns [OF net0_ok, of env0 5 "[2, 0, 0, 0, 0, 9]"] by (auto simp: env0_def)

section \<open>Timers\<close>

definition quiet :: "net_state \<Rightarrow> bool" where
  "quiet s \<longleftrightarrow> (\<forall>e. \<not> t_active (ae_timer (arp_ents s e)))"

text \<open>Everything that can happen to the ARP state: the operations of the interface, and the
  handler of a timer that is active.\<close>

inductive arp_step :: "net_env \<Rightarrow> net_state \<Rightarrow> net_state \<Rightarrow> bool" for env where
  st_lookup: "arp_lookup_mac env a s = Inr (r, m, s') \<Longrightarrow> arp_step env s s'"
| st_update: "arp_update_mac env a mac c s = Inr (r, s') \<Longrightarrow> arp_step env s s'"
| st_insert: "arp_insert env a mac s = Inr (r, s') \<Longrightarrow> arp_step env s s'"
| st_input: "arp_input env pkt hdr s = Inr s' \<Longrightarrow> arp_step env s s'"
| st_pending: "arp_add_pending_pkt env a fg m len s = Inr (r, s') \<Longrightarrow> arp_step env s s'"
| st_timer: "t_active (ae_timer (arp_ents s e)) \<Longrightarrow> arp_timer_handler env e s = Inr (r, s') \<Longrightarrow> arp_step env s s'"

lemma quiet_agree: "quiet s \<Longrightarrow> arp_ents s' = arp_ents s \<Longrightarrow> quiet s'"
  by (simp add: quiet_def)

lemma quiet_upd: "quiet s \<Longrightarrow> \<not> t_active (ae_timer (f (arp_ents s e))) \<Longrightarrow> quiet (upd_arp e f s)"
  by (simp add: quiet_def)

lemma lookup_quiet: "arp_lookup env a c s = Inr (e, s') \<Longrightarrow> quiet s \<Longrightarrow> quiet s' \<and> txqs s' = txqs s \<and> nw s' = nw s"
  by (auto simp: arp_lookup_def Let_def bindR_eq_Inr quiet_def hrtimer_init_def split: if_splits)

lemma send_keeps_ents: "net_send_one d m n s = Inr (r, s') \<Longrightarrow> arp_ents s' = arp_ents s"
  by (auto simp: net_send_one_def bindR_eq_Inr split: prod.splits)

lemma free_keeps_ents: "net_mbuf_free env m s = Inr s' \<Longrightarrow> arp_ents s' = arp_ents s"
  by (auto simp: net_mbuf_free_def bindR_eq_Inr)

lemma reply_keeps_ents: "arp_send_response_reuse env p a e s = Inr (r, s') \<Longrightarrow> arp_ents s' = arp_ents s"
  by (auto simp: arp_send_response_reuse_def bindR_eq_Inr Let_def upd_mem_def upd_mbuf_def
      dest!: send_keeps_ents free_keeps_ents split: if_splits)

lemma update_quiet: "arp_update_mac env a mac c s = Inr (r, s') \<Longrightarrow> quiet s \<Longrightarrow> quiet s'"
proof -
  assume u: "arp_update_mac env a mac c s = Inr (r, s')" and q: "quiet s"
  then obtain e s1 where l: "arp_lookup env a c s = Inr (e, s1)" by (auto simp: arp_update_mac_def bindR_eq_Inr)
  have q1: "quiet s1" using lookup_quiet [OF l q] by blast
  then have "\<not> t_active (ae_timer (arp_ents s1 e))" by (simp add: quiet_def)
  then have "e = NULL \<and> s' = s1 \<or> s' = s1 \<or>
      (\<exists>ps. s' = dispatch_pending ps (upd_arp e (\<lambda>x. x\<lparr>ae_mac := mac, ae_flags := ARP_FLAG_VALID, ae_retries := 0\<rparr>) s1))"
    using u by (auto simp: arp_update_mac_def l bindR_eq_Inr Let_def split: if_splits)
  moreover have "quiet (upd_arp e (\<lambda>x. x\<lparr>ae_mac := mac, ae_flags := ARP_FLAG_VALID, ae_retries := 0\<rparr>) s1)"
    using q1 by (auto simp: quiet_def)
  ultimately show ?thesis using q1 dispatch_pending_keeps quiet_agree by blast
qed

lemma lookup_mac_quiet:
  "arp_lookup_mac env a s = Inr (r, m, s') \<Longrightarrow> quiet s \<Longrightarrow> quiet s' \<and> txqs s' = txqs s \<and> nw s' = nw s"
proof -
  assume u: "arp_lookup_mac env a s = Inr (r, m, s')" and q: "quiet s"
  then obtain e s1 where l: "arp_lookup env a True s = Inr (e, s1)" by (auto simp: arp_lookup_mac_def bindR_eq_Inr)
  have q1: "quiet s1 \<and> txqs s1 = txqs s \<and> nw s1 = nw s" using lookup_quiet [OF l q] .
  then have "\<not> t_active (ae_timer (arp_ents s1 e))" by (simp add: quiet_def)
  then have "s' = s1" using u by (auto simp: arp_lookup_mac_def l bindR_eq_Inr split: if_splits)
  with q1 show ?thesis by simp
qed

lemma arp_step_quiet:
  assumes "arp_step env s s'" and "quiet s"
  shows "quiet s'"
  using assms
proof cases
  case (st_lookup a r m)
  then show ?thesis using lookup_mac_quiet assms(2) by blast
next
  case (st_update a mac c r)
  then show ?thesis using update_quiet assms(2) by blast
next
  case (st_insert a mac r)
  then obtain e s1 where l: "arp_lookup env a False s = Inr (e, s1)" by (auto simp: arp_insert_def bindR_eq_Inr)
  then show ?thesis using st_insert lookup_quiet [OF l assms(2)]
    by (auto simp: arp_insert_def l bindR_eq_Inr Let_def hrtimer_init_def quiet_def split: if_splits)
next
  case (st_input pkt hdr)
  show ?thesis
  proof (cases "arp_ents s' = arp_ents s")
    case False
    then obtain a mac c r s1 where "arp_update_mac env a mac c s = Inr (r, s1)" "arp_ents s' = arp_ents s1"
      using st_input by (auto simp: arp_input_def Let_def bindR_eq_Inr dest!: free_keeps_ents reply_keeps_ents split: if_splits)
    then show ?thesis using update_quiet assms(2) quiet_agree by blast
  qed (use assms(2) quiet_agree in blast)
next
  case (st_pending a fg m len r)
  then obtain e s1 where l: "arp_lookup env a False s = Inr (e, s1)" by (auto simp: arp_add_pending_pkt_def bindR_eq_Inr)
  then show ?thesis using st_pending lookup_quiet [OF l assms(2)]
    by (auto simp: arp_add_pending_pkt_def l bindR_eq_Inr Let_def quiet_def split: if_splits)
next
  case (st_timer e r)
  with assms(2) show ?thesis by (simp add: quiet_def)
qed

lemma arp_steps_quiet: "(arp_step env)\<^sup>*\<^sup>* s s' \<Longrightarrow> quiet s \<Longrightarrow> quiet s'"
  by (induction rule: rtranclp_induct) (auto intro: arp_step_quiet)

text \<open>C32: From start-up on, whatever the ARP operations and timers do, no timer is ever
  started and a resolution (\<open>arp_lookup_mac\<close>) neither takes a packet nor queues
  one: the request is only sent when the timer of the entry is already active, and only that
  branch starts it.\<close>

theorem arp_never_asks:
  assumes "quiet s" and "(arp_step env)\<^sup>*\<^sup>* s s'" and "arp_lookup_mac env a s' = Inr (r, m, s'')"
  shows "quiet s' \<and> txqs s'' = txqs s' \<and> nw s'' = nw s'"
  using lookup_mac_quiet [OF assms(3)] arp_steps_quiet [OF assms(2,1)] by blast

theorem arp_never_asks_witness:
  "\<exists>r m s''. arp_lookup_mac env0 5 net0 = Inr (r, m, s'') \<and> r = - EAGAIN \<and> txqs s'' = txqs net0"
proof -
  have q: "quiet net0" by (simp add: quiet_def net0_def entry0_def)
  have b: "\<not> bugs_on env0" by (simp add: env0_def)
  have n: "entry_of env0 net0 5 = NULL" by (simp add: entry_of_def arp_find_def net0_def)
  obtain e s1 where l: "arp_lookup env0 5 True net0 = Inr (e, s1)" "e \<noteq> NULL" "arp_ok ({1000, 1016, 1032} - {e}) s1"
    "ae_flags (arp_ents s1 e) = 0" "\<not> t_active (ae_timer (arp_ents s1 e))"
    using lookup_create [OF net0_ok n insert_not_empty b] by metis
  then have "arp_lookup_mac env0 5 net0 = Inr (- EAGAIN, None, s1)"
    by (simp add: arp_lookup_mac_def spin_lock_def arp_ok_def)
  with arp_never_asks [OF q rtranclp.rtrancl_refl this] show ?thesis by blast
qed

section \<open>The lost lock\<close>

text \<open>C33: When the entry pool is exhausted, the failing lookup returns with
  \<open>arp_lock\<close> held, and the next resolution of an unknown address waits for
  ever.\<close>

theorem arp_lock_lost:
  assumes "arp_ok {} s" and "arp_view env s a = None" and "arp_view env s b = None" and "\<not> bugs_on env"
  shows "\<exists>s'. arp_lookup_mac env a s = Inr (- ENOENT, None, s') \<and> arp_lookup_mac env b s' = Inl Hang"
proof -
  have n: "entry_of env s a = NULL" "entry_of env s b = NULL"
    using assms(2,3) by (auto simp: arp_view_def Let_def split: if_splits)
  obtain pool where l: "arp_lookup env a True s = Inr (NULL, s\<lparr>arp_lock := True, arp_mempool := pool\<rparr>)" (is "_ = Inr (_, ?s)")
    using lookup_exhausted [OF assms(1) n(1) assms(4)] by blast
  have "entry_of env ?s b = NULL" using n(2) by (simp add: entry_of_def)
  then have "arp_lookup env b True ?s = Inl Hang" by (simp add: arp_lookup_def entry_of_def Let_def spin_lock_def)
  with l show ?thesis by (simp add: arp_lookup_mac_def)
qed


definition empty_pool :: pool_state where
  "empty_pool = (let (m, mds, h) = three_pool in (m\<lparr>mp_head := NULL, private_chunk := NULL, num_free := 0\<rparr>, mds\<lparr>chunk_head := NULL\<rparr>, h))"

lemma empty_pool_ok: "pool_ok empty_pool {}"
proof -
  have "pool_inv empty_pool [] [] []"
    by (simp add: empty_pool_def three_pool_def pool_inv_def chunks_ok_def)
  then show ?thesis unfolding pool_ok_def by (intro exI conjI) (assumption, simp add: free_list_def)
qed

theorem arp_lock_lost_witness:
  "\<exists>s'. arp_lookup_mac env0 5 (net0\<lparr>arp_mempool := empty_pool\<rparr>) = Inr (- ENOENT, None, s') \<and> arp_lookup_mac env0 6 s' = Inl Hang"
proof (rule arp_lock_lost)
  show "arp_ok {} (net0\<lparr>arp_mempool := empty_pool\<rparr>)" using empty_pool_ok by (simp add: arp_ok_def net0_def)
qed (simp_all add: arp_view_def entry_of_def arp_find_def net0_def env0_def)

section \<open>Answering a request\<close>

lemma get_put_same': "n = length bs \<Longrightarrow> get_bytes (put_bytes m a bs) a n = bs"
  by simp

lemma reply_fields:
  assumes "length (cfg_mac (CFG env)) = 6"
  defines "m' m a \<equiv> reply_bytes env a (a + 14) (a + 22) m"
  shows "get_bytes (m' m a) a 6 = get_bytes m (a + 6) 6" and "get_bytes (m' m a) (a + 6) 6 = cfg_mac (CFG env)"
    and "get16 (m' m a) (a + 20) = ARP_OP_REPLY" and "get_bytes (m' m a) (a + 22) 6 = cfg_mac (CFG env)"
    and "get32 (m' m a) (a + 28) = host_addr (CFG env)" and "get_bytes (m' m a) (a + 32) 6 = get_bytes m (a + 22) 6"
    and "get_bytes (m' m a) (a + 38) 4 = get_bytes m (a + 28) 4"
  unfolding m'_def reply_bytes_def Let_def arp_layout get16_def get32_def put16_def put32_def
  by (simp_all add: get_put_other get_put_same' assms(1) add.assoc be_value_bytes)

lemma send_room:
  assumes "1 \<le> tx_cap (txqs s d)" and "length (tx_bufs (txqs s d)) < 2048"
  shows "\<exists>s'. net_send_one d m n s = Inr (0, s') \<and> tx_bufs (txqs s' d) = tx_bufs (txqs s d) @ [m] \<and>
     tx_cap (txqs s' d) = tx_cap (txqs s d) - 1 \<and> mbuf_len (nw s') m = n \<and> nmem s' = nmem s \<and>
     arp_ents s' = arp_ents s \<and> arp_tbl s' = arp_tbl s"
  using assms
  by (simp add: net_send_one_def eth_send_one_def eth_send_def Let_def ETH_DEV_TX_QUEUE_SZ_def set_mbuf_len_def mbuf_len_def)

lemma view_keep: "arp_ents s' = arp_ents s \<Longrightarrow> arp_tbl s' = arp_tbl s \<Longrightarrow> arp_view env s' = arp_view env s"
  by (rule ext) (simp add: arp_view_def entry_of_def Let_def)

definition arp_request_at :: "net_env \<Rightarrow> addr \<Rightarrow> u32 \<Rightarrow> eth_addr \<Rightarrow> net_state \<Rightarrow> bool" where
  "arp_request_at env pkt sip smac s \<longleftrightarrow>
     (let m = nmem s; hdr = mbuf_mtod pkt + 14 in
      42 \<le> mbuf_len (nw s) pkt \<and> get16 m hdr = 1 \<and> get16 m (hdr + 2) = 0x0800 \<and> m (hdr + 4) = 6 \<and> m (hdr + 5) = 4 \<and>
      get16 m (hdr + 6) = 1 \<and> get_bytes m (hdr + 8) 6 = smac \<and> get32 m (hdr + 14) = sip \<and>
      get32 m (hdr + 24) = host_addr (CFG env) \<and> \<not> eth_addr_is_multicast smac)"

text \<open>C34: A well-formed request for our address teaches the sender's binding and is sent
  back in place as the reply: queued last with length 42, addressed to the sender, with our
  addresses as the sender and the asker's as the target.\<close>

theorem arp_input_replies:
  assumes "arp_ok F s" and "\<not> bugs_on env" and "arp_view env s sip \<noteq> None \<or> F \<noteq> {}"
    and "arp_view env s sip = None \<or> (\<exists>old fl. arp_view env s sip = Some (old, fl) \<and> fl AND ARP_FLAG_STATIC = 0)"
    and "arp_request_at env pkt sip smac s" and "length (cfg_mac (CFG env)) = 6"
    and "1 \<le> tx_cap (txqs s 0)" and "length (tx_bufs (txqs s 0)) < 2048"
  shows "\<exists>s'. arp_input env pkt (mbuf_mtod pkt + 14) s = Inr s' \<and>
     known env s' sip = Some smac \<and> tx_bufs (txqs s' 0) = tx_bufs (txqs s 0) @ [pkt] \<and> mbuf_len (nw s') pkt = 42 \<and>
     (let m = nmem s'; a = mbuf_mtod pkt in
      get_bytes m a 6 = get_bytes (nmem s) (a + 6) 6 \<and> get_bytes m (a + 6) 6 = cfg_mac (CFG env) \<and>
      get16 m (a + 20) = ARP_OP_REPLY \<and> get_bytes m (a + 22) 6 = cfg_mac (CFG env) \<and>
      get32 m (a + 28) = host_addr (CFG env) \<and> get_bytes m (a + 32) 6 = smac \<and> get32 m (a + 38) = sip)"
proof -
  let ?a = "mbuf_mtod pkt"
  note req = assms(5) [unfolded arp_request_at_def Let_def]
  have "entry_of env s sip \<noteq> NULL \<or> F \<noteq> {}" using assms(3) by (auto simp: arp_view_def Let_def split: if_splits)
  from learn_any [OF assms(1,2) this assms(4), of smac] obtain s1 where
    u: "arp_update_mac env sip smac True s = Inr (0, s1)"
    "arp_view env s1 = (arp_view env s)(sip \<mapsto> (smac, ARP_FLAG_VALID))" "nw s1 = nw s" "nmem s1 = nmem s" "txqs s1 = txqs s"
    by blast
  let ?s3 = "upd_mbuf pkt (\<lambda>b. b\<lparr>mb_ol_flags := 0\<rparr>) (upd_mem (reply_bytes env ?a (?a + 14) (?a + 22)) s1)"
  have tx: "txqs ?s3 = txqs s" by (simp add: upd_mbuf_def upd_mem_def u(5))
  obtain s' where s': "net_send_one 0 pkt ARP_PKT_SIZE ?s3 = Inr (0, s')"
    "tx_bufs (txqs s' 0) = tx_bufs (txqs ?s3 0) @ [pkt]" "mbuf_len (nw s') pkt = ARP_PKT_SIZE"
    "nmem s' = nmem ?s3" "arp_ents s' = arp_ents ?s3" "arp_tbl s' = arp_tbl ?s3"
    using send_room [of ?s3 0 pkt ARP_PKT_SIZE] assms(7,8) tx by auto
  have r: "arp_send_response_reuse env pkt (?a + 14) (?a + 22) s1 = Inr (0, s')"
    by (simp add: arp_send_response_reuse_def Let_def s'(1))
  have sp: "mbuf_enough_space (nw s) pkt (?a + 14) 8" "mbuf_enough_space (nw s) pkt (?a + 22) 20"
    using req by (simp_all add: mbuf_enough_space_def mbuf_mtod_def)
  have inp: "arp_input env pkt (?a + 14) s = Inr s'"
    unfolding arp_input_def Let_def arp_layout mbuf_nextd_off_def ARP_HTYPE_ETHER_def ETHTYPE_IP_def ARP_OP_REQUEST_def
    using req sp u(1) r by (simp add: add.assoc)
  have "arp_view env s' = arp_view env s1" by (rule view_keep) (simp_all add: s'(5,6) upd_mbuf_def upd_mem_def)
  then have "known env s' sip = Some smac" using u(2) by (simp add: known_def arp_flags)
  moreover have "nmem s' = reply_bytes env ?a (?a + 14) (?a + 22) (nmem s)"
    by (simp add: s'(4) upd_mbuf_def upd_mem_def u(4))
  ultimately show ?thesis using inp s'(2,3) tx req reply_fields [OF assms(6), of ?a "nmem s"]
    by (simp add: Let_def get32_def add.assoc arp_layout)
qed


definition request_frame :: "u8 list" where
  "request_frame = [0xff, 0xff, 0xff, 0xff, 0xff, 0xff] @ [2, 0, 0, 0, 0, 9] @ [8, 6] @ [0, 1, 8, 0, 6, 4, 0, 1] @
     [2, 0, 0, 0, 0, 9] @ [10, 0, 0, 9] @ [0, 0, 0, 0, 0, 0] @ [10, 0, 0, 1]"

definition net_request :: net_state where
  "net_request = net0\<lparr>nmem := put_bytes (\<lambda>_. 0) 1064 request_frame, nw := set_mbuf_len 1000 42 (nw net0)\<rparr>"

lemma net_request_ok: "arp_request_at env0 1000 0x0A000009 [2, 0, 0, 0, 0, 9] net_request"
  unfolding arp_request_at_def Let_def net_request_def mbuf_mtod_def MBUF_HEADER_LEN_def request_frame_def env0_def
    eth_addr_is_multicast_def ETH_ADDR_GROUP_def get16_def get32_def
  by (simp add: get_bytes_def put_bytes_def upt_conv_Cons be_value_def mbuf_len_def set_mbuf_len_def)

theorem arp_input_replies_witness:
  "\<exists>s'. arp_input env0 1000 1078 net_request = Inr s' \<and> known env0 s' 0x0A000009 = Some [2, 0, 0, 0, 0, 9] \<and>
     tx_bufs (txqs s' 0) = [1000] \<and> get32 (nmem s') 1102 = 0x0A000009"
proof -
  have ok: "arp_ok {1000, 1016, 1032} net_request" using net0_ok by (simp add: arp_ok_def net_request_def)
  have v: "arp_view env0 net_request a = None" for a
    by (simp add: arp_view_def entry_of_def arp_find_def net_request_def net0_def)
  have e: "\<not> bugs_on env0" "length (cfg_mac (CFG env0)) = 6" by (simp_all add: env0_def)
  have t: "1 \<le> tx_cap (txqs net_request 0)" "length (tx_bufs (txqs net_request 0)) < 2048" "tx_bufs (txqs net_request 0) = []"
    by (simp_all add: net_request_def net0_def)
  show ?thesis
    using arp_input_replies [OF ok e(1) _ _ net_request_ok e(2) t(1,2)] v t(3)
    by (auto simp: Let_def mbuf_mtod_def MBUF_HEADER_LEN_def)
qed

end
