(* ===== verification/Syscall.thy ===== *)
theory Syscall
  imports Kns_Prelude
begin

text \<open>
  Batched system calls (\<open>inc/kns/syscall.h\<close>). The application fills an array of descriptors
  with commands for the kernel (\<open>ksys_*\<close>), the kernel one with events for the application
  (\<open>usys_*\<close>). Macros store one to five of the five words of a descriptor and leave the others
  as they were. Pointers and integers are 64-bit words here, as they are in the descriptor.
\<close>

section \<open>Return codes and call numbers\<close>

definition RET_OK :: u64 where "RET_OK = 0"
definition RET_NOMEM :: u64 where "RET_NOMEM = 1"
definition RET_NOBUFS :: u64 where "RET_NOBUFS = 2"
definition RET_INVAL :: u64 where "RET_INVAL = 3"
definition RET_AGAIN :: u64 where "RET_AGAIN = 4"
definition RET_FAULT :: u64 where "RET_FAULT = 5"
definition RET_NOSYS :: u64 where "RET_NOSYS = 6"
definition RET_NOTSUP :: u64 where "RET_NOTSUP = 7"
definition RET_BADH :: u64 where "RET_BADH = 8"
definition RET_CLOSED :: u64 where "RET_CLOSED = 9"
definition RET_CONNREFUSED :: u64 where "RET_CONNREFUSED = 10"

definition MAX_SG_ENTRIES :: nat where "MAX_SG_ENTRIES = 30"

text \<open>\<open>struct ip_tuple\<close>, packed: 12 bytes.\<close>

record ip_tuple =
  src_ip :: u32
  dst_ip :: u32
  src_port :: u16
  dst_port :: u16

definition sizeof_ip_tuple :: nat where "sizeof_ip_tuple = 12"

definition KSYS_UDP_SEND :: u64 where "KSYS_UDP_SEND = 0"
definition KSYS_UDP_SENDV :: u64 where "KSYS_UDP_SENDV = 1"
definition KSYS_UDP_RECV_DONE :: u64 where "KSYS_UDP_RECV_DONE = 2"
definition KSYS_TCP_CONNECT :: u64 where "KSYS_TCP_CONNECT = 3"
definition KSYS_TCP_ACCEPT :: u64 where "KSYS_TCP_ACCEPT = 4"
definition KSYS_TCP_REJECT :: u64 where "KSYS_TCP_REJECT = 5"
definition KSYS_TCP_SEND :: u64 where "KSYS_TCP_SEND = 6"
definition KSYS_TCP_SENDV :: u64 where "KSYS_TCP_SENDV = 7"
definition KSYS_TCP_RECV_DONE :: u64 where "KSYS_TCP_RECV_DONE = 8"
definition KSYS_TCP_CLOSE :: u64 where "KSYS_TCP_CLOSE = 9"
definition KSYS_NR :: u64 where "KSYS_NR = 10"

definition USYS_UDP_RECV :: u64 where "USYS_UDP_RECV = 0"
definition USYS_UDP_SENT :: u64 where "USYS_UDP_SENT = 1"
definition USYS_TCP_CONNECTED :: u64 where "USYS_TCP_CONNECTED = 2"
definition USYS_TCP_KNOCK :: u64 where "USYS_TCP_KNOCK = 3"
definition USYS_TCP_RECV :: u64 where "USYS_TCP_RECV = 4"
definition USYS_TCP_SENT :: u64 where "USYS_TCP_SENT = 5"
definition USYS_TCP_DEAD :: u64 where "USYS_TCP_DEAD = 6"
definition USYS_TIMER :: u64 where "USYS_TIMER = 7"
definition USYS_NR :: u64 where "USYS_NR = 8"

lemmas ksys_numbers = KSYS_UDP_SEND_def KSYS_UDP_SENDV_def KSYS_UDP_RECV_DONE_def KSYS_TCP_CONNECT_def
  KSYS_TCP_ACCEPT_def KSYS_TCP_REJECT_def KSYS_TCP_SEND_def KSYS_TCP_SENDV_def KSYS_TCP_RECV_DONE_def
  KSYS_TCP_CLOSE_def
lemmas usys_numbers = USYS_UDP_RECV_def USYS_UDP_SENT_def USYS_TCP_CONNECTED_def USYS_TCP_KNOCK_def
  USYS_TCP_RECV_def USYS_TCP_SENT_def USYS_TCP_DEAD_def USYS_TIMER_def

section \<open>Descriptors\<close>

record bsys_desc =
  sysnr :: u64
  arga :: u64
  argb :: u64
  argc :: u64
  argd :: u64

definition BSYS_DESC_NOARG :: "u64 \<Rightarrow> bsys_desc \<Rightarrow> bsys_desc" where
  "BSYS_DESC_NOARG nr d = d\<lparr>sysnr := nr\<rparr>"
definition BSYS_DESC_1ARG :: "u64 \<Rightarrow> u64 \<Rightarrow> bsys_desc \<Rightarrow> bsys_desc" where
  "BSYS_DESC_1ARG nr a d = (BSYS_DESC_NOARG nr d)\<lparr>arga := a\<rparr>"
definition BSYS_DESC_2ARG :: "u64 \<Rightarrow> u64 \<Rightarrow> u64 \<Rightarrow> bsys_desc \<Rightarrow> bsys_desc" where
  "BSYS_DESC_2ARG nr a b d = (BSYS_DESC_1ARG nr a d)\<lparr>argb := b\<rparr>"
definition BSYS_DESC_3ARG :: "u64 \<Rightarrow> u64 \<Rightarrow> u64 \<Rightarrow> u64 \<Rightarrow> bsys_desc \<Rightarrow> bsys_desc" where
  "BSYS_DESC_3ARG nr a b c d = (BSYS_DESC_2ARG nr a b d)\<lparr>argc := c\<rparr>"
definition BSYS_DESC_4ARG :: "u64 \<Rightarrow> u64 \<Rightarrow> u64 \<Rightarrow> u64 \<Rightarrow> u64 \<Rightarrow> bsys_desc \<Rightarrow> bsys_desc" where
  "BSYS_DESC_4ARG nr a b c e d = (BSYS_DESC_3ARG nr a b c d)\<lparr>argd := e\<rparr>"

lemmas bsys_desc_defs = BSYS_DESC_NOARG_def BSYS_DESC_1ARG_def BSYS_DESC_2ARG_def BSYS_DESC_3ARG_def BSYS_DESC_4ARG_def

text \<open>\<open>ba_descs\<close> is the memory behind the array: \<open>len\<close> and \<open>max_len\<close> say nothing about it.\<close>

record bsys_arr =
  ba_len :: u64
  ba_max_len :: u64
  ba_descs :: "bsys_desc list"

text \<open>\<open>__bsys_arr_next\<close>: the index of the next descriptor; and the checked variant.\<close>

definition bsys_arr_next_unchecked :: "bsys_arr \<Rightarrow> u64 \<times> bsys_arr" where
  "bsys_arr_next_unchecked a = (ba_len a, a\<lparr>ba_len := ba_len a + 1\<rparr>)"

definition bsys_arr_next :: "bsys_arr \<Rightarrow> u64 option \<times> bsys_arr" where
  "bsys_arr_next a =
     (if ba_len a \<ge> ba_max_len a then (None, a)
      else let (i, a') = bsys_arr_next_unchecked a in (Some i, a'))"

section \<open>Commands for the kernel\<close>

definition ksys_udp_send :: "u64 \<Rightarrow> u64 \<Rightarrow> u64 \<Rightarrow> u64 \<Rightarrow> bsys_desc \<Rightarrow> bsys_desc" where
  "ksys_udp_send addr len idp cookie = BSYS_DESC_4ARG KSYS_UDP_SEND addr len idp cookie"
definition ksys_udp_sendv :: "u64 \<Rightarrow> u32 \<Rightarrow> u64 \<Rightarrow> u64 \<Rightarrow> bsys_desc \<Rightarrow> bsys_desc" where
  "ksys_udp_sendv ents nrents idp cookie = BSYS_DESC_4ARG KSYS_UDP_SENDV ents (ucast nrents) idp cookie"
definition ksys_udp_recv_done :: "u64 \<Rightarrow> bsys_desc \<Rightarrow> bsys_desc" where
  "ksys_udp_recv_done iomap = BSYS_DESC_1ARG KSYS_UDP_RECV_DONE iomap"
definition ksys_tcp_connect :: "u64 \<Rightarrow> u64 \<Rightarrow> bsys_desc \<Rightarrow> bsys_desc" where
  "ksys_tcp_connect idp cookie = BSYS_DESC_2ARG KSYS_TCP_CONNECT idp cookie"
definition ksys_tcp_accept :: "u64 \<Rightarrow> u64 \<Rightarrow> bsys_desc \<Rightarrow> bsys_desc" where
  "ksys_tcp_accept handle cookie = BSYS_DESC_2ARG KSYS_TCP_ACCEPT handle cookie"
definition ksys_tcp_reject :: "u64 \<Rightarrow> bsys_desc \<Rightarrow> bsys_desc" where
  "ksys_tcp_reject handle = BSYS_DESC_1ARG KSYS_TCP_REJECT handle"
definition ksys_tcp_send :: "u64 \<Rightarrow> u64 \<Rightarrow> u64 \<Rightarrow> bsys_desc \<Rightarrow> bsys_desc" where
  "ksys_tcp_send handle addr len = BSYS_DESC_3ARG KSYS_TCP_SEND handle addr len"
definition ksys_tcp_sendv :: "u64 \<Rightarrow> u64 \<Rightarrow> u32 \<Rightarrow> bsys_desc \<Rightarrow> bsys_desc" where
  "ksys_tcp_sendv handle ents nrents = BSYS_DESC_3ARG KSYS_TCP_SENDV handle ents (ucast nrents)"
definition ksys_tcp_recv_done :: "u64 \<Rightarrow> u64 \<Rightarrow> bsys_desc \<Rightarrow> bsys_desc" where
  "ksys_tcp_recv_done handle len = BSYS_DESC_2ARG KSYS_TCP_RECV_DONE handle len"
definition ksys_tcp_close :: "u64 \<Rightarrow> bsys_desc \<Rightarrow> bsys_desc" where
  "ksys_tcp_close handle = BSYS_DESC_1ARG KSYS_TCP_CLOSE handle"

lemmas ksys_defs = ksys_udp_send_def ksys_udp_sendv_def ksys_udp_recv_done_def ksys_tcp_connect_def
  ksys_tcp_accept_def ksys_tcp_reject_def ksys_tcp_send_def ksys_tcp_sendv_def ksys_tcp_recv_done_def
  ksys_tcp_close_def

section \<open>Events for the application\<close>

definition usys_reset :: "bsys_arr \<Rightarrow> bsys_arr" where
  "usys_reset a = a\<lparr>ba_len := 0\<rparr>"

definition usys_next :: "bsys_arr \<Rightarrow> u64 \<times> bsys_arr" where
  "usys_next a = bsys_arr_next_unchecked a"

text \<open>Taking the next descriptor and storing to it: a store behind the memory of the array
  is a fault.\<close>

definition usys_put :: "(bsys_desc \<Rightarrow> bsys_desc) \<Rightarrow> bsys_arr \<Rightarrow> bsys_arr res" where
  "usys_put f a =
     (let (i, a') = usys_next a
      in bindR (rd (ba_descs a') i) (\<lambda>d. Inr (a'\<lparr>ba_descs := (ba_descs a')[unat i := f d]\<rparr>)))"

definition usys_udp_recv :: "u64 \<Rightarrow> u64 \<Rightarrow> u64 \<Rightarrow> bsys_arr \<Rightarrow> bsys_arr res" where
  "usys_udp_recv addr len idp = usys_put (BSYS_DESC_3ARG USYS_UDP_RECV addr len idp)"
definition usys_udp_sent :: "u64 \<Rightarrow> bsys_arr \<Rightarrow> bsys_arr res" where
  "usys_udp_sent cookie = usys_put (BSYS_DESC_1ARG USYS_UDP_SENT cookie)"
definition usys_tcp_connected :: "u64 \<Rightarrow> u64 \<Rightarrow> u64 \<Rightarrow> bsys_arr \<Rightarrow> bsys_arr res" where
  "usys_tcp_connected handle cookie ret = usys_put (BSYS_DESC_3ARG USYS_TCP_CONNECTED handle cookie ret)"
definition usys_tcp_knock :: "u64 \<Rightarrow> u64 \<Rightarrow> bsys_arr \<Rightarrow> bsys_arr res" where
  "usys_tcp_knock handle idp = usys_put (BSYS_DESC_2ARG USYS_TCP_KNOCK handle idp)"
definition usys_tcp_recv :: "u64 \<Rightarrow> u64 \<Rightarrow> u64 \<Rightarrow> u64 \<Rightarrow> bsys_arr \<Rightarrow> bsys_arr res" where
  "usys_tcp_recv handle cookie addr len = usys_put (BSYS_DESC_4ARG USYS_TCP_RECV handle cookie addr len)"
definition usys_tcp_sent :: "u64 \<Rightarrow> u64 \<Rightarrow> u64 \<Rightarrow> bsys_arr \<Rightarrow> bsys_arr res" where
  "usys_tcp_sent handle cookie len = usys_put (BSYS_DESC_3ARG USYS_TCP_SENT handle cookie len)"
definition usys_tcp_dead :: "u64 \<Rightarrow> u64 \<Rightarrow> bsys_arr \<Rightarrow> bsys_arr res" where
  "usys_tcp_dead handle cookie = usys_put (BSYS_DESC_2ARG USYS_TCP_DEAD handle cookie)"
definition usys_timer :: "u64 \<Rightarrow> bsys_arr \<Rightarrow> bsys_arr res" where
  "usys_timer cookie = usys_put (BSYS_DESC_1ARG USYS_TIMER cookie)"

lemmas usys_defs = usys_udp_recv_def usys_udp_sent_def usys_tcp_connected_def usys_tcp_knock_def
  usys_tcp_recv_def usys_tcp_sent_def usys_tcp_dead_def usys_timer_def

section \<open>What one event does to the array\<close>

lemma usys_put_ok:
  assumes "unat (ba_len a) < length (ba_descs a)"
  shows "usys_put f a = Inr (a\<lparr>ba_len := ba_len a + 1,
           ba_descs := (ba_descs a)[unat (ba_len a) := f (ba_descs a ! unat (ba_len a))]\<rparr>)"
  using assms by (simp add: usys_put_def usys_next_def bsys_arr_next_unchecked_def rd_def)

lemma usys_put_over:
  assumes "length (ba_descs a) \<le> unat (ba_len a)"
  shows "usys_put f a = Inl Fault"
  using assms by (simp add: usys_put_def usys_next_def bsys_arr_next_unchecked_def rd_def)

end
