(* ===== verification/Stack.thy ===== *)
theory Stack
  imports Arp Pbuf Syscall
begin

text \<open>
  The state of the whole stack above the devices: the state of ARP and the transmit side
  (\<open>net_state\<close>), the flow groups, the pbufs, the events for the application and the pages.
  The record is extended by the layers above, so the operations here work on any extension.
  Packets are bytes of \<open>nmem\<close>; the pbuf operations, defined on \<open>pbuf_state\<close>, are lifted to
  the same bytes and the same mbufs. Also here: the IPv4 header (\<open>inc/net/ip.h\<close>,
  \<open>net/net.h\<close>).
\<close>

section \<open>State\<close>

text \<open>\<open>sk_dev_idx\<close> is the \<open>dev_idx\<close> field of the flow groups, which are numbered as in \<open>fgs\<close>.\<close>

record stack =
  sk_net :: net_state
  sk_fgs :: "nat \<Rightarrow> eth_fg option"
  sk_dev_idx :: "nat \<Rightarrow> nat"
  sk_pb :: "addr \<Rightarrow> pbuf"
  sk_pbuf_pool :: pool_state
  sk_pbuf_payload_pool :: pool_state
  sk_usys :: bsys_arr
  sk_cookie :: u64
  sk_pages :: page_state

definition on_net :: "(net_state \<Rightarrow> ('a \<times> net_state) res) \<Rightarrow> 'z stack_scheme \<Rightarrow> ('a \<times> 'z stack_scheme) res" where
  "on_net f s = bindR (f (sk_net s)) (\<lambda>(x, n). Inr (x, s\<lparr>sk_net := n\<rparr>))"

definition on_net' :: "(net_state \<Rightarrow> net_state res) \<Rightarrow> 'z stack_scheme \<Rightarrow> 'z stack_scheme res" where
  "on_net' f s = bindR (f (sk_net s)) (\<lambda>n. Inr (s\<lparr>sk_net := n\<rparr>))"

definition sk_mem :: "'z stack_scheme \<Rightarrow> bytemem" where "sk_mem s = nmem (sk_net s)"
definition sk_mbuf :: "'z stack_scheme \<Rightarrow> addr \<Rightarrow> mbuf" where "sk_mbuf s m = mw_mbufs (nw (sk_net s)) m"

definition sk_upd_net :: "(net_state \<Rightarrow> net_state) \<Rightarrow> 'z stack_scheme \<Rightarrow> 'z stack_scheme" where
  "sk_upd_net f s = s\<lparr>sk_net := f (sk_net s)\<rparr>"

definition sk_upd_mem :: "(bytemem \<Rightarrow> bytemem) \<Rightarrow> 'z stack_scheme \<Rightarrow> 'z stack_scheme" where
  "sk_upd_mem f = sk_upd_net (upd_mem f)"

definition sk_upd_mbuf :: "addr \<Rightarrow> (mbuf \<Rightarrow> mbuf) \<Rightarrow> 'z stack_scheme \<Rightarrow> 'z stack_scheme" where
  "sk_upd_mbuf m f = sk_upd_net (upd_mbuf m f)"

definition on_usys :: "(bsys_arr \<Rightarrow> bsys_arr res) \<Rightarrow> 'z stack_scheme \<Rightarrow> 'z stack_scheme res" where
  "on_usys f s = bindR (f (sk_usys s)) (\<lambda>a. Inr (s\<lparr>sk_usys := a\<rparr>))"

definition on_pages :: "(page_state \<Rightarrow> page_state res) \<Rightarrow> 'z stack_scheme \<Rightarrow> 'z stack_scheme res" where
  "on_pages f s = bindR (f (sk_pages s)) (\<lambda>p. Inr (s\<lparr>sk_pages := p\<rparr>))"

definition pbuf_view :: "'z stack_scheme \<Rightarrow> pbuf_state" where
  "pbuf_view s = \<lparr>pb = sk_pb s, bytes = nmem (sk_net s), pbuf_mempool = sk_pbuf_pool s,
     pbuf_with_payload_mempool = sk_pbuf_payload_pool s, mbufs = nw (sk_net s)\<rparr>"

definition pbuf_write :: "pbuf_state \<Rightarrow> 'z stack_scheme \<Rightarrow> 'z stack_scheme" where
  "pbuf_write p s = s\<lparr>sk_net := (sk_net s)\<lparr>nmem := bytes p, nw := mbufs p\<rparr>, sk_pb := pb p,
     sk_pbuf_pool := pbuf_mempool p, sk_pbuf_payload_pool := pbuf_with_payload_mempool p\<rparr>"

definition on_pbuf :: "(pbuf_state \<Rightarrow> ('a \<times> pbuf_state) res) \<Rightarrow> 'z stack_scheme \<Rightarrow> ('a \<times> 'z stack_scheme) res" where
  "on_pbuf f s = bindR (f (pbuf_view s)) (\<lambda>(x, p). Inr (x, pbuf_write p s))"

definition sk_mbuf_free :: "net_env \<Rightarrow> addr \<Rightarrow> 'z stack_scheme \<Rightarrow> 'z stack_scheme res" where
  "sk_mbuf_free env m = on_net' (net_mbuf_free env m)"

lemma pbuf_view_write [simp]: "pbuf_view (pbuf_write p s) = p"
  by (simp add: pbuf_view_def pbuf_write_def)

lemma pbuf_write_view [simp]: "pbuf_write (pbuf_view s) s = s"
  by (simp add: pbuf_view_def pbuf_write_def)

section \<open>The IPv4 header\<close>

text \<open>Offsets in \<open>struct ip_hdr\<close>; the first byte holds the version in its high half and the
  header length in words in its low half.\<close>

definition ip_vhl :: nat where "ip_vhl = 0"
definition ip_tos :: nat where "ip_tos = 1"
definition ip_len :: nat where "ip_len = 2"
definition ip_id :: nat where "ip_id = 4"
definition ip_off :: nat where "ip_off = 6"
definition ip_ttl :: nat where "ip_ttl = 8"
definition ip_proto :: nat where "ip_proto = 9"
definition ip_chksum :: nat where "ip_chksum = 10"
definition ip_src_addr :: nat where "ip_src_addr = 12"
definition ip_dst_addr :: nat where "ip_dst_addr = 16"
definition IP_HDR_LEN :: nat where "IP_HDR_LEN = 20"

lemmas ip_layout = ip_vhl_def ip_tos_def ip_len_def ip_id_def ip_off_def ip_ttl_def ip_proto_def
  ip_chksum_def ip_src_addr_def ip_dst_addr_def IP_HDR_LEN_def

definition IP_OFFMASK :: u16 where "IP_OFFMASK = 0x1fff"
definition IP_MF :: u16 where "IP_MF = 0x2000"
definition IPPROTO_ICMP :: u8 where "IPPROTO_ICMP = 1"
definition IPPROTO_TCP :: u8 where "IPPROTO_TCP = 6"
definition IPPROTO_UDP :: u8 where "IPPROTO_UDP = 17"
definition IP_ADDR_STR_LEN :: nat where "IP_ADDR_STR_LEN = 16"

definition ip_version :: "bytemem \<Rightarrow> addr \<Rightarrow> u8" where "ip_version m hdr = drop_bit 4 (m (hdr + ip_vhl))"
definition ip_header_len :: "bytemem \<Rightarrow> addr \<Rightarrow> u8" where "ip_header_len m hdr = m (hdr + ip_vhl) AND 15"

definition ip_setup_header :: "addr \<Rightarrow> u8 \<Rightarrow> u32 \<Rightarrow> u32 \<Rightarrow> u16 \<Rightarrow> bytemem \<Rightarrow> bytemem" where
  "ip_setup_header iphdr proto saddr daddr l4len m =
     (let m = put_bytes m (iphdr + ip_vhl) [push_bit 4 4 OR of_nat (IP_HDR_LEN div 4)];
          m = put_bytes m (iphdr + ip_tos) [0];
          m = put16 m (iphdr + ip_len) (of_nat IP_HDR_LEN + l4len);
          m = put16 m (iphdr + ip_id) 0;
          m = put16 m (iphdr + ip_off) 0;
          m = put_bytes m (iphdr + ip_ttl) [64];
          m = put_bytes m (iphdr + ip_proto) [proto];
          m = put16 m (iphdr + ip_chksum) 0;
          m = put32 m (iphdr + ip_src_addr) saddr
      in put32 m (iphdr + ip_dst_addr) daddr)"

text \<open>\<open>snprintf\<close> with \<open>%d.%d.%d.%d\<close>: at most 15 characters and the terminator.\<close>

fun dec_digits :: "nat \<Rightarrow> string" where
  "dec_digits n = (if n < 10 then [char_of (48 + n)] else dec_digits (n div 10) @ [char_of (48 + n mod 10)])"

definition ip_addr_to_str :: "u32 \<Rightarrow> string" where
  "ip_addr_to_str addr =
     take (IP_ADDR_STR_LEN - 1)
       (dec_digits (unat (drop_bit 24 addr AND 0xff)) @ ''.'' @
        dec_digits (unat (drop_bit 16 addr AND 0xff)) @ ''.'' @
        dec_digits (unat (drop_bit 8 addr AND 0xff)) @ ''.'' @
        dec_digits (unat (addr AND 0xff)))"

end
