(* ===== verification/Ip.thy ===== *)
theory Ip
  imports Stack
begin

text \<open>
  The sending side of IP (\<open>net/ip.c\<close>): the next hop is resolved by ARP and the packet queued
  on the device of the flow group, or kept with the ARP entry until the address is known
  (\<open>send_pending_pkt\<close> of \<open>net/arp.c\<close> then sends it). Flow groups are given by their index in
  \<open>fgs\<close>.
\<close>

section \<open>Sending one packet\<close>

text \<open>Reading a field of a flow group through its pointer.\<close>

definition fg_dev_idx :: "'z stack_scheme \<Rightarrow> nat \<Rightarrow> nat res" where
  "fg_dev_idx s fg = (if sk_fgs s fg = None then Inl Fault else Inr (sk_dev_idx s fg))"

definition next_hop :: "cfg_parameters \<Rightarrow> u32 \<Rightarrow> u32" where
  "next_hop cfg dst = (if dst AND cfg_mask cfg = host_addr cfg AND cfg_mask cfg then dst else gateway_addr cfg)"

definition ip_send_one ::
  "net_env \<Rightarrow> nat \<Rightarrow> u32 \<Rightarrow> addr \<Rightarrow> nat \<Rightarrow> 'z stack_scheme \<Rightarrow> (u32 \<times> 'z stack_scheme) res" where
  "ip_send_one env cur_fg dst_addr pkt len s =
     (let ethhdr = mbuf_mtod pkt;
          s1 = sk_upd_mem (\<lambda>m. put16 (put_bytes m (ethhdr + eth_shost) (cfg_mac (CFG env))) (ethhdr + eth_type) ETHTYPE_IP) s;
          dst = next_hop (CFG env) dst_addr
      in bindR (on_net (\<lambda>n. bindR (arp_lookup_mac env dst n) (\<lambda>(r, mac, n'). Inr ((r, mac), n'))) s1) (\<lambda>((ret, mac), s2).
         let s3 = (case mac of Some a \<Rightarrow> sk_upd_mem (\<lambda>m. put_bytes m (ethhdr + eth_dhost) a) s2 | None \<Rightarrow> s2) in
         if ret \<noteq> 0 then
           bindR (on_net (arp_add_pending_pkt env dst cur_fg pkt (of_nat len)) s3) (\<lambda>(_, s4). Inr (0, s4))
         else
           bindR (fg_dev_idx s3 cur_fg) (\<lambda>dev.
           bindR (on_net (net_send_one dev pkt len) s3) (\<lambda>(ret2, s4).
           if ret2 \<noteq> 0 then Inr (- EIO, s4) else Inr (0, s4)))))"

text \<open>\<open>send_pending_pkt\<close>, posted by ARP when the address becomes known. The packet is unlinked
  from whichever entry holds it.\<close>

definition send_pending_pkt :: "net_env \<Rightarrow> addr \<Rightarrow> 'z stack_scheme \<Rightarrow> 'z stack_scheme res" where
  "send_pending_pkt env p s =
     (let x = pend_ents (sk_net s) p in
      bindR (ip_send_one env (pp_fg x) (pp_dst x) (pp_mbuf x) (unat (pp_len x)) s) (\<lambda>(ret, s1).
      bindR (if ret \<noteq> 0 then sk_mbuf_free env (pp_mbuf (pend_ents (sk_net s1) p)) s1 else Inr s1) (\<lambda>s2.
      bindR (spin_lock (pending_pkt_lock (sk_net s2))) (\<lambda>_.
      let s3 = sk_upd_net (\<lambda>n. n\<lparr>arp_ents := (\<lambda>e. (arp_ents n e)\<lparr>ae_pending := remove1 p (ae_pending (arp_ents n e))\<rparr>)\<rparr>) s2
      in on_net' (\<lambda>n. bindR (kns_mempool_free (bugs_on env) (pending_pkt_mempool n) p) (\<lambda>pool.
           Inr (n\<lparr>pending_pkt_mempool := pool\<rparr>))) s3))))"

section \<open>Sending a TCP segment\<close>

text \<open>The copy of a pbuf chain to consecutive bytes; out of fuel, the chain is circular.\<close>

fun copy_chain :: "nat \<Rightarrow> (addr \<Rightarrow> pbuf) \<Rightarrow> addr \<Rightarrow> addr \<Rightarrow> bytemem \<Rightarrow> bytemem res" where
  "copy_chain 0 pbs curp dst m = (if curp = NULL then Inr m else Inl Hang)"
| "copy_chain (Suc fuel) pbs curp dst m =
     (if curp = NULL then Inr m
      else let len = unat (p_len (pbs curp))
           in copy_chain fuel pbs (p_next (pbs curp)) (dst + len)
                (put_bytes m dst (get_bytes m (payload (pbs curp)) len)))"

text \<open>\<open>src\<close> and \<open>dst\<close> are addresses in network byte order.\<close>

definition ntohl :: "u32 \<Rightarrow> u32" where "ntohl x = be_value (le_bytes 4 x)"

definition ip_output_hinted ::
  "net_env \<Rightarrow> nat \<Rightarrow> nat \<Rightarrow> addr \<Rightarrow> u32 \<Rightarrow> u32 \<Rightarrow> u8 \<Rightarrow> u8 \<Rightarrow> u8 \<Rightarrow> 'z stack_scheme \<Rightarrow> (u32 \<times> 'z stack_scheme) res" where
  "ip_output_hinted env fuel cur_fg p src dst ttl tos proto s =
     bindR (on_net (mbuf_alloc_local env) s) (\<lambda>(pkt, s1).
     if pkt = NULL then Inr (- ENOMEM, s1)
     else
       let ethhdr = mbuf_mtod pkt; iphdr = ethhdr + ETH_HDR_LEN; payload = iphdr + IP_HDR_LEN;
           tot = tot_len (sk_pb s1 p);
           s2 = sk_upd_mem (\<lambda>m.
                 let m = ip_setup_header iphdr proto (ntohl src) (ntohl dst) tot m;
                     m = put_bytes m (iphdr + ip_tos) [tos]
                 in put_bytes m (iphdr + ip_ttl) [ttl]) s1
       in bindR (copy_chain fuel (sk_pb s2) p payload (sk_mem s2)) (\<lambda>m.
          let s3 = sk_upd_mbuf pkt (\<lambda>b. b\<lparr>mb_ol_flags := PKT_TX_IP_CKSUM OR PKT_TX_TCP_CKSUM\<rparr>) (sk_upd_mem (\<lambda>_. m) s2)
          in bindR (ip_send_one env cur_fg (ntohl dst) pkt (ETH_HDR_LEN + IP_HDR_LEN + unat tot) s3) (\<lambda>(ret, s4).
             if ret \<noteq> 0 then bindR (sk_mbuf_free env pkt s4) (\<lambda>s5. Inr (- EIO, s5)) else Inr (0, s4))))"

end
