(* ===== verification/Udp.thy ===== *)
theory Udp
  imports Ip
begin

text \<open>
  UDP (\<open>net/udp.c\<close>): received datagrams are given to the application without a copy and come
  back with \<open>bsys_udp_recv_done\<close>; sent ones take a packet for the headers and reference the
  application's pages as one or two scatter-gather entries, which \<open>udp_mbuf_done\<close> releases.
\<close>

definition UDP_HDR_LEN :: nat where "UDP_HDR_LEN = 8"
definition udp_src_port :: nat where "udp_src_port = 0"
definition udp_dst_port :: nat where "udp_dst_port = 2"
definition udp_len :: nat where "udp_len = 4"
definition udp_chksum :: nat where "udp_chksum = 6"
definition UDP_PKT_SIZE :: nat where "UDP_PKT_SIZE = ETH_HDR_LEN + IP_HDR_LEN + UDP_HDR_LEN"
definition UDP_MAX_LEN :: nat where "UDP_MAX_LEN = ETH_MTU - IP_HDR_LEN - UDP_HDR_LEN"

lemmas udp_layout = UDP_HDR_LEN_def udp_src_port_def udp_dst_port_def udp_len_def udp_chksum_def UDP_PKT_SIZE_def

text \<open>The marker \<open>(void * ) 0xDEADBEEF\<close> in the \<open>done\<close> field of a packet that the application
  holds, NULL, and the callback \<open>udp_mbuf_done\<close>.\<close>

definition DONE_USER :: mbuf_done where "DONE_USER = other_done 0xDEADBEEF"
definition DONE_NULL :: mbuf_done where "DONE_NULL = other_done 0"
definition DONE_UDP :: mbuf_done where "DONE_UDP = other_done 1"

definition mbuf_to_iomap :: "net_env \<Rightarrow> 'z stack_scheme \<Rightarrow> addr \<Rightarrow> addr \<Rightarrow> u64 res" where
  "mbuf_to_iomap env s pkt pos =
     (case mw_pools (nw (sk_net s)) (mbuf_pool (nw (sk_net s)) pkt) of
        None \<Rightarrow> Inl Fault
      | Some mp \<Rightarrow> bindR (mempool_pagemem_to_iomap (bugs_on env) mp pos) (\<lambda>a. Inr (of_int a)))"

section \<open>Receiving\<close>

text \<open>\<open>struct ip_tuple\<close> in memory, in host byte order.\<close>

definition put_tuple :: "addr \<Rightarrow> ip_tuple \<Rightarrow> bytemem \<Rightarrow> bytemem" where
  "put_tuple a t m =
     put_bytes m a (le_bytes 4 (src_ip t) @ le_bytes 4 (dst_ip t) @ le_bytes 2 (src_port t) @ le_bytes 2 (dst_port t))"

definition udp_input :: "net_env \<Rightarrow> addr \<Rightarrow> addr \<Rightarrow> addr \<Rightarrow> 'z stack_scheme \<Rightarrow> 'z stack_scheme res" where
  "udp_input env pkt iphdr udphdr s =
     (let m = sk_mem s;
          data = udphdr + UDP_HDR_LEN;
          len = get16 m (udphdr + udp_len)
      in if \<not> mbuf_enough_space (nw (sk_net s)) pkt udphdr (unat len) then sk_mbuf_free env pkt s
         else
           let idp = mbuf_mtod pkt;
               s1 = sk_upd_mem (put_tuple idp
                     \<lparr>src_ip = get32 m (iphdr + ip_src_addr), dst_ip = get32 m (iphdr + ip_dst_addr),
                      src_port = get16 m (udphdr + udp_src_port), dst_port = get16 m (udphdr + udp_dst_port)\<rparr>) s;
               s2 = sk_upd_mbuf pkt (\<lambda>b. b\<lparr>mb_done := DONE_USER\<rparr>) s1
           in bindR (mbuf_to_iomap env s2 pkt data) (\<lambda>iodata.
              bindR (mbuf_to_iomap env s2 pkt idp) (\<lambda>ioid.
              on_usys (usys_udp_recv iodata (ucast len) ioid) s2)))"

text \<open>\<open>iomap\<close> points anywhere into the mbuf; mbufs do not straddle large pages.\<close>

definition bsys_udp_recv_done :: "net_env \<Rightarrow> u64 \<Rightarrow> 'z stack_scheme \<Rightarrow> (u64 \<times> 'z stack_scheme) res" where
  "bsys_udp_recv_done env iomap s =
     (case mw_pools (nw (sk_net s)) (pool_ptr env) of
        None \<Rightarrow> Inl Fault
      | Some mp \<Rightarrow>
          bindR (mempool_iomap_to_ptr (bugs_on env) mp (uint iomap)) (\<lambda>a.
          let addr = of_int a :: u64;
              off = PGOFF_2MB addr;
              m = unat (PGADDR_2MB addr + off div of_nat MBUF_LEN * of_nat MBUF_LEN)
          in if mb_done (sk_mbuf s m) \<noteq> DONE_USER then Inr (- RET_INVAL, s)
             else
               bindR (sk_mbuf_free env m (sk_upd_mbuf m (\<lambda>b. b\<lparr>mb_done := DONE_NULL\<rparr>) s)) (\<lambda>s2.
               Inr (RET_OK, s2))))"

section \<open>Sending\<close>

definition SIZEOF_IOV :: nat where "SIZEOF_IOV = 24"

text \<open>The entries \<open>iovs[i], \<dots>, iovs[nr - 1]\<close> are released.\<close>

fun iovs_free :: "(addr \<Rightarrow> mbuf_iov) \<Rightarrow> addr \<Rightarrow> nat \<Rightarrow> page_state \<Rightarrow> page_state res" where
  "iovs_free iv a 0 ps = Inr ps"
| "iovs_free iv a (Suc k) ps = bindR (mbuf_iov_free ps (iv a)) (iovs_free iv (a + SIZEOF_IOV) k)"

definition pkt_iovs_free :: "addr \<Rightarrow> 'z stack_scheme \<Rightarrow> 'z stack_scheme res" where
  "pkt_iovs_free pkt s =
     on_pages (iovs_free (iov_mem (sk_net s)) (mb_iovs (sk_mbuf s pkt)) (unat (mb_nr_iov (sk_mbuf s pkt)))) s"

definition udp_mbuf_done :: "net_env \<Rightarrow> addr \<Rightarrow> 'z stack_scheme \<Rightarrow> 'z stack_scheme res" where
  "udp_mbuf_done env pkt s =
     bindR (pkt_iovs_free pkt s) (\<lambda>s1.
     bindR (on_usys (usys_udp_sent (mb_done_data (sk_mbuf s1 pkt))) s1) (\<lambda>s2.
     sk_mbuf_free env pkt s2))"

text \<open>\<open>eth_send\<close> on the stack.\<close>

definition sk_eth_send :: "nat \<Rightarrow> addr \<Rightarrow> 'z stack_scheme \<Rightarrow> (u32 \<times> 'z stack_scheme) res" where
  "sk_eth_send dev pkt s =
     bindR (eth_send (txqs (sk_net s) dev) (mw_mbufs (nw (sk_net s))) pkt) (\<lambda>(r, q).
     Inr (r, sk_upd_net (\<lambda>n. n\<lparr>txqs := (txqs n)(dev := q)\<rparr>) s))"

text \<open>\<open>dev_count\<close> is \<open>eth_dev_count\<close>. The header checksum is what \<open>chksum_internet\<close> computes,
  stored as the machine stores it.\<close>

definition udp_output :: "net_env \<Rightarrow> nat \<Rightarrow> addr \<Rightarrow> ip_tuple \<Rightarrow> u64 \<Rightarrow> 'z stack_scheme \<Rightarrow> (u64 \<times> 'z stack_scheme) res" where
  "udp_output env dev_count pkt t len s =
     (let ethhdr = mbuf_mtod pkt; iphdr = ethhdr + ETH_HDR_LEN; udphdr = iphdr + IP_HDR_LEN;
          full_len = len + of_nat UDP_HDR_LEN
      in bindR (on_net (\<lambda>n. bindR (arp_lookup_mac env (dst_ip t) n) (\<lambda>(r, mac, n'). Inr ((r, mac), n'))) s) (\<lambda>((ret, mac), s1).
         let s2 = (case mac of Some a \<Rightarrow> sk_upd_mem (\<lambda>m. put_bytes m (ethhdr + eth_dhost) a) s1 | None \<Rightarrow> s1)
         in if ret \<noteq> 0 then Inr (- RET_AGAIN, s2)
            else
              let s3 = sk_upd_mem (\<lambda>m.
                    let m = put_bytes m (ethhdr + eth_shost) (cfg_mac (CFG env));
                        m = put16 m (ethhdr + eth_type) ETHTYPE_IP;
                        m = ip_setup_header iphdr IPPROTO_UDP (host_addr (CFG env)) (dst_ip t) (ucast full_len) m;
                        m = put_bytes m (iphdr + ip_chksum) (le_bytes 2 (chksum_internet (get_bytes m iphdr IP_HDR_LEN)));
                        m = put16 m (udphdr + udp_src_port) (src_port t);
                        m = put16 m (udphdr + udp_dst_port) (dst_port t);
                        m = put16 m (udphdr + udp_len) (ucast full_len)
                    in put16 m (udphdr + udp_chksum) 0) s2;
                  s4 = sk_upd_mbuf pkt (\<lambda>b. b\<lparr>mb_ol_flags := 0\<rparr>) s3;
                  s5 = sk_upd_net (\<lambda>n. n\<lparr>nw := set_mbuf_len pkt UDP_PKT_SIZE (nw n)\<rparr>) s4
              in if dev_count > 1 then Inl BugOn
                 else bindR (sk_eth_send 0 pkt s5) (\<lambda>(r, s6). Inr (scast r, s6))))"

text \<open>
  \<open>copy_from_user\<close> is called with its first two arguments exchanged: it writes the
  uninitialised local \<open>tmp\<close> to the application and leaves \<open>tmp\<close> as it was. \<open>copied\<close> says
  whether it succeeds, \<open>tmp\<close> and \<open>addr\<close> are what the two uninitialised locals hold. The
  copied-out bytes go to the address \<open>idp\<close> in the application.
\<close>

definition bsys_udp_send ::
  "net_env \<Rightarrow> nat \<Rightarrow> bool \<Rightarrow> ip_tuple \<Rightarrow> u64 \<Rightarrow> u64 \<Rightarrow> addr \<Rightarrow> u64 \<Rightarrow> 'z stack_scheme \<Rightarrow> (u64 \<times> 'z stack_scheme) res" where
  "bsys_udp_send env dev_count copied tmp addr len idp cookie s =
     (if len > of_nat UDP_MAX_LEN then Inr (- RET_INVAL, s)
      else if \<not> copied then Inr (- RET_FAULT, s)
      else
        let s0 = sk_upd_mem (put_tuple idp tmp) s in
        bindR (on_net (mbuf_alloc_local env) s0) (\<lambda>(pkt, s1).
        if pkt = NULL then Inr (- RET_NOBUFS, s1)
        else
          let iovs = mbuf_mtod_off pkt (ALIGN UDP_PKT_SIZE 8);
              s2 = sk_upd_mbuf pkt (\<lambda>b. b\<lparr>mb_iovs := iovs\<rparr>) s1
          in bindR (mbuf_iov_create (sk_pages s2) \<lparr>sg_base = addr, sg_len = len\<rparr>) (\<lambda>(len1, iov, ps).
             let s3 = sk_upd_mbuf pkt (\<lambda>b. b\<lparr>mb_nr_iov := 1\<rparr>)
                        (sk_upd_net (\<lambda>n. n\<lparr>iov_mem := (iov_mem n)(iovs := iov)\<rparr>) (s2\<lparr>sk_pages := ps\<rparr>))
             in bindR (if len \<noteq> len1 then
                         bindR (page_get (sk_pages s3) (addr + len1)) (\<lambda>(ma, ps2).
                         Inr (sk_upd_mbuf pkt (\<lambda>b. b\<lparr>mb_nr_iov := 2\<rparr>)
                           (sk_upd_net (\<lambda>n. n\<lparr>iov_mem := (iov_mem n)(iovs + SIZEOF_IOV :=
                              \<lparr>iov_base = addr + len1, iov_maddr = ma, iov_len = len - len1\<rparr>)\<rparr>) (s3\<lparr>sk_pages := ps2\<rparr>))))
                       else Inr s3) (\<lambda>s4.
                let s5 = sk_upd_mbuf pkt (\<lambda>b. b\<lparr>mb_done := DONE_UDP, mb_done_data := cookie\<rparr>) s4
                in bindR (udp_output env dev_count pkt tmp len1 s5) (\<lambda>(ret, s6).
                   if ret \<noteq> 0 then
                     bindR (pkt_iovs_free pkt s6) (\<lambda>s7.
                     bindR (sk_mbuf_free env pkt s7) (\<lambda>s8. Inr (ret, s8)))
                   else Inr (0, s6))))))"

definition bsys_udp_sendv :: u64 where "bsys_udp_sendv = - RET_NOSYS"

end
