(* ===== verification/Ip_Input.thy ===== *)
theory Ip_Input
  imports Udp
begin

text \<open>
  The receiving side of Ethernet and IP (\<open>net/ip.c\<close>). TCP and ICMP input
  (\<open>tcp_input_tmp\<close>, \<open>icmp_input\<close>) are declared in \<open>net/net.h\<close> but not part of the repository:
  they are parameters, which get the flow group, the packet and the header addresses.
\<close>

type_synonym 's tcp_input_fn = "nat \<Rightarrow> addr \<Rightarrow> addr \<Rightarrow> addr \<Rightarrow> 's \<Rightarrow> 's res"
type_synonym 's icmp_input_fn = "nat \<Rightarrow> addr \<Rightarrow> addr \<Rightarrow> nat \<Rightarrow> 's \<Rightarrow> 's res"

definition ip_input ::
  "net_env \<Rightarrow> 'z stack_scheme tcp_input_fn \<Rightarrow> 'z stack_scheme icmp_input_fn \<Rightarrow> nat \<Rightarrow> addr \<Rightarrow> addr \<Rightarrow>
   'z stack_scheme \<Rightarrow> 'z stack_scheme res" where
  "ip_input env tcp_input_tmp icmp_input cur_fg pkt hdr s =
     (let m = sk_mem s; w = nw (sk_net s) in
      if \<not> mbuf_enough_space w pkt hdr IP_HDR_LEN then sk_mbuf_free env pkt s
      else if ip_version m hdr \<noteq> 4 then sk_mbuf_free env pkt s
      else if ip_header_len m hdr < 5 then sk_mbuf_free env pkt s
      else if get16 m (hdr + ip_off) AND (IP_OFFMASK OR IP_MF) \<noteq> 0 then sk_mbuf_free env pkt s
      else
        let hdrlen = unat (ip_header_len m hdr) * 4;
            pktlen = unat (get16 m (hdr + ip_len))
        in if pktlen < hdrlen then sk_mbuf_free env pkt s
           else if \<not> mbuf_enough_space w pkt hdr pktlen then sk_mbuf_free env pkt s
           else
             let proto = m (hdr + ip_proto) in
             if proto = IPPROTO_TCP then tcp_input_tmp cur_fg pkt hdr (hdr + hdrlen) s
             else if proto = IPPROTO_UDP then udp_input env pkt hdr (hdr + hdrlen) s
             else if proto = IPPROTO_ICMP then icmp_input cur_fg pkt (hdr + hdrlen) (pktlen - hdrlen) s
             else sk_mbuf_free env pkt s)"

text \<open>\<open>eth_input\<close> of \<open>net/ip.c\<close>; a flow group that is not there is dereferenced.\<close>

definition eth_input_stack ::
  "net_env \<Rightarrow> 'z stack_scheme tcp_input_fn \<Rightarrow> 'z stack_scheme icmp_input_fn \<Rightarrow> addr \<Rightarrow>
   'z stack_scheme \<Rightarrow> 'z stack_scheme res" where
  "eth_input_stack env tcp_input_tmp icmp_input pkt s =
     (let ethhdr = mbuf_mtod pkt; fg = unat (mb_fg_id (sk_mbuf s pkt)) in
      case sk_fgs s fg of
        None \<Rightarrow> Inl Fault
      | Some g \<Rightarrow>
          bindR (eth_fg_set_current (bugs_on env) (this_cpu env) g) (\<lambda>_.
          let ty = get16 (sk_mem s) (ethhdr + eth_type) in
          if ty = ETHTYPE_IP then ip_input env tcp_input_tmp icmp_input fg pkt (ethhdr + ETH_HDR_LEN) s
          else if ty = ETHTYPE_ARP then on_net' (arp_input env pkt (ethhdr + ETH_HDR_LEN)) s
          else sk_mbuf_free env pkt s))"

end
