(* ===== verification/Ip_Spec.thy ===== *)
theory Ip_Spec
  imports Ip_Input Arp_Spec Pbuf_Spec
begin

text \<open>
  IP against byte strings: what is queued on the device is the frame that the arguments
  describe, and what a received packet is taken for is decided by a parser of its bytes.
\<close>

section \<open>Writing consecutive bytes\<close>

lemma put_append: "b = a + length xs \<Longrightarrow> put_bytes (put_bytes m a xs) b ys = put_bytes m a (xs @ ys)"
  by (rule ext) (auto simp: put_bytes_def nth_append)

lemma put_prepend: "b = a + length xs \<Longrightarrow> put_bytes (put_bytes m b ys) a xs = put_bytes m a (xs @ ys)"
  by (rule ext) (auto simp: put_bytes_def nth_append)

lemma put_inside:
  assumes "b = a + k" and "k + length ys \<le> length xs"
  shows "put_bytes (put_bytes m a xs) b ys = put_bytes m a (take k xs @ ys @ drop (k + length ys) xs)"
proof (rule ext)
  fix x
  show "put_bytes (put_bytes m a xs) b ys x = put_bytes m a (take k xs @ ys @ drop (k + length ys) xs) x"
    using assms by (auto simp: put_bytes_def nth_append)
qed

lemma put_nil [simp]: "put_bytes m a [] = m"
  by (rule ext) (auto simp: put_bytes_def)

lemma get_prefix: "n \<le> length bs \<Longrightarrow> get_bytes (put_bytes m a bs) a n = take n bs"
  by (rule nth_equalityI) (auto simp: get_bytes_def put_bytes_def)

section \<open>Frames\<close>

definition ipv4_header :: "u8 \<Rightarrow> u16 \<Rightarrow> u8 \<Rightarrow> u8 \<Rightarrow> u32 \<Rightarrow> u32 \<Rightarrow> u8 list" where
  "ipv4_header tos tlen ttl proto src dst =
     [0x45, tos] @ be_bytes 2 tlen @ [0, 0, 0, 0, ttl, proto, 0, 0] @ be_bytes 4 src @ be_bytes 4 dst"

definition eth_frame :: "eth_addr \<Rightarrow> eth_addr \<Rightarrow> u16 \<Rightarrow> u8 list \<Rightarrow> u8 list" where
  "eth_frame dst src ty body = dst @ src @ be_bytes 2 ty @ body"

lemma length_ipv4_header [simp]: "length (ipv4_header tos tlen ttl proto src dst) = 20"
  by (simp add: ipv4_header_def)

lemma be_bytes_16_0: "be_bytes 2 (0 :: u16) = [0, 0]"
  by (simp add: be_bytes_def le_bytes_def numeral_2_eq_2)

lemma setup_header_bytes:
  "put_bytes (put_bytes (ip_setup_header a proto src dst len m) (a + ip_tos) [tos]) (a + ip_ttl) [ttl] =
   put_bytes m a (ipv4_header tos (20 + len) ttl proto src dst)"
proof -
  have "ip_setup_header a proto src dst len m = put_bytes m a (ipv4_header 0 (20 + len) 64 proto src dst)"
    by (simp add: ip_setup_header_def Let_def ip_layout put16_def put32_def put_append be_bytes_16_0 ipv4_header_def)
  then show ?thesis
    by (simp add: ip_layout put_inside ipv4_header_def)
qed

text \<open>The copy of a chain of pbufs that do not lie in the target.\<close>

definition chain_data :: "(addr \<Rightarrow> pbuf) \<Rightarrow> bytemem \<Rightarrow> addr list \<Rightarrow> u8 list" where
  "chain_data pbs m xs = concat (map (\<lambda>x. get_bytes m (payload (pbs x)) (unat (p_len (pbs x)))) xs)"

definition chain_clear :: "(addr \<Rightarrow> pbuf) \<Rightarrow> addr list \<Rightarrow> addr \<Rightarrow> nat \<Rightarrow> bool" where
  "chain_clear pbs xs a n \<longleftrightarrow>
     (\<forall>x \<in> set xs. payload (pbs x) + unat (p_len (pbs x)) \<le> a \<or> a + n \<le> payload (pbs x))"

lemma length_chain_data: "length (chain_data pbs m xs) = (\<Sum>x\<leftarrow>xs. unat (p_len (pbs x)))"
  by (simp add: chain_data_def length_concat comp_def)

lemma chain_data_put:
  assumes "chain_clear pbs xs b n" and "b \<le> a" and "a + length bs \<le> b + n"
  shows "chain_data pbs (put_bytes m a bs) xs = chain_data pbs m xs"
proof -
  have "map (\<lambda>x. get_bytes (put_bytes m a bs) (payload (pbs x)) (unat (p_len (pbs x)))) xs =
    map (\<lambda>x. get_bytes m (payload (pbs x)) (unat (p_len (pbs x)))) xs"
    using assms by (intro map_cong refl get_put_other) (auto simp: chain_clear_def)
  then show ?thesis unfolding chain_data_def by (rule arg_cong [where f = concat])
qed

lemma copy_chain_bytes:
  assumes "chain (\<lambda>x. p_next (pbs x)) p xs" and "length xs \<le> fuel" and "chain_clear pbs xs b n"
    and "b \<le> dst" and "dst + (\<Sum>x\<leftarrow>xs. unat (p_len (pbs x))) \<le> b + n"
  shows "copy_chain fuel pbs p dst m = Inr (put_bytes m dst (chain_data pbs m xs))"
  using assms
proof (induction xs arbitrary: p fuel dst m)
  case Nil
  then show ?case by (cases fuel) (simp_all add: chain_data_def)
next
  case (Cons x xs)
  obtain k where k: "fuel = Suc k" using Cons.prems(2) by (cases fuel) auto
  let ?n = "unat (p_len (pbs x))"
  let ?d = "get_bytes m (payload (pbs x)) ?n"
  have c: "chain_clear pbs xs b n" using Cons.prems(3) by (simp add: chain_clear_def)
  have "copy_chain k pbs (p_next (pbs x)) (dst + ?n) (put_bytes m dst ?d) =
    Inr (put_bytes (put_bytes m dst ?d) (dst + ?n) (chain_data pbs (put_bytes m dst ?d) xs))"
    by (rule Cons.IH) (use Cons.prems c k in simp_all)
  also have "chain_data pbs (put_bytes m dst ?d) xs = chain_data pbs m xs"
    by (rule chain_data_put [OF c]) (use Cons.prems in simp_all)
  finally show ?case using Cons.prems(1) k by (simp add: put_append chain_data_def)
qed

section \<open>Sending a packet to a known address\<close>

lemma sk_sel [simp]:
  "sk_net (sk_upd_net f s) = f (sk_net s)" "sk_fgs (sk_upd_net f s) = sk_fgs s" "sk_dev_idx (sk_upd_net f s) = sk_dev_idx s"
  "sk_pb (sk_upd_net f s) = sk_pb s" "sk_usys (sk_upd_net f s) = sk_usys s" "sk_pages (sk_upd_net f s) = sk_pages s"
  by (simp_all add: sk_upd_net_def)

lemma net_upd_sel [simp]:
  "nmem (upd_mem f n) = f (nmem n)" "nw (upd_mem f n) = nw n" "txqs (upd_mem f n) = txqs n"
  "arp_ents (upd_mem f n) = arp_ents n" "arp_tbl (upd_mem f n) = arp_tbl n"
  "nmem (upd_mbuf p g n) = nmem n" "txqs (upd_mbuf p g n) = txqs n" "arp_ents (upd_mbuf p g n) = arp_ents n"
  "arp_tbl (upd_mbuf p g n) = arp_tbl n" "mw_mbufs (nw (upd_mbuf p g n)) = (mw_mbufs (nw n))(p := g (mw_mbufs (nw n) p))"
  by (simp_all add: upd_mem_def upd_mbuf_def)

lemma known_keep: "arp_ents n' = arp_ents n \<Longrightarrow> arp_tbl n' = arp_tbl n \<Longrightarrow> known env n' a = known env n a"
  unfolding known_def by (simp only: view_keep [of n' n env])

text \<open>\<open>tx_ready\<close>: the device of the group has room for one more packet.\<close>

definition tx_ready :: "nat \<Rightarrow> 'z stack_scheme \<Rightarrow> bool" where
  "tx_ready fg s \<longleftrightarrow> sk_fgs s fg \<noteq> None \<and> 1 \<le> tx_cap (txqs (sk_net s) (sk_dev_idx s fg)) \<and>
     length (tx_bufs (txqs (sk_net s) (sk_dev_idx s fg))) < ETH_DEV_TX_QUEUE_SZ"

definition sent_queue :: "nat \<Rightarrow> 'z stack_scheme \<Rightarrow> addr list" where
  "sent_queue fg s = tx_bufs (txqs (sk_net s) (sk_dev_idx s fg))"

lemma ip_send_one_known:
  assumes k: "known env (sk_net s) (next_hop (CFG env) dst) = Some dmac" and "tx_ready fg s"
    and "length dmac = 6" and "length (cfg_mac (CFG env)) = 6"
    and m: "sk_mem s = put_bytes m (mbuf_mtod pkt + 14) body"
  shows "\<exists>s'. ip_send_one env fg dst pkt len s = Inr (0, s') \<and> sent_queue fg s' = sent_queue fg s @ [pkt] \<and>
     mbuf_len (nw (sk_net s')) pkt = len \<and> sk_pb s' = sk_pb s \<and>
     sk_mem s' = put_bytes m (mbuf_mtod pkt) (eth_frame dmac (cfg_mac (CFG env)) ETHTYPE_IP body)"
proof -
  let ?e = "mbuf_mtod pkt" and ?smac = "cfg_mac (CFG env)"
  let ?f = "\<lambda>m. put16 (put_bytes m (?e + eth_shost) ?smac) (?e + eth_type) ETHTYPE_IP"
  let ?n1 = "upd_mem ?f (sk_net s)"
  let ?n2 = "upd_mem (\<lambda>m. put_bytes m ?e dmac) ?n1"
  have "known env ?n1 (next_hop (CFG env) dst) = Some dmac" using k by (simp add: known_keep [of ?n1 "sk_net s"])
  from resolve_known [OF this] have l: "arp_lookup_mac env (next_hop (CFG env) dst) ?n1 = Inr (0, Some dmac, ?n1)" .
  obtain n3 where n3: "net_send_one (sk_dev_idx s fg) pkt len ?n2 = Inr (0, n3)"
    "tx_bufs (txqs n3 (sk_dev_idx s fg)) = sent_queue fg s @ [pkt]" "mbuf_len (nw n3) pkt = len" "nmem n3 = nmem ?n2"
    using send_room [of ?n2 "sk_dev_idx s fg" pkt len] assms(2) by (auto simp: tx_ready_def sent_queue_def ETH_DEV_TX_QUEUE_SZ_def)
  have "ip_send_one env fg dst pkt len s = Inr (0, s\<lparr>sk_net := n3\<rparr>)"
    using l n3(1) assms(2)
    by (simp add: ip_send_one_def Let_def on_net_def sk_upd_mem_def sk_upd_net_def fg_dev_idx_def tx_ready_def eth_dhost_def)
  moreover have "nmem n3 = put_bytes m ?e (eth_frame dmac ?smac ETHTYPE_IP body)"
    using m assms(3,4) n3(4)
    by (simp add: sk_mem_def arp_layout put16_def put_append put_prepend eth_frame_def)
  ultimately show ?thesis using n3 by (simp add: sk_mem_def sent_queue_def)
qed

lemma net_alloc_local:
  assumes "mbufs_ok (pool_ptr env) (nw n) F" and "F \<noteq> {}" and "\<not> bugs_on env"
  shows "\<exists>pkt w. mbuf_alloc_local env n = Inr (pkt, n\<lparr>nw := w\<rparr>) \<and> pkt \<in> F \<and> pkt \<noteq> NULL \<and>
     mbufs_ok (pool_ptr env) w (F - {pkt}) \<and> mbuf_pool w pkt = pool_ptr env"
  using mbuf_alloc_law [OF assms(1)] assms(2,3) by (auto simp: mbuf_alloc_local_def)

section \<open>A segment leaves as a frame\<close>

lemma copy_under_header:
  assumes "chain (\<lambda>x. p_next (pbs x)) p xs" and "length xs \<le> fuel"
    and "chain_clear pbs xs (a + 14) (20 + (\<Sum>x\<leftarrow>xs. unat (p_len (pbs x))))" and "length hdr = 20"
  shows "copy_chain fuel pbs p (a + 34) (put_bytes m (a + 14) hdr) = Inr (put_bytes m (a + 14) (hdr @ chain_data pbs m xs))"
proof -
  have "copy_chain fuel pbs p (a + 34) (put_bytes m (a + 14) hdr) =
    Inr (put_bytes (put_bytes m (a + 14) hdr) (a + 34) (chain_data pbs (put_bytes m (a + 14) hdr) xs))"
    by (rule copy_chain_bytes [OF assms(1-3)]) simp_all
  also have "chain_data pbs (put_bytes m (a + 14) hdr) xs = chain_data pbs m xs"
    by (rule chain_data_put [OF assms(3)]) (simp_all add: assms(4))
  finally show ?thesis by (simp add: put_append assms(4))
qed

text \<open>What the callers of the two output functions establish.\<close>

definition segment_ready ::
  "net_env \<Rightarrow> nat \<Rightarrow> nat \<Rightarrow> addr \<Rightarrow> addr list \<Rightarrow> u32 \<Rightarrow> eth_addr \<Rightarrow> addr set \<Rightarrow> 'z stack_scheme \<Rightarrow> bool" where
  "segment_ready env fuel fg p xs dst dmac F s \<longleftrightarrow>
     mbufs_ok (pool_ptr env) (nw (sk_net s)) F \<and> F \<noteq> {} \<and> \<not> bugs_on env \<and> tx_ready fg s \<and>
     known env (sk_net s) (next_hop (CFG env) dst) = Some dmac \<and> length dmac = 6 \<and> length (cfg_mac (CFG env)) = 6 \<and>
     chain (\<lambda>x. p_next (sk_pb s x)) p xs \<and> length xs \<le> fuel \<and>
     unat (tot_len (sk_pb s p)) = (\<Sum>x\<leftarrow>xs. unat (p_len (sk_pb s x))) \<and>
     (\<forall>pkt\<in>F. chain_clear (sk_pb s) xs (mbuf_mtod pkt + 14) (20 + unat (tot_len (sk_pb s p))))"

definition frame_sent ::
  "nat \<Rightarrow> addr set \<Rightarrow> u8 list \<Rightarrow> 'z stack_scheme \<Rightarrow> 'z stack_scheme \<Rightarrow> bool" where
  "frame_sent fg F frame s s' \<longleftrightarrow>
     (\<exists>pkt \<in> F. sent_queue fg s' = sent_queue fg s @ [pkt] \<and> mbuf_len (nw (sk_net s')) pkt = length frame \<and>
        sk_mem s' = put_bytes (sk_mem s) (mbuf_mtod pkt) frame)"

lemma length_eth_frame [simp]: "length (eth_frame d a ty body) = length d + length a + 2 + length body"
  by (simp add: eth_frame_def)

lemma ip_output_sends:
  assumes r: "segment_ready env fuel fg p xs (ntohl dst) dmac F s"
  shows "\<exists>s'. ip_output_hinted env fuel fg p src dst ttl tos proto s = Inr (0, s') \<and> sk_pb s' = sk_pb s \<and>
    frame_sent fg F (eth_frame dmac (cfg_mac (CFG env)) ETHTYPE_IP
      (ipv4_header tos (20 + tot_len (sk_pb s p)) ttl proto (ntohl src) (ntohl dst) @ chain_data (sk_pb s) (sk_mem s) xs)) s s'"
proof -
  let ?tot = "tot_len (sk_pb s p)"
  let ?hdr = "ipv4_header tos (20 + ?tot) ttl proto (ntohl src) (ntohl dst)"
  let ?data = "chain_data (sk_pb s) (sk_mem s) xs"
  have r1: "mbufs_ok (pool_ptr env) (nw (sk_net s)) F" "F \<noteq> {}" "\<not> bugs_on env" "tx_ready fg s"
    "known env (sk_net s) (next_hop (CFG env) (ntohl dst)) = Some dmac" "length dmac = 6" "length (cfg_mac (CFG env)) = 6"
    "chain (\<lambda>x. p_next (sk_pb s x)) p xs" "length xs \<le> fuel"
    and tot: "unat ?tot = (\<Sum>x\<leftarrow>xs. unat (p_len (sk_pb s x)))"
    and clear: "\<And>pkt. pkt \<in> F \<Longrightarrow> chain_clear (sk_pb s) xs (mbuf_mtod pkt + 14) (20 + unat ?tot)"
    using r by (auto simp: segment_ready_def)
  obtain pkt w where al: "mbuf_alloc_local env (sk_net s) = Inr (pkt, (sk_net s)\<lparr>nw := w\<rparr>)" "pkt \<in> F" "pkt \<noteq> NULL"
    using net_alloc_local [OF r1(1-3)] by blast
  let ?s1 = "s\<lparr>sk_net := (sk_net s)\<lparr>nw := w\<rparr>\<rparr>"
  let ?e = "mbuf_mtod pkt"
  let ?m = "put_bytes (sk_mem s) (?e + 14) (?hdr @ ?data)"
  let ?s3 = "sk_upd_mbuf pkt (\<lambda>b. b\<lparr>mb_ol_flags := PKT_TX_IP_CKSUM OR PKT_TX_TCP_CKSUM\<rparr>)
               (sk_upd_mem (\<lambda>_. ?m) (sk_upd_mem (\<lambda>_. put_bytes (sk_mem s) (?e + 14) ?hdr) ?s1))"
  have cp: "copy_chain fuel (sk_pb s) p (?e + 34) (put_bytes (sk_mem s) (?e + 14) ?hdr) = Inr ?m"
    by (rule copy_under_header [OF r1(8,9)]) (use clear [OF al(2)] tot in simp_all)
  have k3: "known env (sk_net ?s3) (next_hop (CFG env) (ntohl dst)) = Some dmac"
    unfolding r1(5) [symmetric] by (rule known_keep) (simp_all add: sk_upd_mbuf_def sk_upd_mem_def)
  have t3: "tx_ready fg ?s3" using r1(4) by (simp add: tx_ready_def sk_upd_mbuf_def sk_upd_mem_def)
  have m3: "sk_mem ?s3 = ?m" by (simp add: sk_mem_def sk_upd_mbuf_def sk_upd_mem_def)
  obtain s' where s': "ip_send_one env fg (ntohl dst) pkt (34 + unat ?tot) ?s3 = Inr (0, s')"
    "sent_queue fg s' = sent_queue fg ?s3 @ [pkt]" "mbuf_len (nw (sk_net s')) pkt = 34 + unat ?tot" "sk_pb s' = sk_pb ?s3"
    "sk_mem s' = put_bytes (sk_mem s) ?e (eth_frame dmac (cfg_mac (CFG env)) ETHTYPE_IP (?hdr @ ?data))"
    using ip_send_one_known [OF k3 t3 r1(6,7) m3] by blast
  have a: "on_net (mbuf_alloc_local env) s = Inr (pkt, ?s1)" by (simp add: on_net_def al(1))
  have off: "?e + ETH_HDR_LEN = ?e + 14" "?e + 14 + IP_HDR_LEN = ?e + 34" "ETH_HDR_LEN + IP_HDR_LEN + unat ?tot = 34 + unat ?tot"
    by (simp_all add: ETH_HDR_LEN_def IP_HDR_LEN_def)
  have h2: "sk_upd_mem (\<lambda>m. put_bytes (put_bytes (ip_setup_header (?e + 14) proto (ntohl src) (ntohl dst) ?tot m)
      (?e + 14 + ip_tos) [tos]) (?e + 14 + ip_ttl) [ttl]) ?s1 = sk_upd_mem (\<lambda>_. put_bytes (sk_mem s) (?e + 14) ?hdr) ?s1"
    by (simp add: setup_header_bytes sk_upd_mem_def sk_upd_net_def upd_mem_def sk_mem_def)
  have m2: "sk_mem (sk_upd_mem (\<lambda>_. put_bytes (sk_mem s) (?e + 14) ?hdr) ?s1) = put_bytes (sk_mem s) (?e + 14) ?hdr"
    by (simp add: sk_mem_def sk_upd_mem_def)
  have pb: "sk_pb ?s1 = sk_pb s" "sk_pb (sk_upd_mem (\<lambda>_. put_bytes (sk_mem s) (?e + 14) ?hdr) ?s1) = sk_pb s"
    by (simp_all add: sk_upd_mem_def)
  have out: "ip_output_hinted env fuel fg p src dst ttl tos proto s = Inr (0, s')"
    unfolding ip_output_hinted_def a bindR_Inr prod.case Let_def if_not_P [OF al(3)] pb off h2 m2 cp s'(1)
    by simp
  have q: "sent_queue fg ?s3 = sent_queue fg s" by (simp add: sent_queue_def sk_upd_mbuf_def sk_upd_mem_def)
  have l: "length (eth_frame dmac (cfg_mac (CFG env)) ETHTYPE_IP (?hdr @ ?data)) = 34 + unat ?tot"
    using r1(6,7) tot by (simp add: length_chain_data)
  have "frame_sent fg F (eth_frame dmac (cfg_mac (CFG env)) ETHTYPE_IP (?hdr @ ?data)) s s'"
    unfolding frame_sent_def l s'(2,3,5) q using al(2) s'(3) by (intro bexI [of _ pkt] conjI refl)
  moreover have "sk_pb s' = sk_pb s" using s'(4) by (simp add: sk_upd_mbuf_def sk_upd_mem_def)
  ultimately show ?thesis using out by blast
qed

text \<open>C35: What \<open>ip_output_hinted\<close> queues is byte for byte the Ethernet frame
  of the arguments: resolved destination, our address, an IPv4 header with the total length,
  and the content of the pbuf chain; no other byte changes.\<close>

theorem ip_output_frame:
  assumes "segment_ready env fuel fg p xs (ntohl dst) dmac F s"
  shows "\<exists>s'. ip_output_hinted env fuel fg p src dst ttl tos proto s = Inr (0, s') \<and> sk_pb s' = sk_pb s \<and>
    frame_sent fg F (eth_frame dmac (cfg_mac (CFG env)) ETHTYPE_IP
      (ipv4_header tos (20 + tot_len (sk_pb s p)) ttl proto (ntohl src) (ntohl dst) @ chain_data (sk_pb s) (sk_mem s) xs)) s s'"
  by (rule ip_output_sends [OF assms])

section \<open>A received packet\<close>

text \<open>Protocol, header length and total length of the IPv4 packet in front of some bytes.\<close>

definition ipv4_parse :: "u8 list \<Rightarrow> (u8 \<times> nat \<times> nat) option" where
  "ipv4_parse bs =
     (let hl = 4 * unat (bs ! 0 AND 15); n = unat (be_value (take 2 (drop 2 bs)) :: u16);
          frag = (be_value (take 2 (drop 6 bs)) :: u16) AND 0x3fff
      in if 20 \<le> length bs \<and> drop_bit 4 (bs ! 0) = 4 \<and> 20 \<le> hl \<and> frag = 0 \<and> hl \<le> n \<and> n \<le> length bs
         then Some (bs ! 9, hl, n) else None)"

definition rx_bytes :: "'z stack_scheme \<Rightarrow> addr \<Rightarrow> u8 list" where
  "rx_bytes s pkt = get_bytes (sk_mem s) (mbuf_mtod pkt) (mbuf_len (nw (sk_net s)) pkt)"

lemma get_sub: "k + n \<le> l \<Longrightarrow> get_bytes m (a + k) n = take n (drop k (get_bytes m a l))"
  by (rule nth_equalityI) (simp_all add: get_bytes_def add.assoc)

lemma get_nth: "k < l \<Longrightarrow> m (a + k) = get_bytes m a l ! k"
  by (simp add: get_bytes_def)

lemma header_len_words: "ip_header_len m h < 5 \<longleftrightarrow> 4 * unat (ip_header_len m h) < 20"
  by (simp add: word_less_nat_alt)

lemma ip_input_parse:
  fixes s :: "'z stack_scheme" and pkt :: addr
  defines "hdr \<equiv> mbuf_mtod pkt + 14"
  shows "ip_input env T I fg pkt hdr s =
    (case ipv4_parse (drop 14 (rx_bytes s pkt)) of
       None \<Rightarrow> sk_mbuf_free env pkt s
     | Some (proto, hl, n) \<Rightarrow>
         if proto = IPPROTO_TCP then T fg pkt hdr (hdr + hl) s
         else if proto = IPPROTO_UDP then udp_input env pkt hdr (hdr + hl) s
         else if proto = IPPROTO_ICMP then I fg pkt (hdr + hl) (n - hl) s
         else sk_mbuf_free env pkt s)"
proof (cases "34 \<le> mbuf_len (nw (sk_net s)) pkt")
  case False
  then have "length (drop 14 (rx_bytes s pkt)) < 20" by (simp add: rx_bytes_def)
  then have "ipv4_parse (drop 14 (rx_bytes s pkt)) = None" by (simp add: ipv4_parse_def Let_def)
  then show ?thesis using False by (simp add: ip_input_def mbuf_enough_space_def hdr_def mbuf_mtod_def IP_HDR_LEN_def Let_def)
next
  case True
  let ?l = "mbuf_len (nw (sk_net s)) pkt" and ?m = "sk_mem s"
  define bs where "bs = drop 14 (rx_bytes s pkt)"
  have bs: "bs = get_bytes ?m hdr (?l - 14)"
    using True get_sub [of 14 "?l - 14" ?l ?m "mbuf_mtod pkt"] by (simp add: bs_def rx_bytes_def hdr_def)
  have len: "length bs = ?l - 14" by (simp add: bs)
  have b0: "?m hdr = bs ! 0" using get_nth [of 0 "?l - 14" ?m hdr] True by (simp add: bs)
  have b9: "?m (hdr + ip_proto) = bs ! 9" unfolding ip_proto_def using get_nth [of 9 "?l - 14" ?m hdr] True by (simp add: bs)
  have w2: "get16 ?m (hdr + ip_len) = be_value (take 2 (drop 2 bs))"
    unfolding get16_def bs ip_len_def by (subst get_sub [of 2 2 "?l - 14"]) (use True in simp_all)
  have w6: "get16 ?m (hdr + ip_off) = be_value (take 2 (drop 6 bs))"
    unfolding get16_def bs ip_off_def by (subst get_sub [of 6 2 "?l - 14"]) (use True in simp_all)
  have sp: "mbuf_enough_space (nw (sk_net s)) pkt hdr n \<longleftrightarrow> n \<le> length bs" for n
    using True by (auto simp: mbuf_enough_space_def hdr_def mbuf_mtod_def len)
  have vh: "ip_version ?m hdr = drop_bit 4 (bs ! 0)" "ip_header_len ?m hdr = bs ! 0 AND 15"
    by (simp_all add: ip_version_def ip_header_len_def ip_vhl_def b0)
  have f: "IP_OFFMASK OR IP_MF = 0x3fff" by (simp add: IP_OFFMASK_def IP_MF_def)
  show ?thesis
    unfolding bs_def [symmetric] ip_input_def Let_def sp f header_len_words w2 w6 b9 vh
    using True len by (simp add: ipv4_parse_def Let_def mult.commute not_less IP_HDR_LEN_def)
qed

text \<open>C36: \<open>ip_input\<close> treats a packet as a parser of its bytes says:
  malformed, truncated, fragmented and foreign packets are freed, all others reach the handler
  of their protocol with the header length of the packet, and the total length never exceeds
  the packet.\<close>

theorem ip_input_parses:
  "ip_input env T I fg pkt (mbuf_mtod pkt + 14) s =
    (case ipv4_parse (drop 14 (rx_bytes s pkt)) of
       None \<Rightarrow> sk_mbuf_free env pkt s
     | Some (proto, hl, n) \<Rightarrow>
         if proto = IPPROTO_TCP then T fg pkt (mbuf_mtod pkt + 14) (mbuf_mtod pkt + 14 + hl) s
         else if proto = IPPROTO_UDP then udp_input env pkt (mbuf_mtod pkt + 14) (mbuf_mtod pkt + 14 + hl) s
         else if proto = IPPROTO_ICMP then I fg pkt (mbuf_mtod pkt + 14 + hl) (n - hl) s
         else sk_mbuf_free env pkt s)"
  by (rule ip_input_parse)

section \<open>From one stack to another\<close>

lemma get16_take: "get16 m (a + k) = be_value (take 2 (drop k (get_bytes m a l)))" if "k + 2 \<le> l"
  unfolding get16_def by (subst get_sub [OF that]) simp

lemma get32_take: "get32 m (a + k) = be_value (take 4 (drop k (get_bytes m a l)))" if "k + 4 \<le> l"
  unfolding get32_def by (subst get_sub [OF that]) simp

lemma be_bytes_inv:
  "be_value (be_bytes 2 x) = (x :: u16)" "be_value (be_bytes 4 y) = (y :: u32)"
  by (rule be_value_bytes, simp)+

lemma parse_frame:
  assumes "length pl \<le> 65515" and "bs = ipv4_header tos (20 + of_nat (length pl)) ttl proto src dst @ pl @ pad"
  shows "ipv4_parse bs = Some (proto, 20, 20 + length pl)"
proof -
  have n: "unat (20 + of_nat (length pl) :: u16) = 20 + length pl"
    using unat_of_nat_small [of "length pl", where 'w = 16] assms(1) by (subst unat_add_small) simp_all
  have h: "bs = [0x45, tos] @ be_bytes 2 (20 + of_nat (length pl) :: u16) @ [0, 0, 0, 0, ttl, proto, 0, 0] @ be_bytes 4 src @ be_bytes 4 dst @ pl @ pad"
    by (simp add: assms(2) ipv4_header_def)
  have d: "bs ! 0 = 0x45" "bs ! 9 = proto" "take 2 (drop 6 bs) = [0, 0]"
    "take 2 (drop 2 bs) = be_bytes 2 (20 + of_nat (length pl) :: u16)" "20 + length pl \<le> length bs"
    by (simp_all add: h nth_append numeral_2_eq_2)
  have z: "(be_value [0, 0] :: u16) = 0" by (simp add: be_value_def)
  show ?thesis unfolding ipv4_parse_def Let_def d(1-4) z be_bytes_inv n using d(5) by simp
qed

text \<open>What a stack makes of a received frame of ours, whatever the driver appended to it.\<close>

lemma frame_received:
  assumes rx: "rx_bytes r q = eth_frame d a ETHTYPE_IP (ipv4_header tos (20 + of_nat (length pl)) ttl IPPROTO_TCP src dst @ pl) @ pad"
    and l: "length d = 6" "length a = 6" "length pl \<le> 65515"
    and fg: "sk_fgs r (unat (mb_fg_id (sk_mbuf r q))) \<noteq> None" "\<not> bugs_on env"
  shows "eth_input_stack env T I q r = T (unat (mb_fg_id (sk_mbuf r q))) q (mbuf_mtod q + 14) (mbuf_mtod q + 34) r \<and>
    get_bytes (sk_mem r) (mbuf_mtod q + 34) (length pl) = pl \<and>
    get32 (sk_mem r) (mbuf_mtod q + 26) = src \<and> get32 (sk_mem r) (mbuf_mtod q + 30) = dst"
proof -
  let ?h = "ipv4_header tos (20 + of_nat (length pl)) ttl IPPROTO_TCP src dst"
  let ?l = "34 + length pl + length pad"
  have len: "mbuf_len (nw (sk_net r)) q = ?l" using arg_cong [OF rx, of length] l by (simp add: rx_bytes_def)
  have d14: "drop 14 (rx_bytes r q) = ?h @ pl @ pad" using l by (simp add: rx eth_frame_def)
  have p: "ipv4_parse (drop 14 (rx_bytes r q)) = Some (IPPROTO_TCP, 20, 20 + length pl)"
    unfolding d14 by (rule parse_frame [OF l(3) refl])
  have bt: "get_bytes (sk_mem r) (mbuf_mtod q) ?l = rx_bytes r q" by (simp add: rx_bytes_def len)
  have ty: "get16 (sk_mem r) (mbuf_mtod q + 12) = ETHTYPE_IP"
    by (subst get16_take [of 12 ?l]) (use l in \<open>simp_all add: bt rx eth_frame_def be_bytes_inv\<close>)
  have sd: "get32 (sk_mem r) (mbuf_mtod q + 26) = src"
    by (subst get32_take [of 26 ?l]) (use l in \<open>simp_all add: bt rx eth_frame_def ipv4_header_def be_bytes_inv\<close>)
  have dd: "get32 (sk_mem r) (mbuf_mtod q + 30) = dst"
    by (subst get32_take [of 30 ?l]) (use l in \<open>simp_all add: bt rx eth_frame_def ipv4_header_def be_bytes_inv\<close>)
  have pd: "get_bytes (sk_mem r) (mbuf_mtod q + 34) (length pl) = pl"
    by (subst get_sub [of 34 "length pl" ?l]) (use l in \<open>simp_all add: bt rx eth_frame_def\<close>)
  obtain g where g: "sk_fgs r (unat (mb_fg_id (sk_mbuf r q))) = Some g" using fg(1) by blast
  have "eth_input_stack env T I q r = ip_input env T I (unat (mb_fg_id (sk_mbuf r q))) q (mbuf_mtod q + 14) r"
    using g fg(2) ty by (simp add: eth_input_stack_def Let_def eth_fg_set_current_def eth_type_def ETH_HDR_LEN_def)
  also have "\<dots> = T (unat (mb_fg_id (sk_mbuf r q))) q (mbuf_mtod q + 14) (mbuf_mtod q + 34) r"
    unfolding ip_input_parse p by (simp add: IPPROTO_TCP_def add.commute)
  finally show ?thesis using sd dd pd by blast
qed

text \<open>C4: A TCP segment in a chain of pbufs, sent by \<open>ip_output_hinted\<close> to a
  resolved address, is queued on the device; any stack that receives those bytes, with any
  padding behind them, passes exactly the segment and the two addresses to TCP input.\<close>

theorem ip_end_to_end:
  assumes "segment_ready env fuel fg p xs (ntohl dst) dmac F s" and "tot_len (sk_pb s p) \<le> 65515"
  shows "\<exists>pkt s'. ip_output_hinted env fuel fg p src dst ttl tos IPPROTO_TCP s = Inr (0, s') \<and>
    sent_queue fg s' = sent_queue fg s @ [pkt] \<and>
    (\<forall>env' T I (r :: 'y stack_scheme) q pad.
       rx_bytes r q = rx_bytes s' pkt @ pad \<longrightarrow> sk_fgs r (unat (mb_fg_id (sk_mbuf r q))) \<noteq> None \<longrightarrow> \<not> bugs_on env' \<longrightarrow>
       eth_input_stack env' T I q r = T (unat (mb_fg_id (sk_mbuf r q))) q (mbuf_mtod q + 14) (mbuf_mtod q + 34) r \<and>
       get_bytes (sk_mem r) (mbuf_mtod q + 34) (unat (tot_len (sk_pb s p))) = chain_data (sk_pb s) (sk_mem s) xs \<and>
       get32 (sk_mem r) (mbuf_mtod q + 26) = ntohl src \<and> get32 (sk_mem r) (mbuf_mtod q + 30) = ntohl dst)"
proof -
  let ?pl = "chain_data (sk_pb s) (sk_mem s) xs" and ?tot = "tot_len (sk_pb s p)"
  let ?frame = "eth_frame dmac (cfg_mac (CFG env)) ETHTYPE_IP (ipv4_header tos (20 + ?tot) ttl IPPROTO_TCP (ntohl src) (ntohl dst) @ ?pl)"
  from ip_output_sends [OF assms(1)] obtain s' where s': "ip_output_hinted env fuel fg p src dst ttl tos IPPROTO_TCP s = Inr (0, s')"
    "frame_sent fg F ?frame s s'" by blast
  then obtain pkt where pkt: "sent_queue fg s' = sent_queue fg s @ [pkt]" "mbuf_len (nw (sk_net s')) pkt = length ?frame"
    "sk_mem s' = put_bytes (sk_mem s) (mbuf_mtod pkt) ?frame" unfolding frame_sent_def by blast
  have wire: "rx_bytes s' pkt = ?frame" unfolding rx_bytes_def pkt(2,3) by (rule get_put_same)
  have len: "length ?pl = unat ?tot" using assms(1) by (simp add: segment_ready_def length_chain_data)
  have tot: "?tot = of_nat (length ?pl)" by (simp add: len)
  have l: "length dmac = 6" "length (cfg_mac (CFG env)) = 6" "length ?pl \<le> 65515"
    using assms by (simp_all add: segment_ready_def len word_le_nat_alt)
  have "eth_input_stack env' T I q r = T (unat (mb_fg_id (sk_mbuf r q))) q (mbuf_mtod q + 14) (mbuf_mtod q + 34) r \<and>
       get_bytes (sk_mem r) (mbuf_mtod q + 34) (unat ?tot) = ?pl \<and>
       get32 (sk_mem r) (mbuf_mtod q + 26) = ntohl src \<and> get32 (sk_mem r) (mbuf_mtod q + 30) = ntohl dst"
    if rx: "rx_bytes r q = rx_bytes s' pkt @ pad" and fg: "sk_fgs r (unat (mb_fg_id (sk_mbuf r q))) \<noteq> None" "\<not> bugs_on env'"
    for env' T I and r :: "'y stack_scheme" and q pad
    using frame_received [OF rx [unfolded wire tot] l fg] unfolding len .
  then show ?thesis using s'(1) pkt(1) by blast
qed

text \<open>A witness: two pbufs of three and two bytes.\<close>

definition fg0 :: eth_fg where
  "fg0 = \<lparr>fg_id = 0, in_transition = False, cur_cpu = 0, target_cpu = 0, prev_cpu = 0, fg_idx = 0, fg_dev = 0\<rparr>"

definition pbuf0 :: pbuf where
  "pbuf0 = \<lparr>pb_pool = NULL, p_next = NULL, tcp_api_next = NULL, payload = 6000, p_mbuf = NULL, tot_len = 2, p_len = 2,
     p_type = PBUF_ROM, p_flags = 0, p_ref = 1\<rparr>"

definition stack0 :: stack where
  "stack0 = \<lparr>sk_net = net0\<lparr>arp_tbl := (\<lambda>_. [500]), nmem := of_nat,
      arp_ents := (\<lambda>_. entry0\<lparr>ae_addr := 0x0A000009, ae_mac := [2, 0, 0, 0, 0, 9], ae_flags := 2\<rparr>)\<rparr>,
     sk_fgs = (\<lambda>_. Some fg0), sk_dev_idx = (\<lambda>_. 0),
     sk_pb = (\<lambda>_. pbuf0)(2000 := pbuf0\<lparr>p_next := 3000, payload := 5000, tot_len := 5, p_len := 3\<rparr>),
     sk_pbuf_pool = three_pool, sk_pbuf_payload_pool = three_pool,
     sk_usys = \<lparr>ba_len = 0, ba_max_len = 2, ba_descs = replicate 2 \<lparr>sysnr = 0, arga = 0, argb = 0, argc = 0, argd = 0\<rparr>\<rparr>,
     sk_cookie = 0, sk_pages = zero_pages\<rparr>"

lemma stack0_ready: "segment_ready env0 2 0 2000 [2000, 3000] 0x0A000009 [2, 0, 0, 0, 0, 9] {1000, 1016, 1032} stack0"
proof -
  have h: "next_hop (CFG env0) 0x0A000009 = 0x0A000009" by (simp add: next_hop_def env0_def)
  have k: "known env0 (sk_net stack0) 0x0A000009 = Some [2, 0, 0, 0, 0, 9]"
    by (simp add: known_def arp_view_def entry_of_def arp_find_def stack0_def net0_def entry0_def Let_def ARP_FLAG_VALID_def)
  have m: "mbufs_ok 64 (nw (sk_net stack0)) {1000, 1016, 1032}" using three_mbufs_ok by (simp add: stack0_def net0_def)
  have e: "pool_ptr env0 = 64" "\<not> bugs_on env0" "length (cfg_mac (CFG env0)) = 6" by (simp_all add: env0_def)
  have t: "tx_ready 0 stack0" by (simp add: tx_ready_def stack0_def net0_def ETH_DEV_TX_QUEUE_SZ_def)
  have c: "chain (\<lambda>x. p_next (sk_pb stack0 x)) 2000 [2000, 3000]" by (simp add: stack0_def pbuf0_def)
  have n: "unat (tot_len (sk_pb stack0 2000)) = 5" "(\<Sum>x\<leftarrow>[2000, 3000]. unat (p_len (sk_pb stack0 x))) = 5"
    by (simp_all add: stack0_def pbuf0_def)
  have cl: "chain_clear (sk_pb stack0) [2000, 3000] (mbuf_mtod pkt + 14) (20 + 5)" if "pkt \<in> {1000, 1016, 1032}" for pkt
    using that by (auto simp: chain_clear_def stack0_def pbuf0_def mbuf_mtod_def MBUF_HEADER_LEN_def)
  show ?thesis unfolding segment_ready_def h e(1) n using k m e(2,3) t c cl by simp
qed

theorem ip_output_frame_witness:
  "\<exists>s'. ip_output_hinted env0 2 0 2000 (ntohl 0x0A000001) (ntohl 0x0A000009) 64 0 6 stack0 = Inr (0, s') \<and>
    frame_sent 0 {1000, 1016, 1032} (eth_frame [2, 0, 0, 0, 0, 9] [2, 0, 0, 0, 0, 1] 0x0800
      (ipv4_header 0 25 64 6 (ntohl (ntohl 0x0A000001)) (ntohl (ntohl 0x0A000009)) @ [136, 137, 138, 112, 113])) stack0 s'"
proof -
  have d: "ntohl (ntohl 0x0A000009) = 0x0A000009" by code_simp
  have r: "segment_ready env0 2 0 2000 [2000, 3000] (ntohl (ntohl 0x0A000009)) [2, 0, 0, 0, 0, 9] {1000, 1016, 1032} stack0"
    unfolding d by (rule stack0_ready)
  have c: "chain_data (sk_pb stack0) (sk_mem stack0) [2000, 3000] = [136, 137, 138, 112, 113]"
    by (simp add: chain_data_def get_bytes_def stack0_def pbuf0_def sk_mem_def upt_rec)
  have t: "tot_len (sk_pb stack0 2000) = 5" "cfg_mac (CFG env0) = [2, 0, 0, 0, 0, 1]" by (simp_all add: stack0_def pbuf0_def env0_def)
  from ip_output_frame [OF r, of "ntohl 0x0A000001" 64 0 6, unfolded c t ETHTYPE_IP_def] show ?thesis by (simp del: One_nat_def) blast
qed

theorem ip_end_to_end_witness:
  "\<exists>pkt s'. ip_output_hinted env0 2 0 2000 (ntohl 0x0A000001) (ntohl 0x0A000009) 64 0 6 stack0 = Inr (0, s') \<and>
    sent_queue 0 s' = sent_queue 0 stack0 @ [pkt]"
proof -
  have d: "ntohl (ntohl 0x0A000009) = 0x0A000009" by code_simp
  have r: "segment_ready env0 2 0 2000 [2000, 3000] (ntohl (ntohl 0x0A000009)) [2, 0, 0, 0, 0, 9] {1000, 1016, 1032} stack0"
    unfolding d by (rule stack0_ready)
  have t: "tot_len (sk_pb stack0 2000) \<le> 65515" by (simp add: stack0_def pbuf0_def)
  from ip_end_to_end [OF r t, of "ntohl 0x0A000001" 64 0] show ?thesis unfolding IPPROTO_TCP_def by blast
qed

end
