(* ===== verification/Syscall_Spec.thy ===== *)
theory Syscall_Spec
  imports Syscall
begin

text \<open>
  What the application reads from the array: the events in the order in which the kernel
  posted them; and the missing bound.
\<close>

datatype usys_event =
    Udp_recv u64 u64 u64
  | Udp_sent u64
  | Tcp_connected u64 u64 u64
  | Tcp_knock u64 u64
  | Tcp_recv u64 u64 u64 u64
  | Tcp_sent u64 u64 u64
  | Tcp_dead u64 u64
  | Timer_fired u64

fun usys_post :: "usys_event \<Rightarrow> bsys_arr \<Rightarrow> bsys_arr res" where
  "usys_post (Udp_recv a l i) = usys_udp_recv a l i"
| "usys_post (Udp_sent c) = usys_udp_sent c"
| "usys_post (Tcp_connected h c r) = usys_tcp_connected h c r"
| "usys_post (Tcp_knock h i) = usys_tcp_knock h i"
| "usys_post (Tcp_recv h c a l) = usys_tcp_recv h c a l"
| "usys_post (Tcp_sent h c l) = usys_tcp_sent h c l"
| "usys_post (Tcp_dead h c) = usys_tcp_dead h c"
| "usys_post (Timer_fired c) = usys_timer c"

fun usys_post_all :: "usys_event list \<Rightarrow> bsys_arr \<Rightarrow> bsys_arr res" where
  "usys_post_all [] a = Inr a"
| "usys_post_all (e # es) a = bindR (usys_post e a) (usys_post_all es)"

text \<open>The reader's view: it knows which words of a descriptor belong to which event.\<close>

definition usys_event_of :: "bsys_desc \<Rightarrow> usys_event option" where
  "usys_event_of d =
     (if sysnr d = USYS_UDP_RECV then Some (Udp_recv (arga d) (argb d) (argc d))
      else if sysnr d = USYS_UDP_SENT then Some (Udp_sent (arga d))
      else if sysnr d = USYS_TCP_CONNECTED then Some (Tcp_connected (arga d) (argb d) (argc d))
      else if sysnr d = USYS_TCP_KNOCK then Some (Tcp_knock (arga d) (argb d))
      else if sysnr d = USYS_TCP_RECV then Some (Tcp_recv (arga d) (argb d) (argc d) (argd d))
      else if sysnr d = USYS_TCP_SENT then Some (Tcp_sent (arga d) (argb d) (argc d))
      else if sysnr d = USYS_TCP_DEAD then Some (Tcp_dead (arga d) (argb d))
      else if sysnr d = USYS_TIMER then Some (Timer_fired (arga d))
      else None)"

definition usys_view :: "bsys_arr \<Rightarrow> usys_event option list" where
  "usys_view a = map usys_event_of (take (unat (ba_len a)) (ba_descs a))"

lemma usys_post_desc: "\<exists>f. (\<forall>d. usys_event_of (f d) = Some e) \<and> usys_post e = usys_put f"
proof (cases e)
qed (force simp: usys_defs usys_event_of_def bsys_desc_defs usys_numbers)+

definition usys_room :: "bsys_arr \<Rightarrow> bool" where
  "usys_room a \<longleftrightarrow> unat (ba_len a) < length (ba_descs a) \<and> length (ba_descs a) < 2 ^ 64"

lemma usys_post_view:
  assumes "usys_room a"
  shows "\<exists>a'. usys_post e a = Inr a' \<and> usys_view a' = usys_view a @ [Some e] \<and>
     unat (ba_len a') = unat (ba_len a) + 1 \<and> length (ba_descs a') = length (ba_descs a) \<and> ba_max_len a' = ba_max_len a"
proof -
  obtain f where f: "\<And>d. usys_event_of (f d) = Some e" "usys_post e = usys_put f" using usys_post_desc [of e] by blast
  have l: "unat (ba_len a) < length (ba_descs a)" "unat (ba_len a + 1) = unat (ba_len a) + 1"
    using assms unat_add_lem [of "ba_len a" 1] by (simp_all add: usys_room_def)
  show ?thesis
    using usys_put_ok [OF l(1), of f] l f
    by (simp add: usys_view_def take_Suc_conv_app_nth take_update_cancel)
qed

lemma usys_post_all_view:
  "unat (ba_len a) + length es \<le> length (ba_descs a) \<Longrightarrow> length (ba_descs a) < 2 ^ 64 \<Longrightarrow>
   \<exists>a'. usys_post_all es a = Inr a' \<and> usys_view a' = usys_view a @ map Some es \<and>
     unat (ba_len a') = unat (ba_len a) + length es \<and> length (ba_descs a') = length (ba_descs a)"
proof (induction es arbitrary: a)
  case (Cons e es)
  then have "usys_room a" by (simp add: usys_room_def)
  from usys_post_view [OF this, of e] obtain a1 where a1: "usys_post e a = Inr a1" "usys_view a1 = usys_view a @ [Some e]"
    "unat (ba_len a1) = unat (ba_len a) + 1" "length (ba_descs a1) = length (ba_descs a)" by blast
  from Cons.IH [of a1] a1(3,4) Cons.prems obtain a2 where "usys_post_all es a1 = Inr a2"
    "usys_view a2 = usys_view a1 @ map Some es" "unat (ba_len a2) = unat (ba_len a1) + length es"
    "length (ba_descs a2) = length (ba_descs a1)" by auto
  then show ?case using a1 by simp
qed simp

lemma usys_post_full:
  assumes "unat (ba_len a) = length (ba_descs a)"
  shows "usys_post e a = Inl Fault"
proof -
  obtain f where "usys_post e = usys_put f" using usys_post_desc [of e] by blast
  then show ?thesis using usys_put_over [of a f] assms by simp
qed

lemma usys_post_all_append: "usys_post_all (xs @ ys) a = bindR (usys_post_all xs a) (usys_post_all ys)"
proof (induction xs arbitrary: a)
  case (Cons x xs)
  have "usys_post_all (xs @ ys) = (\<lambda>b. bindR (usys_post_all xs b) (usys_post_all ys))" by (rule ext) (rule Cons.IH)
  then show ?case by (simp add: bindR_assoc)
qed simp

text \<open>C37: The application finds the posted events in order and unaltered as long as they
  fit in the array; one more event is written behind it, because \<open>usys_next\<close> does
  not check.\<close>

theorem usys_batch_in_order:
  assumes "length (ba_descs a) < 2 ^ 64"
  shows "if length es \<le> length (ba_descs a)
     then \<exists>a'. usys_post_all es (usys_reset a) = Inr a' \<and> usys_view a' = map Some es
     else usys_post_all es (usys_reset a) = Inl Fault"
proof (cases "length es \<le> length (ba_descs a)")
  case True
  then show ?thesis using usys_post_all_view [of "usys_reset a" es] assms
    by (auto simp: usys_reset_def usys_view_def)
next
  case False
  let ?n = "length (ba_descs a)"
  obtain e rest where es: "es = take ?n es @ e # rest" using False by (metis id_take_nth_drop not_le)
  from False obtain a1 where a1: "usys_post_all (take ?n es) (usys_reset a) = Inr a1"
    "unat (ba_len a1) = ?n" "length (ba_descs a1) = ?n"
    using usys_post_all_view [of "usys_reset a" "take ?n es"] assms by (auto simp: usys_reset_def)
  then have "usys_post_all (take ?n es @ e # rest) (usys_reset a) = Inl Fault"
    by (simp add: usys_post_all_append usys_post_full)
  then show ?thesis using es False by simp
qed

theorem usys_batch_in_order_witness:
  "\<exists>a'. usys_post_all [Tcp_knock 7 8, Udp_sent 9]
        (usys_reset \<lparr>ba_len = 5, ba_max_len = 1, ba_descs = replicate 2 \<lparr>sysnr = 1, arga = 2, argb = 3, argc = 4, argd = 5\<rparr>\<rparr>) = Inr a' \<and>
     usys_view a' = [Some (Tcp_knock 7 8), Some (Udp_sent 9)]"
  using usys_batch_in_order [of "\<lparr>ba_len = 5, ba_max_len = 1, ba_descs = replicate 2 \<lparr>sysnr = 1, arga = 2, argb = 3, argc = 4, argd = 5\<rparr>\<rparr>"
      "[Tcp_knock 7 8, Udp_sent 9]"] by simp

end
