(* ===== verification/Udp_Spec.thy ===== *)
theory Udp_Spec
  imports Udp Ip_Spec Syscall_Spec
begin

text \<open>
  A datagram is lent to the application and comes back: the event, the tuple, and the release.
\<close>

section \<open>From an address inside a packet to the packet\<close>

definition mbuf_at :: "nat \<Rightarrow> bool" where
  "mbuf_at m \<longleftrightarrow> m mod 2 ^ 21 mod MBUF_LEN = 0 \<and> m mod 2 ^ 21 + MBUF_LEN \<le> 2 ^ 21 \<and> m + MBUF_LEN \<le> 2 ^ 64"

lemma pg_split:
  fixes a :: u64
  shows "unat (PGOFF_2MB a) = unat a mod 2 ^ 21" "PGADDR_2MB a = a - PGOFF_2MB a"
proof -
  have "unat PGMASK_2MB = 2 ^ 21 - 1" by (simp add: PGMASK_2MB_def PAGE_SHIFT_2MB_def)
  then show "unat (PGOFF_2MB a) = unat a mod 2 ^ 21" unfolding PGOFF_2MB_def by (rule unat_and_mask) simp
  have "PGADDR_2MB a + PGOFF_2MB a = PGADDR_2MB a OR PGOFF_2MB a"
    by (rule disjunctive_add_eq_or) (simp add: PGADDR_2MB_def PGOFF_2MB_def bit_eq_iff bit_simps)
  also have "\<dots> = a" by (rule bit_eqI) (auto simp: PGADDR_2MB_def PGOFF_2MB_def bit_simps)
  finally show "PGADDR_2MB a = a - PGOFF_2MB a" by (metis add_diff_cancel_right')
qed

lemma mbuf_of_inside:
  fixes a :: u64
  assumes "mbuf_at m" and "d < MBUF_LEN" and "a = of_nat (m + d)"
  shows "unat (PGADDR_2MB a + PGOFF_2MB a div of_nat MBUF_LEN * of_nat MBUF_LEN) = m"
proof -
  let ?L = MBUF_LEN
  define o' where "o' = m mod 2 ^ 21"
  have L: "?L = 2112" by (simp add: MBUF_LEN_def MBUF_HEADER_LEN_def MBUF_DATA_LEN_def)
  have a: "unat a = m + d" unfolding assms(3) by (rule unat_of_nat_small) (use assms(1,2) in \<open>simp add: mbuf_at_def\<close>)
  have o: "o' mod ?L = 0" "o' + ?L \<le> 2 ^ 21" using assms(1) by (simp_all add: mbuf_at_def o'_def)
  have md: "m = 2 ^ 21 * (m div 2 ^ 21) + o'" by (simp add: o'_def)
  have "(m + d) mod 2 ^ 21 = (o' + d) mod 2 ^ 21" unfolding o'_def by (simp add: mod_add_left_eq)
  then have off: "unat (PGOFF_2MB a) = o' + d" using o(2) assms(2) a pg_split(1) [of a] by simp
  have q: "(o' + d) div ?L * ?L = o'"
  proof -
    obtain k where k: "o' = k * ?L" using o(1) by (metis mult.commute mod_0_imp_dvd dvdE)
    show ?thesis unfolding k using assms(2) by (simp add: L)
  qed
  have nL: "unat (of_nat ?L :: u64) = ?L" by (simp add: L)
  have "unat (PGOFF_2MB a div of_nat ?L) = (o' + d) div ?L" by (simp only: unat_div off nL)
  from of_nat_eqI [OF this] have "PGOFF_2MB a div of_nat ?L * of_nat ?L = of_nat ((o' + d) div ?L * ?L)"
    unfolding of_nat_mult by simp
  then have w: "PGOFF_2MB a div of_nat ?L * of_nat ?L = of_nat o'" by (simp only: q)
  have "PGOFF_2MB a = of_nat (o' + d)" using of_nat_eqI [OF off] by simp
  then have "PGADDR_2MB a = of_nat (m + d) - of_nat (o' + d)" unfolding pg_split(2) assms(3) by simp
  then have "PGADDR_2MB a + PGOFF_2MB a div of_nat ?L * of_nat ?L = of_nat m" unfolding w by simp
  then show ?thesis using unat_of_nat_small [of m, where 'w = 64] assms(1) L by (simp add: mbuf_at_def)
qed

lemma iomap_back: "of_int (uint (of_int x :: u64) - y) = (of_int (x - y) :: u64)"
  by simp

lemma free_keeps_iomap:
  assumes "mbuf_free False m w = Inr w'"
  shows "(case mw_pools w' p of None \<Rightarrow> None | Some mp \<Rightarrow> Some (mp_iomap_offset mp)) =
    (case mw_pools w p of None \<Rightarrow> None | Some mp \<Rightarrow> Some (mp_iomap_offset mp))"
  using assms
  by (auto simp: mbuf_free_def bindR_eq_Inr kns_mempool_free_def mempool_free_2_def Let_def split: option.splits if_splits)

section \<open>Lending a datagram\<close>

lemma mbufs_ok_upd [simp]: "mbufs_ok pool (nw (upd_mbuf m f n)) F \<longleftrightarrow> mbufs_ok pool (nw n) F"
  by (simp add: mbufs_ok_def upd_mbuf_def)

lemma pools_upd [simp]:
  "mw_pools (nw (upd_mbuf m f n)) = mw_pools (nw n)" "mbuf_pool (nw (upd_mbuf m f n)) x = mbuf_pool (nw n) x"
  by (simp_all add: upd_mbuf_def mbuf_pool_def)

lemma iomap_of:
  assumes "mw_pools (nw (sk_net s)) (mbuf_pool (nw (sk_net s)) pkt) = Some mp" and "\<not> bugs_on env"
  shows "mbuf_to_iomap env s pkt x = Inr (of_int (int x + mp_iomap_offset mp))"
  using assms by (simp add: mbuf_to_iomap_def mempool_pagemem_to_iomap_def)

lemma recv_done_at:
  assumes "mw_pools (nw (sk_net s)) (pool_ptr env) = Some mp" and "\<not> bugs_on env" and "mbuf_at m" and "d < MBUF_LEN"
  shows "bsys_udp_recv_done env (of_int (int (m + d) + mp_iomap_offset mp)) s =
    (if mb_done (sk_mbuf s m) \<noteq> DONE_USER then Inr (- RET_INVAL, s)
     else bindR (sk_mbuf_free env m (sk_upd_mbuf m (\<lambda>b. b\<lparr>mb_done := DONE_NULL\<rparr>) s)) (\<lambda>s2. Inr (RET_OK, s2)))"
proof -
  let ?a = "of_int (uint (of_int (int (m + d) + mp_iomap_offset mp) :: u64) - mp_iomap_offset mp) :: u64"
  have "?a = of_nat (m + d)" unfolding iomap_back by simp
  from mbuf_of_inside [OF assms(3,4) this]
  have u: "unat (PGADDR_2MB ?a + PGOFF_2MB ?a div of_nat MBUF_LEN * of_nat MBUF_LEN) = m" .
  have p: "mempool_iomap_to_ptr (bugs_on env) mp (uint (of_int (int (m + d) + mp_iomap_offset mp) :: u64)) =
    Inr (uint (of_int (int (m + d) + mp_iomap_offset mp) :: u64) - mp_iomap_offset mp)"
    using assms(2) by (simp add: mempool_iomap_to_ptr_def)
  show ?thesis unfolding bsys_udp_recv_done_def assms(1) option.case p bindR_Inr Let_def u ..
qed

lemma recv_done_frees:
  assumes "mbufs_ok (pool_ptr env) (nw (sk_net s)) F" and "pkt \<notin> F" and "pkt \<noteq> NULL"
    and "mbuf_pool (nw (sk_net s)) pkt = pool_ptr env" and "\<not> bugs_on env" and "mbuf_at pkt"
    and "mw_pools (nw (sk_net s)) (pool_ptr env) = Some mp" and "mb_done (sk_mbuf s pkt) = DONE_USER"
    and "d < MBUF_LEN" and "d' < MBUF_LEN"
  shows "\<exists>s2. bsys_udp_recv_done env (of_int (int (pkt + d) + mp_iomap_offset mp)) s = Inr (RET_OK, s2) \<and>
    mbufs_ok (pool_ptr env) (nw (sk_net s2)) (insert pkt F) \<and>
    bsys_udp_recv_done env (of_int (int (pkt + d') + mp_iomap_offset mp)) s2 = Inr (- RET_INVAL, s2)"
proof -
  let ?n = "upd_mbuf pkt (\<lambda>b. b\<lparr>mb_done := DONE_NULL\<rparr>) (sk_net s)"
  have "mbufs_ok (pool_ptr env) (nw ?n) F" "mbuf_pool (nw ?n) pkt = pool_ptr env" using assms(1,4) by simp_all
  from mbuf_free_law [OF this assms(3,2)] obtain w where w: "mbuf_free False pkt (nw ?n) = Inr w"
    "mbufs_ok (pool_ptr env) w (insert pkt F)" "mw_mbufs w = mw_mbufs (nw ?n)" by blast
  let ?s2 = "s\<lparr>sk_net := ?n\<lparr>nw := w\<rparr>\<rparr>"
  have fr: "sk_mbuf_free env pkt (sk_upd_mbuf pkt (\<lambda>b. b\<lparr>mb_done := DONE_NULL\<rparr>) s) = Inr ?s2"
    using w(1) assms(5) by (simp add: sk_mbuf_free_def on_net'_def net_mbuf_free_def sk_upd_mbuf_def sk_upd_net_def)
  have one: "bsys_udp_recv_done env (of_int (int (pkt + d) + mp_iomap_offset mp)) s = Inr (RET_OK, ?s2)"
    unfolding recv_done_at [OF assms(7,5,6,9)] fr using assms(8) by simp
  obtain mp2 where mp2: "mw_pools w (pool_ptr env) = Some mp2" "mp_iomap_offset mp2 = mp_iomap_offset mp"
    using free_keeps_iomap [OF w(1), of "pool_ptr env"] assms(7) by (auto split: option.splits)
  have "mw_pools (nw (sk_net ?s2)) (pool_ptr env) = Some mp2" using mp2(1) by simp
  from recv_done_at [OF this assms(5,6,10)]
  have "bsys_udp_recv_done env (of_int (int (pkt + d') + mp_iomap_offset mp)) ?s2 = Inr (- RET_INVAL, ?s2)"
    using w(3) by (simp add: mp2(2) sk_mbuf_def DONE_NULL_def DONE_USER_def)
  then show ?thesis using one w(2) by (intro exI [of _ ?s2]) simp
qed

text \<open>C10: A received datagram is announced to the application once, with the address of
  its data and of its tuple; \<open>bsys_udp_recv_done\<close> with any address inside the
  packet returns the packet to its pool, and any second call for it is refused.\<close>

theorem udp_receive_once:
  assumes "mbufs_ok (pool_ptr env) (nw (sk_net s)) F" and "pkt \<notin> F" and "pkt \<noteq> NULL"
    and "mbuf_pool (nw (sk_net s)) pkt = pool_ptr env" and "\<not> bugs_on env" and "mbuf_at pkt"
    and "mw_pools (nw (sk_net s)) (pool_ptr env) = Some mp" and "usys_room (sk_usys s)"
    and "len = get16 (sk_mem s) (udphdr + 4)" and "mbuf_enough_space (nw (sk_net s)) pkt udphdr (unat len)"
  defines "io \<equiv> (\<lambda>x. of_int (int x + mp_iomap_offset mp) :: u64)"
  shows "\<exists>s1. udp_input env pkt iphdr udphdr s = Inr s1 \<and>
    usys_view (sk_usys s1) = usys_view (sk_usys s) @ [Some (Udp_recv (io (udphdr + 8)) (ucast len) (io (mbuf_mtod pkt)))] \<and>
    get_bytes (sk_mem s1) (mbuf_mtod pkt) 12 =
      le_bytes 4 (get32 (sk_mem s) (iphdr + 12)) @ le_bytes 4 (get32 (sk_mem s) (iphdr + 16)) @
      le_bytes 2 (get16 (sk_mem s) udphdr) @ le_bytes 2 (get16 (sk_mem s) (udphdr + 2)) \<and>
    (\<forall>d d'. d < MBUF_LEN \<longrightarrow> d' < MBUF_LEN \<longrightarrow>
       (\<exists>s2. bsys_udp_recv_done env (io (pkt + d)) s1 = Inr (RET_OK, s2) \<and>
          mbufs_ok (pool_ptr env) (nw (sk_net s2)) (insert pkt F) \<and>
          bsys_udp_recv_done env (io (pkt + d')) s2 = Inr (- RET_INVAL, s2)))"
proof -
  let ?t = "\<lparr>src_ip = get32 (sk_mem s) (iphdr + ip_src_addr), dst_ip = get32 (sk_mem s) (iphdr + ip_dst_addr),
             src_port = get16 (sk_mem s) (udphdr + udp_src_port), dst_port = get16 (sk_mem s) (udphdr + udp_dst_port)\<rparr>"
  let ?s = "sk_upd_mbuf pkt (\<lambda>b. b\<lparr>mb_done := DONE_USER\<rparr>) (sk_upd_mem (put_tuple (mbuf_mtod pkt) ?t) s)"
  have io: "mbuf_to_iomap env ?s pkt x = Inr (io x)" for x
    unfolding io_def by (rule iomap_of) (use assms(4,5,7) in \<open>simp_all add: sk_upd_mbuf_def sk_upd_mem_def\<close>)
  obtain a where a: "usys_udp_recv (io (udphdr + 8)) (ucast len) (io (mbuf_mtod pkt)) (sk_usys s) = Inr a"
    "usys_view a = usys_view (sk_usys s) @ [Some (Udp_recv (io (udphdr + 8)) (ucast len) (io (mbuf_mtod pkt)))]"
    using usys_post_view [OF assms(8), of "Udp_recv (io (udphdr + 8)) (ucast len) (io (mbuf_mtod pkt))"] by auto
  let ?s1 = "?s\<lparr>sk_usys := a\<rparr>"
  have u: "sk_usys ?s = sk_usys s" by (simp add: sk_upd_mbuf_def sk_upd_mem_def)
  have lenq: "get16 (sk_mem s) (udphdr + udp_len) = len" and off: "udphdr + UDP_HDR_LEN = udphdr + 8"
    by (simp_all add: assms(9) udp_len_def UDP_HDR_LEN_def)
  have r: "udp_input env pkt iphdr udphdr s = Inr ?s1"
    unfolding udp_input_def Let_def lenq off io bindR_Inr on_usys_def u a(1) using assms(10) by simp
  have n: "nw (sk_net ?s1) = nw (upd_mbuf pkt (\<lambda>b. b\<lparr>mb_done := DONE_USER\<rparr>) (upd_mem (put_tuple (mbuf_mtod pkt) ?t) (sk_net s)))"
    by (simp add: sk_upd_mbuf_def sk_upd_mem_def)
  have c: "mbufs_ok (pool_ptr env) (nw (sk_net ?s1)) F" "mbuf_pool (nw (sk_net ?s1)) pkt = pool_ptr env"
    "mw_pools (nw (sk_net ?s1)) (pool_ptr env) = Some mp" "mb_done (sk_mbuf ?s1 pkt) = DONE_USER"
    using assms(1,4,7) unfolding sk_mbuf_def n by simp_all
  have f: "\<exists>s2. bsys_udp_recv_done env (io (pkt + d)) ?s1 = Inr (RET_OK, s2) \<and>
      mbufs_ok (pool_ptr env) (nw (sk_net s2)) (insert pkt F) \<and>
      bsys_udp_recv_done env (io (pkt + d')) s2 = Inr (- RET_INVAL, s2)" if "d < MBUF_LEN" "d' < MBUF_LEN" for d d'
    unfolding io_def
    by (rule recv_done_frees [OF c(1) assms(2,3) c(2) assms(5,6) c(3,4) that])
  have b: "sk_mem ?s1 = put_tuple (mbuf_mtod pkt) ?t (sk_mem s)" by (simp add: sk_mem_def sk_upd_mbuf_def sk_upd_mem_def)
  have l: "length (le_bytes n x) = n" for n and x :: "'w::len word" by (simp add: le_bytes_def)
  have g: "get_bytes (sk_mem ?s1) (mbuf_mtod pkt) 12 =
      le_bytes 4 (get32 (sk_mem s) (iphdr + 12)) @ le_bytes 4 (get32 (sk_mem s) (iphdr + 16)) @
      le_bytes 2 (get16 (sk_mem s) udphdr) @ le_bytes 2 (get16 (sk_mem s) (udphdr + 2))"
    unfolding b put_tuple_def by (simp add: get_prefix l ip_layout udp_layout)
  have v: "usys_view (sk_usys ?s1) = usys_view (sk_usys s) @ [Some (Udp_recv (io (udphdr + 8)) (ucast len) (io (mbuf_mtod pkt)))]"
    using a(2) by simp
  show ?thesis using r v g f by blast
qed

definition stack1 :: stack where
  "stack1 = stack0\<lparr>sk_net := (sk_net stack0)\<lparr>nw := (three_mbufs\<lparr>mw_hdrs := set_next (mw_hdrs three_mbufs) 4224 64\<rparr>)\<rparr>\<rparr>"

theorem udp_receive_once_witness:
  "\<exists>s1 s2. udp_input env0 4224 4302 4322 (sk_upd_net (\<lambda>n. n\<lparr>nw := set_mbuf_len 4224 3000 (nw n), nmem := (\<lambda>_. 0)\<rparr>) stack1) = Inr s1 \<and>
     usys_view (sk_usys s1) = [Some (Udp_recv 4330 0 4288)] \<and> bsys_udp_recv_done env0 4330 s1 = Inr (RET_OK, s2)"
proof -
  let ?s = "sk_upd_net (\<lambda>n. n\<lparr>nw := set_mbuf_len 4224 3000 (nw n), nmem := (\<lambda>_. 0)\<rparr>) stack1"
  have p: "pool_ok (fst three_pool, fst (snd three_pool), set_next_chunk (set_next (snd (snd three_pool)) 4224 64) 4224 3000) {1000, 1016, 1032}"
    using kmp.touch_law [OF three_pool_ok, of 4224 64 3000] by (simp add: touch_hdr_def case_prod_unfold)
  have ok: "mbufs_ok (pool_ptr env0) (nw (sk_net ?s)) {1000, 1016, 1032}"
    using p by (simp add: mbufs_ok_def set_mbuf_len_def stack1_def three_mbufs_def env0_def)
  have q: "mbuf_pool (nw (sk_net ?s)) 4224 = pool_ptr env0"
    by (simp add: mbuf_pool_def set_mbuf_len_def stack1_def env0_def)
  have mp: "mw_pools (nw (sk_net ?s)) (pool_ptr env0) = Some (fst three_pool)" "mp_iomap_offset (fst three_pool) = 0"
    by (simp_all add: set_mbuf_len_def stack1_def three_mbufs_def env0_def three_pool_def)
  have at: "mbuf_at 4224" by (simp add: mbuf_at_def MBUF_LEN_def MBUF_HEADER_LEN_def MBUF_DATA_LEN_def)
  have room: "usys_room (sk_usys ?s)" "sk_usys ?s = sk_usys stack0" by (simp_all add: usys_room_def stack1_def stack0_def)
  have z: "get16 (sk_mem ?s) (4322 + 4) = 0" by (simp add: get16_def get_bytes_def be_value_def sk_mem_def upt_rec)
  have sp: "mbuf_enough_space (nw (sk_net ?s)) 4224 4322 (unat (0 :: u16))"
    by (simp add: mbuf_enough_space_def mbuf_len_def set_mbuf_len_def MBUF_HEADER_LEN_def)
  have v: "usys_view (sk_usys stack0) = []" by (simp add: usys_view_def stack0_def)
  have b: "\<not> bugs_on env0" by (simp add: env0_def)
  have d: "(42 :: nat) < MBUF_LEN" "(106 :: nat) < MBUF_LEN" by (simp_all add: MBUF_LEN_def MBUF_HEADER_LEN_def MBUF_DATA_LEN_def)
  note u = udp_receive_once [OF ok _ _ q b at mp(1) room(1) z [symmetric] sp, of 4302, unfolded room(2) v mp(2)]
  obtain s1 where s1: "udp_input env0 4224 4302 4322 ?s = Inr s1"
      "usys_view (sk_usys s1) = [Some (Udp_recv (of_int (int 4330 + 0)) (ucast (0 :: u16)) (of_int (int (mbuf_mtod 4224) + 0)))]"
    and f: "\<And>d d'. d < MBUF_LEN \<Longrightarrow> d' < MBUF_LEN \<Longrightarrow> \<exists>s2. bsys_udp_recv_done env0 (of_int (int (4224 + d) + 0)) s1 = Inr (RET_OK, s2)"
    using u by (simp only: append_Nil) fastforce
  have v1: "usys_view (sk_usys s1) = [Some (Udp_recv 4330 0 4288)]" using s1(2) by (simp add: mbuf_mtod_def MBUF_HEADER_LEN_def)
  show ?thesis using s1(1) v1 f [OF d(2) d(1)] by auto
qed

end
