(* ===== verification/Tcp_State.thy ===== *)
theory Tcp_State
  imports Udp
begin

text \<open>
  The data of TCP (\<open>inc/lwip/lwip/tcp.h\<close>, \<open>tcp_impl.h\<close>, the TCP part of \<open>struct eth_fg\<close> and
  \<open>struct tcpapi_pcb\<close> of \<open>net/tcp_api.c\<close>), as configured by \<open>inc/lwip/lwipopts.h\<close>: IPv4 only,
  window scaling, out-of-sequence queueing and oversized pbufs on, no timestamps, no callback
  API, no assertions. Control blocks, segments and handles are objects in maps from addresses;
  segment headers are bytes of the packet memory.
\<close>

section \<open>Constants\<close>

definition TCP_MSS :: nat where "TCP_MSS = 1460"
definition TCP_WND :: u32 where "TCP_WND = 2048 * of_nat TCP_MSS"
definition TCP_SND_BUF :: u32 where "TCP_SND_BUF = 65536"
definition TCP_SND_QUEUELEN :: u16 where "TCP_SND_QUEUELEN = 180"
definition TCP_SNDQUEUELEN_OVERFLOW :: u16 where "TCP_SNDQUEUELEN_OVERFLOW = 0xffff - 3"
definition TCP_OVERSIZE :: nat where "TCP_OVERSIZE = TCP_MSS"
definition TCP_WND_UPDATE_THRESHOLD :: u32 where "TCP_WND_UPDATE_THRESHOLD = TCP_WND div 4"
definition TCP_RCV_SCALE :: nat where "TCP_RCV_SCALE = 7"
definition TCP_TTL :: u8 where "TCP_TTL = 255"
definition TCP_MAXRTX :: u8 where "TCP_MAXRTX = 12"
definition TCP_SYNMAXRTX :: u8 where "TCP_SYNMAXRTX = 6"
definition TCP_TMR_INTERVAL :: u64 where "TCP_TMR_INTERVAL = 250"
definition TCP_SLOW_INTERVAL :: u32 where "TCP_SLOW_INTERVAL = 500"
definition TCP_FIN_WAIT_TIMEOUT :: u32 where "TCP_FIN_WAIT_TIMEOUT = 20000"
definition TCP_SYN_RCVD_TIMEOUT :: u32 where "TCP_SYN_RCVD_TIMEOUT = 20000"
definition TCP_OOSEQ_TIMEOUT :: u32 where "TCP_OOSEQ_TIMEOUT = 6"
definition TCP_MSL :: u32 where "TCP_MSL = 60000"
definition TCP_KEEPIDLE_DEFAULT :: u32 where "TCP_KEEPIDLE_DEFAULT = 7200000"
definition TCP_KEEPINTVL_DEFAULT :: u64 where "TCP_KEEPINTVL_DEFAULT = 75000"
definition TCP_MAXIDLE :: u64 where "TCP_MAXIDLE = 9 * TCP_KEEPINTVL_DEFAULT"
definition ONE_MS :: u64 where "ONE_MS = 1000"
definition TCP_ACK_DELAY :: u64 where "TCP_ACK_DELAY = 1 * ONE_MS"
definition RTO_UNITS :: u32 where "RTO_UNITS = 500 * 1000"
definition MAX_PACKETS_DELAYED_ACK :: u32 where "MAX_PACKETS_DELAYED_ACK = 2"
definition TCP_ACTIVE_PCBS_MAX_BUCKETS :: nat where "TCP_ACTIVE_PCBS_MAX_BUCKETS = 512"
definition TCP_ACTIVE_PCBS_HASH_SEED :: u32 where "TCP_ACTIVE_PCBS_HASH_SEED = 0xa36bdcbe"
definition TCP_PRIO_NORMAL :: u8 where "TCP_PRIO_NORMAL = 64"
definition TCP_PRIO_MAX :: u8 where "TCP_PRIO_MAX = 127"
definition TCP_HLEN :: nat where "TCP_HLEN = 20"
definition TCP_WRITE_FLAG_COPY :: u8 where "TCP_WRITE_FLAG_COPY = 0x01"
definition TCP_WRITE_FLAG_MORE :: u8 where "TCP_WRITE_FLAG_MORE = 0x02"
definition SOF_ACCEPTCONN :: u8 where "SOF_ACCEPTCONN = 0x02"
definition SOF_KEEPALIVE :: u8 where "SOF_KEEPALIVE = 0x08"
definition IPADDR_ANY :: u32 where "IPADDR_ANY = 0"

definition tcp_backoff :: "nat list" where "tcp_backoff = [1, 2, 3, 4, 5, 6, 7, 7, 7, 7, 7, 7, 7]"
definition tcp_persist_backoff :: "u64 list" where "tcp_persist_backoff = [3, 6, 12, 24, 48, 96, 120]"

definition ERR_MEM :: int where "ERR_MEM = - 1"
definition ERR_BUF :: int where "ERR_BUF = - 2"
definition ERR_RTE :: int where "ERR_RTE = - 4"
definition ERR_INPROGRESS :: int where "ERR_INPROGRESS = - 5"
definition ERR_USE :: int where "ERR_USE = - 8"
definition ERR_ISCONN :: int where "ERR_ISCONN = - 9"
definition ERR_ABRT :: int where "ERR_ABRT = - 10"
definition ERR_RST :: int where "ERR_RST = - 11"
definition ERR_CLSD :: int where "ERR_CLSD = - 12"
definition ERR_CONN :: int where "ERR_CONN = - 13"

lemmas err_defs = ERR_OK_def ERR_MEM_def ERR_BUF_def ERR_RTE_def ERR_INPROGRESS_def ERR_VAL_def ERR_USE_def
  ERR_ISCONN_def ERR_ABRT_def ERR_RST_def ERR_CLSD_def ERR_CONN_def ERR_ARG_def

text \<open>Flags of a control block, of a segment and of a header.\<close>

definition TF_ACK_NOW :: u16 where "TF_ACK_NOW = 0x0002"
definition TF_INFR :: u16 where "TF_INFR = 0x0004"
definition TF_RXCLOSED :: u16 where "TF_RXCLOSED = 0x0010"
definition TF_FIN :: u16 where "TF_FIN = 0x0020"
definition TF_NODELAY :: u16 where "TF_NODELAY = 0x0040"
definition TF_NAGLEMEMERR :: u16 where "TF_NAGLEMEMERR = 0x0080"
definition TF_WND_SCALE :: u16 where "TF_WND_SCALE = 0x0100"
definition TF_SEG_OPTS_MSS :: u8 where "TF_SEG_OPTS_MSS = 0x01"
definition TF_SEG_OPTS_WND_SCALE :: u8 where "TF_SEG_OPTS_WND_SCALE = 0x08"
definition TCP_FIN :: u8 where "TCP_FIN = 0x01"
definition TCP_SYN :: u8 where "TCP_SYN = 0x02"
definition TCP_RST :: u8 where "TCP_RST = 0x04"
definition TCP_PSH :: u8 where "TCP_PSH = 0x08"
definition TCP_ACK :: u8 where "TCP_ACK = 0x10"
definition TCP_FLAGS :: u16 where "TCP_FLAGS = 0x3f"

section \<open>Sequence numbers\<close>

definition TCP_SEQ_LT :: "u32 \<Rightarrow> u32 \<Rightarrow> bool" where "TCP_SEQ_LT a b \<longleftrightarrow> sint (a - b) < 0"
definition TCP_SEQ_LEQ :: "u32 \<Rightarrow> u32 \<Rightarrow> bool" where "TCP_SEQ_LEQ a b \<longleftrightarrow> sint (a - b) \<le> 0"
definition TCP_SEQ_GT :: "u32 \<Rightarrow> u32 \<Rightarrow> bool" where "TCP_SEQ_GT a b \<longleftrightarrow> sint (a - b) > 0"
definition TCP_SEQ_GEQ :: "u32 \<Rightarrow> u32 \<Rightarrow> bool" where "TCP_SEQ_GEQ a b \<longleftrightarrow> sint (a - b) \<ge> 0"
definition TCP_SEQ_BETWEEN :: "u32 \<Rightarrow> u32 \<Rightarrow> u32 \<Rightarrow> bool" where
  "TCP_SEQ_BETWEEN a b c \<longleftrightarrow> TCP_SEQ_GEQ a b \<and> TCP_SEQ_LEQ a c"

section \<open>Control blocks\<close>

datatype tcp_state = LWIP_CLOSED | LWIP_LISTEN | LWIP_SYN_SENT | LWIP_SYN_RCVD | LWIP_ESTABLISHED |
  LWIP_FIN_WAIT_1 | LWIP_FIN_WAIT_2 | LWIP_CLOSE_WAIT | LWIP_CLOSING | LWIP_LAST_ACK | LWIP_TIME_WAIT

text \<open>
  A kernel timer: whether it is enqueued, whether its callback is running (the code under
  consideration is then part of the callback), and its two expiry times in nanoseconds.
  \<open>cur_fg\<close> and flow groups in general are indices into \<open>fgs\<close>; \<open>FG_NULL\<close> is the null pointer.
\<close>

definition FG_NULL :: nat where "FG_NULL = 65536"

record utimer =
  ut_enqueued :: bool
  ut_running :: bool
  ut_expires :: u64
  ut_softexpires :: u64
  ut_fg_id :: int
  ut_cur_fg :: nat

text \<open>
  The list a control block is linked into through \<open>link\<close>. The code only looks at \<open>pprev\<close>:
  it is NULL (\<open>Unlinked\<close>), the poison value that \<open>hlist_del\<close> leaves (\<open>Poisoned\<close>), or points into
  the list. \<open>Bucket g i\<close> is entry \<open>i\<close> of the table of group \<open>g\<close>.
\<close>

datatype pcb_list = Bucket nat nat | Time_wait nat | Bound nat | Listeners
datatype pcb_link = Unlinked | Poisoned | Linked pcb_list

record ip_pcb =
  tp_local_ip :: u32
  tp_remote_ip :: u32
  tp_so_options :: u8
  tp_tos :: u8
  tp_ttl :: u8

record tcp_pcb_common = ip_pcb +
  tp_link :: pcb_link
  tp_unified_timer :: utimer
  tp_delayedack_expires :: u64
  tp_retransmit_expires :: u64
  tp_persist_expires :: u64
  tp_callback_arg :: addr
  tp_delayed_ack_counter :: u32
  tp_state :: tcp_state
  tp_prio :: u8
  tp_local_port :: u16

record tcp_pcb_receive = tcp_pcb_common +
  tp_remote_port :: u16
  tp_flags :: u16
  tp_polltmr :: u8
  tp_pollinterval :: u8
  tp_last_timer :: u8
  tp_tmr :: u32
  tp_rcv_nxt :: u32
  tp_rcv_wnd :: u32
  tp_rcv_ann_wnd :: u32
  tp_rcv_ann_right_edge :: u32
  tp_mss :: u16
  tp_rttest :: u32
  tp_rtseq :: u32
  tp_sa :: u16
  tp_sv :: u16
  tp_rto :: u16
  tp_nrtx :: u8
  tp_dupacks :: u8
  tp_lastack :: u32

record tcp_pcb = tcp_pcb_receive +
  tp_cwnd :: u32
  tp_ssthresh :: u32
  tp_snd_nxt :: u32
  tp_snd_wl1 :: u32
  tp_snd_wl2 :: u32
  tp_snd_lbb :: u32
  tp_snd_wnd :: u32
  tp_snd_wnd_max :: u32
  tp_acked :: u32
  tp_snd_buf :: u32
  tp_snd_queuelen :: u16
  tp_unsent_oversize :: u16
  tp_unsent :: addr
  tp_unacked :: addr
  tp_ooseq :: addr
  tp_refused_data :: addr
  tp_keep_idle :: u32
  tp_persist_cnt :: u8
  tp_persist_backoff :: u8
  tp_keep_cnt_sent :: u8
  tp_snd_scale :: u8
  tp_rcv_scale :: u8

text \<open>\<open>struct tcp_pcb_listen\<close> is the common part.\<close>

type_synonym tcp_pcb_listen = tcp_pcb_common

record tcp_seg =
  sg_next :: addr
  sg_p :: addr
  seg_len :: u16
  seg_flags :: u8
  tcphdr :: addr

end
