(* ===== verification/Tcp_World.thy ===== *)
theory Tcp_World
  imports Tcp_State
begin

text \<open>
  The state of the machine with TCP, the lists of control blocks of a flow group with their
  hash table, and the timers: the inline functions and macros of \<open>tcp_impl.h\<close>, \<open>hlist\<close> and
  \<open>hrtimer\<close> of the kernel, and the pools of \<open>memp.h\<close>.
\<close>

section \<open>State\<close>

text \<open>The TCP part of \<open>struct eth_fg\<close>. \<open>tcp_timer\<close> and \<open>tcp_timer_ctr\<close> are declared \<open>bool\<close>.
  A bucket is in \<open>active_buckets\<close> when its \<open>hash_link.pprev\<close> is not NULL (\<open>hash_linked\<close>).\<close>

record tcp_fg =
  tcpip_timer :: utimer
  tcp_active_pcb_changed :: bool
  tcp_timer :: bool
  tcp_timer_ctr :: bool
  iss :: u32
  tcp_ticks :: u32
  active_buckets :: "nat list"
  active_tbl :: "nat \<Rightarrow> addr list"
  hash_linked :: "nat \<Rightarrow> bool"
  tw_pcbs :: "addr list"
  bound_pcbs :: "addr list"

text \<open>\<open>struct tcpapi_pcb\<close>. Its first two words overlap the header that the pool keeps in a free
  element, so \<open>alive\<close> and \<open>pcb\<close> are those words (\<open>api_alive\<close>, \<open>api_pcb\<close> below).\<close>

record tcpapi_pcb =
  api_cookie :: u64
  api_id :: addr
  api_handle :: u64
  api_recvd :: addr
  api_recvd_tail :: addr
  api_accepted :: bool

text \<open>What the driver operations \<open>fdir_add_perfect_filter\<close> and \<open>fdir_remove_perfect_filter\<close> were
  asked to do: the tuple in the filter, and the queue of an added one.\<close>

datatype fdir_call = Fdir_add ip_tuple nat | Fdir_remove ip_tuple

record tcp_world = stack +
  tw_pcb :: "addr \<Rightarrow> tcp_pcb"
  tw_seg :: "addr \<Rightarrow> tcp_seg"
  tw_fg :: "nat \<Rightarrow> tcp_fg"
  tw_listen :: "nat \<Rightarrow> tcp_pcb_listen"
  listen_pcbs :: "nat list"
  tcp_pcb_mempool :: pool_state
  tcp_seg_mempool :: pool_state
  tcp_pcb_listen_mempool :: pool_state
  tw_api :: "addr \<Rightarrow> tcpapi_pcb"
  pcb_mempool :: pool_state
  id_mempool :: pool_state
  local_port :: u16
  fdir_log :: "fdir_call list"

text \<open>
  What the functions read and do not change. \<open>te_mem_free\<close>, \<open>te_chksum\<close> (\<open>ipX_chksum_pseudo\<close>) and
  \<open>te_netif\<close> (\<open>ip_route\<close>: the MTU and the address of the interface for a destination) are
  declared but not defined in the repository. \<open>te_now\<close> is the monotonic clock, which does not
  advance during a call; \<open>te_input_pcb\<close> the address of the per-CPU variable \<open>tcp_input_pcb\<close>;
  \<open>te_fuel\<close> bounds the walks along pointers; \<open>te_no_return\<close> is what a caller finds when a
  function ends without a \<open>return\<close>.
\<close>

record tcp_env =
  te_net :: net_env
  te_mem_free :: mem_free_fn
  te_fuel :: nat
  te_now :: u64
  te_input_pcb :: addr
  te_chksum :: "bytemem \<Rightarrow> (addr \<Rightarrow> pbuf) \<Rightarrow> addr \<Rightarrow> u8 \<Rightarrow> u16 \<Rightarrow> u32 \<Rightarrow> u32 \<Rightarrow> u16"
  te_netif :: "u32 \<Rightarrow> (u16 \<times> u32) option"
  te_no_return :: u16

abbreviation te_bugs :: "tcp_env \<Rightarrow> bool" where "te_bugs env \<equiv> bugs_on (te_net env)"

definition upd_pcb :: "addr \<Rightarrow> (tcp_pcb \<Rightarrow> tcp_pcb) \<Rightarrow> tcp_world \<Rightarrow> tcp_world" where
  "upd_pcb p f w = w\<lparr>tw_pcb := (tw_pcb w)(p := f (tw_pcb w p))\<rparr>"

definition upd_seg :: "addr \<Rightarrow> (tcp_seg \<Rightarrow> tcp_seg) \<Rightarrow> tcp_world \<Rightarrow> tcp_world" where
  "upd_seg q f w = w\<lparr>tw_seg := (tw_seg w)(q := f (tw_seg w q))\<rparr>"

definition upd_fg :: "nat \<Rightarrow> (tcp_fg \<Rightarrow> tcp_fg) \<Rightarrow> tcp_world \<Rightarrow> tcp_world" where
  "upd_fg g f w = w\<lparr>tw_fg := (tw_fg w)(g := f (tw_fg w g))\<rparr>"

definition upd_api :: "addr \<Rightarrow> (tcpapi_pcb \<Rightarrow> tcpapi_pcb) \<Rightarrow> tcp_world \<Rightarrow> tcp_world" where
  "upd_api a f w = w\<lparr>tw_api := (tw_api w)(a := f (tw_api w a))\<rparr>"

definition upd_sk_pb :: "addr \<Rightarrow> (pbuf \<Rightarrow> pbuf) \<Rightarrow> tcp_world \<Rightarrow> tcp_world" where
  "upd_sk_pb p f w = w\<lparr>sk_pb := (sk_pb w)(p := f (sk_pb w p))\<rparr>"

text \<open>Reading through a pointer to a flow group: \<open>fgs\<close> has no group at \<open>FG_NULL\<close>.\<close>

definition fg_deref :: "tcp_world \<Rightarrow> nat \<Rightarrow> tcp_fg res" where
  "fg_deref w g = (if sk_fgs w g = None then Inl Fault else Inr (tw_fg w g))"

definition fg_write :: "nat \<Rightarrow> (tcp_fg \<Rightarrow> tcp_fg) \<Rightarrow> tcp_world \<Rightarrow> tcp_world res" where
  "fg_write g f w = (if sk_fgs w g = None then Inl Fault else Inr (upd_fg g f w))"

section \<open>Pools\<close>

definition pcb_malloc :: "tcp_env \<Rightarrow> tcp_world \<Rightarrow> (addr \<times> tcp_world) res" where
  "pcb_malloc env w = bindR (kns_mempool_alloc (te_bugs env) (tcp_pcb_mempool w)) (\<lambda>(p, m). Inr (p, w\<lparr>tcp_pcb_mempool := m\<rparr>))"

definition pcb_mem_free :: "tcp_env \<Rightarrow> addr \<Rightarrow> tcp_world \<Rightarrow> tcp_world res" where
  "pcb_mem_free env p w = bindR (kns_mempool_free (te_bugs env) (tcp_pcb_mempool w) p) (\<lambda>m. Inr (w\<lparr>tcp_pcb_mempool := m\<rparr>))"

definition seg_malloc :: "tcp_env \<Rightarrow> tcp_world \<Rightarrow> (addr \<times> tcp_world) res" where
  "seg_malloc env w = bindR (kns_mempool_alloc (te_bugs env) (tcp_seg_mempool w)) (\<lambda>(p, m). Inr (p, w\<lparr>tcp_seg_mempool := m\<rparr>))"

definition seg_mem_free :: "tcp_env \<Rightarrow> addr \<Rightarrow> tcp_world \<Rightarrow> tcp_world res" where
  "seg_mem_free env p w = bindR (kns_mempool_free (te_bugs env) (tcp_seg_mempool w) p) (\<lambda>m. Inr (w\<lparr>tcp_seg_mempool := m\<rparr>))"

definition listen_mem_free :: "tcp_env \<Rightarrow> addr \<Rightarrow> tcp_world \<Rightarrow> tcp_world res" where
  "listen_mem_free env p w = bindR (kns_mempool_free (te_bugs env) (tcp_pcb_listen_mempool w) p) (\<lambda>m. Inr (w\<lparr>tcp_pcb_listen_mempool := m\<rparr>))"

text \<open>The pbuf operations on this state.\<close>

definition tw_pbuf_free :: "tcp_env \<Rightarrow> addr \<Rightarrow> tcp_world \<Rightarrow> tcp_world res" where
  "tw_pbuf_free env p w =
     bindR (on_pbuf (pbuf_free (te_bugs env) (te_mem_free env) (te_fuel env) p) w) (\<lambda>(_, w'). Inr w')"

definition tw_pbuf_alloc :: "tcp_env \<Rightarrow> pbuf_layer \<Rightarrow> u16 \<Rightarrow> pbuf_type \<Rightarrow> tcp_world \<Rightarrow> (addr \<times> tcp_world) res" where
  "tw_pbuf_alloc env layer len type = on_pbuf (pbuf_alloc (te_bugs env) (te_mem_free env) (te_fuel env) layer len type)"

definition tw_pbuf_cat :: "tcp_env \<Rightarrow> addr \<Rightarrow> addr \<Rightarrow> tcp_world \<Rightarrow> tcp_world res" where
  "tw_pbuf_cat env h t w =
     bindR (on_pbuf (\<lambda>s. bindR (pbuf_cat (te_fuel env) h t s) (\<lambda>s'. Inr ((), s'))) w) (\<lambda>(_, w'). Inr w')"

definition tw_pbuf_clen :: "tcp_env \<Rightarrow> addr \<Rightarrow> tcp_world \<Rightarrow> u8 res" where
  "tw_pbuf_clen env p w = pbuf_clen (te_fuel env) p (pbuf_view w)"

section \<open>Timers\<close>

definition hrtimer_init :: "utimer \<Rightarrow> utimer" where
  "hrtimer_init t = t\<lparr>ut_enqueued := False, ut_running := False, ut_expires := 0, ut_softexpires := 0\<rparr>"

definition hrtimer_active :: "utimer \<Rightarrow> bool" where
  "hrtimer_active t \<longleftrightarrow> ut_enqueued t \<or> ut_running t"

text \<open>\<open>hrtimer_cancel\<close> waits until the callback has returned; within the callback it waits
  for ever.\<close>

definition hrtimer_cancel :: "utimer \<Rightarrow> utimer res" where
  "hrtimer_cancel t = (if ut_running t then Inl Hang else Inr (t\<lparr>ut_enqueued := False\<rparr>))"

definition hrtimer_start_range :: "u64 \<Rightarrow> u64 \<Rightarrow> u64 \<Rightarrow> utimer \<Rightarrow> utimer" where
  "hrtimer_start_range now time delta t =
     t\<lparr>ut_enqueued := True, ut_softexpires := now + time, ut_expires := now + time + delta\<rparr>"

definition ms_to_ktime :: "u64 \<Rightarrow> u64" where "ms_to_ktime ms = ms * 1000000"

definition cancel_timer :: "addr \<Rightarrow> tcp_world \<Rightarrow> tcp_world res" where
  "cancel_timer p w =
     bindR (hrtimer_cancel (tp_unified_timer (tw_pcb w p))) (\<lambda>t.
     Inr (upd_pcb p (\<lambda>c. c\<lparr>tp_unified_timer := t\<rparr>) w))"

text \<open>The earliest of the pending expiry times of a control block, \<open>-1\<close> if none is pending.\<close>

definition first_expiry :: "tcp_pcb \<Rightarrow> u64" where
  "first_expiry c =
     (let first = - 1;
          first = (if tp_delayedack_expires c > 0 then tp_delayedack_expires c else first);
          first = (if tp_retransmit_expires c > 0 \<and> tp_retransmit_expires c < first then tp_retransmit_expires c else first)
      in if tp_persist_expires c > 0 \<and> tp_persist_expires c < first then tp_persist_expires c else first)"

definition tcp_recompute_timers :: "tcp_env \<Rightarrow> nat \<Rightarrow> addr \<Rightarrow> tcp_world \<Rightarrow> tcp_world res" where
  "tcp_recompute_timers env cur_fg p w =
     (let c = tw_pcb w p; first = first_expiry c; t = tp_unified_timer c
      in if hrtimer_active t \<and> first \<ge> ut_softexpires t then Inr w
         else
           bindR (cancel_timer p w) (\<lambda>w1.
           if first \<noteq> - 1 then
             bindR (if cur_fg \<noteq> FG_NULL then
                      (case sk_fgs w1 cur_fg of None \<Rightarrow> Inl Fault | Some fg \<Rightarrow> Inr (\<lambda>t. t\<lparr>ut_fg_id := uint (fg_id fg)\<rparr>))
                    else Inr (\<lambda>t. t)) (\<lambda>set_id.
             Inr (upd_pcb p (\<lambda>c. c\<lparr>tp_unified_timer :=
                    set_id (hrtimer_start_range (te_now env) (ms_to_ktime first) 0 (tp_unified_timer c))\<rparr>) w1))
           else Inr w1))"

definition hrtimer_get_remaining :: "tcp_env \<Rightarrow> utimer \<Rightarrow> u64" where
  "hrtimer_get_remaining env t = ut_expires t - te_now env"

definition tcp_ack :: "tcp_env \<Rightarrow> nat \<Rightarrow> addr \<Rightarrow> tcp_world \<Rightarrow> tcp_world res" where
  "tcp_ack env cur_fg p w =
     (if tp_delayedack_expires (tw_pcb w p) > 0 then
        let w1 = upd_pcb p (\<lambda>c. c\<lparr>tp_delayed_ack_counter := tp_delayed_ack_counter c + 1\<rparr>) w
        in if tp_delayed_ack_counter (tw_pcb w1 p) \<ge> MAX_PACKETS_DELAYED_ACK then
             bindR (tcp_recompute_timers env cur_fg p (upd_pcb p (\<lambda>c. c\<lparr>tp_delayedack_expires := 0\<rparr>) w1)) (\<lambda>w2.
             Inr (upd_pcb p (\<lambda>c. c\<lparr>tp_flags := tp_flags c OR TF_ACK_NOW\<rparr>) w2))
           else Inr w1
      else if MAX_PACKETS_DELAYED_ACK = 1 then Inr (upd_pcb p (\<lambda>c. c\<lparr>tp_flags := tp_flags c OR TF_ACK_NOW\<rparr>) w)
      else
        tcp_recompute_timers env cur_fg p (upd_pcb p (\<lambda>c. c\<lparr>tp_delayed_ack_counter := 1,
          tp_delayedack_expires := hrtimer_get_remaining env (tp_unified_timer c) + TCP_ACK_DELAY\<rparr>) w))"

definition tcp_ack_now :: "addr \<Rightarrow> tcp_world \<Rightarrow> tcp_world" where
  "tcp_ack_now p = upd_pcb p (\<lambda>c. c\<lparr>tp_flags := tp_flags c OR TF_ACK_NOW\<rparr>)"

section \<open>Lists of control blocks\<close>

text \<open>The list a link names. \<open>hlist_add_head\<close> puts a block at the front; \<open>hlist_del\<close> takes it
  out of the list it is in and poisons the link, and it faults on a block that is in no list.\<close>

definition upd_list :: "pcb_list \<Rightarrow> (addr list \<Rightarrow> addr list) \<Rightarrow> tcp_world \<Rightarrow> tcp_world" where
  "upd_list l f =
     (case l of
        Bucket g i \<Rightarrow> upd_fg g (\<lambda>x. x\<lparr>active_tbl := (active_tbl x)(i := f (active_tbl x i))\<rparr>)
      | Time_wait g \<Rightarrow> upd_fg g (\<lambda>x. x\<lparr>tw_pcbs := f (tw_pcbs x)\<rparr>)
      | Bound g \<Rightarrow> upd_fg g (\<lambda>x. x\<lparr>bound_pcbs := f (bound_pcbs x)\<rparr>)
      | Listeners \<Rightarrow> (\<lambda>w. w\<lparr>listen_pcbs := f (listen_pcbs w)\<rparr>))"

definition hlist_add_head :: "addr \<Rightarrow> pcb_list \<Rightarrow> tcp_world \<Rightarrow> tcp_world" where
  "hlist_add_head p l w = upd_pcb p (\<lambda>c. c\<lparr>tp_link := Linked l\<rparr>) (upd_list l (Cons p) w)"

definition hlist_del :: "addr \<Rightarrow> tcp_world \<Rightarrow> tcp_world res" where
  "hlist_del p w =
     (case tp_link (tw_pcb w p) of
        Linked l \<Rightarrow> Inr (upd_pcb p (\<lambda>c. c\<lparr>tp_link := Poisoned\<rparr>) (upd_list l (remove1 p) w))
      | _ \<Rightarrow> Inl Fault)"

text \<open>\<open>tcp_timer_needed\<close>: the group's timer is started after the time in its \<open>_softexpires\<close>, with
  a slack of 250 microseconds.\<close>

definition tcp_timer_needed :: "tcp_env \<Rightarrow> nat \<Rightarrow> tcp_world \<Rightarrow> tcp_world res" where
  "tcp_timer_needed env cur_fg w =
     bindR (fg_deref w cur_fg) (\<lambda>x.
     if \<not> hrtimer_active (tcpip_timer x) \<and> (active_buckets x \<noteq> [] \<or> tw_pcbs x \<noteq> []) then
       Inr (upd_fg cur_fg (\<lambda>x. x\<lparr>tcpip_timer :=
         hrtimer_start_range (te_now env) (ut_softexpires (tcpip_timer x)) (TCP_TMR_INTERVAL * ONE_MS) (tcpip_timer x)\<rparr>) w)
     else Inr w)"

text \<open>The macro \<open>TCP_REG\<close> stops at a block that is in no list when \<open>BUG_ON\<close> works.\<close>

definition TCP_REG :: "tcp_env \<Rightarrow> pcb_list \<Rightarrow> addr \<Rightarrow> nat \<Rightarrow> tcp_world \<Rightarrow> tcp_world res" where
  "TCP_REG env l p cur_fg w =
     bindR (BUG_ON (te_bugs env) (tp_link (tw_pcb w p) = Unlinked)) (\<lambda>_.
     tcp_timer_needed env cur_fg
       (upd_pcb p (\<lambda>c. c\<lparr>tp_unified_timer := hrtimer_init (tp_unified_timer c)\<rparr>) (hlist_add_head p l w)))"

definition TCP_REG_ACTIVE :: "tcp_env \<Rightarrow> addr \<Rightarrow> nat \<Rightarrow> nat \<Rightarrow> tcp_world \<Rightarrow> tcp_world res" where
  "TCP_REG_ACTIVE env p idx cur_fg w =
     bindR (fg_deref w cur_fg) (\<lambda>x.
     let w1 = (if active_tbl x idx = [] \<and> \<not> hash_linked x idx
               then upd_fg cur_fg (\<lambda>x. x\<lparr>active_buckets := idx # active_buckets x, hash_linked := (hash_linked x)(idx := True)\<rparr>) w
               else w)
     in bindR (TCP_REG env (Bucket cur_fg idx) p cur_fg w1) (\<lambda>w2.
        Inr (upd_fg cur_fg (\<lambda>x. x\<lparr>tcp_active_pcb_changed := True\<rparr>) w2)))"

text \<open>\<open>__TCP_RMV\<close>: a block that is alone in a bucket of \<open>cur_fg\<close> takes the bucket with it. Its two
  \<open>BUG_ON\<close> conditions hold whenever they are reached.\<close>

definition TCP_RMV :: "tcp_env \<Rightarrow> nat \<Rightarrow> addr \<Rightarrow> tcp_world \<Rightarrow> tcp_world res" where
  "TCP_RMV env cur_fg p w =
     bindR (case tp_link (tw_pcb w p) of
              Linked (Bucket g i) \<Rightarrow>
                if g = cur_fg \<and> active_tbl (tw_fg w g) i = [p] then
                  bindR (BUG_ON (te_bugs env) (i < TCP_ACTIVE_PCBS_MAX_BUCKETS)) (\<lambda>_.
                  bindR (BUG_ON (te_bugs env) True) (\<lambda>_.
                  if \<not> hash_linked (tw_fg w g) i then Inl Fault
                  else Inr (upd_fg g (\<lambda>x. x\<lparr>active_buckets := remove1 i (active_buckets x),
                              hash_linked := (hash_linked x)(i := False)\<rparr>) w)))
                else Inr w
            | _ \<Rightarrow> Inr w) (\<lambda>w1.
     bindR (hlist_del p w1) (\<lambda>w2.
     cancel_timer p (upd_pcb p (\<lambda>c. c\<lparr>tp_link := Unlinked\<rparr>) w2)))"

definition TCP_RMV_ACTIVE :: "tcp_env \<Rightarrow> nat \<Rightarrow> addr \<Rightarrow> tcp_world \<Rightarrow> tcp_world res" where
  "TCP_RMV_ACTIVE env cur_fg p w =
     bindR (TCP_RMV env cur_fg p w) (\<lambda>w1. fg_write cur_fg (\<lambda>x. x\<lparr>tcp_active_pcb_changed := True\<rparr>) w1)"

text \<open>The bucket of a connection. \<open>(local_port << 16) | remote_port\<close> is an \<open>int\<close>, sign-extended to
  64 bits.\<close>

definition tcp_to_idx :: "tcp_env \<Rightarrow> u32 \<Rightarrow> u32 \<Rightarrow> u16 \<Rightarrow> u16 \<Rightarrow> nat" where
  "tcp_to_idx env local_ip remote_ip lport rport =
     (let crc = crc32q (te_net env);
          idx = hash_crc32c_two crc TCP_ACTIVE_PCBS_HASH_SEED (ucast local_ip) (ucast remote_ip);
          idx = hash_crc32c_one crc idx (scast (push_bit 16 (ucast lport) OR ucast rport :: u32))
      in unat (idx AND (of_nat TCP_ACTIVE_PCBS_MAX_BUCKETS - 1)))"

end
