(* ===== verification/Tcp_Events.thy ===== *)
theory Tcp_Events
  imports Tcp_World
begin

text \<open>
  What TCP tells the application, first half of \<open>net/tcp_api.c\<close>: handles, the callbacks
  \<open>on_recv\<close> to \<open>on_connected\<close>, and their dispatcher \<open>lwip_tcp_event\<close>.
\<close>

section \<open>Handle objects\<close>

definition MAX_PCBS :: nat where "MAX_PCBS = 512 * 1024"
definition TCPAPI_PCB_SIZE :: nat where "TCPAPI_PCB_SIZE = 64"

text \<open>The first two words of an element of \<open>pcb_mempool\<close>.\<close>

definition api_alive :: "tcp_world \<Rightarrow> addr \<Rightarrow> nat" where
  "api_alive w a = hdr_next (snd (snd (pcb_mempool w))) a"

definition api_pcb :: "tcp_world \<Rightarrow> addr \<Rightarrow> addr" where
  "api_pcb w a = hdr_next_chunk (snd (snd (pcb_mempool w))) a"

definition set_api_alive :: "addr \<Rightarrow> bool \<Rightarrow> tcp_world \<Rightarrow> tcp_world" where
  "set_api_alive a x w = w\<lparr>pcb_mempool := map_prod (\<lambda>m. m) (map_prod (\<lambda>d. d) (\<lambda>h. set_next h a (if x then 1 else 0))) (pcb_mempool w)\<rparr>"

definition set_api_pcb :: "addr \<Rightarrow> addr \<Rightarrow> tcp_world \<Rightarrow> tcp_world" where
  "set_api_pcb a p w = w\<lparr>pcb_mempool := map_prod (\<lambda>m. m) (map_prod (\<lambda>d. d) (\<lambda>h. set_next_chunk h a p)) (pcb_mempool w)\<rparr>"

definition api_malloc :: "tcp_env \<Rightarrow> tcp_world \<Rightarrow> (addr \<times> tcp_world) res" where
  "api_malloc env w = bindR (kns_mempool_alloc (te_bugs env) (pcb_mempool w)) (\<lambda>(a, m). Inr (a, w\<lparr>pcb_mempool := m\<rparr>))"

definition api_mem_free :: "tcp_env \<Rightarrow> addr \<Rightarrow> tcp_world \<Rightarrow> tcp_world res" where
  "api_mem_free env a w = bindR (kns_mempool_free (te_bugs env) (pcb_mempool w) a) (\<lambda>m. Inr (w\<lparr>pcb_mempool := m\<rparr>))"

definition id_malloc :: "tcp_env \<Rightarrow> tcp_world \<Rightarrow> (addr \<times> tcp_world) res" where
  "id_malloc env w = bindR (kns_mempool_alloc (te_bugs env) (id_mempool w)) (\<lambda>(a, m). Inr (a, w\<lparr>id_mempool := m\<rparr>))"

definition id_mem_free :: "tcp_env \<Rightarrow> addr \<Rightarrow> tcp_world \<Rightarrow> tcp_world res" where
  "id_mem_free env a w = bindR (kns_mempool_free (te_bugs env) (id_mempool w) a) (\<lambda>m. Inr (w\<lparr>id_mempool := m\<rparr>))"

definition tcpapi_to_handle :: "tcp_env \<Rightarrow> nat \<Rightarrow> addr \<Rightarrow> tcp_world \<Rightarrow> u64 res" where
  "tcpapi_to_handle env cur_fg a w =
     bindR (mempool_ptr_to_idx (te_bugs env) (fst (pcb_mempool w)) a TCPAPI_PCB_SIZE) (\<lambda>idx.
     case sk_fgs w cur_fg of
       None \<Rightarrow> Inl Fault
     | Some fg \<Rightarrow> Inr (of_nat idx OR push_bit 48 (ucast (fg_id fg))))"

text \<open>The handle's flow group (an index into \<open>fgs\<close>, \<open>nr_cpus\<close> of which are for outgoing
  connections) and index. A group is current when its CPU is ours.\<close>

definition handle_to_tcpapi :: "tcp_env \<Rightarrow> nat \<Rightarrow> u64 \<Rightarrow> tcp_world \<Rightarrow> ((addr \<times> nat) \<times> tcp_world) res" where
  "handle_to_tcpapi env nr_cpus handle w =
     (let fg = unat (drop_bit 48 handle AND 0xffff);
          idx = unat (handle AND 0xffffffffffff)
      in if fg \<ge> ETH_MAX_TOTAL_FG + nr_cpus then Inr ((NULL, FG_NULL), w)
         else if idx \<ge> MAX_PCBS then Inr ((NULL, FG_NULL), w)
         else
           case sk_fgs w fg of
             None \<Rightarrow> Inl Fault
           | Some g \<Rightarrow>
               bindR (eth_fg_set_current (te_bugs env) (this_cpu (te_net env)) g) (\<lambda>_.
               bindR (mempool_idx_to_ptr (te_bugs env) (fst (pcb_mempool w)) idx TCPAPI_PCB_SIZE) (\<lambda>a.
               if api_alive w a > 1 then Inr ((NULL, fg), w)
               else Inr ((a, fg), w\<lparr>sk_cookie := api_cookie (tw_api w a)\<rparr>))))"

section \<open>Callbacks\<close>

definition tw_mbuf_len :: "addr \<Rightarrow> nat \<Rightarrow> tcp_world \<Rightarrow> tcp_world" where
  "tw_mbuf_len m n = sk_upd_net (\<lambda>x. x\<lparr>nw := set_mbuf_len m n (nw x)\<rparr>)"

fun recv_a_pbuf :: "tcp_env \<Rightarrow> nat \<Rightarrow> addr \<Rightarrow> addr \<Rightarrow> tcp_world \<Rightarrow> tcp_world res" where
  "recv_a_pbuf env 0 a p w = Inl Hang"
| "recv_a_pbuf env (Suc fuel) a p w =
     (if p = NULL \<or> p_mbuf (sk_pb w p) = NULL then Inl Fault
      else
        let b = sk_pb w p; pkt = p_mbuf b; w1 = tw_mbuf_len pkt (unat (p_len b)) w
        in bindR (mbuf_to_iomap (te_net env) w1 pkt (payload b)) (\<lambda>io.
           bindR (on_usys (usys_tcp_recv (api_handle (tw_api w1 a)) (api_cookie (tw_api w1 a)) io (ucast (p_len b))) w1) (\<lambda>w2.
           let q = p_next (sk_pb w2 p)
           in if q \<noteq> NULL then recv_a_pbuf env fuel a q w2 else Inr w2)))"

text \<open>\<open>struct ip_tuple\<close> read from memory.\<close>

definition get_tuple :: "bytemem \<Rightarrow> addr \<Rightarrow> ip_tuple" where
  "get_tuple m a =
     \<lparr>src_ip = of_nat (le_nat (get_bytes m a 4)), dst_ip = of_nat (le_nat (get_bytes m (a + 4) 4)),
      src_port = of_nat (le_nat (get_bytes m (a + 8) 2)), dst_port = of_nat (le_nat (get_bytes m (a + 10) 2))\<rparr>"

definition remove_fdir_filter :: "ip_tuple \<Rightarrow> tcp_world \<Rightarrow> tcp_world" where
  "remove_fdir_filter t w = w\<lparr>fdir_log := fdir_log w @ [Fdir_remove t]\<rparr>"

definition mark_dead :: "addr \<Rightarrow> u64 \<Rightarrow> tcp_world \<Rightarrow> tcp_world res" where
  "mark_dead a cookie w =
     (if a = NULL then on_usys (usys_tcp_dead 0 cookie) w
      else
        let w1 = (if api_id (tw_api w a) \<noteq> NULL
                  then remove_fdir_filter (get_tuple (sk_mem w) (api_id (tw_api w a))) w else w);
            w2 = set_api_alive a False w1
        in on_usys (usys_tcp_dead (api_handle (tw_api w2 a)) (api_cookie (tw_api w2 a))) w2)"

text \<open>The cookie is read through \<open>arg\<close> before \<open>mark_dead\<close> tests it.\<close>

definition on_recv :: "tcp_env \<Rightarrow> addr \<Rightarrow> addr \<Rightarrow> tcp_world \<Rightarrow> (int \<times> tcp_world) res" where
  "on_recv env a p w =
     (if a = NULL then Inl Fault
      else if p = NULL then bindR (mark_dead a (api_cookie (tw_api w a)) w) (\<lambda>w1. Inr (ERR_OK, w1))
      else
        let w1 = (if api_recvd (tw_api w a) = NULL then upd_api a (\<lambda>x. x\<lparr>api_recvd := p, api_recvd_tail := p\<rparr>) w
                  else upd_api a (\<lambda>x. x\<lparr>api_recvd_tail := p\<rparr>)
                         (upd_sk_pb (api_recvd_tail (tw_api w a)) (\<lambda>b. b\<lparr>tcp_api_next := p\<rparr>) w));
            w2 = upd_sk_pb p (\<lambda>b. b\<lparr>tcp_api_next := NULL\<rparr>) w1
        in if \<not> api_accepted (tw_api w2 a) then Inr (ERR_OK, w2)
           else bindR (recv_a_pbuf env (te_fuel env) a p w2) (\<lambda>w3. Inr (ERR_OK, w3)))"

definition on_err :: "addr \<Rightarrow> int \<Rightarrow> tcp_world \<Rightarrow> tcp_world res" where
  "on_err a err w =
     (if a = NULL then Inr w
      else if err = ERR_ABRT \<or> err = ERR_RST \<or> err = ERR_CLSD then
        bindR (mark_dead a (api_cookie (tw_api w a)) w) (\<lambda>w1. Inr (set_api_pcb a NULL w1))
      else Inr w)"

definition on_sent :: "addr \<Rightarrow> u16 \<Rightarrow> tcp_world \<Rightarrow> (int \<times> tcp_world) res" where
  "on_sent a len w =
     (if a = NULL then Inl Fault
      else bindR (on_usys (usys_tcp_sent (api_handle (tw_api w a)) (api_cookie (tw_api w a)) (ucast len)) w) (\<lambda>w1.
           Inr (ERR_OK, w1)))"

definition tcp_nagle_disable :: "addr \<Rightarrow> tcp_world \<Rightarrow> tcp_world" where
  "tcp_nagle_disable p = upd_pcb p (\<lambda>c. c\<lparr>tp_flags := tp_flags c OR TF_NODELAY\<rparr>)"

definition tcp_arg :: "addr \<Rightarrow> addr \<Rightarrow> tcp_world \<Rightarrow> tcp_world" where
  "tcp_arg p a = upd_pcb p (\<lambda>c. c\<lparr>tp_callback_arg := a\<rparr>)"

definition on_accept :: "tcp_env \<Rightarrow> nat \<Rightarrow> addr \<Rightarrow> tcp_world \<Rightarrow> (int \<times> tcp_world) res" where
  "on_accept env cur_fg pcb w =
     bindR (api_malloc env w) (\<lambda>(a, w1).
     if a = NULL then Inr (ERR_MEM, w1)
     else bindR (id_malloc env w1) (\<lambda>(i, w2).
       if i = NULL then bindR (api_mem_free env a w2) (\<lambda>w3. Inr (ERR_MEM, w3))
       else
         let w3 = upd_api a (\<lambda>x. x\<lparr>api_cookie := 0, api_recvd := NULL, api_recvd_tail := NULL, api_accepted := False\<rparr>)
                    (set_api_alive a True (set_api_pcb a pcb w2));
             w4 = tcp_arg pcb a (tcp_nagle_disable pcb w3);
             w5 = sk_upd_mem (put_tuple i \<lparr>src_ip = 0, dst_ip = host_addr (CFG (te_net env)),
                    src_port = tp_local_port (tw_pcb w4 pcb), dst_port = tp_remote_port (tw_pcb w4 pcb)\<rparr>) w4;
             w6 = upd_api a (\<lambda>x. x\<lparr>api_id := i\<rparr>) w5
         in bindR (tcpapi_to_handle env cur_fg a w6) (\<lambda>handle.
            let w7 = upd_api a (\<lambda>x. x\<lparr>api_handle := handle\<rparr>) w6
            in bindR (mempool_pagemem_to_iomap (te_bugs env) (fst (id_mempool w7)) i) (\<lambda>io.
               bindR (on_usys (usys_tcp_knock handle (of_int io)) w7) (\<lambda>w8. Inr (ERR_OK, w8))))))"

definition on_connected :: "addr \<Rightarrow> int \<Rightarrow> tcp_world \<Rightarrow> (int \<times> tcp_world) res" where
  "on_connected a err w =
     (if a = NULL then Inl Fault
      else
        let h = api_handle (tw_api w a); c = api_cookie (tw_api w a)
        in if err \<noteq> ERR_OK then bindR (on_usys (usys_tcp_connected h c RET_CONNREFUSED) w) (\<lambda>w1. Inr (err, w1))
           else bindR (on_usys (usys_tcp_connected h c RET_OK) w) (\<lambda>w1. Inr (ERR_OK, w1)))"

datatype lwip_event = LWIP_EVENT_ACCEPT | LWIP_EVENT_SENT | LWIP_EVENT_RECV | LWIP_EVENT_CONNECTED |
  LWIP_EVENT_POLL | LWIP_EVENT_ERR

definition lwip_tcp_event ::
  "tcp_env \<Rightarrow> nat \<Rightarrow> addr \<Rightarrow> addr \<Rightarrow> lwip_event \<Rightarrow> addr \<Rightarrow> u16 \<Rightarrow> int \<Rightarrow> tcp_world \<Rightarrow> (int \<times> tcp_world) res" where
  "lwip_tcp_event env cur_fg arg pcb event p sz err w =
     (case event of
        LWIP_EVENT_ACCEPT \<Rightarrow> on_accept env cur_fg pcb w
      | LWIP_EVENT_SENT \<Rightarrow> on_sent arg sz w
      | LWIP_EVENT_RECV \<Rightarrow> on_recv env arg p w
      | LWIP_EVENT_CONNECTED \<Rightarrow> on_connected arg err w
      | LWIP_EVENT_ERR \<Rightarrow> bindR (on_err arg err w) (\<lambda>w1. Inr (0, w1))
      | LWIP_EVENT_POLL \<Rightarrow> Inr (ERR_OK, w))"

text \<open>The event macros of \<open>tcp_impl.h\<close> that the repository's code uses.\<close>

definition TCP_EVENT_RECV :: "tcp_env \<Rightarrow> nat \<Rightarrow> addr \<Rightarrow> addr \<Rightarrow> int \<Rightarrow> tcp_world \<Rightarrow> (int \<times> tcp_world) res" where
  "TCP_EVENT_RECV env cur_fg pcb p err w =
     lwip_tcp_event env cur_fg (tp_callback_arg (tw_pcb w pcb)) pcb LWIP_EVENT_RECV p 0 err w"

definition TCP_EVENT_CLOSED :: "tcp_env \<Rightarrow> nat \<Rightarrow> addr \<Rightarrow> tcp_world \<Rightarrow> (int \<times> tcp_world) res" where
  "TCP_EVENT_CLOSED env cur_fg pcb w =
     lwip_tcp_event env cur_fg (tp_callback_arg (tw_pcb w pcb)) pcb LWIP_EVENT_RECV NULL 0 ERR_OK w"

definition TCP_EVENT_POLL :: "tcp_env \<Rightarrow> nat \<Rightarrow> addr \<Rightarrow> tcp_world \<Rightarrow> (int \<times> tcp_world) res" where
  "TCP_EVENT_POLL env cur_fg pcb w =
     lwip_tcp_event env cur_fg (tp_callback_arg (tw_pcb w pcb)) pcb LWIP_EVENT_POLL NULL 0 ERR_OK w"

definition TCP_EVENT_ERR :: "tcp_env \<Rightarrow> nat \<Rightarrow> addr \<Rightarrow> int \<Rightarrow> tcp_world \<Rightarrow> tcp_world res" where
  "TCP_EVENT_ERR env cur_fg arg err w =
     bindR (lwip_tcp_event env cur_fg arg NULL LWIP_EVENT_ERR NULL 0 err w) (\<lambda>(_, w1). Inr w1)"

end
