(* ===== verification/Tcp_Out.thy ===== *)
theory Tcp_Out
  imports Tcp_Events
begin

text \<open>
  TCP output: \<open>net/tcp_out.c\<close>, with the segment functions of \<open>net/tcp.c\<close> it needs and
  \<open>tcp_output_packet\<close> of \<open>net/tcp_api.c\<close>. The functions that return an \<open>err_t\<close> give it as an
  \<open>int\<close>. Sequence and acknowledgement numbers in a header are in network byte order and are
  read and written with \<open>get32\<close> and \<open>put32\<close> where the code calls \<open>ntohl\<close> and \<open>htonl\<close>.
\<close>

section \<open>The TCP header\<close>

definition tcp_src :: nat where "tcp_src = 0"
definition tcp_dest :: nat where "tcp_dest = 2"
definition tcp_seqno :: nat where "tcp_seqno = 4"
definition tcp_ackno :: nat where "tcp_ackno = 8"
definition tcp_hdrlen_flags :: nat where "tcp_hdrlen_flags = 12"
definition tcp_wnd :: nat where "tcp_wnd = 14"
definition tcp_chksum :: nat where "tcp_chksum = 16"
definition tcp_urgp :: nat where "tcp_urgp = 18"

lemmas tcp_layout = tcp_src_def tcp_dest_def tcp_seqno_def tcp_ackno_def tcp_hdrlen_flags_def
  tcp_wnd_def tcp_chksum_def tcp_urgp_def TCP_HLEN_def

definition TCPH_FLAGS :: "bytemem \<Rightarrow> addr \<Rightarrow> u16" where
  "TCPH_FLAGS m h = get16 m (h + tcp_hdrlen_flags) AND TCP_FLAGS"

definition TCPH_HDRLEN_FLAGS_SET :: "addr \<Rightarrow> u16 \<Rightarrow> u8 \<Rightarrow> bytemem \<Rightarrow> bytemem" where
  "TCPH_HDRLEN_FLAGS_SET h len flags m = put16 m (h + tcp_hdrlen_flags) (push_bit 12 len OR ucast flags)"

definition TCPH_SET_FLAG :: "addr \<Rightarrow> u8 \<Rightarrow> bytemem \<Rightarrow> bytemem" where
  "TCPH_SET_FLAG h flags m = put16 m (h + tcp_hdrlen_flags) (get16 m (h + tcp_hdrlen_flags) OR ucast flags)"

definition TCPH_FLAGS_SET :: "addr \<Rightarrow> u8 \<Rightarrow> bytemem \<Rightarrow> bytemem" where
  "TCPH_FLAGS_SET h flags m =
     put16 m (h + tcp_hdrlen_flags) ((get16 m (h + tcp_hdrlen_flags) AND NOT TCP_FLAGS) OR ucast flags)"

definition seg_seqno :: "tcp_world \<Rightarrow> addr \<Rightarrow> u32" where
  "seg_seqno w q = get32 (sk_mem w) (tcphdr (tw_seg w q) + tcp_seqno)"

definition seg_hdr_flags :: "tcp_world \<Rightarrow> addr \<Rightarrow> u16" where
  "seg_hdr_flags w q = TCPH_FLAGS (sk_mem w) (tcphdr (tw_seg w q))"

definition TCP_TCPLEN :: "tcp_world \<Rightarrow> addr \<Rightarrow> u32" where
  "TCP_TCPLEN w q =
     ucast (seg_len (tw_seg w q)) + (if seg_hdr_flags w q AND ucast (TCP_FIN OR TCP_SYN) \<noteq> 0 then 1 else 0)"

definition LWIP_TCP_OPT_LENGTH :: "u8 \<Rightarrow> u8" where
  "LWIP_TCP_OPT_LENGTH flags =
     (if flags AND TF_SEG_OPTS_MSS \<noteq> 0 then 4 else 0) + (if flags AND TF_SEG_OPTS_WND_SCALE \<noteq> 0 then 4 else 0)"

definition RCV_WND_SCALE :: "tcp_pcb \<Rightarrow> u32 \<Rightarrow> u32" where
  "RCV_WND_SCALE c wnd = drop_bit (unat (tp_rcv_scale c)) wnd"

text \<open>The checksum field holds the number as the machine stores it.\<close>

definition put_chksum :: "tcp_env \<Rightarrow> addr \<Rightarrow> addr \<Rightarrow> u32 \<Rightarrow> u32 \<Rightarrow> tcp_world \<Rightarrow> tcp_world" where
  "put_chksum env h p src dst w =
     sk_upd_mem (\<lambda>m. put_bytes m (h + tcp_chksum)
       (le_bytes 2 (te_chksum env m (sk_pb w) p IPPROTO_TCP (tot_len (sk_pb w p)) src dst))) w"

section \<open>Segments\<close>

definition tcp_seg_free :: "tcp_env \<Rightarrow> addr \<Rightarrow> tcp_world \<Rightarrow> tcp_world res" where
  "tcp_seg_free env q w =
     (if q \<noteq> NULL then
        bindR (if sg_p (tw_seg w q) \<noteq> NULL then tw_pbuf_free env (sg_p (tw_seg w q)) w else Inr w) (seg_mem_free env q)
      else Inr w)"

fun tcp_segs_free_loop :: "tcp_env \<Rightarrow> nat \<Rightarrow> addr \<Rightarrow> tcp_world \<Rightarrow> tcp_world res" where
  "tcp_segs_free_loop env 0 q w = (if q = NULL then Inr w else Inl Hang)"
| "tcp_segs_free_loop env (Suc fuel) q w =
     (if q = NULL then Inr w
      else let nxt = sg_next (tw_seg w q)
           in bindR (tcp_seg_free env q w) (tcp_segs_free_loop env fuel nxt))"

definition tcp_segs_free :: "tcp_env \<Rightarrow> addr \<Rightarrow> tcp_world \<Rightarrow> tcp_world res" where
  "tcp_segs_free env q w = tcp_segs_free_loop env (te_fuel env) q w"

definition tcp_seg_copy :: "tcp_env \<Rightarrow> addr \<Rightarrow> tcp_world \<Rightarrow> (addr \<times> tcp_world) res" where
  "tcp_seg_copy env q w =
     bindR (seg_malloc env w) (\<lambda>(c, w1).
     if c = NULL then Inr (NULL, w1)
     else
       let w2 = upd_seg c (\<lambda>_. tw_seg w1 q) w1
       in Inr (c, pbuf_write (pbuf_ref (sg_p (tw_seg w2 c)) (pbuf_view w2)) w2))"

text \<open>The last segment of a non-empty list.\<close>

fun last_seg :: "nat \<Rightarrow> (addr \<Rightarrow> tcp_seg) \<Rightarrow> addr \<Rightarrow> addr res" where
  "last_seg 0 segs q = Inl Hang"
| "last_seg (Suc fuel) segs q = (if sg_next (segs q) = NULL then Inr q else last_seg fuel segs (sg_next (segs q)))"

text \<open>\<open>tcp_eff_send_mss_impl\<close>: the MTU of the interface is read as a signed 16-bit number.\<close>

definition tcp_eff_send_mss :: "tcp_env \<Rightarrow> u16 \<Rightarrow> u32 \<Rightarrow> u16" where
  "tcp_eff_send_mss env sendmss dest =
     (case te_netif env dest of
        None \<Rightarrow> sendmss
      | Some (mtu, _) \<Rightarrow> if mtu \<noteq> 0 then min sendmss (mtu - of_nat IP_HDR_LEN - of_nat TCP_HLEN) else sendmss)"

section \<open>Sending a packet\<close>

definition tcp_output_packet :: "tcp_env \<Rightarrow> nat \<Rightarrow> addr \<Rightarrow> addr \<Rightarrow> tcp_world \<Rightarrow> (u32 \<times> tcp_world) res" where
  "tcp_output_packet env cur_fg pcb p w =
     bindR (on_net (mbuf_alloc_local (te_net env)) w) (\<lambda>(pkt, w1).
     if pkt = NULL then Inr (- ENOMEM, w1)
     else
       let ethhdr = mbuf_mtod pkt; iphdr = ethhdr + ETH_HDR_LEN; payload = iphdr + IP_HDR_LEN;
           c = tw_pcb w1 pcb; dst_addr = ntohl (tp_remote_ip c); tot = tot_len (sk_pb w1 p);
           w2 = sk_upd_mem (\<lambda>m.
                 let m = put_bytes m (iphdr + ip_vhl) [push_bit 4 4 OR of_nat (IP_HDR_LEN div 4)];
                     m = put16 m (iphdr + ip_len) (of_nat IP_HDR_LEN + tot);
                     m = put16 m (iphdr + ip_id) 0;
                     m = put16 m (iphdr + ip_off) 0;
                     m = put_bytes m (iphdr + ip_proto) [IPPROTO_TCP];
                     m = put16 m (iphdr + ip_chksum) 0;
                     m = put_bytes m (iphdr + ip_tos) [tp_tos c];
                     m = put_bytes m (iphdr + ip_ttl) [tp_ttl c];
                     m = put32 m (iphdr + ip_src_addr) (ntohl (tp_local_ip c))
                 in put32 m (iphdr + ip_dst_addr) (ntohl (tp_remote_ip c))) w1
       in bindR (copy_chain (te_fuel env) (sk_pb w2) p payload (sk_mem w2)) (\<lambda>m.
          let w3 = sk_upd_mbuf pkt (\<lambda>b. b\<lparr>mb_ol_flags := PKT_TX_IP_CKSUM OR PKT_TX_TCP_CKSUM\<rparr>) (sk_upd_mem (\<lambda>_. m) w2)
          in bindR (ip_send_one (te_net env) cur_fg dst_addr pkt (ETH_HDR_LEN + IP_HDR_LEN + unat tot) w3) (\<lambda>(ret, w4).
             if ret \<noteq> 0 then bindR (sk_mbuf_free (te_net env) pkt w4) (\<lambda>w5. Inr (- EIO, w5)) else Inr (0, w4))))"

text \<open>A pbuf with a header in front; \<open>seqno\<close> is given in host byte order.\<close>

definition tcp_output_alloc_header ::
  "tcp_env \<Rightarrow> addr \<Rightarrow> u16 \<Rightarrow> u16 \<Rightarrow> u32 \<Rightarrow> tcp_world \<Rightarrow> (addr \<times> tcp_world) res" where
  "tcp_output_alloc_header env pcb optlen datalen seqno w =
     bindR (tw_pbuf_alloc env PBUF_IP (of_nat TCP_HLEN + optlen + datalen) PBUF_RAM w) (\<lambda>(p, w1).
     if p = NULL then Inr (NULL, w1)
     else
       let h = payload (sk_pb w1 p); c = tw_pcb w1 pcb;
           w2 = sk_upd_mem (\<lambda>m.
                 let m = put16 m (h + tcp_src) (tp_local_port c);
                     m = put16 m (h + tcp_dest) (tp_remote_port c);
                     m = put32 m (h + tcp_seqno) seqno;
                     m = put32 m (h + tcp_ackno) (tp_rcv_nxt c);
                     m = TCPH_HDRLEN_FLAGS_SET h (5 + optlen div 4) TCP_ACK m;
                     m = put16 m (h + tcp_wnd) (ucast (RCV_WND_SCALE c (tp_rcv_ann_wnd c)));
                     m = put16 m (h + tcp_chksum) 0
                 in put16 m (h + tcp_urgp) 0) w1
       in Inr (p, upd_pcb pcb (\<lambda>c. c\<lparr>tp_rcv_ann_right_edge := tp_rcv_nxt c + tp_rcv_ann_wnd c\<rparr>) w2))"

text \<open>The end of every function that sends such a pbuf: checksum, output, release.\<close>

definition send_header :: "tcp_env \<Rightarrow> nat \<Rightarrow> addr \<Rightarrow> addr \<Rightarrow> tcp_world \<Rightarrow> tcp_world res" where
  "send_header env cur_fg pcb p w =
     (let c = tw_pcb w pcb;
          w1 = put_chksum env (payload (sk_pb w p)) p (tp_local_ip c) (tp_remote_ip c) w
      in bindR (tcp_output_packet env cur_fg pcb p w1) (\<lambda>(_, w2). tw_pbuf_free env p w2))"

definition tcp_send_empty_ack :: "tcp_env \<Rightarrow> nat \<Rightarrow> addr \<Rightarrow> tcp_world \<Rightarrow> (int \<times> tcp_world) res" where
  "tcp_send_empty_ack env cur_fg pcb w =
     bindR (tcp_output_alloc_header env pcb 0 0 (tp_snd_nxt (tw_pcb w pcb)) w) (\<lambda>(p, w1).
     if p = NULL then Inr (ERR_BUF, w1)
     else
       bindR (tcp_recompute_timers env cur_fg pcb
               (upd_pcb pcb (\<lambda>c. c\<lparr>tp_flags := tp_flags c AND NOT TF_ACK_NOW, tp_delayedack_expires := 0\<rparr>) w1)) (\<lambda>w2.
       bindR (send_header env cur_fg pcb p w2) (\<lambda>w3. Inr (ERR_OK, w3))))"

definition tcp_rst_impl ::
  "tcp_env \<Rightarrow> nat \<Rightarrow> u32 \<Rightarrow> u32 \<Rightarrow> u32 \<Rightarrow> u32 \<Rightarrow> u16 \<Rightarrow> u16 \<Rightarrow> tcp_world \<Rightarrow> tcp_world res" where
  "tcp_rst_impl env cur_fg seqno ackno local_ip remote_ip lport rport w =
     bindR (tw_pbuf_alloc env PBUF_IP (of_nat TCP_HLEN) PBUF_RAM w) (\<lambda>(p, w1).
     if p = NULL then Inr w1
     else
       let h = payload (sk_pb w1 p);
           w2 = sk_upd_mem (\<lambda>m.
                 let m = put16 m (h + tcp_src) lport;
                     m = put16 m (h + tcp_dest) rport;
                     m = put32 m (h + tcp_seqno) seqno;
                     m = put32 m (h + tcp_ackno) ackno;
                     m = TCPH_HDRLEN_FLAGS_SET h (of_nat (TCP_HLEN div 4)) (TCP_RST OR TCP_ACK) m;
                     m = put16 m (h + tcp_wnd) (ucast (drop_bit TCP_RCV_SCALE TCP_WND AND 0xFFFF));
                     m = put16 m (h + tcp_chksum) 0
                 in put16 m (h + tcp_urgp) 0) w1;
           w3 = put_chksum env h p local_ip remote_ip w2
       in bindR (ip_output_hinted (te_net env) (te_fuel env) cur_fg p local_ip remote_ip TCP_TTL 0 IPPROTO_TCP w3) (\<lambda>(_, w4).
          tw_pbuf_free env p w4))"

text \<open>The macro \<open>tcp_rst\<close> on the fields of a control block.\<close>

definition tcp_rst_pcb :: "tcp_env \<Rightarrow> nat \<Rightarrow> addr \<Rightarrow> tcp_world \<Rightarrow> tcp_world res" where
  "tcp_rst_pcb env cur_fg pcb w =
     (let c = tw_pcb w pcb in
      tcp_rst_impl env cur_fg (tp_snd_nxt c) (tp_rcv_nxt c) (tp_local_ip c) (tp_remote_ip c)
        (tp_local_port c) (tp_remote_port c) w)"

end
