(* ===== verification/Tcp_Write.thy ===== *)
theory Tcp_Write
  imports Tcp_Out
begin

text \<open>
  Queueing data and control segments: \<open>tcp_create_segment\<close>, \<open>tcp_write\<close>, \<open>tcp_enqueue_flags\<close>
  and \<open>tcp_send_fin\<close> of \<open>net/tcp_out.c\<close>.
\<close>

definition tcp_create_segment ::
  "tcp_env \<Rightarrow> addr \<Rightarrow> addr \<Rightarrow> u8 \<Rightarrow> u32 \<Rightarrow> u8 \<Rightarrow> tcp_world \<Rightarrow> (addr \<times> tcp_world) res" where
  "tcp_create_segment env pcb p flags seqno optflags w =
     (let optlen = LWIP_TCP_OPT_LENGTH optflags in
      bindR (seg_malloc env w) (\<lambda>(q, w1).
      if q = NULL then bindR (tw_pbuf_free env p w1) (\<lambda>w2. Inr (NULL, w2))
      else
        let w2 = upd_seg q (\<lambda>g. g\<lparr>seg_flags := optflags, sg_next := NULL, sg_p := p,
                   seg_len := tot_len (sk_pb w1 p) - ucast optlen\<rparr>) w1;
            (failed, ps) = pbuf_header p (of_nat TCP_HLEN) (pbuf_view w2);
            w3 = pbuf_write ps w2
        in if failed \<noteq> 0 then bindR (tcp_seg_free env q w3) (\<lambda>w4. Inr (NULL, w4))
           else
             let h = payload (sk_pb w3 p); c = tw_pcb w3 pcb;
                 w4 = upd_seg q (\<lambda>g. g\<lparr>tcphdr := h\<rparr>) w3
             in Inr (q, sk_upd_mem (\<lambda>m.
                  let m = put16 m (h + tcp_src) (tp_local_port c);
                      m = put16 m (h + tcp_dest) (tp_remote_port c);
                      m = put32 m (h + tcp_seqno) seqno;
                      m = TCPH_HDRLEN_FLAGS_SET h (5 + ucast optlen div 4) flags m
                  in put16 m (h + tcp_urgp) 0) w4)))"

text \<open>The result is the pbuf, how many bytes are free behind its data, and the state.\<close>

definition tcp_pbuf_prealloc ::
  "tcp_env \<Rightarrow> pbuf_layer \<Rightarrow> u16 \<Rightarrow> u16 \<Rightarrow> u16 \<Rightarrow> addr \<Rightarrow> u8 \<Rightarrow> bool \<Rightarrow> tcp_world \<Rightarrow> ((addr \<times> u16) \<times> tcp_world) res" where
  "tcp_pbuf_prealloc env layer len max_length oversize pcb apiflags first_seg w =
     (let c = tw_pcb w pcb;
          alloc = (if len < max_length \<and>
                      (apiflags AND TCP_WRITE_FLAG_MORE \<noteq> 0 \<or>
                       (tp_flags c AND TF_NODELAY = 0 \<and>
                        (\<not> first_seg \<or> tp_unsent c \<noteq> NULL \<or> tp_unacked c \<noteq> NULL)))
                   then of_nat (min (unat max_length) (unat len + TCP_OVERSIZE)) else len)
      in bindR (tw_pbuf_alloc env layer alloc PBUF_RAM w) (\<lambda>(p, w1).
         if p = NULL then Inr ((NULL, oversize), w1)
         else Inr ((p, p_len (sk_pb w1 p) - len), upd_sk_pb p (\<lambda>b. b\<lparr>tot_len := len, p_len := len\<rparr>) w1)))"

definition tcp_write_checks :: "addr \<Rightarrow> u16 \<Rightarrow> tcp_world \<Rightarrow> int \<times> tcp_world" where
  "tcp_write_checks pcb len w =
     (let c = tw_pcb w pcb; memerr = upd_pcb pcb (\<lambda>c. c\<lparr>tp_flags := tp_flags c OR TF_NAGLEMEMERR\<rparr>) w
      in if tp_state c \<noteq> LWIP_ESTABLISHED \<and> tp_state c \<noteq> LWIP_CLOSE_WAIT \<and>
            tp_state c \<noteq> LWIP_SYN_SENT \<and> tp_state c \<noteq> LWIP_SYN_RCVD then (ERR_CONN, w)
         else if len = 0 then (ERR_OK, w)
         else if ucast len > tp_snd_buf c then (ERR_MEM, memerr)
         else if tp_snd_queuelen c \<ge> TCP_SND_QUEUELEN \<or> tp_snd_queuelen c > TCP_SNDQUEUELEN_OVERFLOW
         then (ERR_MEM, memerr)
         else (ERR_OK, w))"

text \<open>The locals of \<open>tcp_write\<close> that its phases change.\<close>

record write_locals =
  wl_pos :: u16
  wl_queuelen :: u16
  wl_oversize :: u16
  wl_seg :: addr
  wl_prev_seg :: addr
  wl_queue :: addr
  wl_concat_p :: addr

text \<open>Phases 1 and 2 on the last unsent segment \<open>q\<close>: the free bytes of its last pbuf are counted
  (the second component of the result), and a further pbuf is made for its unused space. The
  first component tells a failed allocation.\<close>

definition write_last_segment ::
  "tcp_env \<Rightarrow> addr \<Rightarrow> addr \<Rightarrow> u16 \<Rightarrow> u8 \<Rightarrow> u16 \<Rightarrow> addr \<Rightarrow> write_locals \<Rightarrow> tcp_world \<Rightarrow>
   ((bool \<times> u16 \<times> write_locals) \<times> tcp_world) res" where
  "write_last_segment env pcb arg len apiflags mss_local q l w =
     (let g = tw_seg w q;
          space = mss_local - (seg_len g + ucast (LWIP_TCP_OPT_LENGTH (seg_flags g)));
          oversize = tp_unsent_oversize (tw_pcb w pcb);
          used = (if oversize > 0 then (if oversize < len then oversize else len) else 0);
          l1 = (if oversize > 0 then l\<lparr>wl_seg := q, wl_pos := wl_pos l + used, wl_oversize := oversize - used\<rparr>
                else l\<lparr>wl_oversize := oversize\<rparr>);
          space1 = space - used
      in if wl_pos l1 < len \<and> space1 > 0 \<and> seg_len g > 0 then
           let pos = wl_pos l1;
               seglen = (if space1 < len - pos then space1 else len - pos);
               l2 = l1\<lparr>wl_seg := q\<rparr>
           in bindR (if apiflags AND TCP_WRITE_FLAG_COPY \<noteq> 0 then
                       bindR (tcp_pbuf_prealloc env PBUF_RAW seglen space1 (wl_oversize l2) pcb apiflags True w) (\<lambda>((p, os), w1).
                       Inr ((p, os), if p = NULL then w1
                                     else sk_upd_mem (\<lambda>m. put_bytes m (payload (sk_pb w1 p)) (get_bytes m (arg + unat pos) (unat seglen))) w1))
                     else
                       bindR (tw_pbuf_alloc env PBUF_RAW seglen PBUF_ROM w) (\<lambda>(p, w1).
                       Inr ((p, wl_oversize l2), if p = NULL then w1 else upd_sk_pb p (\<lambda>b. b\<lparr>payload := arg + unat pos\<rparr>) w1)))
                (\<lambda>((p, os), w1).
                 if p = NULL then Inr ((True, used, l2), w1)
                 else
                   bindR (tw_pbuf_clen env p w1) (\<lambda>n.
                   Inr ((False, used, l2\<lparr>wl_concat_p := p, wl_oversize := os, wl_pos := pos + seglen,
                                         wl_queuelen := wl_queuelen l2 + ucast n\<rparr>), w1)))
         else Inr ((False, used, l1), w))"

text \<open>The pbuf chain of one new segment: a copy of the data, or an empty pbuf for the headers in
  front of a reference to the data. \<open>optlen\<close> is 0 without the timestamp option.\<close>

definition write_segment_pbufs ::
  "tcp_env \<Rightarrow> addr \<Rightarrow> addr \<Rightarrow> u16 \<Rightarrow> u16 \<Rightarrow> u8 \<Rightarrow> u16 \<Rightarrow> bool \<Rightarrow> u16 \<Rightarrow> tcp_world \<Rightarrow> ((addr \<times> u16) \<times> tcp_world) res" where
  "write_segment_pbufs env pcb arg pos seglen apiflags mss_local first oversize w =
     (if apiflags AND TCP_WRITE_FLAG_COPY \<noteq> 0 then
        bindR (tcp_pbuf_prealloc env PBUF_TRANSPORT seglen mss_local oversize pcb apiflags first w) (\<lambda>((p, os), w1).
        Inr ((p, os), if p = NULL then w1
                      else sk_upd_mem (\<lambda>m. put_bytes m (payload (sk_pb w1 p)) (get_bytes m (arg + unat pos) (unat seglen))) w1))
      else
        bindR (tw_pbuf_alloc env PBUF_TRANSPORT seglen PBUF_ROM w) (\<lambda>(p2, w1).
        if p2 = NULL then Inr ((NULL, oversize), w1)
        else
          let w2 = upd_sk_pb p2 (\<lambda>b. b\<lparr>payload := arg + unat pos\<rparr>) w1
          in bindR (tw_pbuf_alloc env PBUF_TRANSPORT 0 PBUF_RAM w2) (\<lambda>(p, w3).
             if p = NULL then bindR (tw_pbuf_free env p2 w3) (\<lambda>w4. Inr ((NULL, oversize), w4))
             else bindR (tw_pbuf_cat env p p2 w3) (\<lambda>w4. Inr ((p, oversize), w4)))))"

text \<open>Phase 3. Every turn adds at least one pbuf to the queue length, so that
  \<open>TCP_SND_QUEUELEN + 1\<close> turns are enough.\<close>

fun write_segments ::
  "tcp_env \<Rightarrow> nat \<Rightarrow> addr \<Rightarrow> addr \<Rightarrow> u16 \<Rightarrow> u8 \<Rightarrow> u16 \<Rightarrow> write_locals \<Rightarrow> tcp_world \<Rightarrow> ((bool \<times> write_locals) \<times> tcp_world) res" where
  "write_segments env 0 pcb arg len apiflags mss_local l w = Inl Hang"
| "write_segments env (Suc fuel) pcb arg len apiflags mss_local l w =
     (if \<not> wl_pos l < len then Inr ((False, l), w)
      else
        let pos = wl_pos l; left = len - pos;
            seglen = (if left > mss_local then mss_local else left)
        in bindR (write_segment_pbufs env pcb arg pos seglen apiflags mss_local (wl_queue l = NULL) (wl_oversize l) w) (\<lambda>((p, os), w1).
           if p = NULL then Inr ((True, l), w1)
           else
             bindR (tw_pbuf_clen env p w1) (\<lambda>n.
             let l1 = l\<lparr>wl_oversize := os, wl_queuelen := wl_queuelen l + ucast n\<rparr>
             in if wl_queuelen l1 > TCP_SND_QUEUELEN \<or> wl_queuelen l1 > TCP_SNDQUEUELEN_OVERFLOW then
                  bindR (tw_pbuf_free env p w1) (\<lambda>w2. Inr ((True, l1), w2))
                else
                  bindR (tcp_create_segment env pcb p 0 (tp_snd_lbb (tw_pcb w1 pcb) + ucast pos) 0 w1) (\<lambda>(q, w2).
                  if q = NULL then Inr ((True, l1\<lparr>wl_seg := NULL\<rparr>), w2)
                  else
                    let (l2, w3) = (if wl_queue l1 = NULL then (l1\<lparr>wl_queue := q\<rparr>, w2)
                                    else (l1, upd_seg (wl_prev_seg l1) (\<lambda>g. g\<lparr>sg_next := q\<rparr>) w2))
                    in write_segments env fuel pcb arg len apiflags mss_local
                         (l2\<lparr>wl_seg := q, wl_prev_seg := q, wl_pos := pos + seglen\<rparr>) w3))))"

text \<open>The commit of phase 1: the lengths of the chain grow and the last pbuf takes the bytes.\<close>

fun write_extend :: "nat \<Rightarrow> addr \<Rightarrow> addr \<Rightarrow> u16 \<Rightarrow> tcp_world \<Rightarrow> tcp_world res" where
  "write_extend 0 p arg used w = (if p = NULL then Inr w else Inl Hang)"
| "write_extend (Suc fuel) p arg used w =
     (if p = NULL then Inr w
      else
        let w1 = upd_sk_pb p (\<lambda>b. b\<lparr>tot_len := tot_len b + used\<rparr>) w;
            b = sk_pb w1 p;
            w2 = (if p_next b = NULL then
                    upd_sk_pb p (\<lambda>b. b\<lparr>p_len := p_len b + used\<rparr>)
                      (sk_upd_mem (\<lambda>m. put_bytes m (payload b + unat (p_len b)) (get_bytes m arg (unat used))) w1)
                  else w1)
        in write_extend fuel (p_next (sk_pb w2 p)) arg used w2)"

definition write_commit ::
  "tcp_env \<Rightarrow> addr \<Rightarrow> addr \<Rightarrow> u16 \<Rightarrow> u8 \<Rightarrow> addr \<Rightarrow> u16 \<Rightarrow> write_locals \<Rightarrow> tcp_world \<Rightarrow> tcp_world res" where
  "write_commit env pcb arg len apiflags last_unsent used l w =
     bindR (if used > 0 then
              bindR (write_extend (te_fuel env) (sg_p (tw_seg w last_unsent)) arg used w) (\<lambda>w1.
              Inr (upd_seg last_unsent (\<lambda>g. g\<lparr>seg_len := seg_len g + used\<rparr>) w1))
            else Inr w) (\<lambda>w1.
     let w2 = upd_pcb pcb (\<lambda>c. c\<lparr>tp_unsent_oversize := wl_oversize l\<rparr>) w1; cp = wl_concat_p l
     in bindR (if cp \<noteq> NULL then
                 bindR (tw_pbuf_cat env (sg_p (tw_seg w2 last_unsent)) cp w2) (\<lambda>w3.
                 Inr (upd_seg last_unsent (\<lambda>g. g\<lparr>seg_len := seg_len g + tot_len (sk_pb w3 cp)\<rparr>) w3))
               else Inr w2) (\<lambda>w3.
        let w4 = (if last_unsent = NULL then upd_pcb pcb (\<lambda>c. c\<lparr>tp_unsent := wl_queue l\<rparr>) w3
                  else upd_seg last_unsent (\<lambda>g. g\<lparr>sg_next := wl_queue l\<rparr>) w3);
            w5 = upd_pcb pcb (\<lambda>c. c\<lparr>tp_snd_lbb := tp_snd_lbb c + ucast len, tp_snd_buf := tp_snd_buf c - ucast len,
                   tp_snd_queuelen := wl_queuelen l\<rparr>) w4
        in Inr (if wl_seg l \<noteq> NULL \<and> tcphdr (tw_seg w5 (wl_seg l)) \<noteq> NULL \<and> apiflags AND TCP_WRITE_FLAG_MORE = 0
                then sk_upd_mem (TCPH_SET_FLAG (tcphdr (tw_seg w5 (wl_seg l))) TCP_PSH) w5 else w5)))"

definition write_memerr :: "tcp_env \<Rightarrow> addr \<Rightarrow> write_locals \<Rightarrow> tcp_world \<Rightarrow> tcp_world res" where
  "write_memerr env pcb l w =
     (let w1 = upd_pcb pcb (\<lambda>c. c\<lparr>tp_flags := tp_flags c OR TF_NAGLEMEMERR\<rparr>) w
      in bindR (if wl_concat_p l \<noteq> NULL then tw_pbuf_free env (wl_concat_p l) w1 else Inr w1) (\<lambda>w2.
         if wl_queue l \<noteq> NULL then tcp_segs_free env (wl_queue l) w2 else Inr w2))"

definition tcp_write :: "tcp_env \<Rightarrow> addr \<Rightarrow> addr \<Rightarrow> u16 \<Rightarrow> u8 \<Rightarrow> tcp_world \<Rightarrow> (int \<times> tcp_world) res" where
  "tcp_write env pcb arg len apiflags w =
     (let c = tw_pcb w pcb;
          mss_local = ucast (min (ucast (tp_mss c)) (tp_snd_wnd_max c div 2)) :: u16
      in if arg = NULL then Inr (ERR_ARG, w)
         else
           let (err, w0) = tcp_write_checks pcb len w in
           if err \<noteq> ERR_OK then Inr (err, w0)
           else
             let l = \<lparr>wl_pos = 0, wl_queuelen = tp_snd_queuelen (tw_pcb w0 pcb), wl_oversize = 0, wl_seg = NULL,
                      wl_prev_seg = NULL, wl_queue = NULL, wl_concat_p = NULL\<rparr>
             in bindR (if tp_unsent (tw_pcb w0 pcb) \<noteq> NULL
                       then last_seg (te_fuel env) (tw_seg w0) (tp_unsent (tw_pcb w0 pcb)) else Inr NULL) (\<lambda>last_unsent.
                bindR (if last_unsent \<noteq> NULL then write_last_segment env pcb arg len apiflags mss_local last_unsent l w0
                       else Inr ((False, 0, l), w0)) (\<lambda>((failed, used, l1), w1).
                if failed then bindR (write_memerr env pcb l1 w1) (\<lambda>w2. Inr (ERR_MEM, w2))
                else
                  bindR (write_segments env (unat TCP_SND_QUEUELEN + 1) pcb arg len apiflags mss_local l1 w1) (\<lambda>((failed, l2), w2).
                  if failed then bindR (write_memerr env pcb l2 w2) (\<lambda>w3. Inr (ERR_MEM, w3))
                  else bindR (write_commit env pcb arg len apiflags last_unsent used l2 w2) (\<lambda>w3. Inr (ERR_OK, w3))))))"

section \<open>Control segments\<close>

definition tcp_enqueue_flags :: "tcp_env \<Rightarrow> addr \<Rightarrow> u8 \<Rightarrow> tcp_world \<Rightarrow> (int \<times> tcp_world) res" where
  "tcp_enqueue_flags env pcb flags w =
     (let c = tw_pcb w pcb;
          memerr = upd_pcb pcb (\<lambda>c. c\<lparr>tp_flags := tp_flags c OR TF_NAGLEMEMERR\<rparr>);
          optflags = (if flags AND TCP_SYN \<noteq> 0 then
                        TF_SEG_OPTS_MSS OR (if tp_state c \<noteq> LWIP_SYN_RCVD \<or> tp_flags c AND TF_WND_SCALE \<noteq> 0
                                            then TF_SEG_OPTS_WND_SCALE else 0)
                      else 0);
          optlen = LWIP_TCP_OPT_LENGTH optflags
      in if tp_snd_queuelen c \<ge> TCP_SND_QUEUELEN \<or> tp_snd_queuelen c > TCP_SNDQUEUELEN_OVERFLOW then Inr (ERR_MEM, memerr w)
         else if tp_snd_buf c = 0 then Inr (ERR_MEM, w)
         else
           bindR (tw_pbuf_alloc env PBUF_TRANSPORT (ucast optlen) PBUF_RAM w) (\<lambda>(p, w1).
           if p = NULL then Inr (ERR_MEM, memerr w1)
           else
             bindR (tcp_create_segment env pcb p flags (tp_snd_lbb c) optflags w1) (\<lambda>(q, w2).
             if q = NULL then Inr (ERR_MEM, memerr w2)
             else
               bindR (if tp_unsent (tw_pcb w2 pcb) = NULL then Inr (upd_pcb pcb (\<lambda>c. c\<lparr>tp_unsent := q\<rparr>) w2)
                      else bindR (last_seg (te_fuel env) (tw_seg w2) (tp_unsent (tw_pcb w2 pcb))) (\<lambda>u.
                           Inr (upd_seg u (\<lambda>g. g\<lparr>sg_next := q\<rparr>) w2))) (\<lambda>w3.
               let w4 = upd_pcb pcb (\<lambda>c. c\<lparr>tp_unsent_oversize := 0\<rparr>) w3;
                   w5 = (if flags AND TCP_SYN \<noteq> 0 \<or> flags AND TCP_FIN \<noteq> 0
                         then upd_pcb pcb (\<lambda>c. c\<lparr>tp_snd_lbb := tp_snd_lbb c + 1, tp_snd_buf := tp_snd_buf c - 1\<rparr>) w4 else w4);
                   w6 = (if flags AND TCP_FIN \<noteq> 0 then upd_pcb pcb (\<lambda>c. c\<lparr>tp_flags := tp_flags c OR TF_FIN\<rparr>) w5 else w5)
               in bindR (tw_pbuf_clen env (sg_p (tw_seg w6 q)) w6) (\<lambda>n.
                  Inr (ERR_OK, upd_pcb pcb (\<lambda>c. c\<lparr>tp_snd_queuelen := tp_snd_queuelen c + ucast n\<rparr>) w6))))))"

definition tcp_send_fin :: "tcp_env \<Rightarrow> addr \<Rightarrow> tcp_world \<Rightarrow> (int \<times> tcp_world) res" where
  "tcp_send_fin env pcb w =
     (if tp_unsent (tw_pcb w pcb) \<noteq> NULL then
        bindR (last_seg (te_fuel env) (tw_seg w) (tp_unsent (tw_pcb w pcb))) (\<lambda>q.
        if seg_hdr_flags w q AND ucast (TCP_SYN OR TCP_FIN OR TCP_RST) = 0 then
          Inr (ERR_OK, upd_pcb pcb (\<lambda>c. c\<lparr>tp_flags := tp_flags c OR TF_FIN\<rparr>)
                 (sk_upd_mem (TCPH_SET_FLAG (tcphdr (tw_seg w q)) TCP_FIN) w))
        else tcp_enqueue_flags env pcb TCP_FIN w)
      else tcp_enqueue_flags env pcb TCP_FIN w)"

end
