(* ===== verification/Tcp_Output.thy ===== *)
theory Tcp_Output
  imports Tcp_Write
begin

text \<open>
  Sending what the windows allow, and retransmission: \<open>tcp_output\<close>, \<open>tcp_output_segment\<close>,
  \<open>tcp_rexmit*\<close>, \<open>tcp_keepalive\<close> and \<open>tcp_zero_window_probe\<close> of \<open>net/tcp_out.c\<close>.
\<close>

section \<open>One segment\<close>

text \<open>Options behind the header: the MSS, then the window scale.\<close>

definition put_options :: "tcp_env \<Rightarrow> tcp_pcb \<Rightarrow> addr \<Rightarrow> u8 \<Rightarrow> bytemem \<Rightarrow> bytemem" where
  "put_options env c h sflags m =
     (let opts = h + TCP_HLEN;
          (m1, opts1) = (if sflags AND TF_SEG_OPTS_MSS \<noteq> 0
                         then (put32 m opts (0x02040000 OR (ucast (tcp_eff_send_mss env (of_nat TCP_MSS) (tp_remote_ip c)) AND 0xFFFF)), opts + 4)
                         else (m, opts))
      in if sflags AND TF_SEG_OPTS_WND_SCALE \<noteq> 0 then put32 m1 opts1 (0x01030300 OR of_nat TCP_RCV_SCALE) else m1)"

definition rto_ns :: "u16 \<Rightarrow> u64" where
  "rto_ns rto = scast ((scast rto :: u32) * RTO_UNITS)"

text \<open>Starting the retransmission timer: \<open>RTO_UNITS\<close> is in microseconds, the clock in
  nanoseconds.\<close>

definition set_retransmit :: "tcp_env \<Rightarrow> nat \<Rightarrow> addr \<Rightarrow> tcp_world \<Rightarrow> tcp_world res" where
  "set_retransmit env cur_fg pcb w =
     tcp_recompute_timers env cur_fg pcb
       (upd_pcb pcb (\<lambda>c. c\<lparr>tp_retransmit_expires := te_now env + rto_ns (tp_rto c)\<rparr>) w)"

definition tcp_output_segment :: "tcp_env \<Rightarrow> nat \<Rightarrow> addr \<Rightarrow> addr \<Rightarrow> tcp_world \<Rightarrow> tcp_world res" where
  "tcp_output_segment env cur_fg q pcb w =
     (let h = tcphdr (tw_seg w q); sflags = seg_flags (tw_seg w q); c = tw_pcb w pcb;
          w1 = sk_upd_mem (\<lambda>m.
                 let m = put32 m (h + tcp_ackno) (tp_rcv_nxt c)
                 in put16 m (h + tcp_wnd) (if sflags AND TF_SEG_OPTS_WND_SCALE \<noteq> 0 then ucast (tp_rcv_ann_wnd c)
                                           else ucast (RCV_WND_SCALE c (tp_rcv_ann_wnd c)))) w;
          w2 = upd_pcb pcb (\<lambda>c. c\<lparr>tp_rcv_ann_right_edge := tp_rcv_nxt c + tp_rcv_ann_wnd c\<rparr>) w1;
          w3 = sk_upd_mem (put_options env (tw_pcb w2 pcb) h sflags) w2
      in bindR (set_retransmit env cur_fg pcb w3) (\<lambda>w4.
         case (if tp_local_ip (tw_pcb w4 pcb) = IPADDR_ANY
               then map_option (\<lambda>(_, a). upd_pcb pcb (\<lambda>c. c\<lparr>tp_local_ip := a\<rparr>) w4) (te_netif env (tp_remote_ip (tw_pcb w4 pcb)))
               else Some w4) of
           None \<Rightarrow> Inr w4
         | Some w5 \<Rightarrow>
             bindR (if tp_rttest (tw_pcb w5 pcb) = 0 then
                      bindR (fg_deref w5 cur_fg) (\<lambda>x.
                      Inr (upd_pcb pcb (\<lambda>c. c\<lparr>tp_rttest := tcp_ticks x, tp_rtseq := seg_seqno w5 q\<rparr>) w5))
                    else Inr w5) (\<lambda>w6.
             let p = sg_p (tw_seg w6 q);
                 len = of_int (int h - int (payload (sk_pb w6 p)));
                 w7 = upd_sk_pb p (\<lambda>b. b\<lparr>p_len := p_len b - len, tot_len := tot_len b - len, payload := h\<rparr>) w6;
                 w8 = sk_upd_mem (\<lambda>m. put16 m (h + tcp_chksum) 0) w7;
                 c = tw_pcb w8 pcb;
                 w9 = put_chksum env h p (tp_local_ip c) (tp_remote_ip c) w8
             in bindR (tcp_output_packet env cur_fg pcb p w9) (\<lambda>(_, w10). Inr w10))))"

section \<open>The output loop\<close>

definition tcp_do_output_nagle :: "tcp_world \<Rightarrow> addr \<Rightarrow> bool" where
  "tcp_do_output_nagle w pcb =
     (let c = tw_pcb w pcb in
      tp_unacked c = NULL \<or> tp_flags c AND (TF_NODELAY OR TF_INFR) \<noteq> 0 \<or>
      (tp_unsent c \<noteq> NULL \<and>
       (sg_next (tw_seg w (tp_unsent c)) \<noteq> NULL \<or> seg_len (tw_seg w (tp_unsent c)) \<ge> tp_mss c)) \<or>
      tp_snd_buf c = 0 \<or> tp_snd_queuelen c \<ge> TCP_SND_QUEUELEN)"

text \<open>The bytes from the last acknowledged one to the end of a segment: the window has to cover
  them.\<close>

definition seg_end :: "tcp_world \<Rightarrow> addr \<Rightarrow> addr \<Rightarrow> u32" where
  "seg_end w pcb q = seg_seqno w q - tp_lastack (tw_pcb w pcb) + ucast (seg_len (tw_seg w q))"

text \<open>Insertion of \<open>q\<close> into the list at \<open>cur\<close> before the first segment that is not earlier; the
  result is the new head.\<close>

fun seq_insert :: "nat \<Rightarrow> addr \<Rightarrow> addr \<Rightarrow> tcp_world \<Rightarrow> (addr \<times> tcp_world) res" where
  "seq_insert 0 cur q w = Inl Hang"
| "seq_insert (Suc fuel) cur q w =
     (if cur \<noteq> NULL \<and> TCP_SEQ_LT (seg_seqno w cur) (seg_seqno w q) then
        bindR (seq_insert fuel (sg_next (tw_seg w cur)) q w) (\<lambda>(hd', w1).
        Inr (cur, upd_seg cur (\<lambda>g. g\<lparr>sg_next := hd'\<rparr>) w1))
      else Inr (q, upd_seg q (\<lambda>g. g\<lparr>sg_next := cur\<rparr>) w))"

text \<open>A sent segment \<open>q\<close> goes to the unacknowledged ones, the last of which is \<open>useg\<close>, unless it
  is empty. The result is the new \<open>useg\<close>.\<close>

definition queue_unacked :: "tcp_env \<Rightarrow> addr \<Rightarrow> addr \<Rightarrow> addr \<Rightarrow> tcp_world \<Rightarrow> (addr \<times> tcp_world) res" where
  "queue_unacked env pcb q useg w =
     (if TCP_TCPLEN w q > 0 then
        let w1 = upd_seg q (\<lambda>g. g\<lparr>sg_next := NULL\<rparr>) w; unacked = tp_unacked (tw_pcb w1 pcb)
        in if unacked = NULL then Inr (q, upd_pcb pcb (\<lambda>c. c\<lparr>tp_unacked := q\<rparr>) w1)
           else if TCP_SEQ_LT (seg_seqno w1 q) (seg_seqno w1 useg) then
             bindR (seq_insert (te_fuel env) unacked q w1) (\<lambda>(hd', w2).
             Inr (useg, upd_pcb pcb (\<lambda>c. c\<lparr>tp_unacked := hd'\<rparr>) w2))
           else Inr (q, upd_seg useg (\<lambda>g. g\<lparr>sg_next := q\<rparr>) w1)
      else bindR (tcp_seg_free env q w) (\<lambda>w1. Inr (useg, w1)))"

fun output_loop :: "tcp_env \<Rightarrow> nat \<Rightarrow> nat \<Rightarrow> addr \<Rightarrow> u32 \<Rightarrow> addr \<Rightarrow> addr \<Rightarrow> tcp_world \<Rightarrow> tcp_world res" where
  "output_loop env 0 cur_fg pcb wnd q useg w = Inl Hang"
| "output_loop env (Suc fuel) cur_fg pcb wnd q useg w =
     (if \<not> (q \<noteq> NULL \<and> seg_end w pcb q \<le> wnd) then Inr w
      else if \<not> tcp_do_output_nagle w pcb \<and> tp_flags (tw_pcb w pcb) AND (TF_NAGLEMEMERR OR TF_FIN) = 0 then Inr w
      else
        let w1 = upd_pcb pcb (\<lambda>c. c\<lparr>tp_unsent := sg_next (tw_seg w q)\<rparr>) w
        in bindR (if tp_state (tw_pcb w1 pcb) \<noteq> LWIP_SYN_SENT then
                    tcp_recompute_timers env cur_fg pcb
                      (upd_pcb pcb (\<lambda>c. c\<lparr>tp_flags := tp_flags c AND NOT TF_ACK_NOW, tp_delayedack_expires := 0\<rparr>)
                        (sk_upd_mem (TCPH_SET_FLAG (tcphdr (tw_seg w1 q)) TCP_ACK) w1))
                  else Inr w1) (\<lambda>w2.
           bindR (tcp_output_segment env cur_fg q pcb w2) (\<lambda>w3.
           let snd_nxt = seg_seqno w3 q + TCP_TCPLEN w3 q;
               w4 = (if TCP_SEQ_LT (tp_snd_nxt (tw_pcb w3 pcb)) snd_nxt then upd_pcb pcb (\<lambda>c. c\<lparr>tp_snd_nxt := snd_nxt\<rparr>) w3 else w3)
           in bindR (queue_unacked env pcb q useg w4) (\<lambda>(useg', w5).
              output_loop env fuel cur_fg pcb wnd (tp_unsent (tw_pcb w5 pcb)) useg' w5))))"

text \<open>The comparison at the beginning is one with the address of the variable \<open>tcp_input_pcb\<close>,
  not with the block it points to.\<close>

definition tcp_output :: "tcp_env \<Rightarrow> nat \<Rightarrow> addr \<Rightarrow> tcp_world \<Rightarrow> (int \<times> tcp_world) res" where
  "tcp_output env cur_fg pcb w =
     (if te_input_pcb env = pcb then Inr (ERR_OK, w)
      else
        let c = tw_pcb w pcb; wnd = min (tp_snd_wnd c) (tp_cwnd c); q = tp_unsent c
        in if tp_flags c AND TF_ACK_NOW \<noteq> 0 \<and> (q = NULL \<or> seg_end w pcb q > wnd) then tcp_send_empty_ack env cur_fg pcb w
           else
             bindR (if tp_unacked c \<noteq> NULL then last_seg (te_fuel env) (tw_seg w) (tp_unacked c) else Inr NULL) (\<lambda>useg.
             bindR (output_loop env (te_fuel env) cur_fg pcb wnd q useg w) (\<lambda>w1.
             let w2 = (if tp_unsent (tw_pcb w1 pcb) = NULL then upd_pcb pcb (\<lambda>c. c\<lparr>tp_unsent_oversize := 0\<rparr>) w1 else w1)
             in Inr (ERR_OK, upd_pcb pcb (\<lambda>c. c\<lparr>tp_flags := tp_flags c AND NOT TF_NAGLEMEMERR\<rparr>) w2))))"

section \<open>Retransmission\<close>

definition tcp_rexmit_rto :: "tcp_env \<Rightarrow> nat \<Rightarrow> addr \<Rightarrow> tcp_world \<Rightarrow> tcp_world res" where
  "tcp_rexmit_rto env cur_fg pcb w =
     (let c = tw_pcb w pcb in
      if tp_unacked c = NULL then Inr w
      else
        bindR (last_seg (te_fuel env) (tw_seg w) (tp_unacked c)) (\<lambda>q.
        let w1 = upd_seg q (\<lambda>g. g\<lparr>sg_next := tp_unsent c\<rparr>) w;
            w2 = upd_pcb pcb (\<lambda>c. c\<lparr>tp_unsent := tp_unacked c, tp_unacked := NULL, tp_nrtx := tp_nrtx c + 1, tp_rttest := 0\<rparr>) w1
        in bindR (tcp_output env cur_fg pcb w2) (\<lambda>(_, w3). Inr w3)))"

definition tcp_rexmit :: "tcp_env \<Rightarrow> addr \<Rightarrow> tcp_world \<Rightarrow> tcp_world res" where
  "tcp_rexmit env pcb w =
     (let c = tw_pcb w pcb; q = tp_unacked c in
      if q = NULL then Inr w
      else
        let w1 = upd_pcb pcb (\<lambda>c. c\<lparr>tp_unacked := sg_next (tw_seg w q)\<rparr>) w
        in bindR (seq_insert (te_fuel env) (tp_unsent (tw_pcb w1 pcb)) q w1) (\<lambda>(hd', w2).
           let w3 = upd_pcb pcb (\<lambda>c. c\<lparr>tp_unsent := hd'\<rparr>) w2;
               w4 = (if sg_next (tw_seg w3 q) = NULL then upd_pcb pcb (\<lambda>c. c\<lparr>tp_unsent_oversize := 0\<rparr>) w3 else w3)
           in Inr (upd_pcb pcb (\<lambda>c. c\<lparr>tp_nrtx := tp_nrtx c + 1, tp_rttest := 0\<rparr>) w4)))"

text \<open>The congestion window after three duplicate acknowledgements.\<close>

definition fast_recovery :: "tcp_pcb \<Rightarrow> tcp_pcb" where
  "fast_recovery c =
     (let ssthresh = (if tp_cwnd c > tp_snd_wnd c then tp_snd_wnd c div 2 else tp_cwnd c div 2);
          ssthresh = (if ssthresh < 2 * ucast (tp_mss c) then 2 * ucast (tp_mss c) else ssthresh)
      in c\<lparr>tp_ssthresh := ssthresh, tp_cwnd := ssthresh + 3 * ucast (tp_mss c), tp_flags := tp_flags c OR TF_INFR\<rparr>)"

definition tcp_rexmit_fast :: "tcp_env \<Rightarrow> addr \<Rightarrow> tcp_world \<Rightarrow> tcp_world res" where
  "tcp_rexmit_fast env pcb w =
     (if tp_unacked (tw_pcb w pcb) \<noteq> NULL \<and> tp_flags (tw_pcb w pcb) AND TF_INFR = 0 then
        bindR (tcp_rexmit env pcb w) (\<lambda>w1. Inr (upd_pcb pcb fast_recovery w1))
      else Inr w)"

definition tcp_keepalive :: "tcp_env \<Rightarrow> nat \<Rightarrow> addr \<Rightarrow> tcp_world \<Rightarrow> tcp_world res" where
  "tcp_keepalive env cur_fg pcb w =
     bindR (tcp_output_alloc_header env pcb 0 0 (tp_snd_nxt (tw_pcb w pcb) - 1) w) (\<lambda>(p, w1).
     if p = NULL then Inr w1 else send_header env cur_fg pcb p w1)"

definition tcp_zero_window_probe :: "tcp_env \<Rightarrow> nat \<Rightarrow> addr \<Rightarrow> tcp_world \<Rightarrow> tcp_world res" where
  "tcp_zero_window_probe env cur_fg pcb w =
     (let c = tw_pcb w pcb; q = (if tp_unacked c = NULL then tp_unsent c else tp_unacked c) in
      if q = NULL then Inr w
      else
        let is_fin = (seg_hdr_flags w q AND ucast TCP_FIN \<noteq> 0 \<and> seg_len (tw_seg w q) = 0);
            len = (if is_fin then 0 else 1)
        in bindR (tcp_output_alloc_header env pcb 0 len (seg_seqno w q) w) (\<lambda>(p, w1).
           if p = NULL then Inr w1
           else
             let h = payload (sk_pb w1 p); g = tw_seg w1 q in
             bindR (if is_fin then Inr (sk_upd_mem (TCPH_FLAGS_SET h (TCP_ACK OR TCP_FIN)) w1)
                    else bindR (on_pbuf (pbuf_copy_partial (te_fuel env) (sg_p g) (h + TCP_HLEN) 1
                                  (tot_len (sk_pb w1 (sg_p g)) - seg_len g)) w1) (\<lambda>(_, w2). Inr w2)) (\<lambda>w2.
             send_header env cur_fg pcb p w2)))"

end
