(* ===== verification/Tcp.thy ===== *)
theory Tcp
  imports Tcp_Output
begin

text \<open>
  Connections: \<open>net/tcp.c\<close> without its timers (theory \<open>Tcp_Timers\<close>). A call of \<open>panic\<close> is the
  same stop as a true \<open>BUG_ON\<close>. \<open>LWIP_ERROR\<close> only prints before it returns. The identifier
  \<open>TIME_WAIT\<close>, which is declared nowhere, is read as \<open>LWIP_TIME_WAIT\<close>.
\<close>

section \<open>Allocation\<close>

definition utimer_zero :: utimer where
  "utimer_zero = \<lparr>ut_enqueued = False, ut_running = False, ut_expires = 0, ut_softexpires = 0,
     ut_fg_id = 0, ut_cur_fg = FG_NULL\<rparr>"

text \<open>A control block after \<open>memset(pcb, 0, \<dots>)\<close>.\<close>

definition pcb_zero :: tcp_pcb where
  "pcb_zero = \<lparr>tp_local_ip = 0, tp_remote_ip = 0, tp_so_options = 0, tp_tos = 0, tp_ttl = 0,
     tp_link = Unlinked, tp_unified_timer = utimer_zero, tp_delayedack_expires = 0,
     tp_retransmit_expires = 0, tp_persist_expires = 0, tp_callback_arg = NULL, tp_delayed_ack_counter = 0,
     tp_state = LWIP_CLOSED, tp_prio = 0, tp_local_port = 0,
     tp_remote_port = 0, tp_flags = 0, tp_polltmr = 0, tp_pollinterval = 0, tp_last_timer = 0, tp_tmr = 0,
     tp_rcv_nxt = 0, tp_rcv_wnd = 0, tp_rcv_ann_wnd = 0, tp_rcv_ann_right_edge = 0, tp_mss = 0, tp_rttest = 0,
     tp_rtseq = 0, tp_sa = 0, tp_sv = 0, tp_rto = 0, tp_nrtx = 0, tp_dupacks = 0, tp_lastack = 0,
     tp_cwnd = 0, tp_ssthresh = 0, tp_snd_nxt = 0, tp_snd_wl1 = 0, tp_snd_wl2 = 0, tp_snd_lbb = 0, tp_snd_wnd = 0,
     tp_snd_wnd_max = 0, tp_acked = 0, tp_snd_buf = 0, tp_snd_queuelen = 0, tp_unsent_oversize = 0, tp_unsent = NULL,
     tp_unacked = NULL, tp_ooseq = NULL, tp_refused_data = NULL, tp_keep_idle = 0, tp_persist_cnt = 0,
     tp_persist_backoff = 0, tp_keep_cnt_sent = 0, tp_snd_scale = 0, tp_rcv_scale = 0\<rparr>"

definition tcp_next_iss :: "nat \<Rightarrow> tcp_world \<Rightarrow> (u32 \<times> tcp_world) res" where
  "tcp_next_iss cur_fg w =
     bindR (fg_deref w cur_fg) (\<lambda>x.
     let n = iss x + tcp_ticks x in Inr (n, upd_fg cur_fg (\<lambda>x. x\<lparr>iss := n\<rparr>) w))"

definition u8_of_bool :: "bool \<Rightarrow> u8" where "u8_of_bool b = (if b then 1 else 0)"

definition tcp_initial_mss :: u16 where
  "tcp_initial_mss = (if TCP_MSS > 536 then 536 else of_nat TCP_MSS)"

text \<open>\<open>tcp_init\<close>; \<open>rnd\<close> is what \<open>get_random_bytes\<close> gives.\<close>

definition tcp_init :: "u32 \<Rightarrow> nat \<Rightarrow> tcp_world \<Rightarrow> tcp_world res" where
  "tcp_init rnd cur_fg = fg_write cur_fg (\<lambda>x. x\<lparr>tcpip_timer := hrtimer_init (tcpip_timer x), iss := rnd\<rparr>)"

text \<open>Without a free control block \<open>tcp_alloc\<close> panics; the code behind the panic, which would
  kill other connections (\<open>tcp_kill_timewait\<close>, \<open>tcp_kill_prio\<close>), is not reached.\<close>

definition tcp_alloc :: "tcp_env \<Rightarrow> nat \<Rightarrow> u8 \<Rightarrow> tcp_world \<Rightarrow> (addr \<times> tcp_world) res" where
  "tcp_alloc env cur_fg prio w =
     bindR (pcb_malloc env w) (\<lambda>(p, w1).
     if p = NULL then Inl BugOn
     else
       let w2 = upd_pcb p (\<lambda>_. pcb_zero\<lparr>tp_prio := prio, tp_snd_buf := TCP_SND_BUF, tp_snd_queuelen := 0,
                  tp_rcv_wnd := TCP_WND, tp_rcv_ann_wnd := TCP_WND, tp_snd_scale := 0, tp_rcv_scale := 0,
                  tp_tos := 0, tp_ttl := TCP_TTL, tp_mss := tcp_initial_mss,
                  tp_rto := ucast (3000 div TCP_SLOW_INTERVAL), tp_sa := 0,
                  tp_sv := ucast (3000 div TCP_SLOW_INTERVAL), tp_cwnd := 1\<rparr>) w1
       in bindR (tcp_next_iss cur_fg w2) (\<lambda>(n, w3).
          bindR (fg_deref w3 cur_fg) (\<lambda>x.
          Inr (p, upd_pcb p (\<lambda>c. c\<lparr>tp_snd_wl2 := n, tp_snd_nxt := n, tp_lastack := n, tp_snd_lbb := n,
                 tp_tmr := tcp_ticks x, tp_last_timer := u8_of_bool (tcp_timer_ctr x), tp_polltmr := 0,
                 tp_keep_idle := TCP_KEEPIDLE_DEFAULT, tp_keep_cnt_sent := 0\<rparr>) w3))))"

definition tcp_new :: "tcp_env \<Rightarrow> nat \<Rightarrow> tcp_world \<Rightarrow> (addr \<times> tcp_world) res" where
  "tcp_new env cur_fg = tcp_alloc env cur_fg TCP_PRIO_NORMAL"

definition tcp_setprio :: "addr \<Rightarrow> u8 \<Rightarrow> tcp_world \<Rightarrow> tcp_world" where
  "tcp_setprio pcb prio = upd_pcb pcb (\<lambda>c. c\<lparr>tp_prio := prio\<rparr>)"

definition tcp_poll :: "addr \<Rightarrow> u8 \<Rightarrow> tcp_world \<Rightarrow> tcp_world" where
  "tcp_poll pcb interval = upd_pcb pcb (\<lambda>c. c\<lparr>tp_pollinterval := interval\<rparr>)"

section \<open>Release\<close>

definition tcp_pcb_purge :: "tcp_env \<Rightarrow> addr \<Rightarrow> tcp_world \<Rightarrow> tcp_world res" where
  "tcp_pcb_purge env pcb w =
     (let c = tw_pcb w pcb in
      if tp_state c = LWIP_CLOSED \<or> tp_state c = LWIP_TIME_WAIT \<or> tp_state c = LWIP_LISTEN then Inr w
      else
        bindR (if tp_refused_data c \<noteq> NULL then
                 bindR (tw_pbuf_free env (tp_refused_data c) w) (\<lambda>w1.
                 Inr (upd_pcb pcb (\<lambda>c. c\<lparr>tp_refused_data := NULL\<rparr>) w1))
               else Inr w) (\<lambda>w1.
        bindR (tcp_segs_free env (tp_ooseq (tw_pcb w1 pcb)) w1) (\<lambda>w2.
        bindR (cancel_timer pcb (upd_pcb pcb (\<lambda>c. c\<lparr>tp_ooseq := NULL\<rparr>) w2)) (\<lambda>w3.
        bindR (tcp_segs_free env (tp_unsent (tw_pcb w3 pcb)) w3) (\<lambda>w4.
        bindR (tcp_segs_free env (tp_unacked (tw_pcb w4 pcb)) w4) (\<lambda>w5.
        Inr (upd_pcb pcb (\<lambda>c. c\<lparr>tp_unacked := NULL, tp_unsent := NULL, tp_unsent_oversize := 0\<rparr>) w5)))))))"

definition tcp_pcb_remove :: "tcp_env \<Rightarrow> nat \<Rightarrow> addr \<Rightarrow> tcp_world \<Rightarrow> tcp_world res" where
  "tcp_pcb_remove env cur_fg pcb w =
     bindR (TCP_RMV env cur_fg pcb w) (\<lambda>w1.
     bindR (tcp_pcb_purge env pcb w1) (\<lambda>w2.
     let c = tw_pcb w2 pcb in
     bindR (if tp_state c \<noteq> LWIP_TIME_WAIT \<and> tp_state c \<noteq> LWIP_LISTEN \<and> tp_delayedack_expires c > 0 then
              bindR (tcp_output env cur_fg pcb (tcp_ack_now pcb w2)) (\<lambda>(_, w3). Inr w3)
            else Inr w2) (\<lambda>w3.
     Inr (upd_pcb pcb (\<lambda>c. c\<lparr>tp_state := LWIP_CLOSED\<rparr>) w3))))"

definition TCP_PCB_REMOVE_ACTIVE :: "tcp_env \<Rightarrow> nat \<Rightarrow> addr \<Rightarrow> tcp_world \<Rightarrow> tcp_world res" where
  "TCP_PCB_REMOVE_ACTIVE env cur_fg pcb w =
     bindR (tcp_pcb_remove env cur_fg pcb w) (fg_write cur_fg (\<lambda>x. x\<lparr>tcp_active_pcb_changed := True\<rparr>))"

definition tcp_close_with_reset :: "tcp_env \<Rightarrow> nat \<Rightarrow> addr \<Rightarrow> tcp_world \<Rightarrow> tcp_world res" where
  "tcp_close_with_reset env cur_fg pcb w =
     bindR (tcp_rst_pcb env cur_fg pcb w) (\<lambda>w1.
     bindR (tcp_pcb_purge env pcb w1) (\<lambda>w2.
     bindR (TCP_RMV_ACTIVE env cur_fg pcb w2) (pcb_mem_free env pcb)))"

definition tcp_abandon :: "tcp_env \<Rightarrow> nat \<Rightarrow> addr \<Rightarrow> bool \<Rightarrow> tcp_world \<Rightarrow> tcp_world res" where
  "tcp_abandon env cur_fg pcb reset w =
     (let c = tw_pcb w pcb in
      if tp_state c = LWIP_TIME_WAIT then bindR (tcp_pcb_remove env cur_fg pcb w) (pcb_mem_free env pcb)
      else
        let send_rst = (reset \<and> tp_state c \<noteq> LWIP_CLOSED) in
        bindR (TCP_PCB_REMOVE_ACTIVE env cur_fg pcb w) (\<lambda>w1.
        bindR (tcp_segs_free env (tp_unacked (tw_pcb w1 pcb)) w1) (\<lambda>w2.
        bindR (tcp_segs_free env (tp_unsent (tw_pcb w2 pcb)) w2) (\<lambda>w3.
        bindR (tcp_segs_free env (tp_ooseq (tw_pcb w3 pcb)) w3) (\<lambda>w4.
        let d = tw_pcb w4 pcb in
        bindR (if send_rst then
                 tcp_rst_impl env cur_fg (tp_snd_nxt c) (tp_rcv_nxt c) (tp_local_ip d) (tp_remote_ip d)
                   (tp_local_port d) (tp_remote_port d) w4
               else Inr w4) (\<lambda>w5.
        bindR (pcb_mem_free env pcb w5) (\<lambda>w6.
        TCP_EVENT_ERR env cur_fg (tp_callback_arg c) ERR_ABRT w6)))))))"

definition tcp_abort :: "tcp_env \<Rightarrow> nat \<Rightarrow> addr \<Rightarrow> tcp_world \<Rightarrow> tcp_world res" where
  "tcp_abort env cur_fg pcb = tcp_abandon env cur_fg pcb True"

text \<open>The choice of a victim: the oldest of the lowest priority, and the oldest in TIME-WAIT.\<close>

definition kill_prio_step :: "tcp_world \<Rightarrow> u32 \<Rightarrow> u8 \<Rightarrow> addr \<Rightarrow> addr \<times> u32 \<times> u8 \<Rightarrow> addr \<times> u32 \<times> u8" where
  "kill_prio_step w ticks prio p = (\<lambda>(inactive, inactivity, mprio).
     let c = tw_pcb w p in
     if tp_prio c \<le> prio \<and> tp_prio c \<le> mprio \<and> ticks - tp_tmr c \<ge> inactivity
     then (p, ticks - tp_tmr c, tp_prio c) else (inactive, inactivity, mprio))"

definition tcp_kill_prio :: "tcp_env \<Rightarrow> nat \<Rightarrow> u8 \<Rightarrow> tcp_world \<Rightarrow> tcp_world res" where
  "tcp_kill_prio env cur_fg prio w =
     bindR (fg_deref w cur_fg) (\<lambda>x.
     let (inactive, _, _) = fold (kill_prio_step w (tcp_ticks x) prio)
           (concat (map (active_tbl x) (active_buckets x))) (NULL, 0, TCP_PRIO_MAX)
     in if inactive \<noteq> NULL then tcp_abort env cur_fg inactive w else Inr w)"

definition tcp_kill_timewait :: "tcp_env \<Rightarrow> nat \<Rightarrow> tcp_world \<Rightarrow> tcp_world res" where
  "tcp_kill_timewait env cur_fg w =
     bindR (fg_deref w cur_fg) (\<lambda>x.
     let (inactive, _) = fold (\<lambda>p (inactive, inactivity).
           if tcp_ticks x - tp_tmr (tw_pcb w p) \<ge> inactivity then (p, tcp_ticks x - tp_tmr (tw_pcb w p))
           else (inactive, inactivity)) (tw_pcbs x) (NULL, 0)
     in if inactive \<noteq> NULL then tcp_abort env cur_fg inactive w else Inr w)"

section \<open>Closing\<close>

text \<open>The state in which sending a FIN leaves a connection.\<close>

definition after_fin :: "tcp_state \<Rightarrow> tcp_state" where
  "after_fin st = (if st = LWIP_CLOSE_WAIT then LWIP_LAST_ACK else LWIP_FIN_WAIT_1)"

definition tcp_close_shutdown :: "tcp_env \<Rightarrow> nat \<Rightarrow> addr \<Rightarrow> bool \<Rightarrow> tcp_world \<Rightarrow> (int \<times> tcp_world) res" where
  "tcp_close_shutdown env cur_fg pcb rst_on_unacked_data w =
     (let c = tw_pcb w pcb; st = tp_state c in
      if rst_on_unacked_data \<and> (st = LWIP_ESTABLISHED \<or> st = LWIP_CLOSE_WAIT) \<and>
         (tp_refused_data c \<noteq> NULL \<or> tp_rcv_wnd c \<noteq> TCP_WND) then
        bindR (tcp_rst_pcb env cur_fg pcb w) (\<lambda>w1.
        bindR (tcp_pcb_purge env pcb w1) (\<lambda>w2.
        bindR (TCP_RMV_ACTIVE env cur_fg pcb w2) (\<lambda>w3.
        bindR (if tp_state (tw_pcb w3 pcb) = LWIP_ESTABLISHED then
                 TCP_REG env (Time_wait cur_fg) pcb cur_fg (upd_pcb pcb (\<lambda>c. c\<lparr>tp_state := LWIP_TIME_WAIT\<rparr>) w3)
               else pcb_mem_free env pcb w3) (\<lambda>w4. Inr (ERR_OK, w4)))))
      else if st = LWIP_CLOSED then
        bindR (if tp_local_port c \<noteq> 0 then TCP_RMV env cur_fg pcb w else Inr w) (\<lambda>w1.
        bindR (pcb_mem_free env pcb w1) (\<lambda>w2. Inr (ERR_OK, w2)))
      else if st = LWIP_LISTEN then
        bindR (tcp_pcb_remove env cur_fg pcb w) (\<lambda>w1.
        bindR (listen_mem_free env pcb w1) (\<lambda>w2. Inr (ERR_OK, w2)))
      else if st = LWIP_SYN_SENT then
        bindR (TCP_PCB_REMOVE_ACTIVE env cur_fg pcb w) (\<lambda>w1.
        bindR (pcb_mem_free env pcb w1) (\<lambda>w2. Inr (ERR_OK, w2)))
      else if st = LWIP_SYN_RCVD \<or> st = LWIP_ESTABLISHED \<or> st = LWIP_CLOSE_WAIT then
        bindR (tcp_send_fin env pcb w) (\<lambda>(err, w1).
        if err = ERR_OK then
          bindR (tcp_output env cur_fg pcb (upd_pcb pcb (\<lambda>c. c\<lparr>tp_state := after_fin st\<rparr>) w1)) (\<lambda>(_, w2). Inr (err, w2))
        else Inr (err, w1))
      else Inr (ERR_OK, w))"

definition tcp_close :: "tcp_env \<Rightarrow> nat \<Rightarrow> addr \<Rightarrow> tcp_world \<Rightarrow> (int \<times> tcp_world) res" where
  "tcp_close env cur_fg pcb w =
     (let w1 = (if tp_state (tw_pcb w pcb) \<noteq> LWIP_LISTEN
                then upd_pcb pcb (\<lambda>c. c\<lparr>tp_flags := tp_flags c OR TF_RXCLOSED\<rparr>) w else w)
      in tcp_close_shutdown env cur_fg pcb True w1)"

definition tcp_shutdown :: "tcp_env \<Rightarrow> nat \<Rightarrow> addr \<Rightarrow> bool \<Rightarrow> bool \<Rightarrow> tcp_world \<Rightarrow> (int \<times> tcp_world) res" where
  "tcp_shutdown env cur_fg pcb shut_rx shut_tx w =
     (if tp_state (tw_pcb w pcb) = LWIP_LISTEN then Inr (ERR_CONN, w)
      else
        let w1 = (if shut_rx then upd_pcb pcb (\<lambda>c. c\<lparr>tp_flags := tp_flags c OR TF_RXCLOSED\<rparr>) w else w)
        in if shut_rx \<and> shut_tx then tcp_close_shutdown env cur_fg pcb True w1
           else
             bindR (if shut_rx \<and> tp_refused_data (tw_pcb w1 pcb) \<noteq> NULL then
                      bindR (tw_pbuf_free env (tp_refused_data (tw_pcb w1 pcb)) w1) (\<lambda>w2.
                      Inr (upd_pcb pcb (\<lambda>c. c\<lparr>tp_refused_data := NULL\<rparr>) w2))
                    else Inr w1) (\<lambda>w2.
             let st = tp_state (tw_pcb w2 pcb) in
             if shut_tx then
               if st = LWIP_SYN_RCVD \<or> st = LWIP_ESTABLISHED \<or> st = LWIP_CLOSE_WAIT
               then tcp_close_shutdown env cur_fg pcb shut_rx w2
               else Inr (ERR_CONN, w2)
             else Inr (ERR_OK, w2)))"

section \<open>Binding, listening, connecting\<close>

definition tcp_bind_checklist :: "addr list \<Rightarrow> u32 \<Rightarrow> u16 \<Rightarrow> tcp_world \<Rightarrow> int" where
  "tcp_bind_checklist ps ipaddr port w =
     (if list_ex (\<lambda>p. let c = tw_pcb w p in tp_local_port c = port \<and>
           (tp_local_ip c = IPADDR_ANY \<or> ipaddr = IPADDR_ANY \<or> tp_local_ip c = ipaddr)) ps
      then ERR_USE else 0)"

text \<open>\<open>tcp_new_port\<close> is not implemented: a \<open>BUG_ON(1)\<close> and no return value.\<close>

definition tcp_new_port :: "tcp_env \<Rightarrow> u16 res" where
  "tcp_new_port env = bindR (BUG_ON (te_bugs env) True) (\<lambda>_. Inr (te_no_return env))"

definition tcp_bind :: "tcp_env \<Rightarrow> nat \<Rightarrow> addr \<Rightarrow> u32 \<Rightarrow> u16 \<Rightarrow> tcp_world \<Rightarrow> (int \<times> tcp_world) res" where
  "tcp_bind env cur_fg pcb ipaddr port0 w =
     bindR (BUG_ON (te_bugs env) (cur_fg = FG_NULL)) (\<lambda>_.
     if tp_state (tw_pcb w pcb) \<noteq> LWIP_CLOSED then Inr (ERR_VAL, w)
     else
       bindR (if port0 = 0 then tcp_new_port env else Inr port0) (\<lambda>port.
       if port0 = 0 \<and> port = 0 then Inr (ERR_BUF, w)
       else
         bindR (fg_deref w cur_fg) (\<lambda>x.
         if list_ex (\<lambda>b. tcp_bind_checklist (active_tbl x b) ipaddr port w \<noteq> 0) (active_buckets x) then Inr (ERR_USE, w)
         else if tcp_bind_checklist (bound_pcbs x) ipaddr port w \<noteq> 0 then Inr (ERR_USE, w)
         else if tcp_bind_checklist (tw_pcbs x) ipaddr port w \<noteq> 0 then Inr (ERR_USE, w)
         else
           let w1 = (if ipaddr \<noteq> IPADDR_ANY then upd_pcb pcb (\<lambda>c. c\<lparr>tp_local_ip := ipaddr\<rparr>) w else w);
               w2 = upd_pcb pcb (\<lambda>c. c\<lparr>tp_local_port := port\<rparr>) w1
           in bindR (TCP_REG env (Bound cur_fg) pcb cur_fg w2) (\<lambda>w3. Inr (ERR_OK, w3)))))"

text \<open>The result is \<open>-1\<close> for a null pointer. The backlog and the address are not used.\<close>

definition tcp_listen_with_backlog :: "addr \<Rightarrow> u16 \<Rightarrow> tcp_world \<Rightarrow> int \<times> tcp_world" where
  "tcp_listen_with_backlog lpcb port w =
     (if lpcb = NULL then (- 1, w)
      else
        (0, w\<lparr>tw_listen := (tw_listen w)(lpcb := (tcp_pcb_common.truncate pcb_zero)\<lparr>tp_local_port := port,
                tp_state := LWIP_LISTEN, tp_so_options := SOF_ACCEPTCONN, tp_link := Linked Listeners\<rparr>),
              listen_pcbs := lpcb # listen_pcbs w\<rparr>))"

definition tcp_connect :: "tcp_env \<Rightarrow> nat \<Rightarrow> addr \<Rightarrow> u32 option \<Rightarrow> u16 \<Rightarrow> tcp_world \<Rightarrow> (int \<times> tcp_world) res" where
  "tcp_connect env cur_fg pcb ipaddr port w =
     (if tp_state (tw_pcb w pcb) \<noteq> LWIP_CLOSED then Inr (ERR_ISCONN, w)
      else case ipaddr of
        None \<Rightarrow> Inr (ERR_VAL, w)
      | Some ip \<Rightarrow>
          let w1 = upd_pcb pcb (\<lambda>c. c\<lparr>tp_remote_ip := ip, tp_remote_port := port\<rparr>) w in
          case (if tp_local_ip (tw_pcb w1 pcb) = IPADDR_ANY
                then map_option (\<lambda>(_, a). upd_pcb pcb (\<lambda>c. c\<lparr>tp_local_ip := a\<rparr>) w1) (te_netif env ip)
                else Some w1) of
            None \<Rightarrow> Inr (ERR_RTE, w1)
          | Some w2 \<Rightarrow>
              let old_local_port = tp_local_port (tw_pcb w2 pcb) in
              bindR (if old_local_port = 0 then
                       bindR (tcp_new_port env) (\<lambda>n. Inr (upd_pcb pcb (\<lambda>c. c\<lparr>tp_local_port := n\<rparr>) w2))
                     else Inr w2) (\<lambda>w3.
              if tp_local_port (tw_pcb w3 pcb) = 0 then Inr (ERR_BUF, w3)
              else
                bindR (tcp_next_iss cur_fg w3) (\<lambda>(n, w4).
                let m = tcp_eff_send_mss env tcp_initial_mss (tp_remote_ip (tw_pcb w4 pcb));
                    w5 = upd_pcb pcb (\<lambda>c. c\<lparr>tp_rcv_nxt := 0, tp_snd_nxt := n, tp_lastack := n - 1, tp_snd_lbb := n - 1,
                           tp_rcv_wnd := TCP_WND, tp_rcv_ann_wnd := TCP_WND, tp_rcv_ann_right_edge := 0,
                           tp_snd_wnd := TCP_WND, tp_mss := m, tp_cwnd := 1, tp_ssthresh := ucast m * 10\<rparr>) w4
                in bindR (tcp_enqueue_flags env pcb TCP_SYN w5) (\<lambda>(ret, w6).
                   if ret = ERR_OK then
                     let w7 = upd_pcb pcb (\<lambda>c. c\<lparr>tp_state := LWIP_SYN_SENT\<rparr>) w6 in
                     bindR (if old_local_port \<noteq> 0 then TCP_RMV env cur_fg pcb w7 else Inr w7) (\<lambda>w8.
                     let c = tw_pcb w8 pcb;
                         idx = tcp_to_idx env (tp_local_ip c) (tp_remote_ip c) (tp_local_port c) (tp_remote_port c)
                     in bindR (TCP_REG_ACTIVE env pcb idx cur_fg w8) (\<lambda>w9.
                        bindR (tcp_output env cur_fg pcb w9) (\<lambda>(_, w10). Inr (ret, w10))))
                   else Inr (ret, w6)))))"

section \<open>The receive window\<close>

text \<open>The new window announcement, and by how much the right edge of the window would grow.\<close>

definition update_rcv_ann_wnd :: "tcp_pcb \<Rightarrow> u32 \<times> tcp_pcb" where
  "update_rcv_ann_wnd c =
     (let new_right_edge = tp_rcv_nxt c + tp_rcv_wnd c in
      if TCP_SEQ_GEQ new_right_edge (tp_rcv_ann_right_edge c + min (TCP_WND div 2) (ucast (tp_mss c)))
      then (new_right_edge - tp_rcv_ann_right_edge c, c\<lparr>tp_rcv_ann_wnd := tp_rcv_wnd c\<rparr>)
      else if TCP_SEQ_GT (tp_rcv_nxt c) (tp_rcv_ann_right_edge c) then (0, c\<lparr>tp_rcv_ann_wnd := 0\<rparr>)
      else (0, c\<lparr>tp_rcv_ann_wnd := tp_rcv_ann_right_edge c - tp_rcv_nxt c\<rparr>))"

definition tcp_update_rcv_ann_wnd :: "addr \<Rightarrow> tcp_world \<Rightarrow> u32 \<times> tcp_world" where
  "tcp_update_rcv_ann_wnd pcb w =
     (let (r, c) = update_rcv_ann_wnd (tw_pcb w pcb) in (r, upd_pcb pcb (\<lambda>_. c) w))"

text \<open>\<open>wnd_inflation\<close> is an \<open>int\<close>, and so is the threshold.\<close>

definition tcp_recved :: "tcp_env \<Rightarrow> nat \<Rightarrow> addr \<Rightarrow> u32 \<Rightarrow> tcp_world \<Rightarrow> tcp_world res" where
  "tcp_recved env cur_fg pcb len w =
     (let w1 = upd_pcb pcb (\<lambda>c. let n = tp_rcv_wnd c + len in c\<lparr>tp_rcv_wnd := (if n > TCP_WND then TCP_WND else n)\<rparr>) w;
          (wnd_inflation, w2) = tcp_update_rcv_ann_wnd pcb w1
      in if sint wnd_inflation \<ge> uint TCP_WND_UPDATE_THRESHOLD then
           bindR (tcp_output env cur_fg pcb (tcp_ack_now pcb w2)) (\<lambda>(_, w3). Inr w3)
         else Inr w2)"

definition tcp_state_str :: "string list" where
  "tcp_state_str = [''CLOSED'', ''LISTEN'', ''SYN_SENT'', ''SYN_RCVD'', ''ESTABLISHED'', ''FIN_WAIT_1'', ''FIN_WAIT_2'',
     ''CLOSE_WAIT'', ''CLOSING'', ''LAST_ACK'', ''TIME_WAIT'']"

fun tcp_state_number :: "tcp_state \<Rightarrow> nat" where
  "tcp_state_number LWIP_CLOSED = 0"
| "tcp_state_number LWIP_LISTEN = 1"
| "tcp_state_number LWIP_SYN_SENT = 2"
| "tcp_state_number LWIP_SYN_RCVD = 3"
| "tcp_state_number LWIP_ESTABLISHED = 4"
| "tcp_state_number LWIP_FIN_WAIT_1 = 5"
| "tcp_state_number LWIP_FIN_WAIT_2 = 6"
| "tcp_state_number LWIP_CLOSE_WAIT = 7"
| "tcp_state_number LWIP_CLOSING = 8"
| "tcp_state_number LWIP_LAST_ACK = 9"
| "tcp_state_number LWIP_TIME_WAIT = 10"

definition tcp_debug_state_str :: "tcp_state \<Rightarrow> string" where
  "tcp_debug_state_str s = tcp_state_str ! tcp_state_number s"

end
