(* ===== verification/Tcp_Timers.thy ===== *)
theory Tcp_Timers
  imports Tcp
begin

text \<open>
  The timers of \<open>net/tcp.c\<close>: the periodic timer of a flow group (\<open>tcpip_tcp_timer\<close>,
  \<open>tcp_tmr\<close>, \<open>tcp_slowtmr\<close>, \<open>tcp_fasttmr\<close>) and the timer of a connection
  (\<open>tcp_unified_timer_handler\<close>). Both handlers can end without returning a value, which is
  \<open>None\<close> in the place of the result; \<open>Some True\<close> is \<open>HRTIMER_RESTART\<close>.
\<close>

section \<open>Data refused by the application\<close>

fun tcp_process_refused_loop :: "tcp_env \<Rightarrow> nat \<Rightarrow> nat \<Rightarrow> addr \<Rightarrow> tcp_world \<Rightarrow> (int \<times> tcp_world) res" where
  "tcp_process_refused_loop env 0 cur_fg pcb w =
     (if tp_refused_data (tw_pcb w pcb) = NULL then Inr (ERR_OK, w) else Inl Hang)"
| "tcp_process_refused_loop env (Suc fuel) cur_fg pcb w =
     (let p = tp_refused_data (tw_pcb w pcb) in
      if p = NULL then Inr (ERR_OK, w)
      else
        let refused_flags = p_flags (sk_pb w p) in
        bindR (on_pbuf (pbuf_split_64k (te_fuel env) p) w) (\<lambda>(rest, w1).
        let w2 = upd_pcb pcb (\<lambda>c. c\<lparr>tp_refused_data := rest\<rparr>) w1 in
        bindR (TCP_EVENT_RECV env cur_fg pcb p ERR_OK w2) (\<lambda>(err, w3).
        if err = ERR_OK then
          if refused_flags AND PBUF_FLAG_TCP_FIN \<noteq> 0 \<and> rest = NULL then
            let w4 = (if tp_rcv_wnd (tw_pcb w3 pcb) \<noteq> TCP_WND
                      then upd_pcb pcb (\<lambda>c. c\<lparr>tp_rcv_wnd := tp_rcv_wnd c + 1\<rparr>) w3 else w3)
            in bindR (TCP_EVENT_CLOSED env cur_fg pcb w4) (\<lambda>(err2, w5).
               if err2 = ERR_ABRT then Inr (ERR_ABRT, w5) else tcp_process_refused_loop env fuel cur_fg pcb w5)
          else tcp_process_refused_loop env fuel cur_fg pcb w3
        else if err = ERR_ABRT then Inr (ERR_ABRT, w3)
        else
          bindR (if rest \<noteq> NULL then tw_pbuf_cat env p rest w3 else Inr w3) (\<lambda>w4.
          Inr (ERR_INPROGRESS, upd_pcb pcb (\<lambda>c. c\<lparr>tp_refused_data := p\<rparr>) w4)))))"

definition tcp_process_refused_data :: "tcp_env \<Rightarrow> nat \<Rightarrow> addr \<Rightarrow> tcp_world \<Rightarrow> (int \<times> tcp_world) res" where
  "tcp_process_refused_data env cur_fg pcb w = tcp_process_refused_loop env (te_fuel env) cur_fg pcb w"

section \<open>Walking the lists\<close>

text \<open>The element behind \<open>x\<close>, or the null pointer.\<close>

definition hl_next :: "addr list \<Rightarrow> addr \<Rightarrow> addr" where
  "hl_next xs x = (case dropWhile (\<lambda>y. y \<noteq> x) xs of _ # y # _ \<Rightarrow> y | _ \<Rightarrow> NULL)"

definition hl_first :: "addr list \<Rightarrow> addr" where
  "hl_first xs = (case xs of [] \<Rightarrow> NULL | x # _ \<Rightarrow> x)"

text \<open>
  \<open>hlist_for_each_safe(tmp, n, head)\<close> lets its first argument run over the list and its second
  be the element behind; the code has them the wrong way round and uses \<open>n\<close> as the element.
  The loop body is thus run for the successor of every element, and for the last element with
  the null pointer, where reading the control block faults. The body tells whether to start
  all over (\<open>goto\<close>).
\<close>

fun walk_pcbs ::
  "nat \<Rightarrow> (tcp_world \<Rightarrow> addr list) \<Rightarrow> (addr \<Rightarrow> tcp_world \<Rightarrow> (bool \<times> tcp_world) res) \<Rightarrow> addr \<Rightarrow> tcp_world \<Rightarrow>
   (bool \<times> tcp_world) res" where
  "walk_pcbs 0 lst body tmp w = Inl Hang"
| "walk_pcbs (Suc fuel) lst body tmp w =
     (if tmp = NULL then Inr (False, w)
      else
        let n = hl_next (lst w) tmp in
        if n = NULL then Inl Fault
        else bindR (body n w) (\<lambda>(restart, w1).
             if restart then Inr (True, w1) else walk_pcbs fuel lst body n w1))"

text \<open>\<open>hlist_for_each(cur, &active_buckets)\<close>, likewise with a body that may ask for a restart. No
  body that lets the walk go on adds or removes a bucket.\<close>

fun walk_buckets ::
  "(nat \<Rightarrow> tcp_world \<Rightarrow> (bool \<times> tcp_world) res) \<Rightarrow> nat list \<Rightarrow> tcp_world \<Rightarrow> (bool \<times> tcp_world) res" where
  "walk_buckets body [] w = Inr (False, w)"
| "walk_buckets body (b # bs) w =
     bindR (body b w) (\<lambda>(restart, w1).
     if restart then Inr (True, w1) else walk_buckets body bs w1)"

text \<open>The label at the beginning and the jumps to it.\<close>

fun from_start :: "nat \<Rightarrow> (tcp_world \<Rightarrow> (bool \<times> tcp_world) res) \<Rightarrow> tcp_world \<Rightarrow> tcp_world res" where
  "from_start 0 f w = Inl Hang"
| "from_start (Suc fuel) f w = bindR (f w) (\<lambda>(restart, w1). if restart then from_start fuel f w1 else Inr w1)"

definition bucket_pcbs :: "nat \<Rightarrow> nat \<Rightarrow> tcp_world \<Rightarrow> addr list" where
  "bucket_pcbs cur_fg b w = active_tbl (tw_fg w cur_fg) b"

definition time_wait_pcbs :: "nat \<Rightarrow> tcp_world \<Rightarrow> addr list" where
  "time_wait_pcbs cur_fg w = tw_pcbs (tw_fg w cur_fg)"

section \<open>The slow timer\<close>

definition pcb_remove_called_from_timer :: "tcp_env \<Rightarrow> nat \<Rightarrow> addr \<Rightarrow> bool \<Rightarrow> tcp_world \<Rightarrow> tcp_world res" where
  "pcb_remove_called_from_timer env cur_fg pcb pcb_reset w =
     bindR (tcp_pcb_purge env pcb w) (\<lambda>w1.
     bindR (hlist_del pcb w1) (\<lambda>w2.
     bindR (if pcb_reset then tcp_rst_pcb env cur_fg pcb w2 else Inr w2) (pcb_mem_free env pcb)))"

text \<open>The timeouts: whether a connection is to be removed, and with a reset. The keepalive
  bounds are computed as \<open>unsigned long\<close>.\<close>

definition idle_ticks :: "tcp_fg \<Rightarrow> tcp_pcb \<Rightarrow> u32" where
  "idle_ticks x c = tcp_ticks x - tp_tmr c"

definition wants_keepalive :: "tcp_pcb \<Rightarrow> bool" where
  "wants_keepalive c \<longleftrightarrow> tp_so_options c AND SOF_KEEPALIVE \<noteq> 0 \<and>
     (tp_state c = LWIP_ESTABLISHED \<or> tp_state c = LWIP_CLOSE_WAIT)"

definition keepalive_dead :: "tcp_fg \<Rightarrow> tcp_pcb \<Rightarrow> bool" where
  "keepalive_dead x c \<longleftrightarrow> wants_keepalive c \<and>
     ucast (idle_ticks x c) > (ucast (tp_keep_idle c) + TCP_MAXIDLE) div ucast TCP_SLOW_INTERVAL"

definition keepalive_due :: "tcp_fg \<Rightarrow> tcp_pcb \<Rightarrow> bool" where
  "keepalive_due x c \<longleftrightarrow> wants_keepalive c \<and> \<not> keepalive_dead x c \<and>
     ucast (idle_ticks x c) >
       (ucast (tp_keep_idle c) + ucast (tp_keep_cnt_sent c) * TCP_KEEPINTVL_DEFAULT) div ucast TCP_SLOW_INTERVAL"

definition slow_timeout :: "tcp_fg \<Rightarrow> tcp_pcb \<Rightarrow> bool" where
  "slow_timeout x c \<longleftrightarrow>
     (tp_state c = LWIP_FIN_WAIT_2 \<and> tp_flags c AND TF_RXCLOSED \<noteq> 0 \<and>
        idle_ticks x c > TCP_FIN_WAIT_TIMEOUT div TCP_SLOW_INTERVAL) \<or>
     (tp_state c = LWIP_SYN_RCVD \<and> idle_ticks x c > TCP_SYN_RCVD_TIMEOUT div TCP_SLOW_INTERVAL) \<or>
     (tp_state c = LWIP_LAST_ACK \<and> idle_ticks x c > 2 * TCP_MSL div TCP_SLOW_INTERVAL)"

definition slow_pcb :: "tcp_env \<Rightarrow> nat \<Rightarrow> addr \<Rightarrow> tcp_world \<Rightarrow> (bool \<times> tcp_world) res" where
  "slow_pcb env cur_fg pcb w =
     (let x = tw_fg w cur_fg; ctr = u8_of_bool (tcp_timer_ctr x) in
      if tp_last_timer (tw_pcb w pcb) = ctr then Inr (False, w)
      else
        let w1 = upd_pcb pcb (\<lambda>c. c\<lparr>tp_last_timer := ctr\<rparr>) w; c = tw_pcb w1 pcb in
        bindR (if keepalive_due x c then
                 bindR (tcp_keepalive env cur_fg pcb w1) (\<lambda>w2.
                 Inr (upd_pcb pcb (\<lambda>c. c\<lparr>tp_keep_cnt_sent := tp_keep_cnt_sent c + 1\<rparr>) w2))
               else Inr w1) (\<lambda>w2.
        bindR (let d = tw_pcb w2 pcb in
               if tp_ooseq d \<noteq> NULL \<and> idle_ticks x d \<ge> scast (tp_rto d) * TCP_OOSEQ_TIMEOUT then
                 bindR (tcp_segs_free env (tp_ooseq d) w2) (\<lambda>w3. Inr (upd_pcb pcb (\<lambda>c. c\<lparr>tp_ooseq := NULL\<rparr>) w3))
               else Inr w2) (\<lambda>w3.
        if slow_timeout x c \<or> keepalive_dead x c then
          let err_arg = tp_callback_arg (tw_pcb w3 pcb) in
          bindR (hlist_del pcb w3) (\<lambda>w4.
          bindR (pcb_remove_called_from_timer env cur_fg pcb (keepalive_dead x c) w4) (\<lambda>w5.
          bindR (TCP_EVENT_ERR env cur_fg err_arg ERR_ABRT (upd_fg cur_fg (\<lambda>x. x\<lparr>tcp_active_pcb_changed := False\<rparr>) w5)) (\<lambda>w6.
          Inr (tcp_active_pcb_changed (tw_fg w6 cur_fg), w6))))
        else
          let w4 = upd_pcb pcb (\<lambda>c. c\<lparr>tp_polltmr := tp_polltmr c + 1\<rparr>) w3 in
          if tp_polltmr (tw_pcb w4 pcb) \<ge> tp_pollinterval (tw_pcb w4 pcb) then
            let w5 = upd_fg cur_fg (\<lambda>x. x\<lparr>tcp_active_pcb_changed := False\<rparr>) (upd_pcb pcb (\<lambda>c. c\<lparr>tp_polltmr := 0\<rparr>) w4) in
            bindR (TCP_EVENT_POLL env cur_fg pcb w5) (\<lambda>(err, w6).
            if tcp_active_pcb_changed (tw_fg w6 cur_fg) then Inr (True, w6)
            else if err = ERR_OK then bindR (tcp_output env cur_fg pcb w6) (\<lambda>(_, w7). Inr (False, w7))
            else Inr (False, w6))
          else Inr (False, w4))))"

definition slow_time_wait :: "tcp_env \<Rightarrow> nat \<Rightarrow> addr \<Rightarrow> tcp_world \<Rightarrow> (bool \<times> tcp_world) res" where
  "slow_time_wait env cur_fg pcb w =
     (if idle_ticks (tw_fg w cur_fg) (tw_pcb w pcb) > 2 * TCP_MSL div TCP_SLOW_INTERVAL then
        bindR (tcp_pcb_purge env pcb w) (\<lambda>w1.
        bindR (hlist_del pcb w1) (\<lambda>w2.
        bindR (pcb_mem_free env pcb w2) (\<lambda>w3. Inr (False, w3))))
      else Inr (False, w))"

text \<open>The TIME-WAIT blocks are walked inside the loop over the active buckets.\<close>

definition slow_bucket :: "tcp_env \<Rightarrow> nat \<Rightarrow> nat \<Rightarrow> tcp_world \<Rightarrow> (bool \<times> tcp_world) res" where
  "slow_bucket env cur_fg b w =
     bindR (walk_pcbs (te_fuel env) (bucket_pcbs cur_fg b) (slow_pcb env cur_fg) (hl_first (bucket_pcbs cur_fg b w)) w) (\<lambda>(restart, w1).
     if restart then Inr (True, w1)
     else walk_pcbs (te_fuel env) (time_wait_pcbs cur_fg) (slow_time_wait env cur_fg) (hl_first (time_wait_pcbs cur_fg w1)) w1)"

text \<open>\<open>++\<close> on the \<open>bool\<close> \<open>tcp_timer_ctr\<close> always gives true.\<close>

definition tcp_slowtmr :: "tcp_env \<Rightarrow> nat \<Rightarrow> tcp_world \<Rightarrow> tcp_world res" where
  "tcp_slowtmr env cur_fg w =
     bindR (fg_write cur_fg (\<lambda>x. x\<lparr>tcp_ticks := tcp_ticks x + 1, tcp_timer_ctr := True\<rparr>) w) (\<lambda>w1.
     from_start (te_fuel env)
       (\<lambda>w. walk_buckets (slow_bucket env cur_fg) (active_buckets (tw_fg w cur_fg)) w) w1)"

section \<open>The fast timer\<close>

definition fast_pcb :: "tcp_env \<Rightarrow> nat \<Rightarrow> addr \<Rightarrow> tcp_world \<Rightarrow> (bool \<times> tcp_world) res" where
  "fast_pcb env cur_fg pcb w =
     (let ctr = u8_of_bool (tcp_timer_ctr (tw_fg w cur_fg)) in
      if tp_last_timer (tw_pcb w pcb) \<noteq> ctr then
        let w1 = upd_pcb pcb (\<lambda>c. c\<lparr>tp_last_timer := ctr\<rparr>) w in
        if tp_refused_data (tw_pcb w1 pcb) \<noteq> NULL then
          bindR (tcp_process_refused_data env cur_fg pcb (upd_fg cur_fg (\<lambda>x. x\<lparr>tcp_active_pcb_changed := False\<rparr>) w1)) (\<lambda>(_, w2).
          Inr (tcp_active_pcb_changed (tw_fg w2 cur_fg), w2))
        else Inr (False, w1)
      else Inr (False, w))"

definition fast_bucket :: "tcp_env \<Rightarrow> nat \<Rightarrow> nat \<Rightarrow> tcp_world \<Rightarrow> (bool \<times> tcp_world) res" where
  "fast_bucket env cur_fg b w =
     walk_pcbs (te_fuel env) (bucket_pcbs cur_fg b) (fast_pcb env cur_fg) (hl_first (bucket_pcbs cur_fg b w)) w"

definition tcp_fasttmr :: "tcp_env \<Rightarrow> nat \<Rightarrow> tcp_world \<Rightarrow> tcp_world res" where
  "tcp_fasttmr env cur_fg w =
     bindR (fg_write cur_fg (\<lambda>x. x\<lparr>tcp_timer_ctr := True\<rparr>) w) (\<lambda>w1.
     from_start (te_fuel env)
       (\<lambda>w. walk_buckets (fast_bucket env cur_fg) (active_buckets (tw_fg w cur_fg)) w) w1)"

text \<open>\<open>++cur_fg->tcp_timer & 1\<close> is 1 in every call, as \<open>tcp_timer\<close> is a \<open>bool\<close>.\<close>

definition tcp_tmr :: "tcp_env \<Rightarrow> nat \<Rightarrow> tcp_world \<Rightarrow> tcp_world res" where
  "tcp_tmr env cur_fg w =
     bindR (tcp_fasttmr env cur_fg w) (\<lambda>w1.
     bindR (fg_write cur_fg (\<lambda>x. x\<lparr>tcp_timer := True\<rparr>) w1) (tcp_slowtmr env cur_fg))"

text \<open>The callback of the timer of group \<open>g\<close>; the group it works on is the one in the timer's
  \<open>cur_fg\<close>. The new expiry is absolute.\<close>

definition tcpip_tcp_timer :: "tcp_env \<Rightarrow> nat \<Rightarrow> tcp_world \<Rightarrow> (bool option \<times> tcp_world) res" where
  "tcpip_tcp_timer env g w =
     (let cur_fg = ut_cur_fg (tcpip_timer (tw_fg w g)) in
      bindR (BUG_ON (te_bugs env) (g \<noteq> cur_fg)) (\<lambda>_.
      bindR (tcp_tmr env cur_fg w) (\<lambda>w1.
      bindR (fg_deref w1 cur_fg) (\<lambda>x.
      if active_buckets x \<noteq> [] \<or> tw_pcbs x \<noteq> [] then
        Inr (Some True, upd_fg g (\<lambda>x. x\<lparr>tcpip_timer := (tcpip_timer x)\<lparr>ut_cur_fg := cur_fg,
               ut_expires := ms_to_ktime (TCP_TMR_INTERVAL * ONE_MS), ut_softexpires := ms_to_ktime (TCP_TMR_INTERVAL * ONE_MS)\<rparr>\<rparr>) w1)
      else Inr (None, w1)))))"

section \<open>The timer of a connection\<close>

text \<open>The clock in microseconds. \<open>rto_double\<close> is the number of the C expression
  \<open>((sa >> 3) + sv) << tcp_backoff[nrtx]\<close>, stored in 16 bits.\<close>

definition now_us :: "tcp_env \<Rightarrow> u64" where "now_us env = te_now env div 1000"

definition rto_base :: "tcp_pcb \<Rightarrow> int" where
  "rto_base c = sint (tp_sa c) div 8 + sint (tp_sv c)"

definition backoff_cwnd :: "tcp_pcb \<Rightarrow> tcp_pcb" where
  "backoff_cwnd c =
     (let eff_wnd = min (tp_cwnd c) (tp_snd_wnd c);
          ssthresh = eff_wnd div 2;
          ssthresh = (if ssthresh < ucast (tp_mss c) * 2 then ucast (tp_mss c) * 2 else ssthresh)
      in c\<lparr>tp_ssthresh := ssthresh, tp_cwnd := ucast (tp_mss c)\<rparr>)"

text \<open>The part from the label \<open>next\<close> on.\<close>

definition unified_next :: "tcp_env \<Rightarrow> nat \<Rightarrow> addr \<Rightarrow> tcp_world \<Rightarrow> (bool option \<times> tcp_world) res" where
  "unified_next env cur_fg pcb w =
     bindR (let e = tp_persist_expires (tw_pcb w pcb) in
            if e > 0 \<and> e \<le> now_us env then
              let w1 = upd_pcb pcb (\<lambda>c. c\<lparr>tp_persist_expires := 0, tp_persist_backoff :=
                         (if unat (tp_persist_backoff c) < length tcp_persist_backoff then tp_persist_backoff c + 1 else tp_persist_backoff c)\<rparr>) w
              in bindR (tcp_zero_window_probe env cur_fg pcb w1) (\<lambda>w2.
                 bindR (rd tcp_persist_backoff (tp_persist_backoff (tw_pcb w2 pcb) - 1)) (\<lambda>k.
                 Inr (upd_pcb pcb (\<lambda>c. c\<lparr>tp_persist_expires := now_us env + k * ucast RTO_UNITS\<rparr>) w2)))
            else Inr w) (\<lambda>w3.
     bindR (tcp_recompute_timers env cur_fg pcb w3) (\<lambda>w4. Inr (None, w4)))"

definition tcp_unified_timer_handler :: "tcp_env \<Rightarrow> addr \<Rightarrow> tcp_world \<Rightarrow> (bool option \<times> tcp_world) res" where
  "tcp_unified_timer_handler env pcb w =
     (let cur_fg = ut_cur_fg (tp_unified_timer (tw_pcb w pcb)); ack = tp_delayedack_expires (tw_pcb w pcb) in
      bindR (if ack \<noteq> 0 \<and> ack \<le> now_us env then
               bindR (tcp_output env cur_fg pcb (tcp_ack_now pcb w)) (\<lambda>(_, w1).
               Inr (upd_pcb pcb (\<lambda>c. c\<lparr>tp_flags := tp_flags c AND NOT TF_ACK_NOW, tp_delayedack_expires := 0\<rparr>) w1))
             else Inr w) (\<lambda>w1.
      let rexmit = tp_retransmit_expires (tw_pcb w1 pcb) in
      if rexmit \<noteq> 0 \<and> rexmit \<le> now_us env then
        let w2 = upd_pcb pcb (\<lambda>c. c\<lparr>tp_retransmit_expires := 0\<rparr>) w1; c = tw_pcb w2 pcb in
        if tp_unacked c = NULL then unified_next env cur_fg pcb w2
        else if tp_snd_wnd c = 0 then
          let rto = of_int (rto_base c) in
          unified_next env cur_fg pcb
            (upd_pcb pcb (\<lambda>c. c\<lparr>tp_rto := rto, tp_retransmit_expires := now_us env + rto_ns rto\<rparr>) w2)
        else if (tp_state c = LWIP_SYN_SENT \<and> tp_nrtx c = TCP_SYNMAXRTX) \<or> tp_nrtx c = TCP_MAXRTX then
          bindR (pcb_remove_called_from_timer env cur_fg pcb False w2) (\<lambda>w3. Inr (Some False, w3))
        else
          bindR (if tp_state c \<noteq> LWIP_SYN_SENT then
                   bindR (rd tcp_backoff (tp_nrtx c)) (\<lambda>k.
                   Inr (upd_pcb pcb (\<lambda>c. c\<lparr>tp_rto := of_int (rto_base c * 2 ^ k)\<rparr>) w2))
                 else Inr w2) (\<lambda>w3.
          bindR (tcp_rexmit_rto env cur_fg pcb (upd_pcb pcb backoff_cwnd w3)) (\<lambda>w4. Inr (Some False, w4)))
      else unified_next env cur_fg pcb w1))"

text \<open>The kernel takes an expired timer out of its queue, marks it running and calls it.\<close>

definition run_unified_timer :: "tcp_env \<Rightarrow> addr \<Rightarrow> tcp_world \<Rightarrow> tcp_world res" where
  "run_unified_timer env pcb w =
     (let w1 = upd_pcb pcb (\<lambda>c. c\<lparr>tp_unified_timer := (tp_unified_timer c)\<lparr>ut_enqueued := False, ut_running := True\<rparr>\<rparr>) w
      in bindR (tcp_unified_timer_handler env pcb w1) (\<lambda>(ret, w2).
         Inr (upd_pcb pcb (\<lambda>c. c\<lparr>tp_unified_timer := (tp_unified_timer c)\<lparr>ut_running := False,
                ut_enqueued := (ut_enqueued (tp_unified_timer c) \<or> ret = Some True)\<rparr>\<rparr>) w2)))"

end
