(* ===== verification/Tcp_Api.thy ===== *)
theory Tcp_Api
  imports Tcp_Timers
begin

text \<open>
  The system calls of TCP: the second half of \<open>net/tcp_api.c\<close>. Their results are 64-bit numbers,
  negative ones for errors. \<open>nr_cpus\<close> is the number of groups for outgoing connections.
\<close>

section \<open>Accepting and receiving\<close>

text \<open>The packets received before the application accepted.\<close>

fun recv_pending :: "tcp_env \<Rightarrow> nat \<Rightarrow> addr \<Rightarrow> addr \<Rightarrow> tcp_world \<Rightarrow> tcp_world res" where
  "recv_pending env 0 a p w = (if p = NULL then Inr w else Inl Hang)"
| "recv_pending env (Suc fuel) a p w =
     (if p = NULL then Inr w
      else bindR (recv_a_pbuf env (te_fuel env) a p w) (\<lambda>w1.
           recv_pending env fuel a (tcp_api_next (sk_pb w1 p)) w1))"

definition bsys_tcp_accept :: "tcp_env \<Rightarrow> nat \<Rightarrow> u64 \<Rightarrow> u64 \<Rightarrow> tcp_world \<Rightarrow> (u64 \<times> tcp_world) res" where
  "bsys_tcp_accept env nr_cpus handle cookie w =
     bindR (handle_to_tcpapi env nr_cpus handle w) (\<lambda>((a, cur_fg), w1).
     if a = NULL then Inr (- RET_BADH, w1)
     else
       bindR (if api_id (tw_api w1 a) \<noteq> NULL then
                bindR (id_mem_free env (api_id (tw_api w1 a)) w1) (\<lambda>w2. Inr (upd_api a (\<lambda>x. x\<lparr>api_id := NULL\<rparr>) w2))
              else Inr w1) (\<lambda>w2.
       let w3 = upd_api a (\<lambda>x. x\<lparr>api_cookie := cookie, api_accepted := True\<rparr>) w2
       in bindR (recv_pending env (te_fuel env) a (api_recvd (tw_api w3 a)) w3) (\<lambda>w4. Inr (RET_OK, w4))))"

definition bsys_tcp_reject :: u64 where "bsys_tcp_reject = - RET_NOTSUP"
definition bsys_tcp_send :: u64 where "bsys_tcp_send = - RET_NOTSUP"

text \<open>Releasing the received packets that the first \<open>len\<close> bytes cover; the result is the first
  packet kept.\<close>

fun recv_release :: "tcp_env \<Rightarrow> nat \<Rightarrow> addr \<Rightarrow> u64 \<Rightarrow> tcp_world \<Rightarrow> (addr \<times> tcp_world) res" where
  "recv_release env 0 p len w = (if p = NULL then Inr (NULL, w) else Inl Hang)"
| "recv_release env (Suc fuel) p len w =
     (if p = NULL then Inr (NULL, w)
      else if len < ucast (p_len (sk_pb w p)) then Inr (p, w)
      else
        let nxt = tcp_api_next (sk_pb w p) in
        bindR (tw_pbuf_free env p w) (recv_release env fuel nxt (len - ucast (p_len (sk_pb w p)))))"

definition bsys_tcp_recv_done :: "tcp_env \<Rightarrow> nat \<Rightarrow> u64 \<Rightarrow> u64 \<Rightarrow> tcp_world \<Rightarrow> (u64 \<times> tcp_world) res" where
  "bsys_tcp_recv_done env nr_cpus handle len w =
     bindR (handle_to_tcpapi env nr_cpus handle w) (\<lambda>((a, cur_fg), w1).
     if a = NULL then Inr (- RET_BADH, w1)
     else
       let recvd = api_recvd (tw_api w1 a) in
       bindR (if api_pcb w1 a \<noteq> NULL then tcp_recved env cur_fg (api_pcb w1 a) (ucast len) w1 else Inr w1) (\<lambda>w2.
       bindR (recv_release env (te_fuel env) recvd len w2) (\<lambda>(rest, w3).
       Inr (RET_OK, upd_api a (\<lambda>x. x\<lparr>api_recvd := rest\<rparr>) w3))))"

section \<open>Sending\<close>

text \<open>
  \<open>ua_okay\<close> and \<open>ua_peekq\<close> are \<open>uaccess_okay\<close> and \<open>uaccess_peekq\<close>, which are declared but have no
  body. An entry is a base and a length of 8 bytes each. The loop gives the bytes it queued.
\<close>

record user_access =
  ua_okay :: "u64 \<Rightarrow> u64 \<Rightarrow> bool"
  ua_peekq :: "u64 \<Rightarrow> u64"

definition SIZEOF_SG_ENTRY :: u64 where "SIZEOF_SG_ENTRY = 16"

fun sendv_loop :: "tcp_env \<Rightarrow> user_access \<Rightarrow> addr \<Rightarrow> u64 \<Rightarrow> nat \<Rightarrow> u64 \<Rightarrow> tcp_world \<Rightarrow> (u64 \<times> tcp_world) res" where
  "sendv_loop env ua a ent 0 xmited w = Inr (xmited, w)"
| "sendv_loop env ua a ent (Suc k) xmited w =
     (let base = ua_peekq ua ent; len0 = ua_peekq ua (ent + 8); pcb = api_pcb w a in
      if pcb = NULL then Inl Fault
      else
        let room = min (ucast (tp_snd_buf (tw_pcb w pcb))) 0xFFFF :: u64; buf_full = (len0 > room) in
        if \<not> ua_okay ua base len0 then Inr (xmited, w)
        else
          let len = (if buf_full then room else len0) in
          if len = 0 then Inr (xmited, w)
          else
            bindR (tcp_write env pcb (unat base) (ucast len) 0 w) (\<lambda>(err, w1).
            if err \<noteq> ERR_OK then Inr (xmited, w1)
            else if buf_full then Inr (xmited + len, w1)
            else sendv_loop env ua a (ent + SIZEOF_SG_ENTRY) k (xmited + len) w1))"

definition bsys_tcp_sendv :: "tcp_env \<Rightarrow> nat \<Rightarrow> user_access \<Rightarrow> u64 \<Rightarrow> u64 \<Rightarrow> u32 \<Rightarrow> tcp_world \<Rightarrow> (u64 \<times> tcp_world) res" where
  "bsys_tcp_sendv env nr_cpus ua handle ents nrents w =
     bindR (handle_to_tcpapi env nr_cpus handle w) (\<lambda>((a, cur_fg), w1).
     if a = NULL then Inr (- RET_BADH, w1)
     else if api_alive w1 a = 0 then Inr (- RET_CLOSED, w1)
     else if \<not> ua_okay ua ents (ucast nrents * SIZEOF_SG_ENTRY) then Inr (- RET_FAULT, w1)
     else
       bindR (sendv_loop env ua a ents (min (unat nrents) MAX_SG_ENTRIES) 0 w1) (\<lambda>(xmited, w2).
       if xmited \<noteq> 0 then
         bindR (if api_pcb w2 a = NULL then Inl Fault else tcp_output env cur_fg (api_pcb w2 a) w2) (\<lambda>(_, w3). Inr (xmited, w3))
       else Inr (xmited, w2)))"

section \<open>Closing\<close>

fun release_all :: "tcp_env \<Rightarrow> nat \<Rightarrow> addr \<Rightarrow> tcp_world \<Rightarrow> tcp_world res" where
  "release_all env 0 p w = (if p = NULL then Inr w else Inl Hang)"
| "release_all env (Suc fuel) p w =
     (if p = NULL then Inr w
      else let nxt = tcp_api_next (sk_pb w p) in bindR (tw_pbuf_free env p w) (release_all env fuel nxt))"

definition bsys_tcp_close :: "tcp_env \<Rightarrow> nat \<Rightarrow> u64 \<Rightarrow> tcp_world \<Rightarrow> (u64 \<times> tcp_world) res" where
  "bsys_tcp_close env nr_cpus handle w =
     bindR (handle_to_tcpapi env nr_cpus handle w) (\<lambda>((a, cur_fg), w1).
     if a = NULL then Inr (- RET_BADH, w1)
     else
       bindR (if api_pcb w1 a \<noteq> NULL then tcp_close_with_reset env cur_fg (api_pcb w1 a) w1 else Inr w1) (\<lambda>w2.
       bindR (release_all env (te_fuel env) (api_recvd (tw_api w2 a)) w2) (\<lambda>w3.
       bindR (let i = api_id (tw_api w3 a) in
              if i \<noteq> NULL then id_mem_free env i (remove_fdir_filter (get_tuple (sk_mem w3) i) w3) else Inr w3) (\<lambda>w4.
       bindR (api_mem_free env a w4) (\<lambda>w5. Inr (RET_OK, w5))))))"

section \<open>Connecting\<close>

text \<open>
  The device as \<open>bsys_tcp_connect\<close> sees it: \<open>eth_dev_count\<close>, the number of its flow groups, the
  queue of this CPU, what \<open>fdir_add_perfect_filter\<close> returns, and the key that the local
  \<open>rss_conf\<close> points to (its initialisation is commented out).
\<close>

record conn_env =
  ce_dev_count :: nat
  ce_nb_rx_fgs :: u32
  ce_queue_idx :: nat
  ce_fdir_add :: "ip_tuple \<Rightarrow> int"
  ce_rss_key :: "u8 list"

definition PORTS_PER_CPU :: u32 where "PORTS_PER_CPU = 65536 div 32"

definition htons :: "u16 \<Rightarrow> u16" where "htons x = be_value (le_bytes 2 x)"

definition fg_set_current :: "tcp_env \<Rightarrow> nat \<Rightarrow> tcp_world \<Rightarrow> unit res" where
  "fg_set_current env g w =
     (case sk_fgs w g of None \<Rightarrow> Inl Fault | Some fg \<Rightarrow> eth_fg_set_current (te_bugs env) (this_cpu (te_net env)) fg)"

definition get_port_with_fdir :: "tcp_env \<Rightarrow> conn_env \<Rightarrow> ip_tuple \<Rightarrow> tcp_world \<Rightarrow> (nat \<times> tcp_world) res" where
  "get_port_with_fdir env ce t w =
     (let w1 = w\<lparr>fdir_log := fdir_log w @ [Fdir_add t (ce_queue_idx ce)]\<rparr>; g = outbound_fg_idx_remote (this_cpu (te_net env)) in
      if ce_fdir_add ce t < 0 then Inr (FG_NULL, w1)
      else bindR (fg_set_current env g w1) (\<lambda>_. Inr (g, w1)))"

text \<open>The search for a port whose flow belongs to a group of this CPU; it does not end when the
  CPU has none. \<open>fgs[i]\<close> is the address of the device's \<open>rx_fgs[i]\<close>, which is what the
  \<open>BUG_ON\<close> asks.\<close>

fun find_local_port :: "tcp_env \<Rightarrow> conn_env \<Rightarrow> nat \<Rightarrow> ip_tuple \<Rightarrow> tcp_world \<Rightarrow> ((nat \<times> ip_tuple) \<times> tcp_world) res" where
  "find_local_port env ce 0 t w = Inl Hang"
| "find_local_port env ce (Suc fuel) t w =
     (let cpu = this_cpu (te_net env);
          w1 = (if ucast (local_port w) \<ge> (cpu + 1) * PORTS_PER_CPU then w\<lparr>local_port := ucast (cpu * PORTS_PER_CPU + 1)\<rparr> else w);
          hash = compute_toeplitz_hash (ce_rss_key ce) (ntohl (dst_ip t)) (ntohl (src_ip t)) (htons (dst_port t)) (htons (src_port t));
          g = unat (hash AND (ce_nb_rx_fgs ce - 1))
      in case sk_fgs w1 g of
           None \<Rightarrow> Inl Fault
         | Some fg \<Rightarrow>
             if cur_cpu fg = cpu then
               bindR (BUG_ON (te_bugs env) True) (\<lambda>_.
               bindR (fg_set_current env g w1) (\<lambda>_. Inr ((g, t), w1)))
             else
               let w2 = w1\<lparr>local_port := local_port w1 + 1\<rparr>
               in find_local_port env ce fuel (t\<lparr>src_port := local_port w2\<rparr>) w2)"

definition get_local_port_and_set_queue ::
  "tcp_env \<Rightarrow> conn_env \<Rightarrow> ip_tuple \<Rightarrow> tcp_world \<Rightarrow> ((nat \<times> ip_tuple) \<times> tcp_world) res" where
  "get_local_port_and_set_queue env ce t w =
     (if ce_dev_count ce > 1 then Inl BugOn
      else
        let w1 = (if local_port w = 0 then w\<lparr>local_port := ucast (this_cpu (te_net env) * PORTS_PER_CPU)\<rparr> else w);
            w2 = w1\<lparr>local_port := local_port w1 + 1\<rparr>;
            t1 = t\<lparr>src_port := local_port w2\<rparr>
        in bindR (get_port_with_fdir env ce t1 w2) (\<lambda>(g, w3).
           if g \<noteq> FG_NULL then Inr ((g, t1), w3) else find_local_port env ce (te_fuel env) t1 w3))"

definition connect_fail :: "tcp_env \<Rightarrow> nat \<Rightarrow> addr \<Rightarrow> tcp_world \<Rightarrow> (u64 \<times> tcp_world) res" where
  "connect_fail env cur_fg pcb w = bindR (tcp_abort env cur_fg pcb w) (\<lambda>w1. Inr (- RET_NOMEM, w1))"

text \<open>As in \<open>bsys_udp_send\<close>, the arguments of \<open>copy_from_user\<close> are exchanged: \<open>tmp\<close> is what the
  uninitialised local holds, and it is written to \<open>idp\<close>.\<close>

definition bsys_tcp_connect ::
  "tcp_env \<Rightarrow> conn_env \<Rightarrow> bool \<Rightarrow> ip_tuple \<Rightarrow> addr \<Rightarrow> u64 \<Rightarrow> tcp_world \<Rightarrow> (u64 \<times> tcp_world) res" where
  "bsys_tcp_connect env ce copied tmp idp cookie w0 =
     (let w = w0\<lparr>sk_cookie := cookie\<rparr> in
      if \<not> copied then Inr (- RET_FAULT, w)
      else
        let w1 = sk_upd_mem (put_tuple idp tmp) w; t0 = tmp\<lparr>src_ip := host_addr (CFG (te_net env))\<rparr> in
        bindR (get_local_port_and_set_queue env ce t0 w1) (\<lambda>((cur_fg, t), w2).
        bindR (tcp_new env cur_fg w2) (\<lambda>(pcb, w3).
        bindR (api_malloc env (tcp_nagle_disable pcb w3)) (\<lambda>(a, w4).
        if a = NULL then connect_fail env cur_fg pcb w4
        else
          let w5 = upd_api a (\<lambda>x. x\<lparr>api_cookie := cookie, api_recvd := NULL, api_recvd_tail := NULL, api_accepted := True\<rparr>)
                     (set_api_alive a True (set_api_pcb a pcb w4));
              w6 = tcp_arg pcb a w5
          in bindR (tcpapi_to_handle env cur_fg a w6) (\<lambda>handle.
             let w7 = upd_api a (\<lambda>x. x\<lparr>api_handle := handle\<rparr>) w6 in
             bindR (tcp_bind env cur_fg pcb (ntohl (src_ip t)) (src_port t) w7) (\<lambda>(err, w8).
             if err \<noteq> ERR_OK then connect_fail env cur_fg pcb w8
             else
               bindR (tcp_connect env cur_fg pcb (Some (ntohl (dst_ip t))) (dst_port t) w8) (\<lambda>(err2, w9).
               if err2 \<noteq> ERR_OK then connect_fail env cur_fg pcb w9
               else Inr (api_handle (tw_api w9 a), w9))))))))"

section \<open>Start-up\<close>

text \<open>
  \<open>bufs\<close> and \<open>selfs\<close> are the two buffers and the addresses of the two datastores; \<open>map_user\<close> is
  \<open>mempool_pagemem_map_to_user\<close>, which has no definition. \<open>sizeof(struct tcpapi_pcb)\<close> is 64.
\<close>

definition tcp_api_init ::
  "bool \<Rightarrow> (datastore \<Rightarrow> u32 \<times> datastore) \<Rightarrow> addr \<times> addr \<Rightarrow> addr \<times> addr \<Rightarrow> datastore \<times> datastore \<Rightarrow> hdrs \<Rightarrow> addr \<Rightarrow>
   (u32 \<times> (datastore \<times> datastore) \<times> hdrs \<times> addr) res" where
  "tcp_api_init bugs map_user = (\<lambda>(buf1, buf2) (self1, self2) (pcb_ds, id_ds) h all.
     bindR (mempool_create_datastore bugs buf1 self1 (pcb_ds, h, all) MAX_PCBS 64 False MEMPOOL_DEFAULT_CHUNKSIZE ''pcb'') (\<lambda>(ret, ds1, h1, all1).
     if ret \<noteq> 0 then Inr (ret, (ds1, id_ds), h1, all1)
     else if ds_elem_len ds1 \<noteq> TCPAPI_PCB_SIZE then Inl BugOn
     else
       bindR (mempool_create_datastore bugs buf2 self2 (id_ds, h1, all1) MAX_PCBS sizeof_ip_tuple True MEMPOOL_DEFAULT_CHUNKSIZE ''ip'') (\<lambda>(ret2, ds2, h2, all2).
       if ret2 \<noteq> 0 then Inr (ret2, (ds1, ds2), h2, all2)
       else let (ret3, ds3) = map_user ds2 in Inr (ret3, (ds1, ds3), h2, all2))))"

text \<open>\<open>ports\<close> are the configured ports, \<open>lp i\<close> the address of \<open>listen_ports[i]\<close>. The results of
  \<open>tcp_listen_with_backlog\<close> are passed on as they are.\<close>

definition DEFAULT_PORT :: u16 where "DEFAULT_PORT = 8000"

fun listen_all :: "(nat \<Rightarrow> addr) \<Rightarrow> nat \<Rightarrow> u16 list \<Rightarrow> tcp_world \<Rightarrow> int \<times> tcp_world" where
  "listen_all lp i [] w = (0, w)"
| "listen_all lp i (p # ps) w =
     (let (ret, w1) = tcp_listen_with_backlog (lp i) p w in if ret \<noteq> 0 then (ret, w1) else listen_all lp (i + 1) ps w1)"

definition tcp_api_init_cpu ::
  "tcp_env \<Rightarrow> addr \<times> addr \<Rightarrow> (nat \<Rightarrow> addr) \<Rightarrow> u16 list \<Rightarrow> tcp_world \<Rightarrow> (int \<times> tcp_world) res" where
  "tcp_api_init_cpu env = (\<lambda>(self1, self2) lp ports w.
     let cpu = uint (this_cpu (te_net env)); (m1, ds1, h1) = pcb_mempool w; (m2, ds2, h2) = id_mempool w in
     bindR (kns_mempool_create (te_bugs env) m1 self1 ds1 1 cpu) (\<lambda>(ret, m1').
     let w1 = w\<lparr>pcb_mempool := (m1', ds1, h1)\<rparr> in
     if ret \<noteq> 0 then Inr (sint ret, w1)
     else
       bindR (kns_mempool_create (te_bugs env) m2 self2 ds2 1 cpu) (\<lambda>(ret2, m2').
       let w2 = w1\<lparr>id_mempool := (m2', ds2, h2)\<rparr> in
       if ret2 \<noteq> 0 then Inr (sint ret2, w2)
       else Inr (if ports = [] then listen_all lp 0 [DEFAULT_PORT] w2 else listen_all lp 0 ports w2))))"

end
