(* ===== verification/Tcp_Frame.thy ===== *)
theory Tcp_Frame
  imports Tcp_Api
begin

text \<open>
  What the operations of TCP leave alone. \<open>yields m P\<close> says that every result of \<open>m\<close> satisfies
  \<open>P\<close>. Allocating, copying and sending packets change neither control blocks nor flow groups
  (\<open>core\<close>); sending for a control block changes only a few of its fields (\<open>still\<close>).
\<close>

section \<open>Properties of results\<close>

definition yields :: "'a res \<Rightarrow> ('a \<Rightarrow> bool) \<Rightarrow> bool" where
  "yields m P \<longleftrightarrow> (\<forall>y. m = Inr y \<longrightarrow> P y)"

lemma yields_Inr [simp]: "yields (Inr y) P \<longleftrightarrow> P y"
  by (simp add: yields_def)

lemma yields_Inl [simp]: "yields (Inl e) P"
  by (simp add: yields_def)

lemma yields_bind: "yields m Q \<Longrightarrow> (\<And>y. Q y \<Longrightarrow> yields (f y) P) \<Longrightarrow> yields (bindR m f) P"
  by (cases m) (simp_all add: yields_def)

lemma yields_bind_any: "(\<And>y. yields (f y) P) \<Longrightarrow> yields (bindR m f) P"
  by (cases m) simp_all

lemma yields_cong: "yields m Q \<Longrightarrow> (\<And>y. Q y \<Longrightarrow> P y) \<Longrightarrow> yields m P"
  by (simp add: yields_def)

lemma yields_if: "(c \<Longrightarrow> yields a P) \<Longrightarrow> (\<not> c \<Longrightarrow> yields b P) \<Longrightarrow> yields (if c then a else b) P"
  by simp

lemma yields_option:
  "(x = None \<Longrightarrow> yields a P) \<Longrightarrow> (\<And>z. x = Some z \<Longrightarrow> yields (b z) P) \<Longrightarrow> yields (case x of None \<Rightarrow> a | Some z \<Rightarrow> b z) P"
  by (cases x) simp_all

lemma yields_pair: "(\<And>a b. x = (a, b) \<Longrightarrow> yields (f a b) P) \<Longrightarrow> yields (case x of (a, b) \<Rightarrow> f a b) P"
  by (cases x) simp

lemma yieldsD: "yields m P \<Longrightarrow> m = Inr y \<Longrightarrow> P y"
  by (simp add: yields_def)

text \<open>A step that keeps the observation \<open>K\<close> of the state, with a result and without.\<close>

abbreviation keeps :: "('w \<Rightarrow> 'k) \<Rightarrow> 'w \<Rightarrow> ('a \<times> 'w) res \<Rightarrow> bool" where
  "keeps K w m \<equiv> yields m (\<lambda>y. K (snd y) = K w)"

abbreviation keeps' :: "('w \<Rightarrow> 'k) \<Rightarrow> 'w \<Rightarrow> 'w res \<Rightarrow> bool" where
  "keeps' K w m \<equiv> yields m (\<lambda>y. K y = K w)"

lemma yields_keep:
  assumes "keeps K w m" and "\<And>x w'. K w' = K w \<Longrightarrow> yields (f (x, w')) P"
  shows "yields (bindR m f) P"
  by (rule yields_bind [OF assms(1)]) (use assms(2) in auto)

lemma yields_keep':
  assumes "keeps' K w m" and "\<And>w'. K w' = K w \<Longrightarrow> yields (f w') P"
  shows "yields (bindR m f) P"
  by (rule yields_bind [OF assms(1)]) (use assms(2) in auto)

text \<open>The step rules of the operations are collected; \<open>steps_intro\<close> goes through a body.\<close>

named_theorems steps \<open>rules for a step that keeps an observation\<close>

lemma yields_bind_if:
  "(c \<Longrightarrow> yields (bindR a f) P) \<Longrightarrow> (\<not> c \<Longrightarrow> yields (bindR b f) P) \<Longrightarrow> yields (bindR (if c then a else b) f) P"
  by simp

lemma yields_bind_option:
  "(x = None \<Longrightarrow> yields (bindR a f) P) \<Longrightarrow> (\<And>z. x = Some z \<Longrightarrow> yields (bindR (b z) f) P) \<Longrightarrow>
   yields (bindR (case x of None \<Rightarrow> a | Some z \<Rightarrow> b z) f) P"
  by (cases x) simp_all

lemma yields_bind_bind: "yields (bindR m (\<lambda>x. bindR (g x) f)) P \<Longrightarrow> yields (bindR (bindR m g) f) P"
  by (simp add: bindR_assoc)

lemmas body_steps [steps] = yields_if yields_option yields_pair yields_bind_if yields_bind_option yields_bind_bind

text \<open>The last step of a body.\<close>

lemma yields_last: "keeps K w m \<Longrightarrow> K w = k \<Longrightarrow> yields m (\<lambda>y. K (snd y) = k)"
  by (simp add: yields_def)

lemma yields_last': "keeps' K w m \<Longrightarrow> K w = k \<Longrightarrow> yields m (\<lambda>y. K y = k)"
  by (simp add: yields_def)

section \<open>What packets do not touch\<close>

definition core where
  "core (w :: tcp_world) = (sk_fgs w, sk_dev_idx w, sk_usys w, sk_cookie w, sk_pages w, tw_pcb w, tw_fg w, tw_listen w,
     listen_pcbs w, tcp_pcb_mempool w, tcp_pcb_listen_mempool w, tw_api w, pcb_mempool w, id_mempool w, local_port w, fdir_log w)"

lemma core_fields:
  assumes "core w' = core w"
  shows "tw_pcb w' = tw_pcb w" "tw_fg w' = tw_fg w" "sk_fgs w' = sk_fgs w" "tw_api w' = tw_api w"
    "pcb_mempool w' = pcb_mempool w" "sk_usys w' = sk_usys w" "tcp_pcb_mempool w' = tcp_pcb_mempool w"
  using assms by (simp_all add: core_def)

lemma core_upd [simp]:
  "core (sk_upd_net fn w) = core w" "core (sk_upd_mem fm w) = core w" "core (sk_upd_mbuf m fb w) = core w"
  "core (upd_seg q fs w) = core w" "core (upd_sk_pb p fp w) = core w" "core (pbuf_write ps w) = core w"
  "core (put_chksum env h p src dst w) = core w"
  by (simp_all add: core_def sk_upd_net_def sk_upd_mem_def sk_upd_mbuf_def upd_seg_def upd_sk_pb_def pbuf_write_def put_chksum_def)

lemma core_on_net: "keeps core w (on_net f w)"
  unfolding on_net_def by (rule yields_bind_any) (auto simp: core_def)

lemma core_on_net': "keeps' core w (on_net' f w)"
  unfolding on_net'_def by (rule yields_bind_any) (auto simp: core_def)

lemma core_on_pbuf: "keeps core w (on_pbuf f w)"
  unfolding on_pbuf_def by (rule yields_bind_any) auto

lemma core_pbuf_free: "keeps' core w (tw_pbuf_free env p w)"
  unfolding tw_pbuf_free_def by (rule yields_keep [OF core_on_pbuf]) auto

lemma core_pbuf_alloc: "keeps core w (tw_pbuf_alloc env layer n t w)"
  unfolding tw_pbuf_alloc_def by (rule core_on_pbuf)

lemma core_pbuf_cat: "keeps' core w (tw_pbuf_cat env h t w)"
  unfolding tw_pbuf_cat_def by (rule yields_keep [OF core_on_pbuf]) auto

lemma core_mbuf_free: "keeps' core w (sk_mbuf_free env m w)"
  unfolding sk_mbuf_free_def by (rule core_on_net')

lemma core_seg_malloc: "keeps core w (seg_malloc env w)"
  unfolding seg_malloc_def by (rule yields_bind_any) (auto simp: core_def)

lemma core_seg_mem_free: "keeps' core w (seg_mem_free env q w)"
  unfolding seg_mem_free_def by (rule yields_bind_any) (auto simp: core_def)

lemmas core_steps [steps] = yields_keep [OF core_on_net] yields_keep' [OF core_on_net'] yields_keep [OF core_on_pbuf]
  yields_keep' [OF core_pbuf_free] yields_keep [OF core_pbuf_alloc] yields_keep' [OF core_pbuf_cat]
  yields_keep' [OF core_mbuf_free] yields_keep [OF core_seg_malloc] yields_keep' [OF core_seg_mem_free]
  yields_last [OF core_on_net] yields_last' [OF core_on_net'] yields_last' [OF core_pbuf_free]
  yields_last [OF core_pbuf_alloc] yields_last' [OF core_seg_mem_free]

lemma core_ip_send_one: "keeps core w (ip_send_one env fg dst pkt len w)"
  unfolding ip_send_one_def fg_dev_idx_def by (auto intro!: steps simp: Let_def split: option.splits)

lemmas pure_steps [steps] = yields_bind_any [where m = "copy_chain fuel pbs p dst m" for fuel pbs p dst m]
  yields_bind_any [where m = "tw_pbuf_clen env p w" for env p w] yields_bind_any [where m = "last_seg fuel segs q" for fuel segs q]
  yields_bind_any [where m = "fg_deref w fg" for w fg]

lemma core_output_packet: "keeps core w (tcp_output_packet env fg pcb p w)"
  unfolding tcp_output_packet_def
  by (auto intro!: steps yields_keep [OF core_ip_send_one] simp: Let_def)

lemma core_ip_output: "keeps core w (ip_output_hinted env fuel fg p src dst ttl tos proto w)"
  unfolding ip_output_hinted_def
  by (auto intro!: steps yields_keep [OF core_ip_send_one] simp: Let_def)

lemmas [steps] = yields_keep [OF core_output_packet] yields_keep [OF core_ip_output]

lemma core_seg_free: "keeps' core w (tcp_seg_free env q w)"
  unfolding tcp_seg_free_def by (auto intro!: steps)

lemmas [steps] = yields_keep' [OF core_seg_free] yields_last' [OF core_seg_free]

lemma core_segs_free_loop: "keeps' core w (tcp_segs_free_loop env fuel q w)"
proof (induction fuel arbitrary: q w)
  case 0
  then show ?case by (auto intro!: steps)
next
  case (Suc fuel)
  then show ?case by (auto intro!: steps yields_last' [OF Suc] simp: Let_def)
qed

lemma core_segs_free: "keeps' core w (tcp_segs_free env q w)"
  unfolding tcp_segs_free_def by (rule core_segs_free_loop)

lemma core_rst_impl: "keeps' core w (tcp_rst_impl env fg sq ak li ri lp rp w)"
  unfolding tcp_rst_impl_def by (auto intro!: steps simp: Let_def)

lemma core_rst_pcb: "keeps' core w (tcp_rst_pcb env fg pcb w)"
  unfolding tcp_rst_pcb_def Let_def by (rule core_rst_impl)

lemma core_create_segment: "keeps core w (tcp_create_segment env pcb p flags sq optflags w)"
  unfolding tcp_create_segment_def by (auto intro!: steps simp: Let_def)

lemma core_prealloc: "keeps core w (tcp_pbuf_prealloc env layer len maxl os pcb fl first w)"
  unfolding tcp_pbuf_prealloc_def by (auto intro!: steps simp: Let_def)

lemmas [steps] = yields_keep' [OF core_segs_free] yields_last' [OF core_segs_free]
  yields_keep' [OF core_rst_impl] yields_last' [OF core_rst_impl] yields_keep' [OF core_rst_pcb]
  yields_keep [OF core_create_segment] yields_keep [OF core_prealloc]

section \<open>What sending for a control block changes\<close>

definition frozen :: "tcp_pcb \<Rightarrow> tcp_pcb" where
  "frozen c = c\<lparr>tp_flags := 0, tp_delayedack_expires := 0, tp_unified_timer := utimer_zero, tp_retransmit_expires := 0,
     tp_rcv_ann_right_edge := 0, tp_local_ip := 0, tp_rttest := 0, tp_rtseq := 0, tp_snd_nxt := 0, tp_unsent := NULL,
     tp_unacked := NULL, tp_unsent_oversize := 0\<rparr>"

lemma frozen_upd [simp]:
  "frozen (c\<lparr>tp_flags := x1\<rparr>) = frozen c" "frozen (c\<lparr>tp_delayedack_expires := x2\<rparr>) = frozen c"
  "frozen (c\<lparr>tp_unified_timer := x3\<rparr>) = frozen c" "frozen (c\<lparr>tp_retransmit_expires := x4\<rparr>) = frozen c"
  "frozen (c\<lparr>tp_rcv_ann_right_edge := x5\<rparr>) = frozen c" "frozen (c\<lparr>tp_local_ip := x6\<rparr>) = frozen c"
  "frozen (c\<lparr>tp_rttest := x7\<rparr>) = frozen c" "frozen (c\<lparr>tp_rtseq := x8\<rparr>) = frozen c"
  "frozen (c\<lparr>tp_snd_nxt := x9\<rparr>) = frozen c" "frozen (c\<lparr>tp_unsent := x10\<rparr>) = frozen c"
  "frozen (c\<lparr>tp_unacked := x10\<rparr>) = frozen c" "frozen (c\<lparr>tp_unsent_oversize := x11\<rparr>) = frozen c"
  by (simp_all add: frozen_def)

lemma frozen_fields:
  assumes "frozen c = frozen d"
  shows "tp_state c = tp_state d" "tp_link c = tp_link d" "tp_rcv_nxt c = tp_rcv_nxt d" "tp_rcv_wnd c = tp_rcv_wnd d"
    "tp_rcv_ann_wnd c = tp_rcv_ann_wnd d" "tp_snd_lbb c = tp_snd_lbb d" "tp_snd_buf c = tp_snd_buf d"
    "tp_snd_queuelen c = tp_snd_queuelen d" "tp_snd_wnd c = tp_snd_wnd d" "tp_cwnd c = tp_cwnd d"
    "tp_lastack c = tp_lastack d" "tp_mss c = tp_mss d" "tp_local_port c = tp_local_port d"
    "tp_remote_port c = tp_remote_port d" "tp_remote_ip c = tp_remote_ip d" "tp_callback_arg c = tp_callback_arg d"
    "tp_rto c = tp_rto d" "tp_nrtx c = tp_nrtx d" "tp_refused_data c = tp_refused_data d"
  using arg_cong [OF assms, of tp_state]
    arg_cong [OF assms, of tp_link]
    arg_cong [OF assms, of tp_rcv_nxt]
    arg_cong [OF assms, of tp_rcv_wnd]
    arg_cong [OF assms, of tp_rcv_ann_wnd]
    arg_cong [OF assms, of tp_snd_lbb]
    arg_cong [OF assms, of tp_snd_buf]
    arg_cong [OF assms, of tp_snd_queuelen]
    arg_cong [OF assms, of tp_snd_wnd]
    arg_cong [OF assms, of tp_cwnd]
    arg_cong [OF assms, of tp_lastack]
    arg_cong [OF assms, of tp_mss]
    arg_cong [OF assms, of tp_local_port]
    arg_cong [OF assms, of tp_remote_port]
    arg_cong [OF assms, of tp_remote_ip]
    arg_cong [OF assms, of tp_callback_arg]
    arg_cong [OF assms, of tp_rto]
    arg_cong [OF assms, of tp_nrtx]
    arg_cong [OF assms, of tp_refused_data]
  by (simp_all add: frozen_def)

definition still where
  "still pcb (w :: tcp_world) = core (upd_pcb pcb frozen w)"

lemma core_still: "core w' = core w \<Longrightarrow> still pcb w' = still pcb w"
  by (simp add: core_def still_def upd_pcb_def)

lemma still_upd [simp]: "still pcb (upd_pcb pcb f w) = still pcb w" if "\<And>c. frozen (f c) = frozen c"
  using that by (simp add: core_def still_def upd_pcb_def)

lemma still_upds [simp]:
  "still pcb (sk_upd_mem fm w) = still pcb w" "still pcb (upd_seg q fs w) = still pcb w"
  "still pcb (upd_sk_pb p fp w) = still pcb w" "still pcb (put_chksum env h p src dst w) = still pcb w"
  by (auto intro!: core_still)

lemma still_fields:
  assumes "still pcb w' = still pcb w"
  shows "frozen (tw_pcb w' pcb) = frozen (tw_pcb w pcb)" "p \<noteq> pcb \<Longrightarrow> tw_pcb w' p = tw_pcb w p"
    "tw_fg w' = tw_fg w" "sk_fgs w' = sk_fgs w" "tw_api w' = tw_api w" "pcb_mempool w' = pcb_mempool w" "sk_usys w' = sk_usys w"
  using assms by (auto simp: still_def core_def upd_pcb_def fun_upd_def dest: fun_cong [where x = pcb] fun_cong [where x = p])

text \<open>What keeps everything keeps this as well.\<close>

lemma keeps_still: "keeps core w m \<Longrightarrow> keeps (still pcb) w m"
  by (auto simp: yields_def intro: core_still)

lemma keeps_still': "keeps' core w m \<Longrightarrow> keeps' (still pcb) w m"
  by (auto simp: yields_def intro: core_still)

lemmas still_steps [steps] =
  yields_keep [OF keeps_still [OF core_on_pbuf]] yields_keep' [OF keeps_still' [OF core_pbuf_free]]
  yields_keep [OF keeps_still [OF core_pbuf_alloc]] yields_keep [OF keeps_still [OF core_output_packet]]
  yields_keep' [OF keeps_still' [OF core_seg_free]] yields_last' [OF keeps_still' [OF core_pbuf_free]]

lemma still_cancel_timer: "keeps' (still pcb) w (cancel_timer pcb w)"
  unfolding cancel_timer_def by (rule yields_bind_any) simp

lemma still_recompute: "keeps' (still pcb) w (tcp_recompute_timers env fg pcb w)"
  unfolding tcp_recompute_timers_def
  by (auto intro!: steps yields_keep' [OF still_cancel_timer] simp: Let_def)

lemmas [steps] = yields_keep' [OF still_recompute] yields_last' [OF still_recompute]

lemma still_set_retransmit: "keeps' (still pcb) w (set_retransmit env fg pcb w)"
  unfolding set_retransmit_def by (auto intro!: steps)

lemma still_alloc_header: "keeps (still pcb) w (tcp_output_alloc_header env pcb ol dl sq w)"
  unfolding tcp_output_alloc_header_def by (auto intro!: steps simp: Let_def)

lemma still_send_header: "keeps' (still pcb) w (send_header env fg pcb p w)"
  unfolding send_header_def by (auto intro!: steps simp: Let_def)

lemmas [steps] = yields_keep' [OF still_set_retransmit] yields_keep [OF still_alloc_header] yields_keep' [OF still_send_header]

lemma still_empty_ack: "keeps (still pcb) w (tcp_send_empty_ack env fg pcb w)"
  unfolding tcp_send_empty_ack_def by (auto intro!: steps simp: Let_def)

lemma still_output_segment: "keeps' (still pcb) w (tcp_output_segment env fg q pcb w)"
  unfolding tcp_output_segment_def
  by (auto intro!: steps yields_keep [OF keeps_still [OF core_output_packet, where pcb = pcb]] simp: Let_def split: if_splits)

lemma core_seq_insert: "keeps core w (seq_insert fuel cur q w)"
proof (induction fuel arbitrary: cur w)
  case 0
  then show ?case by simp
next
  case (Suc fuel)
  then show ?case by (auto intro!: steps yields_keep [OF Suc])
qed

lemma still_queue_unacked: "keeps (still pcb) w (queue_unacked env pcb q useg w)"
  unfolding queue_unacked_def
  by (auto intro!: steps yields_keep [OF keeps_still [OF core_seq_insert, where pcb = pcb]]
     yields_keep' [OF keeps_still' [OF core_seg_free, where pcb = pcb]] simp: Let_def)

lemma still_output_loop: "keeps' (still pcb) w (output_loop env fuel fg pcb wnd q useg w)"
proof (induction fuel arbitrary: q useg w)
  case 0
  then show ?case by simp
next
  case (Suc fuel)
  show ?case
    by (auto intro!: steps yields_keep' [OF still_output_segment] yields_keep [OF still_queue_unacked] yields_last' [OF Suc] simp: Let_def)
qed

lemma still_tcp_output: "keeps (still pcb) w (tcp_output env fg pcb w)"
  unfolding tcp_output_def
  by (auto intro!: steps yields_last [OF still_empty_ack] yields_keep' [OF still_output_loop] simp: Let_def)

section \<open>Writing\<close>

text \<open>Nothing but packets and segments changes before \<open>tcp_write\<close> commits.\<close>

lemmas write_steps = body_steps pure_steps yields_keep [OF core_prealloc] yields_keep [OF core_pbuf_alloc]
  yields_keep' [OF core_pbuf_free] yields_keep' [OF core_pbuf_cat] yields_keep [OF core_create_segment]
  yields_keep' [OF core_segs_free] yields_last' [OF core_segs_free]

lemma core_write_last_segment: "keeps core w (write_last_segment env p arg len fl mss q l w)"
  unfolding write_last_segment_def by (auto intro!: write_steps simp: Let_def)

lemma core_write_segment_pbufs: "keeps core w (write_segment_pbufs env p arg pos sl fl mss first os w)"
  unfolding write_segment_pbufs_def by (auto intro!: write_steps simp: Let_def)

lemma core_write_segments: "keeps core w (write_segments env fuel p arg len fl mss l w)"
proof (induction fuel arbitrary: l w)
  case (Suc fuel)
  show ?case
    by (auto intro!: write_steps yields_keep [OF core_write_segment_pbufs] yields_last [OF Suc] simp: Let_def)
qed simp

lemma core_write_extend: "keeps' core w (write_extend fuel q arg used w)"
proof (induction fuel arbitrary: q w)
  case (Suc fuel)
  show ?case by (auto intro!: body_steps yields_last' [OF Suc] simp: Let_def)
qed simp

end
