(* ===== verification/Tcp_Sender.thy ===== *)
theory Tcp_Sender
  imports Tcp_Frame Ip_Spec
begin

text \<open>
  One segment on its way out: \<open>tcp_output_packet\<close> queues the frame of a packet, and
  \<open>tcp_output_segment\<close> completes the header and sends it, with everything else left in a state
  in which the next segment can be sent.
\<close>

section \<open>A packet\<close>

lemma set_len_ok:
  assumes "mbufs_ok pool w F" and "m \<notin> F"
  shows "mbufs_ok pool (set_mbuf_len m n w) F"
proof -
  obtain mp where mp: "mw_pools w pool = Some mp" "pool_ok (mp, mw_ds w, mw_hdrs w) F"
    using assms(1) by (auto simp: mbufs_ok_def)
  have "pool_ok (touch_hdr (mp, mw_ds w, mw_hdrs w) m (hdr_next (mw_hdrs w) m) n) F"
    by (rule kmp.touch_law [OF mp(2) assms(2)])
  then have "pool_ok (mp, mw_ds w, set_next_chunk (mw_hdrs w) m n) F"
    by (cases "mw_hdrs w") (simp add: touch_hdr_def set_next_def fun_upd_idem)
  then show ?thesis using mp(1) by (simp add: mbufs_ok_def set_mbuf_len_def)
qed

lemma send_room_keeps:
  assumes "1 \<le> tx_cap (txqs s d)" and "length (tx_bufs (txqs s d)) < ETH_DEV_TX_QUEUE_SZ"
    and "mbufs_ok pool (nw s) F" and "m \<notin> F"
  shows "\<exists>s'. net_send_one d m n s = Inr (0, s') \<and> tx_bufs (txqs s' d) = tx_bufs (txqs s d) @ [m] \<and>
     tx_cap (txqs s' d) = tx_cap (txqs s d) - 1 \<and> nmem s' = nmem s \<and>
     arp_ents s' = arp_ents s \<and> arp_tbl s' = arp_tbl s \<and> mbufs_ok pool (nw s') F"
  using assms(1,2) set_len_ok [OF assms(3,4), of n]
  by (simp add: net_send_one_def eth_send_one_def eth_send_def Let_def mbufs_ok_def set_mbuf_len_def)

text \<open>What is left of the network after a packet \<open>pkt\<close> with the given bytes was queued on device \<open>d\<close>.\<close>

definition queued :: "net_env \<Rightarrow> nat \<Rightarrow> addr set \<Rightarrow> addr \<Rightarrow> u8 list \<Rightarrow> net_state \<Rightarrow> net_state \<Rightarrow> bool" where
  "queued env d F pkt frame n n' \<longleftrightarrow>
     pkt \<in> F \<and> mbufs_ok (pool_ptr env) (nw n') (F - {pkt}) \<and> nmem n' = put_bytes (nmem n) (mbuf_mtod pkt) frame \<and>
     tx_bufs (txqs n' d) = tx_bufs (txqs n d) @ [pkt] \<and> tx_cap (txqs n' d) = tx_cap (txqs n d) - 1 \<and>
     arp_ents n' = arp_ents n \<and> arp_tbl n' = arp_tbl n"

lemma ip_send_one_queues:
  assumes k: "known env (sk_net s) (next_hop (CFG env) dst) = Some dmac" and "tx_ready fg s"
    and "length dmac = 6" and "length (cfg_mac (CFG env)) = 6" and "mbufs_ok (pool_ptr env) (nw (sk_net s)) (F - {pkt})"
    and m: "nmem (sk_net s) = put_bytes m (mbuf_mtod pkt + 14) body" and "pkt \<in> F"
    and "n0 = (sk_net s)\<lparr>nmem := m, nw := u\<rparr>"
  shows "\<exists>n'. ip_send_one env fg dst pkt len s = Inr (0, s\<lparr>sk_net := n'\<rparr>) \<and>
     queued env (sk_dev_idx s fg) F pkt (eth_frame dmac (cfg_mac (CFG env)) ETHTYPE_IP body) n0 n'"
proof -
  let ?e = "mbuf_mtod pkt" and ?smac = "cfg_mac (CFG env)" and ?d = "sk_dev_idx s fg"
  let ?f = "\<lambda>m. put16 (put_bytes m (?e + eth_shost) ?smac) (?e + eth_type) ETHTYPE_IP"
  let ?n1 = "upd_mem ?f (sk_net s)"
  let ?n2 = "upd_mem (\<lambda>m. put_bytes m ?e dmac) ?n1"
  have "known env ?n1 (next_hop (CFG env) dst) = Some dmac" using k by (simp add: known_keep [of ?n1 "sk_net s"])
  from resolve_known [OF this] have l: "arp_lookup_mac env (next_hop (CFG env) dst) ?n1 = Inr (0, Some dmac, ?n1)" .
  have room: "1 \<le> tx_cap (txqs ?n2 ?d)" "length (tx_bufs (txqs ?n2 ?d)) < ETH_DEV_TX_QUEUE_SZ"
    using assms(2) by (simp_all add: tx_ready_def)
  have "mbufs_ok (pool_ptr env) (nw ?n2) (F - {pkt})" using assms(5) by simp
  from send_room_keeps [OF room this, of pkt len]
  obtain n3 where n3: "net_send_one ?d pkt len ?n2 = Inr (0, n3)"
    "tx_bufs (txqs n3 ?d) = tx_bufs (txqs (sk_net s) ?d) @ [pkt]" "tx_cap (txqs n3 ?d) = tx_cap (txqs (sk_net s) ?d) - 1"
    "nmem n3 = nmem ?n2" "arp_ents n3 = arp_ents (sk_net s)" "arp_tbl n3 = arp_tbl (sk_net s)"
    "mbufs_ok (pool_ptr env) (nw n3) (F - {pkt})"
    using assms(5) by auto
  have "ip_send_one env fg dst pkt len s = Inr (0, s\<lparr>sk_net := n3\<rparr>)"
    using l n3(1) assms(2)
    by (simp add: ip_send_one_def Let_def on_net_def sk_upd_mem_def sk_upd_net_def fg_dev_idx_def tx_ready_def eth_dhost_def)
  moreover have "nmem n3 = put_bytes m ?e (eth_frame dmac ?smac ETHTYPE_IP body)"
    using m assms(3,4) n3(4)
    by (simp add: arp_layout put16_def put_append put_prepend eth_frame_def)
  ultimately show ?thesis using n3 assms(7,8) by (auto simp: queued_def)
qed

lemma tcp_header_bytes:
  "put32 (put32 (put_bytes (put_bytes (put16 (put_bytes (put16 (put16 (put16 (put_bytes m (a + ip_vhl)
      [push_bit 4 4 OR of_nat (IP_HDR_LEN div 4)]) (a + ip_len) (of_nat IP_HDR_LEN + len)) (a + ip_id) 0) (a + ip_off) 0)
      (a + ip_proto) [proto]) (a + ip_chksum) 0) (a + ip_tos) [tos]) (a + ip_ttl) [ttl]) (a + ip_src_addr) src)
      (a + ip_dst_addr) dst =
   put_bytes m a (ipv4_header tos (20 + len) ttl proto src dst)" (is "?l = ?r")
proof -
  have b: "be_bytes 2 x = [be_bytes 2 x ! 0, be_bytes 2 x ! 1]" for x :: u16
    by (simp add: be_bytes_def le_bytes_def numeral_2_eq_2)
  have o: "put_bytes (put_bytes m a' xs) b' ys = put_bytes (put_bytes m b' ys) a' xs"
    if "a' + length xs \<le> b' \<or> b' + length ys \<le> a'" for m a' b' xs ys
    by (rule ext) (use that in \<open>auto simp: put_bytes_def\<close>)
  show ?thesis
    by (simp add: ip_layout put16_def put32_def put_append o [where b' = "a + 1"] o [where b' = "a + 8"] put_prepend
      be_bytes_16_0 ipv4_header_def)
qed

lemma output_packet_queues:
  assumes r: "segment_ready (te_net env) (te_fuel env) fg p xs (ntohl (tp_remote_ip (tw_pcb w pcb))) dmac F w"
  shows "\<exists>pkt n'. tcp_output_packet env fg pcb p w = Inr (0, w\<lparr>sk_net := n'\<rparr>) \<and>
    queued (te_net env) (sk_dev_idx w fg) F pkt (eth_frame dmac (cfg_mac (CFG (te_net env))) ETHTYPE_IP
      (ipv4_header (tp_tos (tw_pcb w pcb)) (20 + tot_len (sk_pb w p)) (tp_ttl (tw_pcb w pcb)) IPPROTO_TCP
        (ntohl (tp_local_ip (tw_pcb w pcb))) (ntohl (tp_remote_ip (tw_pcb w pcb))) @
       chain_data (sk_pb w) (sk_mem w) xs)) (sk_net w) n'"
proof -
  let ?env = "te_net env" and ?c = "tw_pcb w pcb" and ?n = "sk_net w" and ?d = "sk_dev_idx w fg"
  let ?tot = "tot_len (sk_pb w p)" and ?dst = "ntohl (tp_remote_ip (tw_pcb w pcb))"
  let ?hdr = "ipv4_header (tp_tos ?c) (20 + ?tot) (tp_ttl ?c) IPPROTO_TCP (ntohl (tp_local_ip ?c)) ?dst"
  let ?data = "chain_data (sk_pb w) (sk_mem w) xs"
  have r1: "mbufs_ok (pool_ptr ?env) (nw ?n) F" "F \<noteq> {}" "\<not> bugs_on ?env" "tx_ready fg w"
    "known ?env ?n (next_hop (CFG ?env) ?dst) = Some dmac" "length dmac = 6" "length (cfg_mac (CFG ?env)) = 6"
    "chain (\<lambda>x. p_next (sk_pb w x)) p xs" "length xs \<le> te_fuel env"
    and tot: "unat ?tot = (\<Sum>x\<leftarrow>xs. unat (p_len (sk_pb w x)))"
    and clear: "\<And>pkt. pkt \<in> F \<Longrightarrow> chain_clear (sk_pb w) xs (mbuf_mtod pkt + 14) (20 + unat ?tot)"
    using r by (auto simp: segment_ready_def)
  obtain pkt u where al: "mbuf_alloc_local ?env ?n = Inr (pkt, ?n\<lparr>nw := u\<rparr>)" "pkt \<in> F" "pkt \<noteq> NULL"
    "mbufs_ok (pool_ptr ?env) u (F - {pkt})"
    using net_alloc_local [OF r1(1-3)] by blast
  let ?e = "mbuf_mtod pkt"
  let ?m = "put_bytes (nmem ?n) (?e + 14) (?hdr @ ?data)"
  let ?w1 = "w\<lparr>sk_net := ?n\<lparr>nw := u\<rparr>\<rparr>"
  let ?w2 = "sk_upd_mem (\<lambda>_. put_bytes (nmem ?n) (?e + 14) ?hdr) ?w1"
  let ?w3 = "sk_upd_mbuf pkt (\<lambda>b. b\<lparr>mb_ol_flags := PKT_TX_IP_CKSUM OR PKT_TX_TCP_CKSUM\<rparr>) (sk_upd_mem (\<lambda>_. ?m) ?w2)"
  have cp: "copy_chain (te_fuel env) (sk_pb w) p (?e + 34) (put_bytes (nmem ?n) (?e + 14) ?hdr) = Inr ?m"
    unfolding sk_mem_def by (rule copy_under_header [OF r1(8,9)]) (use clear [OF al(2)] tot in simp_all)
  have n3: "sk_net ?w3 = upd_mbuf pkt (\<lambda>b. b\<lparr>mb_ol_flags := PKT_TX_IP_CKSUM OR PKT_TX_TCP_CKSUM\<rparr>)
      (?n\<lparr>nw := u, nmem := ?m\<rparr>)"
    by (simp add: sk_upd_mbuf_def sk_upd_mem_def upd_mem_def)
  have k3: "known ?env (sk_net ?w3) (next_hop (CFG ?env) ?dst) = Some dmac"
    unfolding r1(5) [symmetric] by (rule known_keep) (simp_all add: sk_upd_mbuf_def sk_upd_mem_def)
  have t3: "tx_ready fg ?w3" using r1(4) by (simp add: tx_ready_def sk_upd_mbuf_def sk_upd_mem_def)
  have ok3: "mbufs_ok (pool_ptr ?env) (nw (sk_net ?w3)) (F - {pkt})" unfolding n3 using al(4) by (simp add: mbufs_ok_def upd_mbuf_def)
  have m3: "nmem (sk_net ?w3) = put_bytes (nmem ?n) (?e + 14) (?hdr @ ?data)" unfolding n3 by simp
  from ip_send_one_queues [where u = "nw ?n" and len = "34 + unat ?tot", OF k3 t3 r1(6,7) ok3 m3 al(2) refl]
  obtain n' where n': "ip_send_one ?env fg ?dst pkt (34 + unat ?tot) ?w3 = Inr (0, ?w3\<lparr>sk_net := n'\<rparr>)"
    "queued ?env (sk_dev_idx ?w3 fg) F pkt (eth_frame dmac (cfg_mac (CFG ?env)) ETHTYPE_IP (?hdr @ ?data))
       ((sk_net ?w3)\<lparr>nmem := nmem ?n, nw := nw ?n\<rparr>) n'" by blast
  have a: "on_net (mbuf_alloc_local ?env) w = Inr (pkt, ?w1)" by (simp add: on_net_def al(1))
  have off: "?e + ETH_HDR_LEN = ?e + 14" "?e + 14 + IP_HDR_LEN = ?e + 34" "ETH_HDR_LEN + IP_HDR_LEN + unat ?tot = 34 + unat ?tot"
    by (simp_all add: ETH_HDR_LEN_def IP_HDR_LEN_def)
  have pb: "sk_pb ?w1 = sk_pb w" "tw_pcb ?w1 = tw_pcb w" "sk_pb ?w2 = sk_pb w" "sk_mem ?w2 = put_bytes (nmem ?n) (?e + 14) ?hdr"
    by (simp_all add: sk_upd_mem_def sk_mem_def)
  have h2: "sk_upd_mem (\<lambda>m. put32 (put32 (put_bytes (put_bytes (put16 (put_bytes (put16 (put16 (put16 (put_bytes m (?e + 14 + ip_vhl)
      [push_bit 4 4 OR of_nat (IP_HDR_LEN div 4)]) (?e + 14 + ip_len) (of_nat IP_HDR_LEN + ?tot)) (?e + 14 + ip_id) 0) (?e + 14 + ip_off) 0)
      (?e + 14 + ip_proto) [IPPROTO_TCP]) (?e + 14 + ip_chksum) 0) (?e + 14 + ip_tos) [tp_tos ?c]) (?e + 14 + ip_ttl) [tp_ttl ?c])
      (?e + 14 + ip_src_addr) (ntohl (tp_local_ip ?c))) (?e + 14 + ip_dst_addr) ?dst) ?w1 = ?w2"
    unfolding tcp_header_bytes by (simp add: sk_upd_mem_def sk_upd_net_def upd_mem_def)
  have "tcp_output_packet env fg pcb p w = Inr (0, ?w3\<lparr>sk_net := n'\<rparr>)"
    unfolding tcp_output_packet_def a bindR_Inr prod.case Let_def if_not_P [OF al(3)] pb off h2 cp n'(1)
    by simp
  moreover have "?w3\<lparr>sk_net := n'\<rparr> = w\<lparr>sk_net := n'\<rparr>" by (simp add: sk_upd_mbuf_def sk_upd_mem_def sk_upd_net_def)
  moreover have "queued ?env ?d F pkt (eth_frame dmac (cfg_mac (CFG ?env)) ETHTYPE_IP (?hdr @ ?data)) ?n n'"
    using n'(2) unfolding queued_def n3 by (simp add: sk_upd_mbuf_def sk_upd_mem_def)
  ultimately show ?thesis by auto
qed
section \<open>Reading an updated state\<close>

lemma world_sel [simp]:
  "tw_pcb (upd_pcb p f w) = (tw_pcb w)(p := f (tw_pcb w p))" "tw_seg (upd_pcb p f w) = tw_seg w"
  "sk_net (upd_pcb p f w) = sk_net w" "sk_pb (upd_pcb p f w) = sk_pb w" "sk_fgs (upd_pcb p f w) = sk_fgs w"
  "sk_dev_idx (upd_pcb p f w) = sk_dev_idx w" "sk_mem (upd_pcb p f w) = sk_mem w" "tw_fg (upd_pcb p f w) = tw_fg w"
  "tw_pcb (upd_seg q g w) = tw_pcb w" "tw_seg (upd_seg q g w) = (tw_seg w)(q := g (tw_seg w q))"
  "sk_net (upd_seg q g w) = sk_net w" "sk_pb (upd_seg q g w) = sk_pb w" "sk_fgs (upd_seg q g w) = sk_fgs w"
  "sk_dev_idx (upd_seg q g w) = sk_dev_idx w" "sk_mem (upd_seg q g w) = sk_mem w" "tw_fg (upd_seg q g w) = tw_fg w"
  "tw_pcb (sk_upd_mem k w) = tw_pcb w" "tw_seg (sk_upd_mem k w) = tw_seg w" "sk_mem (sk_upd_mem k w) = k (sk_mem w)"
  "sk_pb (sk_upd_mem k w) = sk_pb w" "sk_fgs (sk_upd_mem k w) = sk_fgs w" "sk_dev_idx (sk_upd_mem k w) = sk_dev_idx w"
  "tw_fg (sk_upd_mem k w) = tw_fg w"
  by (simp_all add: upd_pcb_def upd_seg_def sk_upd_mem_def sk_upd_net_def sk_mem_def upd_mem_def)

lemma world_norm:
  "upd_pcb p f (upd_pcb p g w) = upd_pcb p (\<lambda>c. f (g c)) w"
  "sk_upd_mem k (upd_pcb p f w) = upd_pcb p f (sk_upd_mem k w)"
  "sk_upd_mem k (sk_upd_mem j w) = sk_upd_mem (\<lambda>m. k (j m)) w"
  "upd_pcb p f w = upd_pcb p (\<lambda>_. f (tw_pcb w p)) w" "sk_upd_mem k w = sk_upd_mem (\<lambda>_. k (sk_mem w)) w"
  "upd_pcb p (\<lambda>_. tw_pcb w p) w = w" "sk_upd_mem (\<lambda>_. sk_mem w) w = w"
  by (simp_all add: upd_pcb_def sk_upd_mem_def sk_upd_net_def upd_mem_def sk_mem_def)

section \<open>A segment\<close>

lemma recompute_returns:
  assumes "\<not> ut_running (tp_unified_timer (tw_pcb w pcb))" and "sk_fgs w fg \<noteq> None"
  shows "\<exists>t. tcp_recompute_timers env fg pcb w = Inr (upd_pcb pcb (\<lambda>c. c\<lparr>tp_unified_timer := t\<rparr>) w) \<and> \<not> ut_running t"
proof -
  have same: "upd_pcb pcb (\<lambda>c. c\<lparr>tp_unified_timer := tp_unified_timer (tw_pcb w pcb)\<rparr>) w = w"
    by (subst world_norm(4)) (simp add: world_norm(6))
  obtain g where g: "sk_fgs w fg = Some g" using assms(2) by auto
  show ?thesis
    using assms g same
    by (auto simp: tcp_recompute_timers_def Let_def cancel_timer_def hrtimer_cancel_def hrtimer_start_range_def world_norm(1)
      intro: exI [of _ "tp_unified_timer (tw_pcb w pcb)"])
qed

text \<open>The pointers and numbers of a control block that sending a segment does not change.\<close>

definition send_vars :: "tcp_pcb \<Rightarrow> addr \<times> addr \<times> u16 \<times> u32 \<times> u32" where
  "send_vars c = (tp_unsent c, tp_unacked c, tp_flags c, tp_snd_nxt c, tp_local_ip c)"

text \<open>The fields of the header at \<open>h\<close> that are completed when a segment is sent; \<open>m'\<close> differs
  from \<open>m\<close> there only.\<close>

definition late_fields :: "addr \<Rightarrow> addr set" where
  "late_fields h = {h + 8..<h + 12} \<union> {h + 14..<h + 18} \<union> {h + 20..<h + 28}"

definition completed :: "addr \<Rightarrow> u32 \<Rightarrow> bytemem \<Rightarrow> bytemem \<Rightarrow> bool" where
  "completed h ackno m m' \<longleftrightarrow> (\<forall>x. x \<notin> late_fields h \<longrightarrow> m' x = m x) \<and> get32 m' (h + 8) = ackno"

lemma put_other: "x \<notin> {b..<b + length bs} \<Longrightarrow> put_bytes m b bs x = m x"
  by (auto simp: put_bytes_def)

lemma get_agree: "(\<And>x. x \<in> {a..<a + n} \<Longrightarrow> m' x = m x) \<Longrightarrow> get_bytes m' a n = get_bytes m a n"
  by (rule nth_equalityI) (auto simp: get_bytes_def)

lemma completed_put:
  assumes "completed h ackno m m'" and "{b..<b + length bs} \<subseteq> {h + 14..<h + 18} \<union> {h + 20..<h + 28}"
  shows "completed h ackno m (put_bytes m' b bs)"
proof -
  have "get_bytes (put_bytes m' b bs) (h + 8) 4 = get_bytes m' (h + 8) 4"
    by (rule get_agree) (rule put_other, use assms(2) in auto)
  moreover have "put_bytes m' b bs x = m' x" if "x \<notin> late_fields h" for x
    by (rule put_other) (use assms(2) that in \<open>auto simp: late_fields_def\<close>)
  ultimately show ?thesis using assms(1) by (simp add: completed_def get32_def)
qed

lemma completed_ackno: "completed h ackno m (put32 m (h + 8) ackno)"
proof -
  have "put32 m (h + 8) ackno x = m x" if "x \<notin> late_fields h" for x
    unfolding put32_def by (rule put_other) (use that in \<open>auto simp: late_fields_def\<close>)
  then show ?thesis by (simp add: completed_def)
qed

lemma completed_options:
  assumes "completed h ackno m m'"
  shows "completed h ackno m (put_options env c h sflags m')"
  using assms
  by (auto simp: put_options_def Let_def put32_def TCP_HLEN_def intro!: completed_put)

lemma output_segment_prepares:
  assumes "\<not> ut_running (tp_unified_timer (tw_pcb w pcb))" and "sk_fgs w fg \<noteq> None"
    and "tp_local_ip (tw_pcb w pcb) \<noteq> IPADDR_ANY"
    and "h = tcphdr (tw_seg w q)" and "p = sg_p (tw_seg w q)" and "payload (sk_pb w p) = h"
  shows "\<exists>c' m'. tcp_output_segment env fg q pcb w =
      bindR (tcp_output_packet env fg pcb p (upd_pcb pcb (\<lambda>_. c') (sk_upd_mem (\<lambda>_. m') w))) (\<lambda>(_, w10). Inr w10) \<and>
    frozen c' = frozen (tw_pcb w pcb) \<and> send_vars c' = send_vars (tw_pcb w pcb) \<and>
    \<not> ut_running (tp_unified_timer c') \<and> completed h (tp_rcv_nxt (tw_pcb w pcb)) (sk_mem w) m'"
proof -
  let ?c = "tw_pcb w pcb" and ?sf = "seg_flags (tw_seg w q)"
  let ?wnd = "if ?sf AND TF_SEG_OPTS_WND_SCALE \<noteq> 0 then ucast (tp_rcv_ann_wnd ?c) else ucast (RCV_WND_SCALE ?c (tp_rcv_ann_wnd ?c)) :: u16"
  let ?c1 = "?c\<lparr>tp_rcv_ann_right_edge := tp_rcv_nxt ?c + tp_rcv_ann_wnd ?c\<rparr>"
  let ?m1 = "put16 (put32 (sk_mem w) (h + tcp_ackno) (tp_rcv_nxt ?c)) (h + tcp_wnd) ?wnd"
  define m3 where "m3 = put_options env ?c1 h ?sf ?m1"
  define at where "at = (\<lambda>c m. upd_pcb pcb (\<lambda>_. c) (sk_upd_mem (\<lambda>_. m) w))"
  have at_sel: "tw_pcb (at c m) pcb = c" "tw_seg (at c m) = tw_seg w" "sk_pb (at c m) = sk_pb w" "sk_mem (at c m) = m"
    "sk_fgs (at c m) = sk_fgs w" for c m by (simp_all add: at_def)
  have at_upd: "upd_pcb pcb f (at c m) = at (f c) m" "sk_upd_mem k (at c m) = at c (k m)" for c m f k
    by (simp_all add: at_def world_norm(1-3))
  let ?w2 = "upd_pcb pcb (\<lambda>c. c\<lparr>tp_rcv_ann_right_edge := tp_rcv_nxt c + tp_rcv_ann_wnd c\<rparr>)
      (sk_upd_mem (\<lambda>m. put16 (put32 m (h + tcp_ackno) (tp_rcv_nxt ?c)) (h + tcp_wnd) ?wnd) w)"
  have w3: "sk_upd_mem (put_options env (tw_pcb ?w2 pcb) h ?sf) ?w2 = at ?c1 m3"
    unfolding at_def m3_def upd_pcb_def sk_upd_mem_def sk_upd_net_def upd_mem_def sk_mem_def by simp
  let ?c3 = "?c1\<lparr>tp_retransmit_expires := te_now env + rto_ns (tp_rto ?c1)\<rparr>"
  have "\<not> ut_running (tp_unified_timer (tw_pcb (at ?c3 m3) pcb))" "sk_fgs (at ?c3 m3) fg \<noteq> None"
    using assms(1,2) by (simp_all add: at_sel)
  from recompute_returns [OF this, of env] obtain t where t: "tcp_recompute_timers env fg pcb (at ?c3 m3) =
      Inr (upd_pcb pcb (\<lambda>c. c\<lparr>tp_unified_timer := t\<rparr>) (at ?c3 m3))" "\<not> ut_running t" by blast
  define c4 where "c4 = ?c3\<lparr>tp_unified_timer := t\<rparr>"
  have w4: "set_retransmit env fg pcb (at ?c1 m3) = Inr (at c4 m3)"
    using t(1) by (simp add: set_retransmit_def at_upd c4_def)
  obtain x where x: "fg_deref (at c4 m3) fg = Inr x" using assms(2) by (auto simp: fg_deref_def at_sel)
  define c6 where "c6 = (if tp_rttest c4 = 0 then c4\<lparr>tp_rttest := tcp_ticks x, tp_rtseq := seg_seqno (at c4 m3) q\<rparr> else c4)"
  have w6: "(if tp_rttest c4 = 0
      then bindR (fg_deref (at c4 m3) fg) (\<lambda>x. Inr (at (c4\<lparr>tp_rttest := tcp_ticks x, tp_rtseq := seg_seqno (at c4 m3) q\<rparr>) m3))
      else Inr (at c4 m3)) = Inr (at c6 m3)"
    by (simp add: c6_def x)
  have w7: "upd_sk_pb p (\<lambda>b. b\<lparr>p_len := p_len b - of_int (int h - int (payload (sk_pb w p))),
      tot_len := tot_len b - of_int (int h - int (payload (sk_pb w p))), payload := h\<rparr>) (at c6 m3) = at c6 m3"
    using assms(6) by (simp add: at_sel upd_sk_pb_def) (simp add: at_def upd_pcb_def sk_upd_mem_def sk_upd_net_def fun_upd_idem)
  define m9 where "m9 = put_bytes (put16 m3 (h + tcp_chksum) 0) (h + tcp_chksum)
    (le_bytes 2 (te_chksum env (put16 m3 (h + tcp_chksum) 0) (sk_pb w) p IPPROTO_TCP (tot_len (sk_pb w p)) (tp_local_ip c6) (tp_remote_ip c6)))"
  have w9: "put_chksum env h p (tp_local_ip c6) (tp_remote_ip c6) (at c6 (put16 m3 (h + tcp_chksum) 0)) = at c6 m9"
    by (simp add: put_chksum_def at_upd at_sel m9_def)
  have la: "tp_local_ip c4 \<noteq> IPADDR_ANY" using assms(3) by (simp add: c4_def)
  have "tcp_output_segment env fg q pcb w = bindR (tcp_output_packet env fg pcb p (at c6 m9)) (\<lambda>(_, w10). Inr w10)"
    using la unfolding tcp_output_segment_def Let_def assms(4,5) [symmetric] w3 w4 bindR_Inr at_sel
    by (simp only: if_False if_not_P option.case w6 bindR_Inr at_sel assms(4,5) [symmetric] w7 at_upd w9)
  moreover have "completed h (tp_rcv_nxt ?c) (sk_mem w) m9"
  proof -
    have "completed h (tp_rcv_nxt ?c) (sk_mem w) ?m1"
      unfolding put16_def tcp_ackno_def by (rule completed_put [OF completed_ackno]) (auto simp: tcp_wnd_def)
    from completed_options [OF this] have "completed h (tp_rcv_nxt ?c) (sk_mem w) m3" unfolding m3_def .
    then show ?thesis unfolding m9_def put16_def by (intro completed_put) (auto simp: tcp_chksum_def le_bytes_def)
  qed
  moreover have "frozen c6 = frozen ?c" "send_vars c6 = send_vars ?c" "\<not> ut_running (tp_unified_timer c6)"
    using t(2) by (simp_all add: c6_def c4_def send_vars_def)
  ultimately show ?thesis unfolding at_def by blast
qed
text \<open>
  What has to hold for \<open>n\<close> segments of \<open>Q\<close> to be sent: a resolved destination, a timer that is not
  running, room in the transmit queue, enough packets, and headers, data and packets that lie
  apart from one another. \<open>wire\<close> is what the queued packets carry as sequence and
  acknowledgement number.
\<close>

definition hdr_area :: "tcp_world \<Rightarrow> addr \<Rightarrow> addr set" where
  "hdr_area w q = {tcphdr (tw_seg w q)..<tcphdr (tw_seg w q) + 28}"

definition mbuf_area :: "addr \<Rightarrow> addr set" where
  "mbuf_area m = {mbuf_mtod m..<mbuf_mtod m + MBUF_DATA_LEN}"

definition packet_ok :: "nat \<Rightarrow> (addr \<Rightarrow> pbuf) \<Rightarrow> addr \<Rightarrow> addr \<Rightarrow> addr list \<Rightarrow> bool" where
  "packet_ok fuel pbs h p xs \<longleftrightarrow> chain (\<lambda>x. p_next (pbs x)) p xs \<and> xs \<noteq> [] \<and> length xs \<le> fuel \<and> payload (pbs p) = h \<and>
     20 \<le> unat (p_len (pbs p)) \<and> unat (tot_len (pbs p)) = (\<Sum>x\<leftarrow>xs. unat (p_len (pbs x))) \<and>
     34 + unat (tot_len (pbs p)) \<le> MBUF_DATA_LEN"

definition wire :: "nat \<Rightarrow> tcp_world \<Rightarrow> (u32 \<times> u32) list" where
  "wire fg w = map (\<lambda>m. (get32 (sk_mem w) (mbuf_mtod m + 38), get32 (sk_mem w) (mbuf_mtod m + 42))) (sent_queue fg w)"

definition route_ok :: "tcp_env \<Rightarrow> nat \<Rightarrow> addr \<Rightarrow> tcp_world \<Rightarrow> bool" where
  "route_ok env fg pcb w \<longleftrightarrow> \<not> te_bugs env \<and> length (cfg_mac (CFG (te_net env))) = 6 \<and>
     \<not> ut_running (tp_unified_timer (tw_pcb w pcb)) \<and> tp_local_ip (tw_pcb w pcb) \<noteq> IPADDR_ANY \<and> sk_fgs w fg \<noteq> None \<and>
     (\<exists>dmac. known (te_net env) (sk_net w) (next_hop (CFG (te_net env)) (ntohl (tp_remote_ip (tw_pcb w pcb)))) = Some dmac \<and>
        length dmac = 6)"

definition packets_ok :: "tcp_env \<Rightarrow> nat \<Rightarrow> addr set \<Rightarrow> addr set \<Rightarrow> tcp_world \<Rightarrow> bool" where
  "packets_ok env fg Q F w \<longleftrightarrow> mbufs_ok (pool_ptr (te_net env)) (nw (sk_net w)) F \<and>
     (\<forall>a \<in> set (sent_queue fg w) \<union> F. \<forall>b\<in>F. a \<noteq> b \<longrightarrow> mbuf_area a \<inter> mbuf_area b = {}) \<and> set (sent_queue fg w) \<inter> F = {} \<and>
     (\<forall>q\<in>Q. \<forall>m \<in> set (sent_queue fg w) \<union> F. hdr_area w q \<inter> mbuf_area m = {}) \<and>
     (\<forall>q\<in>Q. \<exists>xs. packet_ok (te_fuel env) (sk_pb w) (tcphdr (tw_seg w q)) (sg_p (tw_seg w q)) xs \<and>
        (\<forall>m\<in>F. chain_clear (sk_pb w) xs (mbuf_mtod m + 14) (20 + unat (tot_len (sk_pb w (sg_p (tw_seg w q)))))))"

definition can_send :: "tcp_env \<Rightarrow> nat \<Rightarrow> addr \<Rightarrow> nat \<Rightarrow> addr set \<Rightarrow> tcp_world \<Rightarrow> bool" where
  "can_send env fg pcb n Q w \<longleftrightarrow> route_ok env fg pcb w \<and>
     int n \<le> tx_cap (txqs (sk_net w) (sk_dev_idx w fg)) \<and> length (sent_queue fg w) + n \<le> ETH_DEV_TX_QUEUE_SZ \<and>
     (\<exists>F. packets_ok env fg Q F w \<and> n \<le> card F) \<and>
     (\<forall>q\<in>Q. \<forall>r\<in>Q. q \<noteq> r \<longrightarrow> hdr_area w q \<inter> hdr_area w r = {})"

text \<open>The segments of \<open>Q\<close> keep their lengths and numbers.\<close>

definition segs_same :: "addr set \<Rightarrow> tcp_world \<Rightarrow> tcp_world \<Rightarrow> bool" where
  "segs_same Q w w' \<longleftrightarrow> (\<forall>x\<in>Q. seg_seqno w' x = seg_seqno w x \<and> TCP_TCPLEN w' x = TCP_TCPLEN w x \<and>
     seg_len (tw_seg w' x) = seg_len (tw_seg w x))"

text \<open>The bytes of a queued frame.\<close>

lemma frame_seqno:
  assumes "packet_ok fuel pbs h p xs" and "length dmac = 6" and "length smac = 6"
    and "frame = eth_frame dmac smac ty (ipv4_header tos tl' ttl pr src dst @ chain_data pbs m xs)"
  shows "length frame = 34 + unat (tot_len (pbs p))"
    "k + 4 \<le> 20 \<Longrightarrow> get32 (put_bytes m' e frame) (e + (34 + k)) = get32 m (h + k)"
proof -
  let ?d = "chain_data pbs m xs"
  show l: "length frame = 34 + unat (tot_len (pbs p))"
    using assms by (simp add: packet_ok_def length_chain_data)
  obtain ys where xs: "xs = p # ys" using assms(1) by (cases xs) (auto simp: packet_ok_def)
  have d: "?d = get_bytes m h (unat (p_len (pbs p))) @ chain_data pbs m ys"
    using assms(1) by (simp add: xs chain_data_def packet_ok_def)
  assume k: "k + 4 \<le> 20"
  have n: "20 \<le> unat (p_len (pbs p))" using assms(1) by (simp add: packet_ok_def)
  have t: "unat (p_len (pbs p)) \<le> unat (tot_len (pbs p))" using assms(1) by (simp add: packet_ok_def xs)
  have "get_bytes (put_bytes m' e frame) (e + (34 + k)) 4 = take 4 (drop (34 + k) (get_bytes (put_bytes m' e frame) e (length frame)))"
    by (rule get_sub) (use l k n t in simp)
  also have "\<dots> = take 4 (drop (34 + k) frame)" by simp
  also have "drop (34 + k) frame = drop k ?d"
    by (simp add: assms(2-4) eth_frame_def drop_append)
  also have "take 4 (drop k ?d) = take 4 (drop k (get_bytes m h (unat (p_len (pbs p)))))"
    unfolding d using k n by simp
  also have "\<dots> = get_bytes m (h + k) 4"
    by (rule get_sub [symmetric]) (use k n in simp)
  finally show "get32 (put_bytes m' e frame) (e + (34 + k)) = get32 m (h + k)" by (simp add: get32_def)
qed
lemma packets_okD:
  assumes "packets_ok env fg Q F w"
  shows "q \<in> Q \<Longrightarrow> m \<in> set (sent_queue fg w) \<union> F \<Longrightarrow> hdr_area w q \<inter> mbuf_area m = {}"
    "a \<in> set (sent_queue fg w) \<union> F \<Longrightarrow> b \<in> F \<Longrightarrow> a \<noteq> b \<Longrightarrow> mbuf_area a \<inter> mbuf_area b = {}"
    "set (sent_queue fg w) \<inter> F = {}"
  using assms unfolding packets_ok_def by blast+

text \<open>What is known after segment \<open>q\<close> left in packet \<open>pkt\<close>, one of the free ones \<open>F\<close>.\<close>

definition segment_out :: "tcp_env \<Rightarrow> nat \<Rightarrow> addr \<Rightarrow> addr \<Rightarrow> addr set \<Rightarrow> addr \<Rightarrow> tcp_world \<Rightarrow> tcp_world \<Rightarrow> bool" where
  "segment_out env fg pcb q F pkt w w' \<longleftrightarrow> pkt \<in> F \<and> mbufs_ok (pool_ptr (te_net env)) (nw (sk_net w')) (F - {pkt}) \<and>
     tw_seg w' = tw_seg w \<and> sk_pb w' = sk_pb w \<and> sk_fgs w' = sk_fgs w \<and> sk_dev_idx w' = sk_dev_idx w \<and>
     sent_queue fg w' = sent_queue fg w @ [pkt] \<and>
     tx_cap (txqs (sk_net w') (sk_dev_idx w fg)) = tx_cap (txqs (sk_net w) (sk_dev_idx w fg)) - 1 \<and>
     arp_ents (sk_net w') = arp_ents (sk_net w) \<and> arp_tbl (sk_net w') = arp_tbl (sk_net w) \<and>
     frozen (tw_pcb w' pcb) = frozen (tw_pcb w pcb) \<and> send_vars (tw_pcb w' pcb) = send_vars (tw_pcb w pcb) \<and>
     \<not> ut_running (tp_unified_timer (tw_pcb w' pcb)) \<and>
     (\<forall>x. x \<notin> late_fields (tcphdr (tw_seg w q)) \<and> x \<notin> mbuf_area pkt \<longrightarrow> sk_mem w' x = sk_mem w x) \<and>
     get32 (sk_mem w') (mbuf_mtod pkt + 38) = seg_seqno w q \<and> get32 (sk_mem w') (mbuf_mtod pkt + 42) = tp_rcv_nxt (tw_pcb w pcb)"

lemma output_segment_out:
  assumes r: "route_ok env fg pcb w" and F: "packets_ok env fg Q F w" "F \<noteq> {}" and q: "q \<in> Q"
    and room: "1 \<le> tx_cap (txqs (sk_net w) (sk_dev_idx w fg))" "length (sent_queue fg w) < ETH_DEV_TX_QUEUE_SZ"
  shows "\<exists>pkt w'. tcp_output_segment env fg q pcb w = Inr w' \<and> segment_out env fg pcb q F pkt w w'"
proof -
  let ?env = "te_net env" and ?c = "tw_pcb w pcb" and ?n = "sk_net w" and ?d = "sk_dev_idx w fg"
  let ?p = "sg_p (tw_seg w q)" and ?h = "tcphdr (tw_seg w q)"
  from r obtain dmac where dmac: "known ?env ?n (next_hop (CFG ?env) (ntohl (tp_remote_ip ?c))) = Some dmac" "length dmac = 6"
    by (auto simp: route_ok_def)
  obtain xs where xs: "packet_ok (te_fuel env) (sk_pb w) ?h ?p xs"
    "\<And>m. m \<in> F \<Longrightarrow> chain_clear (sk_pb w) xs (mbuf_mtod m + 14) (20 + unat (tot_len (sk_pb w ?p)))"
    using F(1) q unfolding packets_ok_def by blast
  have "payload (sk_pb w ?p) = ?h" using xs(1) by (simp add: packet_ok_def)
  with r output_segment_prepares [OF _ _ _ refl refl this, of pcb fg env] obtain c' m' where
    seg: "tcp_output_segment env fg q pcb w =
      bindR (tcp_output_packet env fg pcb ?p (upd_pcb pcb (\<lambda>_. c') (sk_upd_mem (\<lambda>_. m') w))) (\<lambda>(_, w10). Inr w10)"
    and c': "frozen c' = frozen ?c" "send_vars c' = send_vars ?c" "\<not> ut_running (tp_unified_timer c')"
    and m': "completed ?h (tp_rcv_nxt ?c) (sk_mem w) m'"
    unfolding route_ok_def by blast
  let ?v = "upd_pcb pcb (\<lambda>_. c') (sk_upd_mem (\<lambda>_. m') w)"
  note cf = frozen_fields [OF c'(1)]
  have nv: "sk_net (sk_upd_mem (\<lambda>_. m') w) = ?n\<lparr>nmem := m'\<rparr>" by (simp add: sk_upd_mem_def sk_upd_net_def upd_mem_def)
  have "segment_ready ?env (te_fuel env) fg ?p xs (ntohl (tp_remote_ip (tw_pcb ?v pcb))) dmac F ?v"
    unfolding segment_ready_def
  proof (intro conjI)
    show "known ?env (sk_net ?v) (next_hop (CFG ?env) (ntohl (tp_remote_ip (tw_pcb ?v pcb)))) = Some dmac"
      using dmac(1) cf(15) by (simp add: nv known_keep [of "?n\<lparr>nmem := m'\<rparr>" ?n])
    show "tx_ready fg ?v" using r room by (simp add: tx_ready_def route_ok_def nv sent_queue_def)
    show "F \<noteq> {}" using F(2) .
    show "mbufs_ok (pool_ptr ?env) (nw (sk_net ?v)) F" using F(1) by (simp add: packets_ok_def nv)
  qed (use r xs dmac(2) in \<open>simp_all add: route_ok_def packet_ok_def\<close>)
  from output_packet_queues [OF this] obtain pkt n' where
    pk: "tcp_output_packet env fg pcb ?p ?v = Inr (0, ?v\<lparr>sk_net := n'\<rparr>)" and
    qd: "queued ?env (sk_dev_idx ?v fg) F pkt (eth_frame dmac (cfg_mac (CFG ?env)) ETHTYPE_IP
      (ipv4_header (tp_tos c') (20 + tot_len (sk_pb w ?p)) (tp_ttl c') IPPROTO_TCP
        (ntohl (tp_local_ip c')) (ntohl (tp_remote_ip c')) @ chain_data (sk_pb w) m' xs)) (sk_net ?v) n'"
    by (auto simp: fun_upd_def)
  let ?w' = "?v\<lparr>sk_net := n'\<rparr>"
  define frame where "frame = eth_frame dmac (cfg_mac (CFG ?env)) ETHTYPE_IP
      (ipv4_header (tp_tos c') (20 + tot_len (sk_pb w ?p)) (tp_ttl c') IPPROTO_TCP
        (ntohl (tp_local_ip c')) (ntohl (tp_remote_ip c')) @ chain_data (sk_pb w) m' xs)"
  have smac: "length (cfg_mac (CFG ?env)) = 6" using r by (simp add: route_ok_def)
  note fr = frame_seqno [OF xs(1) dmac(2) smac frame_def]
  have n': "pkt \<in> F" "mbufs_ok (pool_ptr ?env) (nw n') (F - {pkt})" "nmem n' = put_bytes m' (mbuf_mtod pkt) frame"
    "tx_bufs (txqs n' ?d) = sent_queue fg w @ [pkt]" "tx_cap (txqs n' ?d) = tx_cap (txqs ?n ?d) - 1"
    "arp_ents n' = arp_ents ?n" "arp_tbl n' = arp_tbl ?n"
    using qd by (simp_all add: queued_def frame_def [symmetric] nv sent_queue_def)
  have mem: "sk_mem ?w' = put_bytes m' (mbuf_mtod pkt) frame" using n'(3) by (simp add: sk_mem_def)
  have area: "{mbuf_mtod pkt..<mbuf_mtod pkt + length frame} \<subseteq> mbuf_area pkt"
    using xs(1) by (auto simp: mbuf_area_def fr(1) packet_ok_def)
  have same: "sk_mem ?w' x = sk_mem w x" if "x \<notin> late_fields ?h" "x \<notin> mbuf_area pkt" for x
  proof -
    have "sk_mem ?w' x = m' x" unfolding mem by (rule put_other) (use area that(2) in blast)
    then show ?thesis using m' that(1) by (simp add: completed_def)
  qed
  have "get32 (sk_mem ?w') (mbuf_mtod pkt + 38) = get32 m' (?h + 4)" "get32 (sk_mem ?w') (mbuf_mtod pkt + 42) = get32 m' (?h + 8)"
    unfolding mem using fr(2) [of 4] fr(2) [of 8] by simp_all
  moreover have "get32 m' (?h + 8) = tp_rcv_nxt ?c" using m' by (simp add: completed_def)
  moreover have "get32 m' (?h + 4) = seg_seqno w q"
  proof -
    have "get_bytes m' (?h + 4) 4 = get_bytes (sk_mem w) (?h + 4) 4"
      using m' by (intro get_agree) (auto simp: completed_def late_fields_def)
    then show ?thesis by (simp add: get32_def seg_seqno_def tcp_seqno_def)
  qed
  ultimately have "segment_out env fg pcb q F pkt w ?w'"
    using n' c' same unfolding segment_out_def by (simp add: sent_queue_def)
  then show ?thesis unfolding seg pk by auto
qed

lemma segment_out_segs:
  assumes o: "segment_out env fg pcb q F pkt w w'" and F: "packets_ok env fg Q F w" and q: "q \<in> Q"
    and apart: "\<And>x y. x \<in> Q \<Longrightarrow> y \<in> Q \<Longrightarrow> x \<noteq> y \<Longrightarrow> hdr_area w x \<inter> hdr_area w y = {}"
  shows "segs_same Q w w'"
proof -
  have far: "x \<notin> late_fields (tcphdr (tw_seg w q)) \<and> x \<notin> mbuf_area pkt"
    if "y \<in> Q" "x \<in> {tcphdr (tw_seg w y) + k..<tcphdr (tw_seg w y) + k + n}" "k = 4 \<and> n = 4 \<or> k = 12 \<and> n = 2" for x y k n
  proof -
    have a: "x \<in> hdr_area w y" using that(2,3) by (auto simp: hdr_area_def)
    moreover have "pkt \<in> F" using o by (simp add: segment_out_def)
    ultimately have "x \<notin> mbuf_area pkt" using packets_okD(1) [OF F that(1), of pkt] by auto
    moreover have "x \<notin> late_fields (tcphdr (tw_seg w q))"
    proof (cases "y = q")
      case True
      then show ?thesis using that(2,3) by (auto simp: late_fields_def)
    next
      case False
      have "late_fields (tcphdr (tw_seg w q)) \<subseteq> hdr_area w q" by (auto simp: late_fields_def hdr_area_def)
      then show ?thesis using apart [OF that(1) q False] a by auto
    qed
    ultimately show ?thesis by simp
  qed
  have same: "sk_mem w' x = sk_mem w x" if "x \<notin> late_fields (tcphdr (tw_seg w q)) \<and> x \<notin> mbuf_area pkt" for x
    using o that by (simp add: segment_out_def)
  have "seg_seqno w' y = seg_seqno w y \<and> seg_hdr_flags w' y = seg_hdr_flags w y" if y: "y \<in> Q" for y
  proof -
    have "get_bytes (sk_mem w') (tcphdr (tw_seg w y) + 4) 4 = get_bytes (sk_mem w) (tcphdr (tw_seg w y) + 4) 4"
      using same far [OF y, of _ 4 4] by (intro get_agree) auto
    moreover have "get_bytes (sk_mem w') (tcphdr (tw_seg w y) + 12) 2 = get_bytes (sk_mem w) (tcphdr (tw_seg w y) + 12) 2"
      using same far [OF y, of _ 12 2] by (intro get_agree) auto
    moreover have "tw_seg w' = tw_seg w" using o by (simp add: segment_out_def)
    ultimately show ?thesis
      by (simp add: seg_seqno_def seg_hdr_flags_def TCPH_FLAGS_def get32_def get16_def tcp_layout)
  qed
  then show ?thesis using o by (simp add: segs_same_def segment_out_def TCP_TCPLEN_def)
qed

lemma segment_out_wire:
  assumes o: "segment_out env fg pcb q F pkt w w'" and F: "packets_ok env fg Q F w" and q: "q \<in> Q"
  shows "wire fg w' = wire fg w @ [(seg_seqno w q, tp_rcv_nxt (tw_pcb w pcb))]"
proof -
  have late: "late_fields (tcphdr (tw_seg w q)) \<subseteq> hdr_area w q" by (auto simp: late_fields_def hdr_area_def)
  have "get32 (sk_mem w') (mbuf_mtod m + k) = get32 (sk_mem w) (mbuf_mtod m + k)"
    if "m \<in> set (sent_queue fg w)" "k = 38 \<or> k = 42" for m k
  proof -
    have pkt: "pkt \<in> F" using o by (simp add: segment_out_def)
    then have "m \<noteq> pkt" using packets_okD(3) [OF F] that(1) by auto
    then have "mbuf_area m \<inter> mbuf_area pkt = {}" "mbuf_area m \<inter> hdr_area w q = {}"
      using packets_okD(2) [OF F _ pkt, of m] packets_okD(1) [OF F q, of m] that(1) by auto
    moreover have "{mbuf_mtod m + k..<mbuf_mtod m + k + 4} \<subseteq> mbuf_area m"
      using that(2) by (auto simp: mbuf_area_def MBUF_DATA_LEN_def)
    ultimately have "x \<notin> late_fields (tcphdr (tw_seg w q)) \<and> x \<notin> mbuf_area pkt" if "x \<in> {mbuf_mtod m + k..<mbuf_mtod m + k + 4}" for x
      using late that by blast
    then have "get_bytes (sk_mem w') (mbuf_mtod m + k) 4 = get_bytes (sk_mem w) (mbuf_mtod m + k) 4"
      using o by (intro get_agree) (auto simp: segment_out_def)
    then show ?thesis by (simp add: get32_def)
  qed
  then show ?thesis using o by (simp add: wire_def segment_out_def)
qed

lemma segment_out_packets:
  assumes o: "segment_out env fg pcb q F pkt w w'" and F: "packets_ok env fg Q F w"
  shows "packets_ok env fg Q (F - {pkt}) w'"
proof -
  have same: "sent_queue fg w' = sent_queue fg w @ [pkt]" "tw_seg w' = tw_seg w" "sk_pb w' = sk_pb w" "pkt \<in> F"
    "mbufs_ok (pool_ptr (te_net env)) (nw (sk_net w')) (F - {pkt})" using o by (simp_all add: segment_out_def)
  have hdr: "hdr_area w' x = hdr_area w x" for x by (simp add: hdr_area_def same(2))
  show ?thesis
    unfolding packets_ok_def hdr same(1-3)
  proof (intro conjI)
    show "\<forall>a\<in>set (sent_queue fg w @ [pkt]) \<union> (F - {pkt}). \<forall>b\<in>F - {pkt}. a \<noteq> b \<longrightarrow> mbuf_area a \<inter> mbuf_area b = {}"
      using packets_okD(2) [OF F] same(4) by simp blast
    show "set (sent_queue fg w @ [pkt]) \<inter> (F - {pkt}) = {}" using packets_okD(3) [OF F] by auto
    show "\<forall>q\<in>Q. \<forall>m\<in>set (sent_queue fg w @ [pkt]) \<union> (F - {pkt}). hdr_area w q \<inter> mbuf_area m = {}"
      using packets_okD(1) [OF F] same(4) by simp blast
    show "\<forall>q\<in>Q. \<exists>xs. packet_ok (te_fuel env) (sk_pb w) (tcphdr (tw_seg w q)) (sg_p (tw_seg w q)) xs \<and>
      (\<forall>m\<in>F - {pkt}. chain_clear (sk_pb w) xs (mbuf_mtod m + 14) (20 + unat (tot_len (sk_pb w (sg_p (tw_seg w q))))))"
      using F unfolding packets_ok_def by blast
  qed (rule same(5))
qed

lemma output_segment_sends:
  assumes s: "can_send env fg pcb (Suc n) Q w" and q: "q \<in> Q"
  shows "\<exists>w'. tcp_output_segment env fg q pcb w = Inr w' \<and> can_send env fg pcb n Q w' \<and> segs_same Q w w' \<and> tw_seg w' = tw_seg w \<and>
    send_vars (tw_pcb w' pcb) = send_vars (tw_pcb w pcb) \<and>
    wire fg w' = wire fg w @ [(seg_seqno w q, tp_rcv_nxt (tw_pcb w pcb))]"
proof -
  obtain F where r: "route_ok env fg pcb w" and F: "packets_ok env fg Q F w" "Suc n \<le> card F"
    and room: "int (Suc n) \<le> tx_cap (txqs (sk_net w) (sk_dev_idx w fg))" "length (sent_queue fg w) + Suc n \<le> ETH_DEV_TX_QUEUE_SZ"
    and apart: "\<And>x y. x \<in> Q \<Longrightarrow> y \<in> Q \<Longrightarrow> x \<noteq> y \<Longrightarrow> hdr_area w x \<inter> hdr_area w y = {}"
    using s by (auto simp: can_send_def)
  have "F \<noteq> {}" using F(2) by auto
  from output_segment_out [OF r F(1) this q] room obtain pkt w' where
    w': "tcp_output_segment env fg q pcb w = Inr w'" and o: "segment_out env fg pcb q F pkt w w'" by auto
  note d = o [unfolded segment_out_def]
  have "route_ok env fg pcb w'"
    using r d frozen_fields(15) [of "tw_pcb w' pcb" "tw_pcb w pcb"] known_keep [of "sk_net w'" "sk_net w"]
    by (simp add: route_ok_def send_vars_def)
  moreover have "n \<le> card (F - {pkt})" using F(2) d by (cases "finite F") auto
  moreover have "\<forall>x\<in>Q. \<forall>y\<in>Q. x \<noteq> y \<longrightarrow> hdr_area w' x \<inter> hdr_area w' y = {}" using apart d by (simp add: hdr_area_def)
  moreover have "int n \<le> tx_cap (txqs (sk_net w') (sk_dev_idx w' fg))" "length (sent_queue fg w') + n \<le> ETH_DEV_TX_QUEUE_SZ"
    using room d by simp_all
  ultimately have "can_send env fg pcb n Q w'" using segment_out_packets [OF o F(1)] unfolding can_send_def by blast
  then show ?thesis using w' segment_out_segs [OF o F(1) q apart] segment_out_wire [OF o F(1) q] d by auto
qed
end
