(* ===== verification/Tcp_Output_Spec.thy ===== *)
theory Tcp_Output_Spec
  imports Tcp_Sender
begin

text \<open>
  What \<open>tcp_output\<close> sends: the unsent segments that the windows allow, in order, except a last
  short one that Nagle's algorithm holds back. The loop is verified against the contract of
  sending one segment (\<open>segment_sender\<close>).
\<close>

section \<open>The contract of sending a segment\<close>

locale segment_sender =
  fixes env :: tcp_env and fg :: nat and pcb :: addr
    and ready :: "nat \<Rightarrow> addr set \<Rightarrow> tcp_world \<Rightarrow> bool" and log :: "tcp_world \<Rightarrow> (u32 \<times> u32) list"
  assumes send_law: "ready (Suc n) Q w \<Longrightarrow> q \<in> Q \<Longrightarrow>
      \<exists>w'. tcp_output_segment env fg q pcb w = Inr w' \<and> ready n Q w' \<and> segs_same Q w w' \<and> tw_seg w' = tw_seg w \<and>
        send_vars (tw_pcb w' pcb) = send_vars (tw_pcb w pcb) \<and>
        log w' = log w @ [(seg_seqno w q, tp_rcv_nxt (tw_pcb w pcb))]"
    and timer_law: "ready n Q w \<Longrightarrow>
      \<exists>t. tcp_recompute_timers env fg pcb w = Inr (upd_pcb pcb (\<lambda>c. c\<lparr>tp_unified_timer := t\<rparr>) w) \<and>
        ready n Q (upd_pcb pcb (\<lambda>c. c\<lparr>tp_unified_timer := t\<rparr>) w)"
    and flag_law: "ready n Q w \<Longrightarrow> q \<in> Q \<Longrightarrow>
      ready n Q (sk_upd_mem (TCPH_SET_FLAG (tcphdr (tw_seg w q)) TCP_ACK) w) \<and>
      log (sk_upd_mem (TCPH_SET_FLAG (tcphdr (tw_seg w q)) TCP_ACK) w) = log w \<and>
      segs_same Q w (sk_upd_mem (TCPH_SET_FLAG (tcphdr (tw_seg w q)) TCP_ACK) w)"
    and link_law: "ready n Q w \<Longrightarrow> ready n Q (upd_seg q (\<lambda>g. g\<lparr>sg_next := x\<rparr>) w)"
    and pcb_law: "ready n Q w \<Longrightarrow> (\<And>c. frozen (f c) = frozen c) \<Longrightarrow> (\<And>c. tp_unified_timer (f c) = tp_unified_timer c) \<Longrightarrow>
      (\<And>c. tp_local_ip (f c) = tp_local_ip c) \<Longrightarrow> ready n Q (upd_pcb pcb f w)"
    and log_law: "log (upd_seg q g w) = log w" "log (upd_pcb pcb f w) = log w"

text \<open>The model's own sender keeps the contract.\<close>

lemma can_send_cong:
  assumes "can_send env fg pcb n Q w" and "sk_net w' = (sk_net w)\<lparr>nmem := m\<rparr>" and "sk_pb w' = sk_pb w" and "sk_fgs w' = sk_fgs w"
    and "sk_dev_idx w' = sk_dev_idx w" and "\<And>q. tcphdr (tw_seg w' q) = tcphdr (tw_seg w q) \<and> sg_p (tw_seg w' q) = sg_p (tw_seg w q)"
    and "frozen (tw_pcb w' pcb) = frozen (tw_pcb w pcb)" and "tp_local_ip (tw_pcb w' pcb) = tp_local_ip (tw_pcb w pcb)"
    and "\<not> ut_running (tp_unified_timer (tw_pcb w' pcb))"
  shows "can_send env fg pcb n Q w'"
proof -
  have "known env' (sk_net w') a = known env' (sk_net w) a" for env' a by (rule known_keep) (simp_all add: assms(2))
  then show ?thesis
    using assms frozen_fields(15) [OF assms(7)]
    unfolding can_send_def route_ok_def packets_ok_def hdr_area_def sent_queue_def by simp
qed

lemma can_send_running: "can_send env fg pcb n Q w \<Longrightarrow> \<not> ut_running (tp_unified_timer (tw_pcb w pcb))"
  by (simp add: can_send_def route_ok_def)

lemma set_flag_other:
  assumes "x \<notin> {h + 12..<h + 14}"
  shows "TCPH_SET_FLAG h fl m x = m x"
  unfolding TCPH_SET_FLAG_def put16_def by (rule put_other) (use assms in \<open>auto simp: tcp_hdrlen_flags_def\<close>)

lemma set_ack_tcplen:
  "((x OR ucast TCP_ACK) AND TCP_FLAGS) AND ucast (TCP_FIN OR TCP_SYN) = (x AND TCP_FLAGS) AND ucast (TCP_FIN OR TCP_SYN)"
  for x :: u16
proof -
  have m: "TCP_FLAGS AND ucast (TCP_FIN OR TCP_SYN) = (3 :: u16)" "(ucast TCP_ACK :: u16) AND 3 = 0"
    by (simp_all add: TCP_FLAGS_def TCP_FIN_def TCP_SYN_def TCP_ACK_def)
  show ?thesis unfolding and.assoc m bit.conj_disj_distrib2 by simp
qed

lemma set_flag_same:
  assumes apart: "\<And>x y. x \<in> Q \<Longrightarrow> y \<in> Q \<Longrightarrow> x \<noteq> y \<Longrightarrow> hdr_area w x \<inter> hdr_area w y = {}" and q: "q \<in> Q"
  shows "segs_same Q w (sk_upd_mem (TCPH_SET_FLAG (tcphdr (tw_seg w q)) TCP_ACK) w)" (is "segs_same Q w ?w'")
proof -
  let ?h = "tcphdr (tw_seg w q)"
  have "seg_seqno ?w' x = seg_seqno w x \<and> TCP_TCPLEN ?w' x = TCP_TCPLEN w x" if x: "x \<in> Q" for x
  proof -
    have "get_bytes (TCPH_SET_FLAG ?h TCP_ACK (sk_mem w)) (tcphdr (tw_seg w x) + 4) 4 = get_bytes (sk_mem w) (tcphdr (tw_seg w x) + 4) 4"
    proof (rule get_agree, rule set_flag_other)
      fix y assume y: "y \<in> {tcphdr (tw_seg w x) + 4..<tcphdr (tw_seg w x) + 4 + 4}"
      then show "y \<notin> {?h + 12..<?h + 14}"
        using apart [OF x q] by (cases "x = q") (auto simp: hdr_area_def)
    qed
    moreover have "seg_hdr_flags ?w' x = seg_hdr_flags w x" if "x \<noteq> q"
    proof -
      have "get_bytes (TCPH_SET_FLAG ?h TCP_ACK (sk_mem w)) (tcphdr (tw_seg w x) + 12) 2 = get_bytes (sk_mem w) (tcphdr (tw_seg w x) + 12) 2"
        by (rule get_agree, rule set_flag_other) (use apart [OF x q that] in \<open>auto simp: hdr_area_def\<close>)
      then show ?thesis by (simp add: seg_hdr_flags_def TCPH_FLAGS_def get16_def tcp_hdrlen_flags_def)
    qed
    moreover have "seg_hdr_flags ?w' q AND ucast (TCP_FIN OR TCP_SYN) = seg_hdr_flags w q AND ucast (TCP_FIN OR TCP_SYN)"
      by (simp add: seg_hdr_flags_def TCPH_FLAGS_def TCPH_SET_FLAG_def set_ack_tcplen)
    ultimately show ?thesis
      by (cases "x = q") (simp_all add: seg_seqno_def TCP_TCPLEN_def get32_def tcp_seqno_def)
  qed
  then show ?thesis by (simp add: segs_same_def)
qed

lemma set_flag_wire:
  assumes "can_send env fg pcb n Q w" and q: "q \<in> Q"
  shows "wire fg (sk_upd_mem (TCPH_SET_FLAG (tcphdr (tw_seg w q)) TCP_ACK) w) = wire fg w" (is "wire fg ?w' = _")
proof -
  let ?h = "tcphdr (tw_seg w q)"
  obtain F where F: "packets_ok env fg Q F w" using assms(1) by (auto simp: can_send_def)
  have "get32 (TCPH_SET_FLAG ?h TCP_ACK (sk_mem w)) (mbuf_mtod m + k) = get32 (sk_mem w) (mbuf_mtod m + k)"
    if "m \<in> set (sent_queue fg w)" "k = 38 \<or> k = 42" for m k
  proof -
    have "{mbuf_mtod m + k..<mbuf_mtod m + k + 4} \<subseteq> mbuf_area m" using that(2) by (auto simp: mbuf_area_def MBUF_DATA_LEN_def)
    moreover have "{?h + 12..<?h + 14} \<subseteq> hdr_area w q" by (auto simp: hdr_area_def)
    ultimately have "get_bytes (TCPH_SET_FLAG ?h TCP_ACK (sk_mem w)) (mbuf_mtod m + k) 4 = get_bytes (sk_mem w) (mbuf_mtod m + k) 4"
      using packets_okD(1) [OF F q, of m] that(1) by (intro get_agree set_flag_other) blast
    then show ?thesis by (simp add: get32_def)
  qed
  moreover have "sent_queue fg ?w' = sent_queue fg w" by (simp add: sent_queue_def sk_upd_mem_def sk_upd_net_def upd_mem_def)
  ultimately show ?thesis by (simp add: wire_def)
qed

interpretation out: segment_sender env fg pcb "can_send env fg pcb" "wire fg" for env fg pcb
proof unfold_locales
  fix n Q w q x f
  assume r: "can_send env fg pcb n Q w"
  show "\<exists>t. tcp_recompute_timers env fg pcb w = Inr (upd_pcb pcb (\<lambda>c. c\<lparr>tp_unified_timer := t\<rparr>) w) \<and>
        can_send env fg pcb n Q (upd_pcb pcb (\<lambda>c. c\<lparr>tp_unified_timer := t\<rparr>) w)"
  proof -
    have "sk_fgs w fg \<noteq> None" using r by (simp add: can_send_def route_ok_def)
    from recompute_returns [OF can_send_running [OF r] this] obtain t
      where "tcp_recompute_timers env fg pcb w = Inr (upd_pcb pcb (\<lambda>c. c\<lparr>tp_unified_timer := t\<rparr>) w)" "\<not> ut_running t" by blast
    moreover from this have "can_send env fg pcb n Q (upd_pcb pcb (\<lambda>c. c\<lparr>tp_unified_timer := t\<rparr>) w)"
      by (intro can_send_cong [OF r, where m = "sk_mem w"]) (simp_all add: sk_mem_def)
    ultimately show ?thesis by blast
  qed
  show "can_send env fg pcb n Q (upd_seg q (\<lambda>g. g\<lparr>sg_next := x\<rparr>) w)"
    by (rule can_send_cong [OF r, where m = "sk_mem w"]) (use can_send_running [OF r] in \<open>simp_all add: sk_mem_def\<close>)
  show "can_send env fg pcb n Q (upd_pcb pcb f w)"
    if "\<And>c. frozen (f c) = frozen c" "\<And>c. tp_unified_timer (f c) = tp_unified_timer c" "\<And>c. tp_local_ip (f c) = tp_local_ip c"
    by (rule can_send_cong [OF r, where m = "sk_mem w"]) (use can_send_running [OF r] that in \<open>simp_all add: sk_mem_def\<close>)
  show "can_send env fg pcb n Q (sk_upd_mem (TCPH_SET_FLAG (tcphdr (tw_seg w q)) TCP_ACK) w) \<and>
      wire fg (sk_upd_mem (TCPH_SET_FLAG (tcphdr (tw_seg w q)) TCP_ACK) w) = wire fg w \<and>
      segs_same Q w (sk_upd_mem (TCPH_SET_FLAG (tcphdr (tw_seg w q)) TCP_ACK) w)" if q: "q \<in> Q"
  proof (intro conjI)
    show "can_send env fg pcb n Q (sk_upd_mem (TCPH_SET_FLAG (tcphdr (tw_seg w q)) TCP_ACK) w)"
      by (rule can_send_cong [OF r, where m = "TCPH_SET_FLAG (tcphdr (tw_seg w q)) TCP_ACK (sk_mem w)"])
        (use can_send_running [OF r] in \<open>simp_all add: sk_mem_def sk_upd_mem_def sk_upd_net_def upd_mem_def\<close>)
    show "segs_same Q w (sk_upd_mem (TCPH_SET_FLAG (tcphdr (tw_seg w q)) TCP_ACK) w)"
      by (rule set_flag_same [OF _ q]) (use r in \<open>simp add: can_send_def\<close>)
  qed (rule set_flag_wire [OF r q])
next
  show "wire fg (upd_seg q g w) = wire fg w" "wire fg (upd_pcb pcb f w) = wire fg w" for q g w f
    by (simp_all add: wire_def sent_queue_def)
qed (rule output_segment_sends)
section \<open>What is sent\<close>

text \<open>
  The queue of unsent segments \<open>qs\<close> and of unacknowledged ones \<open>us\<close> of a control block, in the
  order of their sequence numbers.
\<close>

definition send_queues :: "addr \<Rightarrow> addr list \<Rightarrow> addr list \<Rightarrow> tcp_world \<Rightarrow> bool" where
  "send_queues pcb us qs w \<longleftrightarrow>
     chain (\<lambda>q. sg_next (tw_seg w q)) (tp_unacked (tw_pcb w pcb)) us \<and>
     chain (\<lambda>q. sg_next (tw_seg w q)) (tp_unsent (tw_pcb w pcb)) qs \<and> distinct (us @ qs) \<and>
     sorted_wrt (\<lambda>x y. \<not> TCP_SEQ_LT (seg_seqno w y) (seg_seqno w x)) (us @ qs) \<and>
     (\<forall>q\<in>set qs. 0 < TCP_TCPLEN w q)"

text \<open>
  The segments to send: those that fit in the window, up to the first that does not; but a last
  one that is not full stays when something is in flight and nothing (\<open>free\<close>) overrides Nagle's
  algorithm. \<open>sendable\<close> decides it segment by segment.
\<close>

definition nagle_prefix :: "(addr \<Rightarrow> bool) \<Rightarrow> (addr \<Rightarrow> bool) \<Rightarrow> bool \<Rightarrow> bool \<Rightarrow> addr list \<Rightarrow> addr list" where
  "nagle_prefix fits full free inflight qs =
     (let t = takeWhile fits qs in
      if t = qs \<and> t \<noteq> [] \<and> \<not> free \<and> \<not> full (last t) \<and> (inflight \<or> length t > 1) then butlast t else t)"

fun sendable :: "(addr \<Rightarrow> bool) \<Rightarrow> (addr \<Rightarrow> bool) \<Rightarrow> bool \<Rightarrow> bool \<Rightarrow> addr list \<Rightarrow> addr list" where
  "sendable fits full free inflight [] = []"
| "sendable fits full free inflight (q # qs) =
     (if fits q \<and> (\<not> inflight \<or> free \<or> qs \<noteq> [] \<or> full q) then q # sendable fits full free True qs else [])"

lemma sendable_nagle: "sendable fits full free inflight qs = nagle_prefix fits full free inflight qs"
proof (induction qs arbitrary: inflight)
  case Nil
  then show ?case by (simp add: nagle_prefix_def)
next
  case (Cons q qs)
  show ?case
  proof (cases "qs = []")
    case True
    then show ?thesis by (auto simp: nagle_prefix_def)
  next
    case False
    show ?thesis
    proof (cases "takeWhile fits qs = qs")
      case True
      with False Cons [of True] show ?thesis by (simp add: nagle_prefix_def del: takeWhile_eq_all_conv)
    next
      case t: False
      with False Cons [of True] show ?thesis by (simp add: nagle_prefix_def del: takeWhile_eq_all_conv)
    qed
  qed
qed

lemma sendable_prefix: "\<exists>rest. qs = sendable fits full free inflight qs @ rest"
  by (induction qs arbitrary: inflight) auto

lemma sendable_cong:
  "(\<And>x. x \<in> set qs \<Longrightarrow> fits x = fits' x \<and> full x = full' x) \<Longrightarrow> sendable fits full free h qs = sendable fits' full' free h qs"
  by (induction qs arbitrary: h) auto

definition fits_window :: "tcp_world \<Rightarrow> addr \<Rightarrow> u32 \<Rightarrow> addr \<Rightarrow> bool" where
  "fits_window w pcb wnd q \<longleftrightarrow> seg_end w pcb q \<le> wnd"

definition full_segment :: "tcp_world \<Rightarrow> addr \<Rightarrow> addr \<Rightarrow> bool" where
  "full_segment w pcb q \<longleftrightarrow> seg_len (tw_seg w q) \<ge> tp_mss (tw_pcb w pcb)"

definition nagle_free :: "tcp_pcb \<Rightarrow> bool" where
  "nagle_free c \<longleftrightarrow> tp_flags c AND (TF_NODELAY OR TF_INFR) \<noteq> 0 \<or> tp_snd_buf c = 0 \<or> tp_snd_queuelen c \<ge> TCP_SND_QUEUELEN \<or>
     tp_flags c AND (TF_NAGLEMEMERR OR TF_FIN) \<noteq> 0"

lemma nagle_step:
  assumes "send_queues pcb us (q # qs) w"
  shows "(\<not> tcp_do_output_nagle w pcb \<and> tp_flags (tw_pcb w pcb) AND (TF_NAGLEMEMERR OR TF_FIN) = 0) \<longleftrightarrow>
    \<not> (us = [] \<or> nagle_free (tw_pcb w pcb) \<or> qs \<noteq> [] \<or> full_segment w pcb q)"
proof -
  have "tp_unacked (tw_pcb w pcb) = NULL \<longleftrightarrow> us = []" "sg_next (tw_seg w q) = NULL \<longleftrightarrow> qs = []"
    "tp_unsent (tw_pcb w pcb) = q" "q \<noteq> NULL"
    using assms by (auto simp: send_queues_def dest: chain_hd chain_no_null)
  then show ?thesis by (auto simp: tcp_do_output_nagle_def nagle_free_def full_segment_def Let_def)
qed
section \<open>One turn of the loop\<close>

lemma segs_same_trans: "segs_same Q w w' \<Longrightarrow> segs_same Q w' w'' \<Longrightarrow> segs_same Q w w''"
  by (simp add: segs_same_def)

lemma segs_same_upd:
  "segs_same Q w (upd_pcb p f w)" "segs_same Q w (upd_seg q (\<lambda>g. g\<lparr>sg_next := x\<rparr>) w)"
  by (simp_all add: segs_same_def seg_seqno_def TCP_TCPLEN_def seg_hdr_flags_def)

text \<open>Two control blocks with the same queues and number to send next, and the same flags but
  for the pending acknowledgement.\<close>

definition same_queue :: "tcp_pcb \<Rightarrow> tcp_pcb \<Rightarrow> bool" where
  "same_queue c c' \<longleftrightarrow> tp_unsent c' = tp_unsent c \<and> tp_unacked c' = tp_unacked c \<and> tp_snd_nxt c' = tp_snd_nxt c \<and>
     (tp_flags c' = tp_flags c \<or> tp_flags c' = tp_flags c AND NOT TF_ACK_NOW)"

lemma flags_mask:
  assumes "f' = f \<or> f' = f AND NOT TF_ACK_NOW" and "m \<in> {TF_NODELAY OR TF_INFR, TF_NAGLEMEMERR OR TF_FIN}"
  shows "f' AND m = f AND m"
proof -
  have "NOT TF_ACK_NOW AND m = m"
    using assms(2) by (auto simp: TF_ACK_NOW_def TF_NODELAY_def TF_INFR_def TF_NAGLEMEMERR_def TF_FIN_def)
  then show ?thesis using assms(1) by (auto simp: and.assoc)
qed

text \<open>What decides about sending does not change on the way.\<close>

lemma deciders_same:
  assumes "still pcb w' = still pcb w" and "segs_same Q w w'"
    and "tp_flags (tw_pcb w' pcb) = tp_flags (tw_pcb w pcb) \<or> tp_flags (tw_pcb w' pcb) = tp_flags (tw_pcb w pcb) AND NOT TF_ACK_NOW"
  shows "x \<in> Q \<Longrightarrow> fits_window w' pcb wnd x = fits_window w pcb wnd x" "x \<in> Q \<Longrightarrow> full_segment w' pcb x = full_segment w pcb x"
    "nagle_free (tw_pcb w' pcb) = nagle_free (tw_pcb w pcb)" "tp_rcv_nxt (tw_pcb w' pcb) = tp_rcv_nxt (tw_pcb w pcb)"
proof -
  note f = frozen_fields [OF still_fields(1) [OF assms(1)]]
  show "fits_window w' pcb wnd x = fits_window w pcb wnd x" "full_segment w' pcb x = full_segment w pcb x" if "x \<in> Q"
    using that assms(2) f(11,12) by (simp_all add: fits_window_def seg_end_def full_segment_def segs_same_def)
  show "nagle_free (tw_pcb w' pcb) = nagle_free (tw_pcb w pcb)"
    using f(7,8) flags_mask [OF assms(3)] by (simp add: nagle_free_def)
  show "tp_rcv_nxt (tw_pcb w' pcb) = tp_rcv_nxt (tw_pcb w pcb)" by (rule f(3))
qed

context segment_sender
begin

lemma ack_step:
  assumes r: "ready n Q w" and q: "q \<in> Q" and tc: "tcphdr (tw_seg w q) = h"
  shows "\<exists>w'. (if b then tcp_recompute_timers env fg pcb
        (upd_pcb pcb (\<lambda>c. c\<lparr>tp_flags := tp_flags c AND NOT TF_ACK_NOW, tp_delayedack_expires := 0\<rparr>)
          (sk_upd_mem (TCPH_SET_FLAG h TCP_ACK) w)) else Inr w) = Inr w' \<and>
    ready n Q w' \<and> log w' = log w \<and> segs_same Q w w' \<and> tw_seg w' = tw_seg w \<and> same_queue (tw_pcb w pcb) (tw_pcb w' pcb)"
proof (cases b)
  case True
  let ?f = "\<lambda>c. c\<lparr>tp_flags := tp_flags c AND NOT TF_ACK_NOW, tp_delayedack_expires := 0\<rparr>"
  let ?w1 = "sk_upd_mem (TCPH_SET_FLAG h TCP_ACK) w"
  from flag_law [OF r q] have 1: "ready n Q ?w1" "log ?w1 = log w" "segs_same Q w ?w1" by (simp_all add: tc)
  have "ready n Q (upd_pcb pcb ?f ?w1)" by (rule pcb_law [OF 1(1)]) simp_all
  from timer_law [OF this] obtain t where t:
    "tcp_recompute_timers env fg pcb (upd_pcb pcb ?f ?w1) = Inr (upd_pcb pcb (\<lambda>c. c\<lparr>tp_unified_timer := t\<rparr>) (upd_pcb pcb ?f ?w1))"
    "ready n Q (upd_pcb pcb (\<lambda>c. c\<lparr>tp_unified_timer := t\<rparr>) (upd_pcb pcb ?f ?w1))" by blast
  show ?thesis
    using True t 1(2) segs_same_trans [OF segs_same_trans [OF 1(3) segs_same_upd(1)] segs_same_upd(1)]
    by (simp add: log_law same_queue_def)
next
  case False
  then show ?thesis using r by (simp add: segs_same_def same_queue_def)
qed

lemma queue_step:
  assumes r: "ready n Q w" and us: "chain (\<lambda>q. sg_next (tw_seg w q)) (tp_unacked (tw_pcb w pcb)) us"
    and qs: "chain (\<lambda>q. sg_next (tw_seg w q)) (tp_unsent (tw_pcb w pcb)) qs" and d: "distinct (us @ q # qs)" and "q \<noteq> NULL"
    and len: "0 < TCP_TCPLEN w q" and ord: "us \<noteq> [] \<Longrightarrow> \<not> TCP_SEQ_LT (seg_seqno w q) (seg_seqno w (last us))"
  shows "\<exists>w'. queue_unacked env pcb q (if us = [] then NULL else last us) w = Inr (q, w') \<and> ready n Q w' \<and> log w' = log w \<and>
    segs_same Q w w' \<and> chain (\<lambda>q. sg_next (tw_seg w' q)) (tp_unacked (tw_pcb w' pcb)) (us @ [q]) \<and>
    chain (\<lambda>q. sg_next (tw_seg w' q)) (tp_unsent (tw_pcb w' pcb)) qs \<and>
    tp_snd_nxt (tw_pcb w' pcb) = tp_snd_nxt (tw_pcb w pcb) \<and> tp_flags (tw_pcb w' pcb) = tp_flags (tw_pcb w pcb)"
proof -
  let ?w1 = "upd_seg q (\<lambda>g. g\<lparr>sg_next := NULL\<rparr>) w"
  have nx: "(\<lambda>x. sg_next (tw_seg ?w1 x)) = (\<lambda>x. sg_next (tw_seg w x))(q := NULL)" by (rule ext) simp
  have q: "q \<notin> set us" "q \<notin> set qs" using d by auto
  show ?thesis
  proof (cases "us = []")
    case True
    then have "tp_unacked (tw_pcb w pcb) = NULL" using us by simp
    then have "queue_unacked env pcb q NULL w = Inr (q, upd_pcb pcb (\<lambda>c. c\<lparr>tp_unacked := q\<rparr>) ?w1)"
      using len by (simp add: queue_unacked_def Let_def)
    moreover have "ready n Q (upd_pcb pcb (\<lambda>c. c\<lparr>tp_unacked := q\<rparr>) ?w1)"
      by (rule pcb_law [OF link_law [OF r]]) simp_all
    moreover have "chain (\<lambda>x. sg_next (tw_seg ?w1 x)) (tp_unsent (tw_pcb w pcb)) qs" unfolding nx using qs q by simp
    ultimately show ?thesis
      using True \<open>q \<noteq> NULL\<close> segs_same_trans [OF segs_same_upd(2) segs_same_upd(1)] by (simp add: log_law)
  next
    case False
    let ?u = "last us"
    have un: "tp_unacked (tw_pcb w pcb) \<noteq> NULL" using us False by (cases us) auto
    have "?u \<in> set us" using False by simp
    then have neq: "?u \<noteq> q" "?u \<notin> set qs" using d by auto
    have "\<not> TCP_SEQ_LT (seg_seqno ?w1 q) (seg_seqno ?w1 ?u)" using ord [OF False] neq(1) by (simp add: seg_seqno_def)
    then have "queue_unacked env pcb q ?u w = Inr (q, upd_seg ?u (\<lambda>g. g\<lparr>sg_next := q\<rparr>) ?w1)"
      using len un by (simp add: queue_unacked_def Let_def)
    moreover have "ready n Q (upd_seg ?u (\<lambda>g. g\<lparr>sg_next := q\<rparr>) ?w1)" by (rule link_law [OF link_law [OF r]])
    moreover have nx2: "(\<lambda>x. sg_next (tw_seg (upd_seg ?u (\<lambda>g. g\<lparr>sg_next := q\<rparr>) ?w1) x)) = ((\<lambda>x. sg_next (tw_seg w x))(q := NULL))(?u := q)"
      using neq by (intro ext) simp
    moreover have "chain (((\<lambda>x. sg_next (tw_seg w x))(q := NULL))(?u := q)) (tp_unacked (tw_pcb w pcb)) (us @ [q])"
      by (rule chain_snoc) (use us False d q \<open>q \<noteq> NULL\<close> in simp_all)
    moreover have "chain (((\<lambda>x. sg_next (tw_seg w x))(q := NULL))(?u := q)) (tp_unsent (tw_pcb w pcb)) qs"
      using qs q neq by simp
    ultimately show ?thesis
      using False segs_same_trans [OF segs_same_upd(2) segs_same_upd(2)] by (simp add: log_law)
  qed
qed

text \<open>One turn: segment \<open>q\<close> moves from the unsent to the unacknowledged ones.\<close>

lemma loop_step:
  assumes r: "ready (Suc n) Q w" and sq: "send_queues pcb us (q # qs) w" and Q: "set (us @ q # qs) \<subseteq> Q"
    and fit: "fits_window w pcb wnd q" and go: "us = [] \<or> nagle_free (tw_pcb w pcb) \<or> qs \<noteq> [] \<or> full_segment w pcb q"
    and useg: "useg = (if us = [] then NULL else last us)"
  shows "\<exists>w'. output_loop env (Suc fuel) fg pcb wnd q useg w = output_loop env fuel fg pcb wnd (tp_unsent (tw_pcb w' pcb)) q w' \<and>
    ready n Q w' \<and> send_queues pcb (us @ [q]) qs w' \<and> segs_same Q w w' \<and>
    log w' = log w @ [(seg_seqno w q, tp_rcv_nxt (tw_pcb w pcb))] \<and> still pcb w' = still pcb w \<and>
    (tp_flags (tw_pcb w' pcb) = tp_flags (tw_pcb w pcb) \<or> tp_flags (tw_pcb w' pcb) = tp_flags (tw_pcb w pcb) AND NOT TF_ACK_NOW)"
proof -
  note d = sq [unfolded send_queues_def]
  have q: "q \<in> Q" "q \<noteq> NULL" "q = tp_unsent (tw_pcb w pcb)" using Q d by (auto dest: chain_no_null)
  let ?w1 = "upd_pcb pcb (\<lambda>c. c\<lparr>tp_unsent := sg_next (tw_seg w q)\<rparr>) w"
  have r1: "ready (Suc n) Q ?w1" by (rule pcb_law [OF r]) simp_all
  let ?ack = "if tp_state (tw_pcb ?w1 pcb) \<noteq> LWIP_SYN_SENT then tcp_recompute_timers env fg pcb
        (upd_pcb pcb (\<lambda>c. c\<lparr>tp_flags := tp_flags c AND NOT TF_ACK_NOW, tp_delayedack_expires := 0\<rparr>)
          (sk_upd_mem (TCPH_SET_FLAG (tcphdr (tw_seg ?w1 q)) TCP_ACK) ?w1)) else Inr ?w1"
  from ack_step [OF r1 q(1) refl, of "tp_state (tw_pcb ?w1 pcb) \<noteq> LWIP_SYN_SENT"] obtain w2 where w2: "?ack = Inr w2"
    "ready (Suc n) Q w2" "log w2 = log ?w1" "segs_same Q ?w1 w2" "tw_seg w2 = tw_seg ?w1" "same_queue (tw_pcb ?w1 pcb) (tw_pcb w2 pcb)"
    by blast
  from send_law [OF w2(2) q(1)] obtain w3 where w3: "tcp_output_segment env fg q pcb w2 = Inr w3" "ready n Q w3"
    "segs_same Q w2 w3" "tw_seg w3 = tw_seg w2" "send_vars (tw_pcb w3 pcb) = send_vars (tw_pcb w2 pcb)"
    "log w3 = log w2 @ [(seg_seqno w2 q, tp_rcv_nxt (tw_pcb w2 pcb))]" by blast
  define nxt where "nxt = seg_seqno w3 q + TCP_TCPLEN w3 q"
  define w4 where "w4 = (if TCP_SEQ_LT (tp_snd_nxt (tw_pcb w3 pcb)) nxt then upd_pcb pcb (\<lambda>c. c\<lparr>tp_snd_nxt := nxt\<rparr>) w3 else w3)"
  have s3: "segs_same Q w w3" by (rule segs_same_trans [OF segs_same_trans [OF segs_same_upd(1) w2(4)] w3(3)])
  have s4: "segs_same Q w w4" unfolding w4_def using s3 segs_same_trans [OF s3 segs_same_upd(1)] by simp
  have r4: "ready n Q w4" unfolding w4_def using w3(2) pcb_law [OF w3(2), of "\<lambda>c. c\<lparr>tp_snd_nxt := nxt\<rparr>"] by simp
  have l4: "log w4 = log w3" by (simp add: w4_def log_law)
  have c4: "tw_seg w4 = tw_seg w" "tp_unsent (tw_pcb w4 pcb) = sg_next (tw_seg w q)" "tp_unacked (tw_pcb w4 pcb) = tp_unacked (tw_pcb w pcb)"
    "tp_flags (tw_pcb w4 pcb) = tp_flags (tw_pcb w2 pcb)"
    using w2(5,6) w3(4,5) by (simp_all add: w4_def same_queue_def send_vars_def)
  have nums: "seg_seqno w4 x = seg_seqno w x" "TCP_TCPLEN w4 x = TCP_TCPLEN w x" if "x \<in> set (us @ q # qs)" for x
    using s4 Q that by (auto simp: segs_same_def)
  have ord: "\<not> TCP_SEQ_LT (seg_seqno w4 q) (seg_seqno w4 (last us))" if "us \<noteq> []"
    using d that nums last_in_set [OF that] by (simp add: sorted_wrt_append)
  from queue_step [of n Q w4 us qs q, OF r4] obtain w5 where w5:
    "queue_unacked env pcb q useg w4 = Inr (q, w5)" "ready n Q w5" "log w5 = log w4" "segs_same Q w4 w5"
    "chain (\<lambda>q. sg_next (tw_seg w5 q)) (tp_unacked (tw_pcb w5 pcb)) (us @ [q])"
    "chain (\<lambda>q. sg_next (tw_seg w5 q)) (tp_unsent (tw_pcb w5 pcb)) qs" "tp_flags (tw_pcb w5 pcb) = tp_flags (tw_pcb w4 pcb)"
    using c4 d nums ord q(2) unfolding useg by auto
  have c: "\<not> \<not> (q \<noteq> NULL \<and> seg_end w pcb q \<le> wnd)"
    "\<not> (\<not> tcp_do_output_nagle w pcb \<and> tp_flags (tw_pcb w pcb) AND (TF_NAGLEMEMERR OR TF_FIN) = 0)"
    using fit q(2) nagle_step [OF sq] go by (simp_all add: fits_window_def)
  have loop: "output_loop env (Suc fuel) fg pcb wnd q useg w = output_loop env fuel fg pcb wnd (tp_unsent (tw_pcb w5 pcb)) q w5"
    unfolding output_loop.simps if_not_P [OF c(1)] if_not_P [OF c(2)] Let_def w2(1) bindR_Inr w3(1) nxt_def [symmetric]
      w4_def [symmetric] w5(1) by simp
  have s5: "segs_same Q w w5" by (rule segs_same_trans [OF s4 w5(4)])
  have st2: "still pcb w2 = still pcb w"
    using w2(1) by (auto dest!: yieldsD [OF still_recompute] split: if_splits)
  have "still pcb w3 = still pcb w2" using yieldsD [OF still_output_segment w3(1)] by simp
  then have "still pcb w4 = still pcb w" using st2 by (simp add: w4_def)
  then have st: "still pcb w5 = still pcb w" using yieldsD [OF still_queue_unacked w5(1)] by simp
  have "sorted_wrt (\<lambda>x y. \<not> TCP_SEQ_LT (seg_seqno w5 y) (seg_seqno w5 x)) ((us @ [q]) @ qs)"
  proof -
    have "sorted_wrt (\<lambda>x y. \<not> TCP_SEQ_LT (seg_seqno w y) (seg_seqno w x)) ((us @ [q]) @ qs)" using d by simp
    then show ?thesis by (rule sorted_wrt_mono_rel [rotated]) (use s5 Q in \<open>auto simp: segs_same_def subset_iff\<close>)
  qed
  then have "send_queues pcb (us @ [q]) qs w5"
    using w5(5,6) d s5 Q unfolding send_queues_def segs_same_def by auto
  moreover have "log w5 = log w @ [(seg_seqno w q, tp_rcv_nxt (tw_pcb w pcb))]"
  proof -
    have "seg_seqno w2 q = seg_seqno w q" using segs_same_trans [OF segs_same_upd(1) w2(4)] q(1) by (simp add: segs_same_def)
    moreover have "tp_rcv_nxt (tw_pcb w2 pcb) = tp_rcv_nxt (tw_pcb w pcb)"
      by (rule frozen_fields(3) [OF still_fields(1) [OF st2]])
    ultimately show ?thesis using w5(3) l4 w3(6) w2(3) by (simp add: log_law)
  qed
  ultimately show ?thesis using loop w5(2,7) s5 st c4(4) w2(6) by (intro exI [of _ w5]) (simp add: same_queue_def)
qed

lemma loop_stops:
  assumes "send_queues pcb us (q # qs) w"
    and "\<not> (fits_window w pcb wnd q \<and> (us = [] \<or> nagle_free (tw_pcb w pcb) \<or> qs \<noteq> [] \<or> full_segment w pcb q))"
  shows "output_loop env (Suc fuel) fg pcb wnd q useg w = Inr w"
  using assms(2) nagle_step [OF assms(1)] by (auto simp: fits_window_def)

lemma loop_sends:
  assumes "ready (length qs) Q w" and "send_queues pcb us qs w" and "set (us @ qs) \<subseteq> Q" and "length qs < fuel"
    and "useg = (if us = [] then NULL else last us)"
    and "s = sendable (fits_window w pcb wnd) (full_segment w pcb) (nagle_free (tw_pcb w pcb)) (us \<noteq> []) qs"
  shows "\<exists>w'. output_loop env fuel fg pcb wnd (tp_unsent (tw_pcb w pcb)) useg w = Inr w' \<and>
    send_queues pcb (us @ s) (drop (length s) qs) w' \<and> segs_same Q w w' \<and>
    log w' = log w @ map (\<lambda>q. (seg_seqno w q, tp_rcv_nxt (tw_pcb w pcb))) s \<and> still pcb w' = still pcb w \<and>
    (tp_flags (tw_pcb w' pcb) = tp_flags (tw_pcb w pcb) \<or> tp_flags (tw_pcb w' pcb) = tp_flags (tw_pcb w pcb) AND NOT TF_ACK_NOW)"
  using assms
proof (induction qs arbitrary: us w useg fuel s)
  case Nil
  then obtain k where "fuel = Suc k" by (cases fuel) auto
  moreover have "tp_unsent (tw_pcb w pcb) = NULL" using Nil.prems(2) by (simp add: send_queues_def)
  ultimately show ?case using Nil.prems by (simp add: segs_same_def)
next
  case (Cons q qs)
  obtain k where k: "fuel = Suc k" "length qs < k" using Cons.prems(4) by (cases fuel) auto
  have q: "tp_unsent (tw_pcb w pcb) = q" using Cons.prems(2) by (simp add: send_queues_def)
  show ?case
  proof (cases "fits_window w pcb wnd q \<and> (us = [] \<or> nagle_free (tw_pcb w pcb) \<or> qs \<noteq> [] \<or> full_segment w pcb q)")
    case False
    then have "s = []" using Cons.prems(6) by auto
    then show ?thesis using loop_stops [OF Cons.prems(2) False] Cons.prems(2) k(1) q by (simp add: segs_same_def)
  next
    case True
    have r: "ready (Suc (length qs)) Q w" using Cons.prems(1) by simp
    from loop_step [OF r Cons.prems(2,3) _ _ Cons.prems(5), of wnd k] True obtain w1 where w1:
      "output_loop env (Suc k) fg pcb wnd q useg w = output_loop env k fg pcb wnd (tp_unsent (tw_pcb w1 pcb)) q w1"
      "ready (length qs) Q w1" "send_queues pcb (us @ [q]) qs w1" "segs_same Q w w1"
      "log w1 = log w @ [(seg_seqno w q, tp_rcv_nxt (tw_pcb w pcb))]" "still pcb w1 = still pcb w"
      "tp_flags (tw_pcb w1 pcb) = tp_flags (tw_pcb w pcb) \<or> tp_flags (tw_pcb w1 pcb) = tp_flags (tw_pcb w pcb) AND NOT TF_ACK_NOW"
      by blast
    define t where "t = sendable (fits_window w1 pcb wnd) (full_segment w1 pcb) (nagle_free (tw_pcb w1 pcb)) (us @ [q] \<noteq> []) qs"
    note same = deciders_same [OF w1(6,4,7)]
    have t: "t = sendable (fits_window w pcb wnd) (full_segment w pcb) (nagle_free (tw_pcb w pcb)) (us @ [q] \<noteq> []) qs"
      unfolding t_def same(3) by (rule sendable_cong) (use Cons.prems(3) same(1,2) in \<open>simp add: subset_iff\<close>)
    then have s: "s = q # t" using Cons.prems(6) True by auto
    have "set ((us @ [q]) @ qs) \<subseteq> Q" "q = (if us @ [q] = [] then NULL else last (us @ [q]))" using Cons.prems(3) by auto
    from Cons.IH [OF w1(2,3) this(1) k(2) this(2) t_def] obtain w2 where w2:
      "output_loop env k fg pcb wnd (tp_unsent (tw_pcb w1 pcb)) q w1 = Inr w2" "segs_same Q w1 w2"
      "send_queues pcb ((us @ [q]) @ t) (drop (length t) qs) w2"
      "log w2 = log w1 @ map (\<lambda>q. (seg_seqno w1 q, tp_rcv_nxt (tw_pcb w1 pcb))) t" "still pcb w2 = still pcb w1"
      "tp_flags (tw_pcb w2 pcb) = tp_flags (tw_pcb w1 pcb) \<or> tp_flags (tw_pcb w2 pcb) = tp_flags (tw_pcb w1 pcb) AND NOT TF_ACK_NOW"
      by blast
    have "set t \<subseteq> set qs" unfolding t_def using sendable_prefix by (metis set_append Un_upper1)
    then have "map (\<lambda>q. (seg_seqno w1 q, tp_rcv_nxt (tw_pcb w1 pcb))) t = map (\<lambda>q. (seg_seqno w q, tp_rcv_nxt (tw_pcb w pcb))) t"
      using w1(4) Cons.prems(3) unfolding same(4) by (intro map_cong refl) (auto simp: segs_same_def)
    moreover have "segs_same Q w w2" by (rule segs_same_trans [OF w1(4) w2(2)])
    moreover have "tp_flags (tw_pcb w2 pcb) = tp_flags (tw_pcb w pcb) \<or> tp_flags (tw_pcb w2 pcb) = tp_flags (tw_pcb w pcb) AND NOT TF_ACK_NOW"
      using w1(7) w2(6) by (auto simp: and.assoc)
    moreover have "log w2 = log w @ map (\<lambda>q. (seg_seqno w q, tp_rcv_nxt (tw_pcb w pcb))) (q # t)"
      using w2(4) w1(5) calculation(1) by simp
    moreover have "send_queues pcb (us @ q # t) (drop (length (q # t)) (q # qs)) w2" "still pcb w2 = still pcb w"
      using w2(3,5) w1(6) by simp_all
    moreover have "output_loop env fuel fg pcb wnd (tp_unsent (tw_pcb w pcb)) useg w = Inr w2"
      unfolding q k(1) w1(1) w2(1) ..
    ultimately show ?thesis unfolding s by blast
  qed
qed

end
section \<open>The whole output function\<close>

lemma last_seg_chain:
  "chain (\<lambda>q. sg_next (segs q)) h us \<Longrightarrow> us \<noteq> [] \<Longrightarrow> length us \<le> fuel \<Longrightarrow> last_seg fuel segs h = Inr (last us)"
proof (induction us arbitrary: h fuel)
  case Nil
  then show ?case by simp
next
  case (Cons u us)
  obtain k where "fuel = Suc k" using Cons.prems(3) by (cases fuel) auto
  with Cons show ?case by (cases us) auto
qed

lemma send_queues_cong:
  assumes "send_queues pcb us qs w" and "tw_seg w' = tw_seg w" and "sk_mem w' = sk_mem w"
    and "tp_unsent (tw_pcb w' pcb) = tp_unsent (tw_pcb w pcb)" and "tp_unacked (tw_pcb w' pcb) = tp_unacked (tw_pcb w pcb)"
  shows "send_queues pcb us qs w'"
proof -
  have "seg_seqno w' x = seg_seqno w x" "TCP_TCPLEN w' x = TCP_TCPLEN w x" for x
    using assms(2,3) by (simp_all add: seg_seqno_def TCP_TCPLEN_def seg_hdr_flags_def)
  then show ?thesis using assms by (simp add: send_queues_def)
qed

lemma output_sends:
  assumes r: "can_send env fg pcb (length qs) (set (us @ qs)) w" and sq: "send_queues pcb us qs w"
    and fuel: "length us < te_fuel env" "length qs < te_fuel env" and "te_input_pcb env \<noteq> pcb"
    and wnd: "wnd = min (tp_snd_wnd (tw_pcb w pcb)) (tp_cwnd (tw_pcb w pcb))"
    and ack: "tp_flags (tw_pcb w pcb) AND TF_ACK_NOW = 0 \<or> qs \<noteq> [] \<and> fits_window w pcb wnd (hd qs)"
    and s: "s = nagle_prefix (fits_window w pcb wnd) (full_segment w pcb) (nagle_free (tw_pcb w pcb)) (us \<noteq> []) qs"
  shows "\<exists>w'. tcp_output env fg pcb w = Inr (ERR_OK, w') \<and> send_queues pcb (us @ s) (drop (length s) qs) w' \<and>
    wire fg w' = wire fg w @ map (\<lambda>q. (seg_seqno w q, tp_rcv_nxt (tw_pcb w pcb))) s \<and> still pcb w' = still pcb w"
proof -
  let ?useg = "if us = [] then NULL else last us"
  have q: "tp_unsent (tw_pcb w pcb) = NULL \<longleftrightarrow> qs = []" "qs \<noteq> [] \<Longrightarrow> tp_unsent (tw_pcb w pcb) = hd qs"
    "tp_unacked (tw_pcb w pcb) = NULL \<longleftrightarrow> us = []"
    using sq by (auto simp: send_queues_def dest: chain_hd chain_no_null)
  have useg: "(if tp_unacked (tw_pcb w pcb) \<noteq> NULL then last_seg (te_fuel env) (tw_seg w) (tp_unacked (tw_pcb w pcb)) else Inr NULL) = Inr ?useg"
    using last_seg_chain [of "tw_seg w" "tp_unacked (tw_pcb w pcb)" us "te_fuel env"] sq fuel(1) q(3) by (simp add: send_queues_def)
  from out.loop_sends [OF r sq subset_refl fuel(2) refl, of s wnd] obtain w1 where w1:
    "output_loop env (te_fuel env) fg pcb wnd (tp_unsent (tw_pcb w pcb)) ?useg w = Inr w1"
    "send_queues pcb (us @ s) (drop (length s) qs) w1"
    "wire fg w1 = wire fg w @ map (\<lambda>q. (seg_seqno w q, tp_rcv_nxt (tw_pcb w pcb))) s" "still pcb w1 = still pcb w"
    using s unfolding sendable_nagle by blast
  have not_ack: "\<not> (tp_flags (tw_pcb w pcb) AND TF_ACK_NOW \<noteq> 0 \<and>
      (tp_unsent (tw_pcb w pcb) = NULL \<or> wnd < seg_end w pcb (tp_unsent (tw_pcb w pcb))))"
    using ack q(2) q(1) by (auto simp: fits_window_def)
  define w2 where "w2 = upd_pcb pcb (\<lambda>c. c\<lparr>tp_flags := tp_flags c AND NOT TF_NAGLEMEMERR\<rparr>)
    (if tp_unsent (tw_pcb w1 pcb) = NULL then upd_pcb pcb (\<lambda>c. c\<lparr>tp_unsent_oversize := 0\<rparr>) w1 else w1)"
  have "tcp_output env fg pcb w = Inr (ERR_OK, w2)"
    unfolding tcp_output_def Let_def if_not_P [OF assms(5)] wnd [symmetric] if_not_P [OF not_ack] useg bindR_Inr w1(1) w2_def ..
  moreover have "send_queues pcb (us @ s) (drop (length s) qs) w2" by (rule send_queues_cong [OF w1(2)]) (simp_all add: w2_def)
  moreover have "wire fg w2 = wire fg w1" "still pcb w2 = still pcb w1" by (simp_all add: w2_def out.log_law)
  ultimately show ?thesis using w1(3,4) by auto
qed
end
