(* ===== verification/Tcp_Example.thy ===== *)
theory Tcp_Example
  imports Tcp_Output_Spec Mempool_Spec Udp_Spec
begin

text \<open>
  A small machine for the examples: one connection (control block 6000) to a resolved address,
  with two unsent segments of two bytes, three free packets and a free transmit queue.
\<close>

definition wide_pool :: pool_state where
  "wide_pool = (case three_pool of (m, ds, h) \<Rightarrow>
     (m\<lparr>mp_head := 10000\<rparr>, ds\<lparr>chunk_head := 30000\<rparr>,
      \<lparr>hdr_next = (\<lambda>_. NULL)(10000 := 20000), hdr_next_chunk = (\<lambda>_. NULL)\<rparr>))"

lemma wide_pool_ok: "pool_ok wide_pool {10000, 20000, 30000}"
  unfolding pool_ok_def
  by (intro exI [of _ "[10000, 20000]"] exI [of _ "[]"] exI [of _ "[[30000]]"])
    (auto simp: wide_pool_def three_pool_def pool_inv_def chunks_ok_def free_list_def)

definition env1 :: tcp_env where
  "env1 = \<lparr>te_net = env0, te_mem_free = (\<lambda>_ w. Inr w), te_fuel = 4, te_now = 1000, te_input_pcb = 1,
     te_chksum = (\<lambda>_ _ _ _ _ _ _. 0), te_netif = (\<lambda>_. None), te_no_return = 0\<rparr>"

definition pcb1 :: tcp_pcb where
  "pcb1 = pcb_zero\<lparr>tp_local_ip := 0x0100000A, tp_remote_ip := 0x0900000A, tp_state := LWIP_ESTABLISHED, tp_local_port := 80,
     tp_remote_port := 4000, tp_link := Linked (Bucket 0 3), tp_rcv_nxt := 70, tp_rcv_wnd := TCP_WND, tp_rcv_ann_wnd := TCP_WND,
     tp_rcv_ann_right_edge := 70 + TCP_WND, tp_mss := 536, tp_lastack := 5, tp_cwnd := 1000,
     tp_snd_wnd := 1000, tp_snd_wnd_max := 1000, tp_snd_nxt := 5, tp_snd_lbb := 9, tp_snd_buf := 65532, tp_snd_queuelen := 2,
     tp_unsent := 7000, tp_rto := 6\<rparr>"

definition seg1 :: "addr \<Rightarrow> tcp_seg" where
  "seg1 q = (if q = 7000 then \<lparr>sg_next = 7100, sg_p = 8000, seg_len = 2, seg_flags = 0, tcphdr = 40000\<rparr>
     else \<lparr>sg_next = NULL, sg_p = 8100, seg_len = 2, seg_flags = 0, tcphdr = 41000\<rparr>)"

definition world1 :: tcp_world where
  "world1 = stack.extend (stack0\<lparr>sk_net := (sk_net stack0)\<lparr>
        nw := \<lparr>mw_pools = [64 \<mapsto> fst wide_pool], mw_ds = fst (snd wide_pool), mw_hdrs = snd (snd wide_pool), mw_mbufs = mw_mbufs three_mbufs\<rparr>,
        nmem := put32 (put32 (\<lambda>_. 0) 40004 5) 41004 7\<rparr>,
      sk_pb := (\<lambda>p. pbuf0\<lparr>payload := (if p = 8000 then 40000 else 41000), tot_len := 22, p_len := 22\<rparr>)\<rparr>)
     (tcp_world.fields (\<lambda>_. pcb1) seg1
       (\<lambda>_. \<lparr>tcpip_timer = utimer_zero, tcp_active_pcb_changed = False, tcp_timer = False, tcp_timer_ctr = False, iss = 0, tcp_ticks = 0,
          active_buckets = [3], active_tbl = (\<lambda>i. if i = 3 then [6000] else []), hash_linked = (\<lambda>i. i = 3), tw_pcbs = [], bound_pcbs = []\<rparr>)
       (\<lambda>_. tcp_pcb_common.truncate pcb_zero) [] three_pool three_pool three_pool
       (\<lambda>_. \<lparr>api_cookie = 0, api_id = NULL, api_handle = 0, api_recvd = NULL, api_recvd_tail = NULL, api_accepted = True\<rparr>)
       three_pool three_pool 0 [])"

lemma world1_sel [simp]:
  "tw_pcb world1 p = pcb1" "tw_seg world1 = seg1" "sk_fgs world1 g = Some fg0" "sk_dev_idx world1 g = 0"
  "sk_pb world1 p = pbuf0\<lparr>payload := (if p = 8000 then 40000 else 41000), tot_len := 22, p_len := 22\<rparr>"
  "nmem (sk_net world1) = put32 (put32 (\<lambda>_. 0) 40004 5) 41004 7" "txqs (sk_net world1) d = \<lparr>tx_cap = 2048, tx_bufs = []\<rparr>"
  "arp_ents (sk_net world1) = arp_ents (sk_net stack0)" "arp_tbl (sk_net world1) = arp_tbl (sk_net stack0)"
  "nw (sk_net world1) = \<lparr>mw_pools = [64 \<mapsto> fst wide_pool], mw_ds = fst (snd wide_pool), mw_hdrs = snd (snd wide_pool), mw_mbufs = mw_mbufs three_mbufs\<rparr>"
  by (simp_all add: world1_def stack.defs tcp_world.defs stack0_def net0_def)

lemma get_put32_other:
  "a + 4 \<le> b \<or> b + 4 \<le> a \<Longrightarrow> get32 (put32 m b x) a = get32 m a"
  "a + 2 \<le> b \<or> b + 4 \<le> a \<Longrightarrow> get16 (put32 m b x) a = get16 m a"
  by (simp_all add: get32_def get16_def put32_def get_put_other)

lemma world1_segs:
  "seg_seqno world1 7000 = 5" "seg_seqno world1 7100 = 7" "seg_hdr_flags world1 q = 0" "TCP_TCPLEN world1 q = 2"
proof -
  have z: "get16 (\<lambda>_. 0) a = 0" for a by (simp add: get16_def get_bytes_def be_value_def numeral_2_eq_2)
  show "seg_seqno world1 7000 = 5" "seg_seqno world1 7100 = 7"
    by (simp_all add: seg_seqno_def sk_mem_def seg1_def tcp_seqno_def get_put32_other)
  show f: "seg_hdr_flags world1 q = 0" for q
    by (simp add: seg_hdr_flags_def TCPH_FLAGS_def sk_mem_def seg1_def tcp_hdrlen_flags_def get_put32_other z)
  show "TCP_TCPLEN world1 q = 2" by (simp add: TCP_TCPLEN_def f seg1_def)
qed

lemma world1_queues: "send_queues 6000 [] [7000, 7100] world1"
  by (simp add: send_queues_def pcb1_def pcb_zero_def seg1_def world1_segs TCP_SEQ_LT_def)

lemma world1_can_send: "can_send env1 0 6000 2 {7000, 7100} world1"
proof -
  have n: "ntohl 0x0900000A = 0x0A000009" by code_simp
  have h: "next_hop (CFG env0) 0x0A000009 = 0x0A000009" by (simp add: next_hop_def env0_def)
  have k: "known env0 (sk_net world1) 0x0A000009 = Some [2, 0, 0, 0, 0, 9]"
    by (simp add: known_def arp_view_def entry_of_def arp_find_def stack0_def net0_def entry0_def Let_def ARP_FLAG_VALID_def)
  have r: "route_ok env1 0 6000 world1"
    by (simp add: route_ok_def env1_def pcb1_def n h k) (simp add: env0_def pcb_zero_def utimer_zero_def IPADDR_ANY_def)
  have m: "mbufs_ok 64 (nw (sk_net world1)) {10000, 20000, 30000}" using wide_pool_ok by (simp add: mbufs_ok_def)
  have q: "sent_queue 0 world1 = []" by (simp add: sent_queue_def)
  have a: "a \<in> {10000, 20000, 30000} \<Longrightarrow> b \<in> {10000, 20000, 30000} \<Longrightarrow> a \<noteq> b \<Longrightarrow> mbuf_area a \<inter> mbuf_area b = {}" for a b
    by (auto simp: mbuf_area_def mbuf_mtod_def MBUF_HEADER_LEN_def MBUF_DATA_LEN_def)
  have s: "packet_ok 4 (sk_pb world1) (tcphdr (seg1 q)) (sg_p (seg1 q)) [sg_p (seg1 q)]" if "q \<in> {7000, 7100}" for q
    using that by (auto simp: packet_ok_def seg1_def pbuf0_def MBUF_DATA_LEN_def)
  have "packets_ok env1 0 {7000, 7100} {10000, 20000, 30000} world1"
    unfolding packets_ok_def q
  proof (intro conjI ballI impI)
    fix x assume "x \<in> {7000, 7100 :: nat}"
    then show "\<exists>xs. packet_ok (te_fuel env1) (sk_pb world1) (tcphdr (tw_seg world1 x)) (sg_p (tw_seg world1 x)) xs \<and>
      (\<forall>m\<in>{10000, 20000, 30000}. chain_clear (sk_pb world1) xs (mbuf_mtod m + 14) (20 + unat (tot_len (sk_pb world1 (sg_p (tw_seg world1 x))))))"
      using s [of x] by (intro exI [of _ "[sg_p (seg1 x)]"]) (auto simp: env1_def chain_clear_def seg1_def mbuf_mtod_def MBUF_HEADER_LEN_def)
  qed (use a m in \<open>auto simp: env1_def env0_def hdr_area_def seg1_def mbuf_area_def mbuf_mtod_def MBUF_HEADER_LEN_def MBUF_DATA_LEN_def\<close>)
  moreover have "hdr_area world1 7000 \<inter> hdr_area world1 7100 = {}" by (auto simp: hdr_area_def seg1_def)
  ultimately show ?thesis
    unfolding can_send_def using r q
    by (auto simp: ETH_DEV_TX_QUEUE_SZ_def Int_commute intro!: exI [of _ "{10000, 20000, 30000}"])
qed

end
