(* ===== verification/Tcp_Spec.thy ===== *)
theory Tcp_Spec
  imports Tcp_Example
begin

text \<open>Properties of TCP connections.\<close>

section \<open>Output\<close>

text \<open>C3: When the route, the packets and the transmit queue allow it
  (\<open>can_send\<close>), \<open>tcp_output\<close> always returns \<open>ERR_OK\<close>; it
  sends exactly the leading unsent segments that the send and congestion window cover, in order
  and with the next expected byte as acknowledgement, holds back only a last short segment as
  the Nagle rule says, moves what it sent to the unacknowledged ones and leaves the rest of the
  connection alone.\<close>

theorem tcp_output_sends:
  assumes "can_send env fg pcb (length qs) (set (us @ qs)) w" and "send_queues pcb us qs w"
    and "length us < te_fuel env" and "length qs < te_fuel env" and "te_input_pcb env \<noteq> pcb"
    and "wnd = min (tp_snd_wnd (tw_pcb w pcb)) (tp_cwnd (tw_pcb w pcb))"
    and "tp_flags (tw_pcb w pcb) AND TF_ACK_NOW = 0 \<or> qs \<noteq> [] \<and> fits_window w pcb wnd (hd qs)"
    and "s = nagle_prefix (fits_window w pcb wnd) (full_segment w pcb) (nagle_free (tw_pcb w pcb)) (us \<noteq> []) qs"
  shows "\<exists>w'. tcp_output env fg pcb w = Inr (ERR_OK, w') \<and> send_queues pcb (us @ s) (drop (length s) qs) w' \<and>
    wire fg w' = wire fg w @ map (\<lambda>q. (seg_seqno w q, tp_rcv_nxt (tw_pcb w pcb))) s \<and> still pcb w' = still pcb w"
  by (rule output_sends [OF assms])

theorem tcp_output_sends_witness:
  "\<exists>w'. tcp_output env1 0 6000 world1 = Inr (ERR_OK, w') \<and> send_queues 6000 [7000] [7100] w' \<and> wire 0 w' = [(5, 70)]"
proof -
  have s: "[7000] = nagle_prefix (fits_window world1 6000 1000) (full_segment world1 6000) (nagle_free (tw_pcb world1 6000)) ([] \<noteq> []) [7000, 7100]"
    by (simp add: sendable_nagle [symmetric] fits_window_def seg_end_def world1_segs full_segment_def nagle_free_def seg1_def
      pcb1_def pcb_zero_def TCP_SND_QUEUELEN_def)
  have c: "1000 = min (tp_snd_wnd (tw_pcb world1 6000)) (tp_cwnd (tw_pcb world1 6000))"
    "tp_flags (tw_pcb world1 6000) AND TF_ACK_NOW = 0" "tp_rcv_nxt (tw_pcb world1 6000) = 70" by (simp_all add: pcb1_def pcb_zero_def)
  have r: "can_send env1 0 6000 (length [7000, 7100]) (set ([] @ [7000, 7100])) world1" using world1_can_send by (simp add: numeral_2_eq_2)
  have e: "length ([] :: addr list) < te_fuel env1" "length [7000, 7100 :: addr] < te_fuel env1" "te_input_pcb env1 \<noteq> 6000"
    by (simp_all add: env1_def)
  have w: "wire 0 world1 = []" by (simp add: wire_def sent_queue_def)
  from tcp_output_sends [OF r world1_queues e c(1) disjI1 [OF c(2)] s, unfolded w c(3)] show ?thesis
    by (simp add: world1_segs) blast
qed
end
