(* ===== verification/Tcp_Lists.thy ===== *)
theory Tcp_Lists
  imports Tcp_Example
begin

text \<open>
  The lists of control blocks: the buckets of the hash table, the bound blocks and those in
  TIME-WAIT of every flow group. A block is in the list that its link names and in no other,
  and whatever the operations on connections do, this stays so.
\<close>

section \<open>The free control blocks\<close>

definition pool_free :: "pool_state \<Rightarrow> addr set" where
  "pool_free s = {p. \<exists>F. pool_ok s F \<and> p \<in> F}"

lemma chunks_unique:
  "map hd css = map hd dss \<Longrightarrow> \<forall>c \<in> set css. chain nx (hd c) c \<Longrightarrow> \<forall>c \<in> set dss. chain nx (hd c) c \<Longrightarrow> css = dss"
proof (induction css arbitrary: dss)
  case (Cons c css)
  then show ?case by (cases dss) (auto dest: chain_unique)
qed simp

lemma pool_free_eq:
  assumes "pool_ok s F"
  shows "pool_free s = F"
proof -
  have "G = F" if "pool_ok s G" for G
  proof -
    from that assms obtain xs ys css xs' ys' css' where
      *: "pool_inv s xs ys css" "set (free_list xs ys css) = G" "pool_inv s xs' ys' css'" "set (free_list xs' ys' css') = F"
      unfolding pool_ok_def by blast
    obtain m mds h where s: "s = (m, mds, h)" by (cases s) auto
    note i = *(1,3) [unfolded pool_inv_def s chunks_ok_def prod.case]
    have "xs = xs'" by (rule chain_unique [OF conjunct1 [OF i(1)] conjunct1 [OF i(2)]])
    moreover have "ys = ys'" by (rule chain_unique) (use i in blast)+
    moreover have "map hd css = map hd css'" by (rule chain_unique) (use i in blast)+
    then have "css = css'" by (rule chunks_unique) (use i in blast)+
    ultimately show ?thesis using *(2,4) by blast
  qed
  then have "pool_ok s G \<longleftrightarrow> G = F" for G using assms by blast
  then show ?thesis by (simp add: pool_free_def)
qed

text \<open>A \<open>BUG_ON\<close> that works can only stop an operation.\<close>

lemma BUG_ON_mono: "yields (bindR (BUG_ON False c) f) P \<Longrightarrow> yields (bindR (BUG_ON b c) f) P"
  by (simp add: BUG_ON_def)

lemma pool_alloc_yields:
  assumes "pool_ok s F"
  shows "yields (kns_mempool_alloc b s) (\<lambda>(p, s'). p = NULL \<and> pool_ok s' {} \<and> F = {} \<or> p \<in> F \<and> pool_ok s' (F - {p}))"
proof -
  have "yields (kns_mempool_alloc b s) P" if "yields (kns_mempool_alloc False s) P" for P
    using that by (cases s) (auto simp: kns_mempool_alloc_def mempool_alloc_2_def BUG_ON_def Let_def split: if_splits)
  then show ?thesis using kmp.alloc_law [OF assms] by (fastforce simp: yields_def)
qed

lemma pool_free_yields:
  assumes "pool_ok s F" and "p \<noteq> NULL" and "p \<notin> F"
  shows "yields (kns_mempool_free b s p) (\<lambda>s'. pool_ok s' (insert p F))"
proof -
  have "yields (kns_mempool_free b s p) P" if "yields (kns_mempool_free False s p) P" for P
    using that by (cases s) (auto simp: kns_mempool_free_def mempool_free_2_def BUG_ON_def Let_def split: if_splits)
  then show ?thesis using kmp.free_law [OF assms] by (fastforce simp: yields_def)
qed

section \<open>The invariant\<close>

fun list_of :: "pcb_list \<Rightarrow> tcp_world \<Rightarrow> addr list" where
  "list_of (Bucket g i) w = active_tbl (tw_fg w g) i"
| "list_of (Time_wait g) w = tw_pcbs (tw_fg w g)"
| "list_of (Bound g) w = bound_pcbs (tw_fg w g)"
| "list_of Listeners w = []"

definition linked :: "addr \<Rightarrow> tcp_world \<Rightarrow> bool" where
  "linked p w \<longleftrightarrow> (\<exists>l. tp_link (tw_pcb w p) = Linked l)"

definition in_use :: "addr \<Rightarrow> tcp_world \<Rightarrow> bool" where
  "in_use p w \<longleftrightarrow> p \<noteq> NULL \<and> p \<notin> pool_free (tcp_pcb_mempool w)"

text \<open>Blocks and links agree, no block is twice in a list, a linked block has a port and is not
  free; a bucket that is not empty is among the active ones, once; the pool is well-formed.\<close>

definition lists_ok :: "tcp_world \<Rightarrow> bool" where
  "lists_ok w \<longleftrightarrow>
     (\<forall>p l. p \<in> set (list_of l w) \<longleftrightarrow> tp_link (tw_pcb w p) = Linked l) \<and> (\<forall>l. distinct (list_of l w)) \<and>
     (\<forall>p. linked p w \<longrightarrow> tp_local_port (tw_pcb w p) \<noteq> 0 \<and> in_use p w) \<and>
     (\<forall>g. distinct (active_buckets (tw_fg w g)) \<and> set (active_buckets (tw_fg w g)) = Collect (hash_linked (tw_fg w g)) \<and>
        (\<forall>i. active_tbl (tw_fg w g) i \<noteq> [] \<longrightarrow> hash_linked (tw_fg w g) i)) \<and>
     (\<exists>F. pool_ok (tcp_pcb_mempool w) F)"

text \<open>The part of the state the invariant speaks of.\<close>

definition fg_lists :: "tcp_fg \<Rightarrow> nat list \<times> (nat \<Rightarrow> addr list) \<times> (nat \<Rightarrow> bool) \<times> addr list \<times> addr list" where
  "fg_lists x = (active_buckets x, active_tbl x, hash_linked x, tw_pcbs x, bound_pcbs x)"

definition lists_view :: "tcp_world \<Rightarrow> (addr \<Rightarrow> pcb_link \<times> u16) \<times>
    (nat \<Rightarrow> nat list \<times> (nat \<Rightarrow> addr list) \<times> (nat \<Rightarrow> bool) \<times> addr list \<times> addr list) \<times> pool_state" where
  "lists_view w = (\<lambda>p. (tp_link (tw_pcb w p), tp_local_port (tw_pcb w p)), \<lambda>g. fg_lists (tw_fg w g), tcp_pcb_mempool w)"

lemma lists_viewD:
  assumes "lists_view w' = lists_view w"
  shows "tp_link (tw_pcb w' p) = tp_link (tw_pcb w p)" "tp_local_port (tw_pcb w' p) = tp_local_port (tw_pcb w p)"
    "list_of l w' = list_of l w" "active_buckets (tw_fg w' g) = active_buckets (tw_fg w g)"
    "hash_linked (tw_fg w' g) = hash_linked (tw_fg w g)" "active_tbl (tw_fg w' g) = active_tbl (tw_fg w g)"
    "linked p w' = linked p w" "tcp_pcb_mempool w' = tcp_pcb_mempool w" "in_use p w' = in_use p w"
proof -
  have p: "tp_link (tw_pcb w' p) = tp_link (tw_pcb w p) \<and> tp_local_port (tw_pcb w' p) = tp_local_port (tw_pcb w p)" for p
    using arg_cong [OF assms, of fst] by (auto simp: lists_view_def dest: fun_cong [where x = p])
  have g: "fg_lists (tw_fg w' g) = fg_lists (tw_fg w g)" for g
    using arg_cong [OF assms, of "fst \<circ> snd"] by (auto simp: lists_view_def dest: fun_cong [where x = g])
  show "tp_link (tw_pcb w' p) = tp_link (tw_pcb w p)" "tp_local_port (tw_pcb w' p) = tp_local_port (tw_pcb w p)"
    "linked p w' = linked p w" using p by (simp_all add: linked_def)
  show "list_of l w' = list_of l w" using g by (cases l) (simp_all add: fg_lists_def)
  show "active_buckets (tw_fg w' g) = active_buckets (tw_fg w g)" "hash_linked (tw_fg w' g) = hash_linked (tw_fg w g)"
    "active_tbl (tw_fg w' g) = active_tbl (tw_fg w g)" using g [of g] by (simp_all add: fg_lists_def)
  show "tcp_pcb_mempool w' = tcp_pcb_mempool w" "in_use p w' = in_use p w"
    using assms by (simp_all add: lists_view_def in_use_def)
qed

lemma lists_ok_cong: "lists_view w' = lists_view w \<Longrightarrow> lists_ok w' = lists_ok w"
  by (simp add: lists_ok_def lists_viewD [of w' w])

lemma list_of_pcb [simp]: "list_of l (upd_pcb p f w) = list_of l w" "tcp_pcb_mempool (upd_pcb p f w) = tcp_pcb_mempool w"
  by (cases l; simp add: upd_pcb_def)+

text \<open>Both are functions of that part, which lets the simplifier carry them along.\<close>

definition view_ok where "view_ok v \<longleftrightarrow> (\<exists>w. lists_view w = v \<and> lists_ok w)"
definition view_linked where "view_linked p v \<longleftrightarrow> (\<exists>l. fst (fst v p) = Linked l)"
definition view_port where "view_port p v = snd (fst v p)"
definition view_in_use where "view_in_use p v \<longleftrightarrow> p \<noteq> NULL \<and> p \<notin> pool_free (snd (snd v))"

lemma lists_ok_view: "lists_ok w \<longleftrightarrow> view_ok (lists_view w)"
  unfolding view_ok_def using lists_ok_cong by blast

lemma linked_view: "linked p w \<longleftrightarrow> view_linked p (lists_view w)"
  by (simp add: linked_def view_linked_def lists_view_def)

lemma port_view: "tp_local_port (tw_pcb w p) = view_port p (lists_view w)"
  by (simp add: view_port_def lists_view_def)

lemma in_use_view: "in_use p w \<longleftrightarrow> view_in_use p (lists_view w)"
  by (simp add: in_use_def view_in_use_def lists_view_def)

lemmas views = lists_ok_view linked_view port_view in_use_view

section \<open>Operations that leave the lists alone\<close>

lemma core_view: "core w' = core w \<Longrightarrow> lists_view w' = lists_view w"
  by (simp add: lists_view_def core_def)

lemma still_view:
  assumes "still pcb w' = still pcb w"
  shows "lists_view w' = lists_view w"
proof -
  have "tp_link (tw_pcb w' p) = tp_link (tw_pcb w p) \<and> tp_local_port (tw_pcb w' p) = tp_local_port (tw_pcb w p)" for p
    using frozen_fields(2,13) [OF still_fields(1) [OF assms]] still_fields(2) [OF assms, of p] by (cases "p = pcb") auto
  moreover have "tcp_pcb_mempool w' = tcp_pcb_mempool w" using assms by (simp add: still_def core_def upd_pcb_def)
  ultimately show ?thesis using still_fields(3) [OF assms] by (simp add: lists_view_def)
qed

lemma keeps_view: "keeps core w m \<Longrightarrow> keeps lists_view w m" "keeps (still pcb) w m' \<Longrightarrow> keeps lists_view w m'"
  by (auto simp: yields_def intro: core_view still_view)

lemma keeps_view': "keeps' core w m \<Longrightarrow> keeps' lists_view w m" "keeps' (still pcb) w m' \<Longrightarrow> keeps' lists_view w m'"
  by (auto simp: yields_def intro: core_view still_view)

lemma view_upd [simp]:
  "(\<And>c. tp_link (f c) = tp_link c \<and> tp_local_port (f c) = tp_local_port c) \<Longrightarrow> lists_view (upd_pcb p f w) = lists_view w"
  "(\<And>x. fg_lists (k x) = fg_lists x) \<Longrightarrow> lists_view (upd_fg g k w) = lists_view w"
  "lists_view (sk_upd_mem m w) = lists_view w" "lists_view (upd_seg q s w) = lists_view w"
  "lists_view (upd_api a t w) = lists_view w" "lists_view (set_api_pcb a q w) = lists_view w"
  "lists_view (set_api_alive a b w) = lists_view w" "lists_view (remove_fdir_filter u w) = lists_view w"
  by (auto simp: lists_view_def upd_pcb_def upd_fg_def sk_upd_mem_def sk_upd_net_def upd_seg_def upd_api_def set_api_pcb_def
    set_api_alive_def remove_fdir_filter_def fun_upd_def)

lemma view_fg [simp]:
  "fg_lists (x\<lparr>tcp_active_pcb_changed := b\<rparr>) = fg_lists x" "fg_lists (x\<lparr>iss := n\<rparr>) = fg_lists x" "fg_lists (x\<lparr>tcpip_timer := t\<rparr>) = fg_lists x"
  by (simp_all add: fg_lists_def)

lemma view_on_usys: "keeps' lists_view w (on_usys f w)"
  unfolding on_usys_def by (rule yields_bind_any) (simp add: lists_view_def)

lemma view_fg_write: "keeps' lists_view w (fg_write g f w)" if "\<And>x. fg_lists (f x) = fg_lists x"
  using that by (simp add: fg_write_def)

lemma view_listen_free: "keeps' lists_view w (listen_mem_free env p w)"
  by (simp add: listen_mem_free_def yields_bind_any lists_view_def)

lemma view_cancel: "keeps' lists_view w (cancel_timer p w)"
  by (rule keeps_view'(2) [OF still_cancel_timer])

lemmas view_steps = body_steps pure_steps
  yields_keep' [OF view_on_usys] yields_keep' [OF view_cancel] yields_keep' [OF view_listen_free]
  yields_keep [OF keeps_view(2) [OF still_tcp_output]]
  yields_keep' [OF keeps_view'(1) [OF core_segs_free]] yields_keep' [OF keeps_view'(1) [OF core_pbuf_free]]
  yields_keep [OF keeps_view(1) [OF core_pbuf_alloc]] yields_keep [OF keeps_view(1) [OF core_create_segment]]
  yields_keep' [OF keeps_view'(1) [OF core_rst_pcb]] yields_keep' [OF keeps_view'(1) [OF core_rst_impl]]
  yields_last' [OF view_cancel] yields_last' [OF view_on_usys]
  yields_last [OF keeps_view(2) [OF still_tcp_output]] yields_last' [OF keeps_view'(1) [OF core_segs_free]]

lemma view_timer_needed: "keeps' lists_view w (tcp_timer_needed env fg w)"
  unfolding tcp_timer_needed_def by (auto intro!: view_steps)

lemma view_next_iss: "keeps lists_view w (tcp_next_iss fg w)"
  unfolding tcp_next_iss_def by (auto intro!: view_steps simp: Let_def)

lemma view_purge: "keeps' lists_view w (tcp_pcb_purge env p w)"
  unfolding tcp_pcb_purge_def by (auto intro!: view_steps simp: Let_def)

lemma view_enqueue_flags: "keeps lists_view w (tcp_enqueue_flags env p fl w)"
  unfolding tcp_enqueue_flags_def by (auto intro!: view_steps simp: Let_def)

lemma view_send_fin: "keeps lists_view w (tcp_send_fin env p w)"
  unfolding tcp_send_fin_def by (auto intro!: view_steps yields_last [OF view_enqueue_flags])

lemma view_mark_dead: "keeps' lists_view w (mark_dead a ck w)"
  unfolding mark_dead_def by (auto intro!: view_steps simp: Let_def)

lemma view_event_err: "keeps' lists_view w (TCP_EVENT_ERR env fg a e w)"
  unfolding TCP_EVENT_ERR_def lwip_tcp_event_def on_err_def
  by (auto intro!: view_steps yields_keep' [OF view_mark_dead] simp: Let_def)

section \<open>Linking and unlinking\<close>

lemma upd_list_sel:
  assumes "l \<noteq> Listeners"
  shows "tw_pcb (upd_list l f w) = tw_pcb w" "list_of l' (upd_list l f w) = (if l' = l then f (list_of l w) else list_of l' w)"
    "tcp_pcb_mempool (upd_list l f w) = tcp_pcb_mempool w"
    "active_buckets (tw_fg (upd_list l f w) g) = active_buckets (tw_fg w g)" "hash_linked (tw_fg (upd_list l f w) g) = hash_linked (tw_fg w g)"
  using assms by (cases l; cases l'; auto simp: upd_list_def upd_fg_def)+


lemma lists_okD:
  assumes "lists_ok w"
  shows "p \<in> set (list_of l w) \<longleftrightarrow> tp_link (tw_pcb w p) = Linked l" "distinct (list_of l w)"
    "linked p w \<Longrightarrow> tp_local_port (tw_pcb w p) \<noteq> 0 \<and> in_use p w" "i \<in> set (active_buckets (tw_fg w g)) \<longleftrightarrow> hash_linked (tw_fg w g) i"
    "active_tbl (tw_fg w g) i \<noteq> [] \<Longrightarrow> hash_linked (tw_fg w g) i" "distinct (active_buckets (tw_fg w g))"
    "\<exists>F. pool_ok (tcp_pcb_mempool w) F"
  using assms by (auto simp: lists_ok_def)

lemma add_head_ok:
  assumes ok: "lists_ok w" and "\<not> linked p w" and use: "in_use p w" and l: "l \<noteq> Listeners" and port: "tp_local_port (tw_pcb w p) \<noteq> 0"
    and b: "\<And>g i. l = Bucket g i \<Longrightarrow> hash_linked (tw_fg w g) i"
  shows "lists_ok (hlist_add_head p l w)" (is "lists_ok ?w'")
proof -
  have c: "tp_link (tw_pcb ?w' q) = (if q = p then Linked l else tp_link (tw_pcb w q))"
    "tp_local_port (tw_pcb ?w' q) = tp_local_port (tw_pcb w q)" for q
    by (simp_all add: hlist_add_head_def upd_list_sel [OF l])
  have ls: "list_of l' ?w' = (if l' = l then p # list_of l w else list_of l' w)" for l'
    by (simp add: hlist_add_head_def upd_list_sel [OF l])
  have bs: "active_buckets (tw_fg ?w' g) = active_buckets (tw_fg w g)" "hash_linked (tw_fg ?w' g) = hash_linked (tw_fg w g)" for g
    by (simp_all add: hlist_add_head_def upd_list_sel [OF l])
  have m: "tcp_pcb_mempool ?w' = tcp_pcb_mempool w" by (simp add: hlist_add_head_def upd_list_sel [OF l])
  have np: "tp_link (tw_pcb w p) \<noteq> Linked l'" for l' using assms(2) by (auto simp: linked_def)
  note d = lists_okD [OF ok]
  have t: "active_tbl (tw_fg ?w' g) i = list_of (Bucket g i) ?w'" for g i by simp
  show ?thesis
    unfolding lists_ok_def
  proof (intro conjI allI impI)
    show "q \<in> set (list_of l' ?w') \<longleftrightarrow> tp_link (tw_pcb ?w' q) = Linked l'" for q l' using d(1) np by (auto simp: c ls)
    show "distinct (list_of l' ?w')" for l' using d(1,2) np by (auto simp: ls)
    show "tp_local_port (tw_pcb ?w' q) \<noteq> 0" "in_use q ?w'" if "linked q ?w'" for q
      using that d(3) [of q] port use by (cases "q = p"; auto simp: c linked_def in_use_def m)+
    show "hash_linked (tw_fg ?w' g) i" if "active_tbl (tw_fg ?w' g) i \<noteq> []" for g i
      using that b [of g i] d(5) [of g i] unfolding t ls bs by (cases "l = Bucket g i") auto
  qed (use d(4,6,7) in \<open>auto simp: bs m\<close>)
qed

text \<open>Taking a block out; its bucket may go with it when the block was alone there.\<close>

lemma removed_ok:
  assumes ok: "lists_ok w" and p: "tp_link (tw_pcb w p) = Linked l" and x: "\<And>l. x \<noteq> Linked l"
    and c: "\<And>q. tp_link (tw_pcb w' q) = (if q = p then x else tp_link (tw_pcb w q))"
      "\<And>q. tp_local_port (tw_pcb w' q) = tp_local_port (tw_pcb w q)" and m: "tcp_pcb_mempool w' = tcp_pcb_mempool w"
    and ls: "\<And>l'. list_of l' w' = (if l' = l then remove1 p (list_of l w) else list_of l' w)"
    and bs: "\<And>g. active_buckets (tw_fg w' g) = active_buckets (tw_fg w g) \<and> hash_linked (tw_fg w' g) = hash_linked (tw_fg w g) \<or>
      (\<exists>i. l = Bucket g i \<and> list_of l w = [p] \<and> active_buckets (tw_fg w' g) = remove1 i (active_buckets (tw_fg w g)) \<and>
         hash_linked (tw_fg w' g) = (hash_linked (tw_fg w g))(i := False))"
  shows "lists_ok w'"
proof -
  note d = lists_okD [OF ok]
  have t: "active_tbl (tw_fg u g) i = list_of (Bucket g i) u" for u g i by simp
  show ?thesis
    unfolding lists_ok_def
  proof (intro conjI allI impI)
    show "q \<in> set (list_of l' w') \<longleftrightarrow> tp_link (tw_pcb w' q) = Linked l'" for q l'
      using d(1) [of q l'] d(2) [of l] p x by (auto simp: c ls)
    show "distinct (list_of l' w')" for l' using d(2) by (simp add: ls)
    show "tp_local_port (tw_pcb w' q) \<noteq> 0" "in_use q w'" if "linked q w'" for q
      using that d(3) [of q] x by (cases "q = p"; auto simp: c linked_def in_use_def m)+
    show "distinct (active_buckets (tw_fg w' g))" for g using bs [of g] d(6) [of g] by auto
    show "set (active_buckets (tw_fg w' g)) = Collect (hash_linked (tw_fg w' g))" for g
      using bs [of g] d(4) [of _ g] d(6) [of g] by (auto split: if_splits)
    show "hash_linked (tw_fg w' g) i" if "active_tbl (tw_fg w' g) i \<noteq> []" for g i
    proof -
      have "active_tbl (tw_fg w g) i \<noteq> []" using that unfolding t ls by (auto split: if_splits)
      then show ?thesis using bs [of g] that d(5) [of g i] unfolding t ls by (auto split: if_splits)
    qed
  qed (use d(7) in \<open>simp add: m\<close>)
qed

lemma del_ok:
  assumes ok: "lists_ok w"
  shows "yields (hlist_del p w) (\<lambda>w'. lists_ok w' \<and> \<not> linked p w' \<and> in_use p w')"
proof (cases "tp_link (tw_pcb w p)")
  case (Linked l)
  have l: "l \<noteq> Listeners" using Linked lists_okD(1) [OF ok, of p l] by auto
  have "lists_ok (upd_pcb p (\<lambda>c. c\<lparr>tp_link := Poisoned\<rparr>) (upd_list l (remove1 p) w))"
    by (rule removed_ok [OF ok Linked, of Poisoned]) (simp_all add: upd_list_sel [OF l])
  moreover have "in_use p w" using Linked lists_okD(3) [OF ok, of p] by (simp add: linked_def)
  ultimately show ?thesis using Linked by (simp add: hlist_del_def linked_def in_use_def upd_list_sel [OF l])
qed (simp_all add: hlist_del_def)

lemma RMV_ok:
  assumes ok: "lists_ok w"
  shows "yields (TCP_RMV env fg p w) (\<lambda>w'. lists_ok w' \<and> \<not> linked p w' \<and> in_use p w' \<and> tp_local_port (tw_pcb w' p) \<noteq> 0 \<and>
    tp_state (tw_pcb w' p) = tp_state (tw_pcb w p))"
proof (cases "tp_link (tw_pcb w p)")
  case (Linked l)
  have l: "l \<noteq> Listeners" using Linked lists_okD(1) [OF ok, of p l] by auto
  have port: "tp_local_port (tw_pcb w p) \<noteq> 0" "in_use p w" using lists_okD(3) [OF ok, of p] Linked by (simp_all add: linked_def)
  let ?last = "\<exists>i. l = Bucket fg i \<and> active_tbl (tw_fg w fg) i = [p]"
  define drop where "drop = (\<lambda>g i. upd_fg g (\<lambda>x. x\<lparr>active_buckets := remove1 i (active_buckets x), hash_linked := (hash_linked x)(i := False)\<rparr>) w)"
  define w1 where "w1 = (if ?last then (case l of Bucket g i \<Rightarrow> drop g i | _ \<Rightarrow> w) else w)"
  have w1: "tw_pcb w1 = tw_pcb w" "tcp_pcb_mempool w1 = tcp_pcb_mempool w" "list_of l' w1 = list_of l' w" for l'
    by (cases l'; auto simp: w1_def drop_def upd_fg_def split: pcb_list.split)+
  let ?w2 = "upd_pcb p (\<lambda>c. c\<lparr>tp_link := Unlinked\<rparr>) (upd_pcb p (\<lambda>c. c\<lparr>tp_link := Poisoned\<rparr>) (upd_list l (remove1 p) w1))"
  have first: "yields (case tp_link (tw_pcb w p) of
              Linked (Bucket g i) \<Rightarrow>
                if g = fg \<and> active_tbl (tw_fg w g) i = [p] then
                  bindR (BUG_ON (te_bugs env) (i < TCP_ACTIVE_PCBS_MAX_BUCKETS)) (\<lambda>_.
                  bindR (BUG_ON (te_bugs env) True) (\<lambda>_.
                  if \<not> hash_linked (tw_fg w g) i then Inl Fault else Inr (drop g i)))
                else Inr w
            | _ \<Rightarrow> Inr w) (\<lambda>w'. w' = w1)"
    unfolding Linked by (cases l) (auto simp: w1_def intro!: yields_bind_any)
  have b1: "active_buckets (tw_fg w1 g) = active_buckets (tw_fg w g) \<and> hash_linked (tw_fg w1 g) = hash_linked (tw_fg w g) \<or>
      (\<exists>i. l = Bucket g i \<and> list_of l w = [p] \<and> active_buckets (tw_fg w1 g) = remove1 i (active_buckets (tw_fg w g)) \<and>
         hash_linked (tw_fg w1 g) = (hash_linked (tw_fg w g))(i := False))" for g
    by (cases l) (auto simp: w1_def drop_def upd_fg_def)
  have "lists_ok ?w2"
    by (rule removed_ok [OF ok Linked, of Unlinked]) (use b1 in \<open>simp_all add: upd_list_sel [OF l] w1\<close>)
  moreover have "hlist_del p w1 = Inr (upd_pcb p (\<lambda>c. c\<lparr>tp_link := Poisoned\<rparr>) (upd_list l (remove1 p) w1))"
    using Linked by (simp add: hlist_del_def w1)
  moreover have "yields (cancel_timer p ?w2) (\<lambda>w'. lists_ok w' \<and> \<not> linked p w' \<and> in_use p w' \<and> tp_local_port (tw_pcb w' p) \<noteq> 0 \<and>
    tp_state (tw_pcb w' p) = tp_state (tw_pcb w p))" if "lists_ok ?w2"
    unfolding cancel_timer_def
    by (rule yields_bind_any) (use that port in \<open>simp add: lists_ok_cong [OF view_upd(1)] linked_def in_use_def upd_list_sel [OF l] w1\<close>)
  ultimately show ?thesis
    unfolding TCP_RMV_def by (intro yields_bind [OF first [unfolded drop_def]]) simp
qed (simp_all add: TCP_RMV_def hlist_del_def)

lemma REG_ok:
  assumes "lists_ok w" and "\<not> linked p w" and "in_use p w" and "l \<noteq> Listeners" and "tp_local_port (tw_pcb w p) \<noteq> 0"
    and "\<And>g i. l = Bucket g i \<Longrightarrow> hash_linked (tw_fg w g) i"
  shows "yields (TCP_REG env l p fg w) lists_ok"
proof -
  have "lists_ok (hlist_add_head p l w)" by (rule add_head_ok [OF assms])
  then show ?thesis
    unfolding TCP_REG_def
    by (intro yields_bind_any yields_cong [OF view_timer_needed]) (simp add: lists_ok_view)
qed

lemma REG_ACTIVE_ok:
  assumes ok: "lists_ok w" and "\<not> linked p w" and "in_use p w" and "tp_local_port (tw_pcb w p) \<noteq> 0"
  shows "yields (TCP_REG_ACTIVE env p idx fg w) lists_ok"
proof -
  let ?new = "active_tbl (tw_fg w fg) idx = [] \<and> \<not> hash_linked (tw_fg w fg) idx"
  define w1 where "w1 = (if ?new
    then upd_fg fg (\<lambda>x. x\<lparr>active_buckets := idx # active_buckets x, hash_linked := (hash_linked x)(idx := True)\<rparr>) w else w)"
  have p: "tw_pcb w1 = tw_pcb w" "tcp_pcb_mempool w1 = tcp_pcb_mempool w" by (simp_all add: w1_def upd_fg_def)
  have ls: "list_of l w1 = list_of l w" for l by (cases l) (simp_all add: w1_def upd_fg_def)
  note d = lists_okD [OF ok]
  have "lists_ok w1"
    unfolding lists_ok_def
  proof (intro conjI allI impI)
    show "q \<in> set (list_of l w1) \<longleftrightarrow> tp_link (tw_pcb w1 q) = Linked l" for q l by (simp only: p ls d(1))
    show "distinct (list_of l w1)" for l by (simp only: ls d(2))
    show "tp_local_port (tw_pcb w1 q) \<noteq> 0" "in_use q w1" if "linked q w1" for q using that d(3) [of q] by (simp_all add: p linked_def in_use_def)
  qed (use d(4-7) in \<open>auto simp: w1_def upd_fg_def split: if_splits\<close>)
  moreover have "hash_linked (tw_fg w1 fg) idx" using lists_okD(5) [OF ok, of fg idx] by (auto simp: w1_def upd_fg_def)
  ultimately have "yields (TCP_REG env (Bucket fg idx) p fg w1) lists_ok"
    by (intro REG_ok) (use assms(2-4) in \<open>auto simp: p linked_def in_use_def\<close>)
  then have "yields (bindR (TCP_REG env (Bucket fg idx) p fg w1) (\<lambda>w2. Inr (upd_fg fg (\<lambda>x. x\<lparr>tcp_active_pcb_changed := True\<rparr>) w2))) lists_ok"
    by (rule yields_bind) (simp add: lists_ok_view)
  then show ?thesis unfolding TCP_REG_ACTIVE_def w1_def Let_def by (cases "sk_fgs w fg") (simp_all add: fg_deref_def)
qed

section \<open>The operations on connections\<close>

lemmas ok_steps = view_steps yields_bind [OF RMV_ok] yields_cong [OF RMV_ok] yields_keep [OF view_next_iss]
  yields_keep' [OF view_purge] yields_keep [OF view_enqueue_flags] yields_keep [OF view_send_fin]
  yields_keep' [OF view_event_err]

text \<open>Only the lists and whether a block is in one matter.\<close>

lemma lists_ok_links:
  assumes "lists_ok w" and l: "\<And>q l. tp_link (tw_pcb w' q) = Linked l \<longleftrightarrow> tp_link (tw_pcb w q) = Linked l"
    and port: "\<And>q. linked q w \<Longrightarrow> tp_local_port (tw_pcb w' q) \<noteq> 0"
    and "tw_fg w' = tw_fg w" and "tcp_pcb_mempool w' = tcp_pcb_mempool w"
  shows "lists_ok w'"
proof -
  have "list_of l w' = list_of l w" for l by (cases l) (simp_all add: assms(4))
  then show ?thesis using assms(1) port unfolding lists_ok_def by (simp add: linked_def in_use_def l assms(4,5))
qed

text \<open>A block that is in no list may change its port.\<close>

lemma port_ok:
  assumes "lists_ok w" and "\<And>c. tp_link (f c) = tp_link c" and "\<not> linked p w \<or> tp_local_port (f (tw_pcb w p)) \<noteq> 0"
  shows "lists_ok (upd_pcb p f w)"
  by (rule lists_ok_links [OF assms(1)]) (use assms(2,3) lists_okD(3) [OF assms(1)] in \<open>auto simp: upd_pcb_def\<close>)

lemma bind_ok:
  assumes ok: "lists_ok w" and "\<not> linked p w" and "in_use p w"
  shows "yields (tcp_bind env fg p ip port w) (\<lambda>y. lists_ok (snd y))"
proof -
  have "yields (bindR (TCP_REG env (Bound fg) p fg (upd_pcb p (\<lambda>c. c\<lparr>tp_local_port := n\<rparr>) w1)) (\<lambda>w3. Inr (ERR_OK, w3))) (\<lambda>y. lists_ok (snd y))"
    if "lists_view w1 = lists_view w" "n \<noteq> 0" for n w1
  proof (rule yields_bind [OF REG_ok])
    have "lists_ok w1" "\<not> linked p w1" "in_use p w1" using assms that by (simp_all add: views)
    then show "lists_ok (upd_pcb p (\<lambda>c. c\<lparr>tp_local_port := n\<rparr>) w1)" by (intro port_ok) auto
    show "\<not> linked p (upd_pcb p (\<lambda>c. c\<lparr>tp_local_port := n\<rparr>) w1)" using \<open>\<not> linked p w1\<close> by (simp add: linked_def upd_pcb_def)
    show "in_use p (upd_pcb p (\<lambda>c. c\<lparr>tp_local_port := n\<rparr>) w1)" using \<open>in_use p w1\<close> by (simp add: in_use_def upd_pcb_def)
  qed (use that in \<open>simp_all add: upd_pcb_def\<close>)
  then show ?thesis
    unfolding tcp_bind_def
    by (auto intro!: body_steps yields_bind_any [where m = "BUG_ON a b" for a b] yields_bind_any [where m = "tcp_new_port env"]
        yields_bind_any [where m = "fg_deref w fg"] simp: ok Let_def)
qed

end
