(* ===== verification/Tcp_Life.thy ===== *)
theory Tcp_Life
  imports Tcp_Lists
begin

text \<open>
  The life of a control block, from the pool through the lists of its flow group and back: the
  operations of \<open>net/tcp.c\<close> on a block in use keep the invariant of theory \<open>Tcp_Lists\<close>, and so
  do the timers.
\<close>

section \<open>Getting and giving back\<close>

abbreviation lists_kept :: "tcp_world res \<Rightarrow> bool" where
  "lists_kept m \<equiv> yields m lists_ok"

abbreviation lists_kept' :: "('a \<times> tcp_world) res \<Rightarrow> bool" where
  "lists_kept' m \<equiv> yields m (\<lambda>y. lists_ok (snd y))"

text \<open>A block that is out of the lists and in use.\<close>

definition held :: "addr \<Rightarrow> tcp_world \<Rightarrow> bool" where
  "held p w \<longleftrightarrow> lists_ok w \<and> \<not> linked p w \<and> in_use p w"

lemma pools_ok:
  assumes "lists_ok w" and "pool_ok s F" and "\<And>q. linked q w \<Longrightarrow> q \<notin> F"
  shows "lists_ok (w\<lparr>tcp_pcb_mempool := s\<rparr>)"
proof -
  have l: "list_of l (w\<lparr>tcp_pcb_mempool := s\<rparr>) = list_of l w" for l by (cases l) simp_all
  note d = lists_okD [OF assms(1)]
  show ?thesis
    unfolding lists_ok_def l
    using d assms(2,3) by (auto simp: linked_def in_use_def pool_free_eq [OF assms(2)])
qed

lemma free_ok:
  assumes "held p w"
  shows "lists_kept (pcb_mem_free env p w)"
proof -
  obtain F where F: "pool_ok (tcp_pcb_mempool w) F" using lists_okD(7) [of w] assms by (auto simp: held_def)
  have p: "p \<noteq> NULL" "p \<notin> F" using assms pool_free_eq [OF F] by (auto simp: held_def in_use_def)
  have "q \<notin> insert p F" if "linked q w" for q
    using that assms lists_okD(3) [of w q] pool_free_eq [OF F] by (auto simp: held_def in_use_def)
  then show ?thesis
    unfolding pcb_mem_free_def
    by (intro yields_bind [OF pool_free_yields [OF F p]]) (use assms in \<open>auto simp: held_def intro!: pools_ok\<close>)
qed

lemma malloc_ok:
  assumes "lists_ok w"
  shows "yields (pcb_malloc env w) (\<lambda>(p, w'). lists_ok w' \<and> (p = NULL \<or> held p w'))"
proof -
  obtain F where F: "pool_ok (tcp_pcb_mempool w) F" using lists_okD(7) [OF assms] by blast
  have q: "q \<notin> F" if "linked q w" for q using that lists_okD(3) [OF assms, of q] pool_free_eq [OF F] by (auto simp: in_use_def)
  show ?thesis
    unfolding pcb_malloc_def
  proof (rule yields_bind [OF pool_alloc_yields [OF F]], clarify)
    fix p s
    assume "p = NULL \<and> pool_ok s {} \<and> F = {} \<or> p \<in> F \<and> pool_ok s (F - {p})"
    then show "yields (Inr (p, w\<lparr>tcp_pcb_mempool := s\<rparr>)) (\<lambda>(p, w'). lists_ok w' \<and> (p = NULL \<or> held p w'))"
    proof
      assume a: "p \<in> F \<and> pool_ok s (F - {p})"
      then have "lists_ok (w\<lparr>tcp_pcb_mempool := s\<rparr>)" using q by (intro pools_ok [OF assms]) auto
      moreover have "p \<noteq> NULL" using kmp.null_law [OF F] a by (metis (no_types))
      moreover have "\<not> linked p w" using q a by blast
      ultimately show ?thesis using a by (simp add: held_def linked_def in_use_def pool_free_eq [of s "F - {p}"])
    qed (use pools_ok [OF assms, of s "{}"] in simp)
  qed
qed

text \<open>A block that is out of the lists may be overwritten.\<close>

lemma overwrite_ok:
  assumes "held p w" and "\<And>l. tp_link (f (tw_pcb w p)) \<noteq> Linked l"
  shows "held p (upd_pcb p f w)"
proof -
  have n: "tp_link (tw_pcb w p) \<noteq> Linked l" for l using assms(1) by (auto simp: held_def linked_def)
  have ok: "lists_ok w" using assms by (simp add: held_def)
  have "lists_ok (upd_pcb p f w)"
    by (rule lists_ok_links [OF ok])
      (use n assms(2) lists_okD(3) [OF ok] in \<open>auto simp: upd_pcb_def linked_def split: if_splits\<close>)
  then show ?thesis using assms by (simp add: held_def linked_def in_use_def)
qed

lemma new_held: "lists_ok w \<Longrightarrow> yields (tcp_new env fg w) (\<lambda>(p, w'). held p w')"
  unfolding tcp_new_def tcp_alloc_def Let_def
proof (rule yields_bind [OF malloc_ok], assumption, clarify, intro yields_if, goal_cases)
  case (2 p w1)
  have "held p (upd_pcb p (\<lambda>_. c) w1)" if "tp_link c = Unlinked" for c
    by (rule overwrite_ok) (use 2 that in auto)
  then show ?case
    by (intro yields_keep [OF view_next_iss]) (auto intro!: pure_steps simp: views held_def pcb_zero_def)
qed simp

lemma new_ok: "lists_ok w \<Longrightarrow> lists_kept' (tcp_new env fg w)"
  by (rule yields_cong [OF new_held]) (auto simp: held_def)

section \<open>Binding and connecting\<close>

lemma local_port_ok:
  assumes "lists_ok w" and "in_use p w"
  shows "yields (if tp_local_port (tw_pcb w p) = 0 then bindR (tcp_new_port env) (\<lambda>n. Inr (upd_pcb p (\<lambda>c. c\<lparr>tp_local_port := n\<rparr>) w))
      else Inr w) (\<lambda>w'. lists_ok w' \<and> in_use p w' \<and> (tp_local_port (tw_pcb w p) = 0 \<longrightarrow> \<not> linked p w'))"
  using assms lists_okD(3) [OF assms(1), of p]
  by (auto intro!: yields_bind_any [where m = "tcp_new_port env"] port_ok) (simp_all add: linked_def in_use_def upd_pcb_def)

lemma connect_ok:
  assumes ok: "lists_ok w" and use: "in_use p w"
  shows "lists_kept' (tcp_connect env fg p ip port w)"
  unfolding tcp_connect_def Let_def
proof (intro yields_if yields_option, goal_cases)
  case (4 a w2)
  then have "lists_view w2 = lists_view w" by (auto split: if_splits)
  then have "lists_ok w2" "in_use p w2" using ok use by (simp_all add: views)
  then show ?case
    apply (rule yields_bind [OF local_port_ok])
    apply (intro yields_if)
    apply (simp)
    apply (rule yields_keep [OF view_next_iss])
    apply (simp only: prod.case)
    apply (rule yields_keep [OF view_enqueue_flags])
    apply (auto intro!: body_steps yields_bind [OF RMV_ok] yields_bind [OF REG_ACTIVE_ok] yields_keep [OF keeps_view(2) [OF still_tcp_output]] simp: views)
    done
qed (use ok in \<open>simp_all add: lists_ok_view\<close>)

section \<open>Taking a block out\<close>

lemma kept_view: "keeps' lists_view w m \<Longrightarrow> lists_ok w \<Longrightarrow> lists_kept m"
  "keeps lists_view w m' \<Longrightarrow> lists_ok w \<Longrightarrow> lists_kept' m'"
  by (auto simp: yields_def lists_ok_view)

lemma view_fg_changed: "keeps' lists_view w (fg_write g (tcp_active_pcb_changed_update (\<lambda>_. b)) w)"
  by (rule view_fg_write) simp

lemma RMV_ACTIVE_ok:
  assumes "lists_ok w"
  shows "yields (TCP_RMV_ACTIVE env fg p w) (\<lambda>w'. held p w' \<and> tp_local_port (tw_pcb w' p) \<noteq> 0)"
  unfolding TCP_RMV_ACTIVE_def
  by (rule yields_bind [OF RMV_ok [OF assms]], rule yields_cong [OF view_fg_changed])
    (auto simp: views held_def)

lemma pcb_remove_ok: "lists_ok w \<Longrightarrow> yields (tcp_pcb_remove env fg p w) (held p)"
  unfolding tcp_pcb_remove_def Let_def
  by (rule yields_bind [OF RMV_ok], assumption, rule yields_keep' [OF view_purge])
    (auto intro!: body_steps yields_keep [OF keeps_view(2) [OF still_tcp_output]] simp: held_def views tcp_ack_now_def)

lemma remove_active_ok: "lists_ok w \<Longrightarrow> yields (TCP_PCB_REMOVE_ACTIVE env fg p w) (held p)"
  unfolding TCP_PCB_REMOVE_ACTIVE_def
  by (rule yields_bind [OF pcb_remove_ok], assumption, rule yields_cong [OF view_fg_changed])
    (simp add: held_def views)

lemma close_with_reset_ok: "lists_ok w \<Longrightarrow> lists_kept (tcp_close_with_reset env fg p w)"
  unfolding tcp_close_with_reset_def
  by (rule yields_keep' [OF keeps_view'(1) [OF core_rst_pcb]], rule yields_keep' [OF view_purge], rule yields_bind [OF RMV_ACTIVE_ok])
    (auto intro: free_ok simp: held_def views)

lemma abandon_ok: "lists_ok w \<Longrightarrow> lists_kept (tcp_abandon env fg p reset w)"
  unfolding tcp_abandon_def Let_def
  by (auto intro!: body_steps yields_bind [OF pcb_remove_ok] yields_bind [OF remove_active_ok] free_ok
      yields_keep' [OF keeps_view'(1) [OF core_segs_free]] yields_keep' [OF keeps_view'(1) [OF core_rst_impl]]
      yields_bind [OF free_ok] kept_view(1) [OF view_event_err] simp: held_def views)

lemma abort_ok: "lists_ok w \<Longrightarrow> lists_kept (tcp_abort env fg p w)"
  unfolding tcp_abort_def by (rule abandon_ok)

lemma view_output_snd: "lists_ok w \<Longrightarrow> yields (tcp_output env fg p w) (\<lambda>y. lists_ok (snd y))"
  by (rule kept_view(2) [OF keeps_view(2) [OF still_tcp_output]])

lemma linked_port: "view_ok (lists_view w) \<Longrightarrow> view_linked p (lists_view w) \<Longrightarrow> view_port p (lists_view w) \<noteq> 0"
  using lists_okD(3) [of w p] by (simp add: views)

lemma close_shutdown_ok: "lists_ok w \<Longrightarrow> in_use p w \<Longrightarrow> lists_kept' (tcp_close_shutdown env fg p rst w)"
  unfolding tcp_close_shutdown_def Let_def
  by (auto intro!: body_steps yields_keep' [OF keeps_view'(1) [OF core_rst_pcb]] yields_keep' [OF view_purge]
      yields_bind [OF RMV_ACTIVE_ok] yields_bind [OF REG_ok] yields_bind [OF RMV_ok] yields_bind [OF pcb_remove_ok]
      yields_bind [OF remove_active_ok] yields_bind [OF free_ok] yields_keep' [OF view_listen_free]
      yields_keep [OF view_send_fin] yields_keep [OF keeps_view(2) [OF still_tcp_output]]
      simp: held_def views dest: linked_port)

lemma close_ok: "lists_ok w \<Longrightarrow> in_use p w \<Longrightarrow> lists_kept' (tcp_close env fg p w)"
  unfolding tcp_close_def Let_def by (rule close_shutdown_ok) (simp_all add: views)

lemma shutdown_ok: "lists_ok w \<Longrightarrow> in_use p w \<Longrightarrow> lists_kept' (tcp_shutdown env fg p rx tx w)"
  unfolding tcp_shutdown_def Let_def
  by (auto intro!: body_steps close_shutdown_ok [unfolded views] yields_keep' [OF keeps_view'(1) [OF core_pbuf_free]]
      simp: held_def views)

lemma view_upd_ann_wnd [simp]: "lists_view (snd (tcp_update_rcv_ann_wnd p w)) = lists_view w"
  by (simp add: tcp_update_rcv_ann_wnd_def update_rcv_ann_wnd_def Let_def lists_view_def upd_pcb_def fun_eq_iff)

lemma recved_ok: "lists_ok w \<Longrightarrow> lists_kept (tcp_recved env fg p n w)"
  unfolding tcp_recved_def Let_def split_beta
  by (auto intro!: yields_if yields_keep [OF keeps_view(2) [OF still_tcp_output]] simp: views tcp_ack_now_def)

section \<open>Writing\<close>

lemma view_upd_pb [simp]: "lists_view (upd_sk_pb q f w) = lists_view w"
  by (rule core_view) simp

lemma view_write_commit: "keeps' lists_view w (write_commit env p arg len fl q used l w)"
  unfolding write_commit_def
  by (auto intro!: body_steps yields_keep' [OF keeps_view'(1) [OF core_write_extend]] yields_keep' [OF keeps_view'(1) [OF core_pbuf_cat]] simp: Let_def)

lemma view_write_memerr: "keeps' lists_view w (write_memerr env p l w)"
  unfolding write_memerr_def
  by (auto intro!: body_steps yields_keep' [OF keeps_view'(1) [OF core_pbuf_free]] yields_last' [OF keeps_view'(1) [OF core_segs_free]] simp: Let_def)

lemma view_write: "keeps lists_view w (tcp_write env p arg len fl w)"
proof -
  have "lists_view (snd (tcp_write_checks p len w)) = lists_view w" by (simp add: tcp_write_checks_def Let_def)
  then show ?thesis
    unfolding tcp_write_def Let_def split_beta
    by (auto intro!: body_steps pure_steps yields_keep [OF keeps_view(1) [OF core_write_last_segment]]
        yields_keep [OF keeps_view(1) [OF core_write_segments]] yields_keep' [OF view_write_commit] yields_keep' [OF view_write_memerr]
        simp del: write_segments.simps)
qed

section \<open>The timers\<close>

lemma view_rexmit_rto: "keeps' lists_view w (tcp_rexmit_rto env fg p w)"
  unfolding tcp_rexmit_rto_def
  by (auto intro!: body_steps pure_steps yields_keep [OF keeps_view(2) [OF still_tcp_output]] simp: Let_def)

lemma view_send_header: "keeps' lists_view w (send_header env fg p q w)"
  by (rule keeps_view'(2) [OF still_send_header])

lemma view_alloc_header: "keeps lists_view w (tcp_output_alloc_header env p ol dl sq w)"
  by (rule keeps_view(2) [OF still_alloc_header])

lemma view_zero_window_probe: "keeps' lists_view w (tcp_zero_window_probe env fg p w)"
  unfolding tcp_zero_window_probe_def
  by (auto intro!: body_steps yields_keep [OF view_alloc_header] yields_last' [OF view_send_header]
      yields_keep [OF keeps_view(1) [OF core_on_pbuf]] simp: Let_def)

lemma view_keepalive: "keeps' lists_view w (tcp_keepalive env fg p w)"
  unfolding tcp_keepalive_def
  by (auto intro!: body_steps yields_keep [OF view_alloc_header] yields_last' [OF view_send_header])

lemma view_recompute: "keeps' lists_view w (tcp_recompute_timers env fg p w)"
  by (rule keeps_view'(2) [OF still_recompute])

lemma view_unified_next: "keeps lists_view w (unified_next env fg p w)"
  unfolding unified_next_def
  by (auto intro!: body_steps yields_keep' [OF view_zero_window_probe] yields_keep' [OF view_recompute]
      yields_bind_any [where m = "rd xs k" for xs k] simp: Let_def)

text \<open>Taken out by a timer: the block is in a list, or the removal faults.\<close>

lemma timer_remove_ok: "lists_ok w \<Longrightarrow> lists_kept (pcb_remove_called_from_timer env fg p rst w)"
  unfolding pcb_remove_called_from_timer_def
  by (rule yields_keep' [OF view_purge], rule yields_bind [OF del_ok])
    (auto intro!: body_steps yields_keep' [OF keeps_view'(1) [OF core_rst_pcb]] free_ok simp: held_def views)

lemma view_ack_due: "keeps' lists_view w (if due then bindR (tcp_output env fg p (tcp_ack_now p w)) (\<lambda>(_, w1).
      Inr (upd_pcb p (\<lambda>c. c\<lparr>tp_flags := tp_flags c AND NOT TF_ACK_NOW, tp_delayedack_expires := 0\<rparr>) w1)) else Inr w)"
  by (auto intro!: yields_keep [OF keeps_view(2) [OF still_tcp_output]] simp: tcp_ack_now_def)

lemma view_backoff [simp]: "lists_view (upd_pcb p backoff_cwnd w) = lists_view w"
  by (rule view_upd(1)) (simp add: backoff_cwnd_def Let_def)

lemma unified_handler_ok:
  assumes ok: "lists_ok w"
  shows "lists_kept' (tcp_unified_timer_handler env p w)"
  unfolding tcp_unified_timer_handler_def Let_def
proof (rule yields_keep' [OF view_ack_due], intro yields_if, goal_cases)
  case (4 w1)
  show ?case
  proof (rule yields_keep' [where K = lists_view and w = w])
    show "keeps' lists_view w (if c then bindR (rd tcp_backoff n) (\<lambda>k. Inr (upd_pcb p (\<lambda>c. c\<lparr>tp_rto := f c k\<rparr>) (upd_pcb p (\<lambda>c. c\<lparr>tp_retransmit_expires := 0\<rparr>) w1)))
        else Inr (upd_pcb p (\<lambda>c. c\<lparr>tp_retransmit_expires := 0\<rparr>) w1))" for c n f
      using 4(1) by (auto intro!: yields_bind_any)
    show "lists_kept' (bindR (tcp_rexmit_rto env g p (upd_pcb p backoff_cwnd w2)) (\<lambda>w4. Inr (Some False, w4)))"
      if "lists_view w2 = lists_view w" for g w2
      by (rule yields_keep' [OF view_rexmit_rto]) (use that ok in \<open>simp add: views\<close>)
  qed
next
  case (3 w1)
  then show ?case using ok by (intro yields_bind [OF timer_remove_ok]) (simp_all add: views)
qed (rule kept_view(2) [OF view_unified_next]; use ok in \<open>simp add: views\<close>)+

lemma run_unified_ok: "lists_ok w \<Longrightarrow> lists_kept (run_unified_timer env p w)"
  unfolding run_unified_timer_def Let_def
  by (rule yields_bind [OF unified_handler_ok]) (auto simp: views)

text \<open>Handing refused data to the application.\<close>

lemma view_recv_a_pbuf: "keeps' lists_view w (recv_a_pbuf env fuel a q w)"
proof (induction fuel arbitrary: q w)
  case (Suc fuel)
  have len: "lists_view (tw_mbuf_len m n w) = lists_view w" for m n w
    by (rule core_view) (simp add: tw_mbuf_len_def)
  show ?case
    by (auto intro!: body_steps yields_keep' [OF view_on_usys] yields_last' [OF Suc]
        yields_bind_any [where m = "mbuf_to_iomap x y z t" for x y z t] simp: Let_def len)
qed simp

lemma view_on_recv: "keeps lists_view w (on_recv env a q w)"
  unfolding on_recv_def
  by (auto intro!: body_steps yields_keep' [OF view_mark_dead] yields_keep' [OF view_recv_a_pbuf] simp: Let_def)

lemma view_event_recv: "keeps lists_view w (TCP_EVENT_RECV env fg p q e w)"
  by (simp add: TCP_EVENT_RECV_def lwip_tcp_event_def view_on_recv)

lemma view_event_closed: "keeps lists_view w (TCP_EVENT_CLOSED env fg p w)"
  by (simp add: TCP_EVENT_CLOSED_def lwip_tcp_event_def view_on_recv)

lemma view_refused_loop: "keeps lists_view w (tcp_process_refused_loop env fuel fg p w)"
proof (induction fuel arbitrary: w)
  case (Suc fuel)
  show ?case
    unfolding tcp_process_refused_loop.simps Let_def
    apply (rule yields_if, simp)
    apply (rule yields_keep [OF keeps_view(1) [OF core_on_pbuf]], simp only: prod.case)
    apply (rule yields_keep [OF view_event_recv], simp only: prod.case)
    apply (intro yields_if)
    subgoal
      apply (rule yields_keep [OF view_event_closed], simp only: prod.case)
      apply (rule yields_if, simp, rule yields_last [OF Suc], simp)
      done
    subgoal by (rule yields_last [OF Suc]) simp
    subgoal by simp
    apply (rule yields_bind_if)
    subgoal by (rule yields_keep' [OF keeps_view'(1) [OF core_pbuf_cat]]) simp
    subgoal by simp
    done
qed simp

lemma view_refused: "keeps lists_view w (tcp_process_refused_data env fg p w)"
  unfolding tcp_process_refused_data_def by (rule view_refused_loop)

text \<open>A walk whose body keeps the invariant keeps it. \<close>

lemma hl_next_in: "hl_next xs x \<noteq> NULL \<Longrightarrow> hl_next xs x \<in> set xs"
proof -
  have "b \<in> set xs" if "dropWhile (\<lambda>y. y \<noteq> x) xs = a # b # zs" for a b zs
    using set_dropWhileD [of b "\<lambda>y. y \<noteq> x" xs] that by simp
  then show "hl_next xs x \<noteq> NULL \<Longrightarrow> hl_next xs x \<in> set xs"
    by (simp add: hl_next_def del: dropWhile_eq_Nil_conv split: list.splits)
qed

lemma walk_pcbs_ok:
  assumes "\<And>n w. lists_ok w \<Longrightarrow> n \<in> set (lst w) \<Longrightarrow> lists_kept' (body n w)" and "lists_ok w"
  shows "lists_kept' (walk_pcbs fuel lst body tmp w)"
  using assms(2)
proof (induction fuel arbitrary: tmp w)
  case (Suc fuel)
  then show ?case
    by (auto intro!: yields_bind [OF assms(1)] Suc.IH hl_next_in simp: Let_def)
qed simp

lemma walk_buckets_ok:
  assumes "\<And>b w. lists_ok w \<Longrightarrow> lists_kept' (body b w)" and "lists_ok w"
  shows "lists_kept' (walk_buckets body bs w)"
  using assms(2)
proof (induction bs arbitrary: w)
  case (Cons b bs)
  show ?case using Cons by (auto intro!: yields_bind [OF assms(1)])
qed simp

lemma from_start_ok:
  assumes "\<And>w. lists_ok w \<Longrightarrow> lists_kept' (f w)" and "lists_ok w"
  shows "lists_kept (from_start fuel f w)"
  using assms(2)
proof (induction fuel arbitrary: w)
  case (Suc fuel)
  show ?case using Suc by (auto intro!: yields_bind [OF assms(1)])
qed simp

lemma fast_pcb_ok: "lists_ok w \<Longrightarrow> lists_kept' (fast_pcb env fg p w)"
  unfolding fast_pcb_def Let_def by (auto intro!: body_steps yields_keep [OF view_refused] simp: views)

lemma fasttmr_ok: "lists_ok w \<Longrightarrow> lists_kept (tcp_fasttmr env fg w)"
  unfolding tcp_fasttmr_def
proof (rule yields_keep' [OF view_fg_write], goal_cases)
  case (2 w1)
  have "lists_ok w1" using 2 by (simp add: views)
  then show ?case
    by (intro from_start_ok walk_buckets_ok) (simp add: fast_bucket_def walk_pcbs_ok fast_pcb_ok)
qed (simp add: fg_lists_def)

lemma slow_pcb_ok:
  assumes ok: "lists_ok w"
  shows "lists_kept' (slow_pcb env fg p w)"
proof -
  have fg: "lists_view (upd_fg fg (\<lambda>x. x\<lparr>tcp_active_pcb_changed := b\<rparr>) w) = lists_view w" for b w by simp
  have keep: "keeps' lists_view w (if c then bindR (tcp_keepalive env fg p w1) (\<lambda>w2. Inr (upd_pcb p (\<lambda>c. c\<lparr>tp_keep_cnt_sent := tp_keep_cnt_sent c + 1\<rparr>) w2)) else Inr w1)"
    if "lists_view w1 = lists_view w" for c w1
    using that by (auto intro!: yields_keep' [OF view_keepalive])
  have ooseq: "keeps' lists_view w (if c then bindR (tcp_segs_free env q w1) (\<lambda>w3. Inr (upd_pcb p (\<lambda>c. c\<lparr>tp_ooseq := NULL\<rparr>) w3)) else Inr w1)"
    if "lists_view w1 = lists_view w" for c w1 q
    using that by (auto intro!: yields_keep' [OF keeps_view'(1) [OF core_segs_free]])
  have poll: "keeps lists_view w (TCP_EVENT_POLL env fg p w)" for w
    by (simp add: TCP_EVENT_POLL_def lwip_tcp_event_def)
  show ?thesis
    unfolding slow_pcb_def Let_def
    apply (rule yields_if, simp add: ok)
    apply (rule yields_keep' [OF keep], simp)
    apply (rule yields_keep' [OF ooseq], assumption)
    apply (rule yields_if)
    subgoal
      apply (rule yields_bind [OF del_ok], simp add: ok [unfolded views] views)
      apply (rule yields_bind [OF timer_remove_ok], simp)
      apply (rule yields_keep' [OF view_event_err], simp add: views)
      done
    subgoal
      apply (rule yields_if)
      subgoal by (rule yields_keep [OF poll], simp only: prod.case)
          (auto intro!: yields_if yields_keep [OF keeps_view(2) [OF still_tcp_output]] simp: ok [unfolded views] views)
      subgoal by (simp add: ok [unfolded views] views)
      done
    done
qed

lemma slow_time_wait_ok: "lists_ok w \<Longrightarrow> lists_kept' (slow_time_wait env fg p w)"
  unfolding slow_time_wait_def
  by (rule yields_if, rule yields_keep' [OF view_purge], rule yields_bind [OF del_ok])
    (auto intro!: yields_bind [OF free_ok] simp: held_def views)

lemma slow_bucket_ok: "lists_ok w \<Longrightarrow> lists_kept' (slow_bucket env fg b w)"
  unfolding slow_bucket_def
  by (rule yields_bind [OF walk_pcbs_ok]) (auto intro!: walk_pcbs_ok slow_pcb_ok slow_time_wait_ok simp: bucket_pcbs_def)

lemma slowtmr_ok: "lists_ok w \<Longrightarrow> lists_kept (tcp_slowtmr env fg w)"
  unfolding tcp_slowtmr_def
proof (rule yields_keep' [OF view_fg_write], goal_cases)
  case (2 w1)
  have "lists_ok w1" using 2 by (simp add: views)
  then show ?case by (intro from_start_ok walk_buckets_ok slow_bucket_ok)
qed (simp add: fg_lists_def)

lemma tcpip_timer_ok: "lists_ok w \<Longrightarrow> lists_kept' (tcpip_tcp_timer env g w)"
proof -
  assume ok: "lists_ok w"
  have tmr: "lists_kept (tcp_tmr env fg w)" for fg
    unfolding tcp_tmr_def
  proof (rule yields_bind [OF fasttmr_ok [OF ok]], rule yields_keep' [OF view_fg_write], goal_cases)
    case (2 w1 w2)
    then show ?case by (intro slowtmr_ok) (simp add: views)
  qed (simp add: fg_lists_def)
  show ?thesis
    unfolding tcpip_tcp_timer_def Let_def
    by (rule yields_bind_any, rule yields_bind [OF tmr], rule yields_bind_any) (simp add: views)
qed

end
