(* ===== verification/Tcp_Life_Spec.thy ===== *)
theory Tcp_Life_Spec
  imports Tcp_Life
begin

text \<open>
  The functions of \<open>net/tcp.c\<close> as steps, in any order and for any control blocks in use, and
  what holds of the lists after them.
\<close>

section \<open>Steps\<close>

text \<open>The caller of a function on a block holds the block, and binds it only once. \<open>tcp_abort\<close> and
  \<open>tcp_close_with_reset\<close> need nothing: on a block that is in no list they fault.\<close>

inductive tcp_step :: "tcp_env \<Rightarrow> tcp_world \<Rightarrow> tcp_world \<Rightarrow> bool" for env where
  new: "tcp_new env fg w = Inr (p, w') \<Longrightarrow> tcp_step env w w'"
| bind: "in_use p w \<Longrightarrow> \<not> linked p w \<Longrightarrow> tcp_bind env fg p ip port w = Inr (e, w') \<Longrightarrow> tcp_step env w w'"
| connect: "in_use p w \<Longrightarrow> tcp_connect env fg p dst port w = Inr (e, w') \<Longrightarrow> tcp_step env w w'"
| listen: "tcp_step env w (snd (tcp_listen_with_backlog lpcb port w))"
| queue: "tcp_write env p arg len flags w = Inr (e, w') \<Longrightarrow> tcp_step env w w'"
| send: "tcp_output env fg p w = Inr (e, w') \<Longrightarrow> tcp_step env w w'"
| recved: "tcp_recved env fg p len w = Inr w' \<Longrightarrow> tcp_step env w w'"
| shutdown: "in_use p w \<Longrightarrow> tcp_shutdown env fg p rx tx w = Inr (e, w') \<Longrightarrow> tcp_step env w w'"
| close: "in_use p w \<Longrightarrow> tcp_close env fg p w = Inr (e, w') \<Longrightarrow> tcp_step env w w'"
| close_with_reset: "tcp_close_with_reset env fg p w = Inr w' \<Longrightarrow> tcp_step env w w'"
| abort: "tcp_abort env fg p w = Inr w' \<Longrightarrow> tcp_step env w w'"
| group_timer: "tcpip_tcp_timer env g w = Inr (r, w') \<Longrightarrow> tcp_step env w w'"
| unified_timer: "run_unified_timer env p w = Inr w' \<Longrightarrow> tcp_step env w w'"

lemma listen_ok: "lists_ok w \<Longrightarrow> lists_ok (snd (tcp_listen_with_backlog lpcb port w))"
  unfolding lists_ok_view by (simp add: tcp_listen_with_backlog_def lists_view_def)

lemma yields_snd: "lists_kept' m \<Longrightarrow> m = Inr (x, w') \<Longrightarrow> lists_ok w'"
  by (drule (1) yieldsD) simp

lemma step_ok:
  assumes "tcp_step env w w'" and ok: "lists_ok w"
  shows "lists_ok w'"
  using assms(1)
proof (cases rule: tcp_step.cases)
  case new then show ?thesis by (rule yields_snd [OF new_ok [OF ok]])
next
  case bind then show ?thesis by (rule_tac yields_snd [OF bind_ok [OF ok]])
next
  case connect then show ?thesis by (rule_tac yields_snd [OF connect_ok [OF ok]])
next
  case listen then show ?thesis using listen_ok [OF ok] by simp
next
  case queue then show ?thesis by (rule yields_snd [OF kept_view(2) [OF view_write ok]])
next
  case send then show ?thesis by (rule yields_snd [OF view_output_snd [OF ok]])
next
  case recved then show ?thesis by (rule yieldsD [OF recved_ok [OF ok]])
next
  case shutdown then show ?thesis by (rule_tac yields_snd [OF shutdown_ok [OF ok]])
next
  case close then show ?thesis by (rule_tac yields_snd [OF close_ok [OF ok]])
next
  case close_with_reset then show ?thesis by (rule yieldsD [OF close_with_reset_ok [OF ok]])
next
  case abort then show ?thesis by (rule yieldsD [OF abort_ok [OF ok]])
next
  case group_timer then show ?thesis by (rule yields_snd [OF tcpip_timer_ok [OF ok]])
next
  case unified_timer then show ?thesis by (rule yieldsD [OF run_unified_ok [OF ok]])
qed

lemma steps_ok: "(tcp_step env)\<^sup>*\<^sup>* w w' \<Longrightarrow> lists_ok w \<Longrightarrow> lists_ok w'"
  by (induction rule: rtranclp_induct) (auto intro: step_ok)

section \<open>Properties\<close>

text \<open>C2: Whatever sequence of the functions of net/tcp.c and of its timers runs, on any
  control blocks that are in use, every block is in exactly the list its link names and in it
  once, and no block on the free list of the pool is in any list: no list ever holds a freed
  connection, and none is freed twice.\<close>

theorem pcb_lists_consistent:
  assumes "(tcp_step env)\<^sup>*\<^sup>* w w'" and "lists_ok w"
  shows "lists_ok w' \<and> (\<forall>l. distinct (list_of l w') \<and> set (list_of l w') = {p. tp_link (tw_pcb w' p) = Linked l} \<and>
    set (list_of l w') \<inter> pool_free (tcp_pcb_mempool w') = {})"
  using lists_okD(1-3) [OF steps_ok [OF assms]] steps_ok [OF assms] by (auto simp: linked_def in_use_def)

text \<open>Without connections; then one is made, bound to port 80 and closed.\<close>

definition fg2 :: tcp_fg where
  "fg2 = \<lparr>tcpip_timer = utimer_zero, tcp_active_pcb_changed = False, tcp_timer = False, tcp_timer_ctr = False, iss = 0,
     tcp_ticks = 0, active_buckets = [], active_tbl = (\<lambda>_. []), hash_linked = (\<lambda>_. False), tw_pcbs = [], bound_pcbs = []\<rparr>"

definition world2 :: tcp_world where
  "world2 = world1\<lparr>tw_pcb := \<lambda>_. pcb_zero,
 tw_fg := \<lambda>_. fg2\<rparr>"

lemma world2_ok: "lists_ok world2"
proof -
  have "list_of l world2 = []" for l by (cases l) (simp_all add: world2_def fg2_def)
  moreover have "tcp_pcb_mempool world2 = three_pool" by (simp add: world2_def world1_def stack.defs tcp_world.defs)
  ultimately show ?thesis
    using three_pool_ok by (auto simp: lists_ok_def linked_def world2_def fg2_def pcb_zero_def)
qed

lemma world2_fgs: "sk_fgs world2 g = Some fg0"
  by (simp add: world2_def)

lemma world2_sel:
  "tcp_pcb_mempool world2 = three_pool" "tw_fg world2 g = fg2" "tw_pcb world2 p = pcb_zero"
  by (simp_all add: world2_def world1_def stack.defs tcp_world.defs)

lemma world2_bound:
  "\<exists>w1 w2. tcp_new env1 0 world2 = Inr (1000, w1) \<and> tcp_bind env1 0 1000 0 80 w1 = Inr (ERR_OK, w2) \<and> bound_pcbs (tw_fg w2 0) = [1000]"
proof -
  obtain m where m: "kns_mempool_alloc b three_pool = Inr (1000, m)" for b
    by (simp add: kns_mempool_alloc_def three_pool_def)
  obtain w1 where w1: "tcp_new env1 0 world2 = Inr (1000, w1)" "sk_fgs w1 = sk_fgs world2" "tw_fg w1 0 = fg2"
    "tp_state (tw_pcb w1 1000) = LWIP_CLOSED" "tp_link (tw_pcb w1 1000) = Unlinked" "tp_unified_timer (tw_pcb w1 1000) = utimer_zero"
    unfolding tcp_new_def tcp_alloc_def pcb_malloc_def world2_sel m bindR_Inr prod.case Let_def tcp_next_iss_def fg_deref_def
    by (simp add: world2_fgs upd_pcb_def upd_fg_def world2_sel fg2_def pcb_zero_def)
  show ?thesis
    unfolding w1(1)
    by (rule exI [of _ w1])
      (simp add: tcp_bind_def env1_def env0_def w1 BUG_ON_def fg_deref_def world2_fgs fg2_def tcp_bind_checklist_def TCP_REG_def
        tcp_timer_needed_def hlist_add_head_def upd_list_def upd_fg_def upd_pcb_def)
qed

theorem pcb_lists_consistent_witness:
  "\<exists>w'. (tcp_step env1)\<^sup>*\<^sup>* world2 w' \<and> lists_ok w' \<and> bound_pcbs (tw_fg w' 0) = [1000] \<and> tp_link (tw_pcb w' 1000) = Linked (Bound 0)"
proof -
  obtain w1 w2 where new: "tcp_new env1 0 world2 = Inr (1000, w1)" and bind: "tcp_bind env1 0 1000 0 80 w1 = Inr (ERR_OK, w2)"
    and b: "bound_pcbs (tw_fg w2 0) = [1000]" using world2_bound by blast
  have "held 1000 w1" using yieldsD [OF new_held [OF world2_ok] new] by simp
  then have "(tcp_step env1)\<^sup>*\<^sup>* world2 w2"
    using tcp_step.new [OF new] tcp_step.bind [OF _ _ bind] by (auto simp: held_def intro: converse_rtranclp_into_rtranclp)
  note * = pcb_lists_consistent [OF this world2_ok]
  then have "1000 \<in> set (list_of (Bound 0) w2) \<longleftrightarrow> tp_link (tw_pcb w2 1000) = Linked (Bound 0)" by blast
  with * b \<open>(tcp_step env1)\<^sup>*\<^sup>* world2 w2\<close> show ?thesis by (intro exI [of _ w2]) simp
qed

end
