(* ===== verification/Tcp_Timer_Spec.thy ===== *)
theory Tcp_Timer_Spec
  imports Tcp_Life_Spec
begin

text \<open>
  The periodic timer of a flow group: its walk reads behind the end of the list.
\<close>

section \<open>The walk\<close>

text \<open>A walk that has an element to start from ends by asking for a restart, or not at all.\<close>

lemma walk_pcbs_restarts: "tmp \<noteq> NULL \<Longrightarrow> yields (walk_pcbs fuel lst body tmp w) (\<lambda>y. fst y)"
proof (induction fuel arbitrary: tmp w)
  case (Suc fuel)
  then show ?case by (auto intro!: yields_bind_any simp: Let_def)
qed simp

lemma view_fast_pcb: "keeps lists_view w (fast_pcb env fg p w)"
  unfolding fast_pcb_def Let_def by (auto intro!: body_steps yields_keep [OF view_refused])

lemma view_walk_pcbs:
  assumes "\<And>n w. keeps lists_view w (body n w)"
  shows "keeps lists_view w (walk_pcbs fuel lst body tmp w)"
proof (induction fuel arbitrary: tmp w)
  case (Suc fuel)
  then show ?case by (auto intro!: yields_keep [OF assms] yields_last [OF Suc.IH] simp: Let_def)
qed simp

lemma view_fast_bucket: "keeps lists_view w (fast_bucket env fg b w)"
  unfolding fast_bucket_def by (rule view_walk_pcbs [OF view_fast_pcb])

lemma view_walk_buckets:
  assumes "\<And>b w. keeps lists_view w (body b w)"
  shows "keeps lists_view w (walk_buckets body bs w)"
proof (induction bs arbitrary: w)
  case (Cons b bs)
  show ?case by (auto intro!: yields_keep [OF assms] yields_last [OF Cons])
qed simp

lemma yields_conj: "yields m P \<Longrightarrow> yields m Q \<Longrightarrow> yields m (\<lambda>y. P y \<and> Q y)"
  by (simp add: yields_def)

text \<open>The walk over the buckets comes to one that is not empty.\<close>

lemma fast_buckets_restart:
  assumes "b \<in> set bs" and "hl_first (bucket_pcbs fg b w) \<noteq> NULL"
  shows "yields (walk_buckets (fast_bucket env fg) bs w) (\<lambda>y. fst y)"
  using assms
proof (induction bs arbitrary: w)
  case (Cons a bs)
  show ?case
  proof (cases "a = b")
    case True
    have "yields (fast_bucket env fg b w) (\<lambda>y. fst y)"
      unfolding fast_bucket_def by (rule walk_pcbs_restarts [OF Cons.prems(2)])
    then show ?thesis using True by (auto elim!: yields_bind)
  next
    case False
    have "bucket_pcbs fg b w' = bucket_pcbs fg b w" if "lists_view w' = lists_view w" for w'
      using lists_viewD(6) [OF that] by (simp add: bucket_pcbs_def)
    note same = this
    show ?thesis
    proof (subst walk_buckets.simps, rule yields_keep [OF view_fast_bucket], goal_cases)
      case (1 r w')
      have "hl_first (bucket_pcbs fg b w') \<noteq> NULL" using same [OF 1] Cons.prems(2) by simp
      then have "yields (walk_buckets (fast_bucket env fg) bs w') (\<lambda>y. fst y)" using Cons.IH Cons.prems(1) False by simp
      then show ?case by simp
    qed
  qed
qed simp

lemma fast_never_ends:
  assumes "b \<in> set (active_buckets (tw_fg w fg))" and "hl_first (bucket_pcbs fg b w) \<noteq> NULL"
  shows "yields (from_start fuel (\<lambda>w. walk_buckets (fast_bucket env fg) (active_buckets (tw_fg w fg)) w) w) (\<lambda>_. False)"
  using assms
proof (induction fuel arbitrary: w)
  case (Suc fuel)
  let ?m = "walk_buckets (fast_bucket env fg) (active_buckets (tw_fg w fg)) w"
  have "yields ?m (\<lambda>y. fst y \<and> lists_view (snd y) = lists_view w)"
    by (rule yields_conj [OF fast_buckets_restart [OF Suc.prems] view_walk_buckets], rule view_fast_bucket)
  then show ?case
  proof (subst from_start.simps, rule yields_bind, goal_cases)
    case (1 y)
    then have "active_buckets (tw_fg (snd y) fg) = active_buckets (tw_fg w fg)" "bucket_pcbs fg b (snd y) = bucket_pcbs fg b w"
      using lists_viewD(4,6) [of "snd y" w] by (simp_all add: bucket_pcbs_def)
    then show ?case using 1 Suc.prems by (auto split: prod.split intro!: Suc.IH)
  qed
qed simp

section \<open>Properties\<close>

text \<open>C38: While a flow group has a connection in its hash table, the periodic timer
  \<open>tcp_tmr\<close> of the group never returns: the arguments of
  \<open>hlist_for_each_safe\<close> are exchanged, so that the walk over a bucket goes on to
  the null pointer behind the last block.\<close>

theorem group_timer_never_returns:
  assumes "lists_ok w" and "active_tbl (tw_fg w fg) b \<noteq> []"
  shows "\<exists>e. tcp_tmr env fg w = Inl e"
proof -
  obtain p ps where ps: "active_tbl (tw_fg w fg) b = p # ps" using assms(2) by (cases "active_tbl (tw_fg w fg) b") auto
  then have "linked p w" using lists_okD(1) [OF assms(1), of p "Bucket fg b"] by (simp add: linked_def)
  then have p: "p \<noteq> NULL" using lists_okD(3) [OF assms(1), of p] by (simp add: in_use_def)
  have b: "b \<in> set (active_buckets (tw_fg w fg))" using lists_okD(4,5) [OF assms(1)] assms(2) by simp
  have "yields (tcp_fasttmr env fg w) (\<lambda>_. False)"
    unfolding tcp_fasttmr_def
  proof (rule yields_keep' [OF view_fg_write], goal_cases)
    case (2 w1)
    have "bucket_pcbs fg b w1 = p # ps" using lists_viewD(6) [OF 2, of fg] ps by (simp only: bucket_pcbs_def)
    then have "hl_first (bucket_pcbs fg b w1) \<noteq> NULL" using p by (simp add: hl_first_def)
    moreover have "b \<in> set (active_buckets (tw_fg w1 fg))" using lists_viewD(4) [OF 2, of fg] b by simp
    ultimately show ?case by (intro fast_never_ends)
  qed (simp add: fg_lists_def)
  then show ?thesis by (cases "tcp_fasttmr env fg w") (auto simp: tcp_tmr_def yields_def)
qed

text \<open>One established connection, in bucket 3.\<close>

definition fg5 :: tcp_fg where
  "fg5 = fg2\<lparr>active_buckets := [3], active_tbl := (\<lambda>_. [])(3 := [6000]), hash_linked := (\<lambda>i. i = 3)\<rparr>"

definition world5 :: tcp_world where
  "world5 = world2\<lparr>tw_pcb := (\<lambda>_. pcb_zero)(6000 := pcb1), tw_fg := (\<lambda>_. fg2)(0 := fg5)\<rparr>"

lemma world5_ok: "lists_ok world5"
proof -
  have l: "list_of l world5 = (if l = Bucket 0 3 then [6000] else [])" for l
    by (cases l) (simp_all add: world5_def fg2_def fg5_def)
  have p: "tp_link (tw_pcb world5 p) = Linked l \<longleftrightarrow> p = 6000 \<and> l = Bucket 0 3" for p l
    by (auto simp: world5_def pcb_zero_def pcb1_def)
  have m: "tcp_pcb_mempool world5 = three_pool" by (simp add: world5_def world2_sel)
  have "tp_local_port (tw_pcb world5 6000) \<noteq> 0" by (simp add: world5_def pcb1_def)
  moreover have "in_use 6000 world5" by (simp add: in_use_def m pool_free_eq [OF three_pool_ok])
  moreover have "distinct (active_buckets (tw_fg world5 g)) \<and> set (active_buckets (tw_fg world5 g)) = Collect (hash_linked (tw_fg world5 g)) \<and>
      (\<forall>i. active_tbl (tw_fg world5 g) i \<noteq> [] \<longrightarrow> hash_linked (tw_fg world5 g) i)" for g
    by (auto simp: world5_def fg2_def fg5_def)
  ultimately show ?thesis
    using three_pool_ok by (auto simp: lists_ok_def l p m linked_def)
qed

theorem group_timer_never_returns_witness: "\<exists>e. tcp_tmr env1 0 world5 = Inl e"
  by (rule group_timer_never_returns [OF world5_ok, of 0 3]) (simp add: world5_def fg5_def)

end
