(* ===== verification/Tcp_Close_Spec.thy ===== *)
theory Tcp_Close_Spec
  imports Tcp_Lists
begin

text \<open>
  The state machine of closing: where \<open>tcp_close\<close> leaves a connection in each of its states.
\<close>

section \<open>What closing looks at\<close>

text \<open>The state of one block, and all other blocks.\<close>

definition phase :: "addr \<Rightarrow> tcp_world \<Rightarrow> tcp_state \<times> (addr \<Rightarrow> tcp_pcb)" where
  "phase p w = (tp_state (tw_pcb w p), (tw_pcb w)(p := pcb_zero))"

lemma core_phase: "core w' = core w \<Longrightarrow> phase p w' = phase p w"
  by (simp add: phase_def core_def)

lemma still_phase: "still p w' = still p w \<Longrightarrow> phase p w' = phase p w"
  using frozen_fields(1) [OF still_fields(1) [of p w' w]] still_fields(2) [of p w' w] by (simp add: phase_def fun_eq_iff)

lemma keeps_phase: "keeps core w m \<Longrightarrow> keeps (phase p) w m" "keeps (still p) w m' \<Longrightarrow> keeps (phase p) w m'"
  by (auto simp: yields_def intro: core_phase still_phase)

lemma keeps_phase': "keeps' core w m \<Longrightarrow> keeps' (phase p) w m" "keeps' (still p) w m' \<Longrightarrow> keeps' (phase p) w m'"
  by (auto simp: yields_def intro: core_phase still_phase)

lemma phase_upd [simp]:
  "(\<And>c. tp_state (f c) = tp_state c) \<Longrightarrow> phase p (upd_pcb p f w) = phase p w"
  "phase p (upd_fg g k w) = phase p w" "phase p (upd_seg q s w) = phase p w" "phase p (sk_upd_mem m w) = phase p w"
  "phase p (upd_list l h w) = phase p w"
  by (simp_all add: phase_def upd_pcb_def upd_fg_def upd_seg_def sk_upd_mem_def sk_upd_net_def upd_list_def split: pcb_list.split)

lemma phase_set: "phase p w' = phase p w \<Longrightarrow> phase p (upd_pcb p (\<lambda>c. c\<lparr>tp_state := s\<rparr>) w') = (s, snd (phase p w))"
  by (simp add: phase_def upd_pcb_def)

lemma phase_cancel: "keeps' (phase p) w (cancel_timer p w)"
  by (rule keeps_phase'(2) [OF still_cancel_timer])

lemma phase_purge: "keeps' (phase p) w (tcp_pcb_purge env p w)"
  unfolding tcp_pcb_purge_def Let_def
  by (auto intro!: body_steps yields_keep' [OF phase_cancel] yields_keep' [OF keeps_phase'(1) [OF core_segs_free, where p = p]]
    yields_keep' [OF keeps_phase'(1) [OF core_pbuf_free, where p = p]])

lemma phase_del: "keeps' (phase p) w (hlist_del p w)"
  by (simp add: hlist_del_def split: pcb_link.split)

lemma phase_RMV: "keeps' (phase p) w (TCP_RMV env fg p w)"
proof -
  have l: "keeps' (phase p) w1 (bindR (hlist_del p w1) (\<lambda>w2. cancel_timer p (upd_pcb p (\<lambda>c. c\<lparr>tp_link := Unlinked\<rparr>) w2)))" for w1
    by (rule yields_keep' [OF phase_del], rule yields_last' [OF phase_cancel]) simp
  show ?thesis
    unfolding TCP_RMV_def
  proof (rule yields_keep' [where K = "phase p" and w = w], goal_cases)
    case (2 w1)
    then show ?case by (rule yields_last' [OF l])
  qed (auto intro!: yields_bind_any split: pcb_link.split pcb_list.split)
qed

lemma phase_fg_write: "keeps' (phase p) w (fg_write g f w)"
  by (simp add: fg_write_def)

lemma phase_RMV_ACTIVE: "keeps' (phase p) w (TCP_RMV_ACTIVE env fg p w)"
  unfolding TCP_RMV_ACTIVE_def by (rule yields_keep' [OF phase_RMV], rule yields_last' [OF phase_fg_write])

lemma phase_REG: "keeps' (phase p) w (TCP_REG env l p fg w)"
  unfolding TCP_REG_def tcp_timer_needed_def hlist_add_head_def
  by (auto intro!: yields_bind_any)

lemma phase_free: "keeps' (phase p) w (pcb_mem_free env q w)" "keeps' (phase p) w (listen_mem_free env q w)"
  unfolding pcb_mem_free_def listen_mem_free_def by (auto intro!: yields_bind_any simp: phase_def)

lemma phase_remove: "yields (tcp_pcb_remove env fg p w) (\<lambda>w'. phase p w' = (LWIP_CLOSED, snd (phase p w)))"
  unfolding tcp_pcb_remove_def Let_def
  by (rule yields_keep' [OF phase_RMV], rule yields_keep' [OF phase_purge])
    (auto intro!: body_steps yields_keep [OF keeps_phase(2) [OF still_tcp_output, where p = p]] simp: phase_set tcp_ack_now_def)

lemma phase_remove_active: "yields (TCP_PCB_REMOVE_ACTIVE env fg p w) (\<lambda>w'. phase p w' = (LWIP_CLOSED, snd (phase p w)))"
  unfolding TCP_PCB_REMOVE_ACTIVE_def
  by (rule yields_bind [OF phase_remove], rule yields_cong [OF phase_fg_write [where p = p]]) simp

lemma phase_enqueue_flags: "yields (tcp_enqueue_flags env p fl w) (\<lambda>(err, w'). err \<in> {ERR_OK, ERR_MEM} \<and> phase p w' = phase p w)"
  unfolding tcp_enqueue_flags_def Let_def
  by (auto intro!: body_steps pure_steps yields_keep [OF keeps_phase(1) [OF core_pbuf_alloc, where p = p]]
    yields_keep [OF keeps_phase(1) [OF core_create_segment, where p = p]])

lemma phase_send_fin: "yields (tcp_send_fin env p w) (\<lambda>(err, w'). err \<in> {ERR_OK, ERR_MEM} \<and> phase p w' = phase p w)"
  unfolding tcp_send_fin_def
  by (auto intro!: body_steps pure_steps yields_cong [OF phase_enqueue_flags])

section \<open>The table\<close>

text \<open>There is data that the application has not taken.\<close>

definition unread :: "tcp_pcb \<Rightarrow> bool" where
  "unread c \<longleftrightarrow> tp_state c \<in> {LWIP_ESTABLISHED, LWIP_CLOSE_WAIT} \<and> (tp_refused_data c \<noteq> NULL \<or> tp_rcv_wnd c \<noteq> TCP_WND)"

fun closed_state :: "bool \<Rightarrow> bool \<Rightarrow> tcp_state \<Rightarrow> tcp_state" where
  "closed_state reset sent LWIP_ESTABLISHED = (if reset then LWIP_TIME_WAIT else if sent then LWIP_FIN_WAIT_1 else LWIP_ESTABLISHED)"
| "closed_state reset sent LWIP_CLOSE_WAIT = (if \<not> reset \<and> sent then LWIP_LAST_ACK else LWIP_CLOSE_WAIT)"
| "closed_state reset sent LWIP_SYN_RCVD = (if sent then LWIP_FIN_WAIT_1 else LWIP_SYN_RCVD)"
| "closed_state reset sent LWIP_LISTEN = LWIP_CLOSED"
| "closed_state reset sent LWIP_SYN_SENT = LWIP_CLOSED"
| "closed_state reset sent st = st"

lemma phaseD: "phase p w' = phase p w \<Longrightarrow> tp_state (tw_pcb w' p) = tp_state (tw_pcb w p)"
  by (simp add: phase_def)

lemma unread_close:
  assumes "unread (tw_pcb w p)"
  shows "yields (tcp_close_shutdown env fg p True w) (\<lambda>(err, w'). err = ERR_OK \<and>
    phase p w' = (closed_state True True (tp_state (tw_pcb w p)), snd (phase p w)))"
proof -
  have c: "True \<and> (tp_state (tw_pcb w p) = LWIP_ESTABLISHED \<or> tp_state (tw_pcb w p) = LWIP_CLOSE_WAIT) \<and>
    (tp_refused_data (tw_pcb w p) \<noteq> NULL \<or> tp_rcv_wnd (tw_pcb w p) \<noteq> TCP_WND)"
    using assms by (auto simp: unread_def)
  show ?thesis
    unfolding tcp_close_shutdown_def Let_def if_P [OF c]
  proof (rule yields_keep' [OF keeps_phase'(1) [OF core_rst_pcb, where p = p]], rule yields_keep' [OF phase_purge],
      rule yields_keep' [OF phase_RMV_ACTIVE], goal_cases)
    case (1 w1 w2 w3)
    then have w3: "phase p w3 = phase p w" by simp
    have set: "phase p (upd_pcb p (\<lambda>c. c\<lparr>tp_state := s\<rparr>) w3) = (s, snd (phase p w))" for s
      by (rule phase_set [OF w3])
    show ?case
    proof (cases "tp_state (tw_pcb w p) = LWIP_ESTABLISHED")
      case True
      show ?thesis
        unfolding phaseD [OF w3] True if_P [OF refl]
        by (rule yields_keep' [OF phase_REG [where p = p]]) (simp add: set)
    next
      case False
      then have "tp_state (tw_pcb w p) = LWIP_CLOSE_WAIT" using c by blast
      then show ?thesis
        unfolding phaseD [OF w3] if_not_P [OF False]
        by (intro yields_keep' [OF phase_free(1) [where p = p]]) (use w3 in \<open>simp add: phase_def\<close>)
    qed
  qed
qed

lemma read_close:
  assumes "\<not> unread (tw_pcb w p)"
  shows "yields (tcp_close_shutdown env fg p True w) (\<lambda>(err, w'). err \<in> {ERR_OK, ERR_MEM} \<and>
    phase p w' = (closed_state False (err = ERR_OK) (tp_state (tw_pcb w p)), snd (phase p w)))"
proof -
  have c: "\<not> (True \<and> (tp_state (tw_pcb w p) = LWIP_ESTABLISHED \<or> tp_state (tw_pcb w p) = LWIP_CLOSE_WAIT) \<and>
    (tp_refused_data (tw_pcb w p) \<noteq> NULL \<or> tp_rcv_wnd (tw_pcb w p) \<noteq> TCP_WND))"
    using assms by (auto simp: unread_def)
  have same: "phase p w' = (tp_state (tw_pcb w p), snd (phase p w))" if "phase p w' = phase p w" for w'
    using that by (simp add: phase_def)
  have fin: "yields (if err = ERR_OK then bindR (tcp_output env fg p (upd_pcb p (\<lambda>c. c\<lparr>tp_state := s\<rparr>) w1)) (\<lambda>(_, w2). Inr (err, w2)) else Inr (err, w1))
      (\<lambda>(e, w'). e = err \<and> phase p w' = (if err = ERR_OK then s else tp_state (tw_pcb w p), snd (phase p w)))"
    if "phase p w1 = phase p w" for err s w1
    using that same
    by (auto intro!: yields_keep [OF keeps_phase(2) [OF still_tcp_output, where p = p]] simp: phase_set)
  show ?thesis
    unfolding tcp_close_shutdown_def Let_def if_not_P [OF c]
  proof (intro yields_if, goal_cases)
    case 1
    have "keeps' (phase p) w (if tp_local_port (tw_pcb w p) \<noteq> 0 then TCP_RMV env fg p w else Inr w)"
      using phase_RMV by simp
    then show ?case
      using 1 same by (elim yields_keep', intro yields_keep' [OF phase_free(1) [where p = p]]) simp
  next
    case 2
    then show ?case
      by (intro yields_bind [OF phase_remove], intro yields_keep' [OF phase_free(2) [where p = p]]) simp
  next
    case 3
    then show ?case
      by (intro yields_bind [OF phase_remove_active], intro yields_keep' [OF phase_free(1) [where p = p]]) simp
  next
    case 4
    show ?case
    proof (rule yields_bind [OF phase_send_fin], goal_cases)
      case (1 y)
      obtain err w1 where y: "y = (err, w1)" by fastforce
      with 1 have e: "err \<in> {ERR_OK, ERR_MEM}" and p: "phase p w1 = phase p w" by auto
      show ?case
        unfolding y prod.case
        by (rule yields_cong [OF fin [OF p]]) (use 4 e in \<open>auto simp: after_fin_def\<close>)
    qed
  next
    case 5
    then show ?case using same [OF refl] by (cases "tp_state (tw_pcb w p)") auto
  qed
qed

section \<open>Properties\<close>


text \<open>The congestion window is closed, so that the FIN stays in the queue.\<close>

definition world4 :: tcp_world where
  "world4 = upd_pcb 6000 (\<lambda>c. c\<lparr>tp_cwnd := 0\<rparr>) world1"


end
