(* ===== verification/Tcp_Write_Spec.thy ===== *)
theory Tcp_Write_Spec
  imports Tcp_Example
begin

text \<open>
  What \<open>tcp_write\<close> does to the control block: it queues all the bytes and accounts for them, or
  nothing but a flag changes.
\<close>

section \<open>Commit and failure\<close>

lemma core_upd_cong: "core w' = core w \<Longrightarrow> core (upd_pcb p f w') = core (upd_pcb p f w)"
  by (simp add: core_def upd_pcb_def)

definition booked :: "addr \<Rightarrow> u16 \<Rightarrow> u16 \<Rightarrow> tcp_world \<Rightarrow> tcp_world" where
  "booked pcb len n = upd_pcb pcb (\<lambda>c. c\<lparr>tp_snd_lbb := tp_snd_lbb c + ucast len, tp_snd_buf := tp_snd_buf c - ucast len,
     tp_snd_queuelen := n\<rparr>)"

definition flagged :: "addr \<Rightarrow> tcp_world \<Rightarrow> tcp_world" where
  "flagged pcb = upd_pcb pcb (\<lambda>c. c\<lparr>tp_flags := tp_flags c OR TF_NAGLEMEMERR\<rparr>)"

lemma still_booked:
  assumes "still pcb w' = still pcb w"
  shows "still pcb (booked pcb len n w') = still pcb (booked pcb len n w)"
proof -
  have b: "frozen (c\<lparr>tp_snd_lbb := i, tp_snd_buf := j, tp_snd_queuelen := k\<rparr>) = (frozen c)\<lparr>tp_snd_lbb := i, tp_snd_buf := j, tp_snd_queuelen := k\<rparr>"
    "tp_snd_lbb (frozen c) = tp_snd_lbb c" "tp_snd_buf (frozen c) = tp_snd_buf c" for c i j k
    by (simp_all add: frozen_def)
  have "still pcb (booked pcb len n w) = core (booked pcb len n (upd_pcb pcb frozen w))" for w
    by (simp add: still_def booked_def upd_pcb_def b)
  then show ?thesis using core_upd_cong [of "upd_pcb pcb frozen w'" "upd_pcb pcb frozen w"] assms by (simp add: still_def booked_def)
qed

lemma write_commit_books: "yields (write_commit env pcb arg len fl q used l w) (\<lambda>w'. still pcb w' = still pcb (booked pcb len (wl_queuelen l) w))"
proof -
  have fin: "still pcb (upd_pcb pcb (\<lambda>c. c\<lparr>tp_snd_lbb := tp_snd_lbb c + ucast len, tp_snd_buf := tp_snd_buf c - ucast len, tp_snd_queuelen := wl_queuelen l\<rparr>) w') =
    still pcb (booked pcb len (wl_queuelen l) w)" if "still pcb w' = still pcb w" for w'
    using still_booked [OF that, of len "wl_queuelen l"] by (simp add: booked_def)
  show ?thesis
    unfolding write_commit_def Let_def
    by (auto intro!: fin body_steps yields_keep' [OF keeps_still' [OF core_write_extend, where pcb = pcb]] yields_keep' [OF keeps_still' [OF core_pbuf_cat, where pcb = pcb]])
qed

lemma write_memerr_flags: "yields (write_memerr env pcb l w) (\<lambda>w'. core w' = core (flagged pcb w))"
  unfolding write_memerr_def Let_def flagged_def
  by (auto intro!: body_steps yields_keep' [OF core_pbuf_free] yields_last' [OF core_segs_free])

definition write_result :: "addr \<Rightarrow> u16 \<Rightarrow> tcp_world \<Rightarrow> int \<Rightarrow> tcp_world \<Rightarrow> bool" where
  "write_result pcb len w err w' \<longleftrightarrow>
     (if err = ERR_OK then ucast len \<le> tp_snd_buf (tw_pcb w pcb) \<and> (\<exists>n. still pcb w' = still pcb (booked pcb len n w))
      else err \<in> {ERR_ARG, ERR_CONN} \<and> w' = w \<or> err = ERR_MEM \<and> core w' = core (flagged pcb w))"

lemma write_accounts: "yields (tcp_write env pcb arg len fl w) (\<lambda>(err, w'). write_result pcb len w err w')"
  unfolding tcp_write_def Let_def
  apply (intro yields_if yields_pair)
  subgoal by (simp add: write_result_def err_defs)
  subgoal by (auto simp: write_result_def tcp_write_checks_def Let_def flagged_def err_defs split: if_splits)
  subgoal premises p for err w0
  proof -
    have w0: "w0 = w" "ucast len \<le> tp_snd_buf (tw_pcb w pcb)"
      using p(2,3) by (auto simp: tcp_write_checks_def Let_def err_defs split: if_splits)
    have mem: "yields (bindR (write_memerr env pcb l w1) (\<lambda>w2. Inr (ERR_MEM, w2))) (\<lambda>(err, w'). write_result pcb len w err w')"
      if "core w1 = core w" for l w1
      by (rule yields_bind [OF write_memerr_flags])
        (simp add: write_result_def err_defs flagged_def core_upd_cong [OF that])
    have ok: "yields (bindR (write_commit env pcb arg len fl q used l w2) (\<lambda>w3. Inr (ERR_OK, w3))) (\<lambda>(err, w'). write_result pcb len w err w')"
      if "core w2 = core w" for l q used w2
      by (rule yields_bind [OF write_commit_books])
        (use w0(2) still_booked [OF core_still [OF that]] in \<open>auto simp: write_result_def\<close>)
    have segs: "yields (bindR (write_segments env fuel pcb arg len fl mss l w1) (\<lambda>((failed, l2), w2).
        if failed then bindR (write_memerr env pcb l2 w2) (\<lambda>w3. Inr (ERR_MEM, w3))
        else bindR (write_commit env pcb arg len fl q used l2 w2) (\<lambda>w3. Inr (ERR_OK, w3))))
        (\<lambda>(err, w'). write_result pcb len w err w')" if "core w1 = core w" for fuel mss l w1 q used
      by (rule yields_keep [OF core_write_segments]) (use that mem ok in \<open>auto simp del: write_segments.simps split: prod.split\<close>)
    have last: "keeps core w0 (if c then write_last_segment env pcb arg len fl mss q l w0 else Inr (x, w0))" for c mss q l x
      using core_write_last_segment by simp
    show ?thesis
      unfolding w0(1)
      by (rule yields_bind_any, rule yields_keep [OF last [unfolded w0(1)]])
        (auto intro!: mem segs split: prod.split simp del: write_segments.simps)
  qed
  done

section \<open>Properties\<close>

text \<open>C8: \<open>tcp_write\<close> is all or nothing for the connection: with
  \<open>ERR_OK\<close> the length fitted the send buffer and exactly it was taken from the
  buffer and added to the sequence number of the next byte, otherwise the connection keeps
  everything but the flag \<open>TF_NAGLEMEMERR\<close>, which only \<open>ERR_MEM\<close>
  sets. Other connections, lists and handles never change.\<close>

theorem tcp_write_accounts:
  assumes "tcp_write env pcb arg len flags w = Inr (err, w')"
  shows "if err = ERR_OK
    then unat len \<le> unat (tp_snd_buf (tw_pcb w pcb)) \<and> (\<exists>n. still pcb w' = still pcb (booked pcb len n w)) \<and>
      tp_snd_lbb (tw_pcb w' pcb) = tp_snd_lbb (tw_pcb w pcb) + ucast len \<and>
      unat (tp_snd_buf (tw_pcb w' pcb)) = unat (tp_snd_buf (tw_pcb w pcb)) - unat len
    else err \<in> {ERR_ARG, ERR_CONN} \<and> w' = w \<or> err = ERR_MEM \<and> core w' = core (flagged pcb w)"
proof -
  have r: "write_result pcb len w err w'" using yieldsD [OF write_accounts assms] by simp
  show ?thesis
  proof (cases "err = ERR_OK")
    case True
    then obtain n where le: "ucast len \<le> tp_snd_buf (tw_pcb w pcb)" and n: "still pcb w' = still pcb (booked pcb len n w)"
      using r by (auto simp: write_result_def)
    have "tp_snd_lbb (tw_pcb w' pcb) = tp_snd_lbb (tw_pcb w pcb) + ucast len"
      "tp_snd_buf (tw_pcb w' pcb) = tp_snd_buf (tw_pcb w pcb) - ucast len"
      using frozen_fields(6,7) [OF still_fields(1) [OF n]] by (simp_all add: booked_def)
    moreover have "unat len < 2 ^ 32" using unsigned_less [of len, where 'a = nat] by simp
    then have "unat (ucast len :: u32) = unat len" by (simp add: unsigned_ucast_eq take_bit_nat_eq_self)
    moreover have "unat (tp_snd_buf (tw_pcb w pcb) - ucast len) = unat (tp_snd_buf (tw_pcb w pcb)) - unat (ucast len :: u32)"
      using le by (rule unat_sub)
    ultimately show ?thesis using True n le by (auto simp: word_le_nat_alt)
  next
    case False
    then show ?thesis using r by (simp add: write_result_def)
  qed
qed

text \<open>The second segment has room for eight more bytes.\<close>

definition world3 :: tcp_world where
  "world3 = upd_pcb 6000 (\<lambda>c. c\<lparr>tp_unsent_oversize := 8\<rparr>) world1"

theorem tcp_write_accounts_witness:
  "\<exists>w'. tcp_write env1 6000 50000 2 TCP_WRITE_FLAG_COPY world3 = Inr (ERR_OK, w') \<and>
     tp_snd_lbb (tw_pcb w' 6000) = 11 \<and> unat (tp_snd_buf (tw_pcb w' 6000)) = 65530"
proof -
  have c: "tcp_write_checks 6000 2 world3 = (ERR_OK, world3)"
    by (simp add: tcp_write_checks_def world3_def pcb1_def Let_def TCP_SND_QUEUELEN_def TCP_SNDQUEUELEN_OVERFLOW_def)
  have m: "ucast (min (ucast (tp_mss (tw_pcb world3 6000))) (tp_snd_wnd_max (tw_pcb world3 6000) div 2) :: u32) = (500 :: u16)"
    by (simp add: world3_def pcb1_def pcb_zero_def)
  have q: "last_seg (te_fuel env1) (tw_seg world3) (tp_unsent (tw_pcb world3 6000)) = Inr 7100"
  proof -
    have f: "te_fuel env1 = Suc (Suc 2)" by (simp add: env1_def)
    have "last_seg (Suc (Suc n)) seg1 7000 = Inr 7100" for n by (simp add: seg1_def)
    from this [of 2] show ?thesis unfolding f by (simp add: world3_def pcb1_def)
  qed
  define l0 where "l0 = \<lparr>wl_pos = 0, wl_queuelen = 2, wl_oversize = 0, wl_seg = NULL, wl_prev_seg = NULL, wl_queue = NULL, wl_concat_p = NULL\<rparr>"
  define l1 where "l1 = l0\<lparr>wl_seg := 7100, wl_pos := 2, wl_oversize := 6\<rparr>"
  have l: "write_last_segment env1 6000 50000 2 TCP_WRITE_FLAG_COPY 500 7100 l0 world3 = Inr ((False, 2, l1), world3)"
    by (simp add: write_last_segment_def world3_def seg1_def Let_def l0_def l1_def)
  have w: "write_segments env1 (Suc n) 6000 50000 2 TCP_WRITE_FLAG_COPY 500 l1 world3 = Inr ((False, l1), world3)" for n
    by (simp add: l1_def)
  have e: "\<exists>w'. write_commit env1 6000 50000 2 TCP_WRITE_FLAG_COPY 7100 2 l1 world3 = Inr w'"
  proof -
    have f: "te_fuel env1 = Suc (Suc 2)" by (simp add: env1_def)
    have "\<exists>w1. write_extend (Suc (Suc n)) 8100 50000 2 world3 = Inr w1" for n
      by (simp add: world3_def upd_sk_pb_def pbuf0_def Let_def)
    from this [of 2] obtain w1 where "write_extend (te_fuel env1) 8100 50000 2 world3 = Inr w1" unfolding f by blast
    then show ?thesis by (simp add: write_commit_def world3_def seg1_def Let_def l1_def l0_def)
  qed
  then obtain w' where e: "write_commit env1 6000 50000 2 TCP_WRITE_FLAG_COPY 7100 2 l1 world3 = Inr w'" by blast
  have u: "tp_unsent (tw_pcb world3 6000) = 7000" "tp_snd_queuelen (tw_pcb world3 6000) = 2" by (simp_all add: world3_def pcb1_def)
  have "tcp_write env1 6000 50000 2 TCP_WRITE_FLAG_COPY world3 = Inr (ERR_OK, w')"
    unfolding tcp_write_def Let_def c m prod.case u(2) l0_def [symmetric] q by (simp add: u(1) l w e del: write_segments.simps)
  then show ?thesis using tcp_write_accounts [of env1 6000 50000 2 TCP_WRITE_FLAG_COPY world3 ERR_OK w']
    by (simp add: world3_def pcb1_def)
qed

end
