(* ===== verification/Tcp_Window_Spec.thy ===== *)
theory Tcp_Window_Spec
  imports Tcp_Example
begin

text \<open>
  The receive window: the right edge that TCP has announced never moves back, and moves forward
  only by a worthwhile amount.
\<close>

section \<open>Signed distances\<close>

lemma sint_word_of_int: "- (2 ^ 31) \<le> k \<Longrightarrow> k < 2 ^ 31 \<Longrightarrow> sint (word_of_int k :: u32) = k"
  by (simp add: signed_of_int signed_take_bit_int_eq_self)

text \<open>A distance computed from numbers that are small enough.\<close>

lemma sint_diff:
  fixes a b m :: u32
  assumes "- (2 ^ 31) \<le> uint b - sint a - uint m" and "uint b - sint a - uint m < 2 ^ 31"
  shows "sint (b - a - m) = uint b - sint a - uint m"
proof -
  have "b - a - m = word_of_int (uint b - sint a - uint m)" by (simp add: of_int_uint of_int_sint)
  then show ?thesis using sint_word_of_int [OF assms] by simp
qed

lemma uint_sub_signed:
  fixes a b :: u32
  assumes "sint a \<le> uint b" and "uint b - sint a < 2 ^ 32"
  shows "uint (b - a) = uint b - sint a"
proof -
  have "b - a = word_of_int (uint b - sint a)" by simp
  then show ?thesis using assms by (simp add: uint_word_of_int take_bit_int_eq_self del: of_int_diff word_of_int_uint)
qed

lemma uint_of_sint:
  fixes a :: u32
  assumes "0 \<le> sint a"
  shows "uint a = sint a"
proof -
  have "sint a < 2 ^ 31" using sint_lt [of a] by simp
  moreover have "uint a = uint (of_int (sint a) :: u32)" by simp
  ultimately show ?thesis using assms by (simp add: unsigned_of_int take_bit_int_eq_self del: of_int_sint)
qed

section \<open>Properties\<close>

text \<open>The distance from the next expected byte to the right edge that was announced; it is negative
  when data has arrived beyond the edge.\<close>

definition announced :: "tcp_pcb \<Rightarrow> int" where
  "announced c = sint (tp_rcv_ann_right_edge c - tp_rcv_nxt c)"

text \<open>C9: As long as the announced right edge is within a window of the next expected
  byte, \<open>tcp_update_rcv_ann_wnd\<close> never takes back what was announced and never
  announces more than the free buffer; it moves the edge exactly when the gain is at least half
  of the largest window or a segment, and returns the gain, otherwise 0.\<close>

theorem announced_window:
  assumes "tcp_update_rcv_ann_wnd p w = (growth, w')" and "c = tw_pcb w p"
    and "uint (tp_rcv_wnd c) \<le> uint TCP_WND" and "- uint TCP_WND \<le> announced c" and "announced c \<le> uint (tp_rcv_wnd c)"
    and "room = uint (tp_rcv_wnd c) - announced c"
  shows "w' = upd_pcb p (\<lambda>c. c\<lparr>tp_rcv_ann_wnd := tp_rcv_ann_wnd (tw_pcb w' p)\<rparr>) w \<and>
    max 0 (announced c) \<le> uint (tp_rcv_ann_wnd (tw_pcb w' p)) \<and> uint (tp_rcv_ann_wnd (tw_pcb w' p)) \<le> uint (tp_rcv_wnd c) \<and>
    (if room \<ge> min (uint TCP_WND div 2) (uint (tp_mss c))
     then tp_rcv_ann_wnd (tw_pcb w' p) = tp_rcv_wnd c \<and> uint growth = room
     else uint (tp_rcv_ann_wnd (tw_pcb w' p)) = max 0 (announced c) \<and> growth = 0)"
proof -
  define d where "d = announced c"
  define m where "m = (min (TCP_WND div 2) (ucast (tp_mss c)) :: u32)"
  define e where "e = tp_rcv_nxt c + tp_rcv_wnd c"
  have W: "uint TCP_WND = 2990080" by code_simp
  have m: "uint m = min (uint TCP_WND div 2) (uint (tp_mss c))"
  proof -
    have "uint (tp_mss c) < 2 ^ 16" using unsigned_less [of "tp_mss c", where 'a = int] by simp
    then have "uint (ucast (tp_mss c) :: u32) = uint (tp_mss c)" by (simp add: unsigned_ucast_eq take_bit_int_eq_self)
    moreover have "uint (TCP_WND div 2) = uint TCP_WND div 2" by code_simp
    ultimately show ?thesis by (simp add: m_def min_def word_le_def)
  qed
  have d: "sint (tp_rcv_ann_right_edge c - tp_rcv_nxt c) = d" by (simp add: d_def announced_def)
  have room: "room = uint (tp_rcv_wnd c) - d" "- 2990080 \<le> d" "d \<le> uint (tp_rcv_wnd c)" "uint (tp_rcv_wnd c) \<le> 2990080"
    using assms(3-6) W by (simp_all add: d_def)
  have m_le: "0 \<le> uint m" "uint m \<le> 1495040" "0 \<le> uint (tp_rcv_wnd c)" using m W by simp_all
  have ge: "TCP_SEQ_GEQ e (tp_rcv_ann_right_edge c + m) \<longleftrightarrow> uint m \<le> room"
  proof -
    have "e - (tp_rcv_ann_right_edge c + m) = tp_rcv_wnd c - (tp_rcv_ann_right_edge c - tp_rcv_nxt c) - m" by (simp add: e_def)
    moreover have "sint (tp_rcv_wnd c - (tp_rcv_ann_right_edge c - tp_rcv_nxt c) - m) = room - uint m"
      using sint_diff [of "tp_rcv_wnd c" "tp_rcv_ann_right_edge c - tp_rcv_nxt c" m] room m_le by (simp add: d)
    ultimately have "sint (e - (tp_rcv_ann_right_edge c + m)) = room - uint m" by (simp only:)
    then show ?thesis by (simp add: TCP_SEQ_GEQ_def)
  qed
  have gt: "TCP_SEQ_GT (tp_rcv_nxt c) (tp_rcv_ann_right_edge c) \<longleftrightarrow> d < 0"
    using sint_diff [of 0 "tp_rcv_ann_right_edge c - tp_rcv_nxt c" 0] room by (simp add: d TCP_SEQ_GT_def)
  have grow: "uint (e - tp_rcv_ann_right_edge c) = room"
    using uint_sub_signed [of "tp_rcv_ann_right_edge c - tp_rcv_nxt c" "tp_rcv_wnd c"] room by (simp add: d e_def algebra_simps)
  have edge: "uint (tp_rcv_ann_right_edge c - tp_rcv_nxt c) = d" if "\<not> d < 0"
    using that uint_of_sint [of "tp_rcv_ann_right_edge c - tp_rcv_nxt c"] by (simp add: d)
  define n where "n = (if uint m \<le> room then tp_rcv_wnd c else if d < 0 then 0 else tp_rcv_ann_right_edge c - tp_rcv_nxt c)"
  have r: "update_rcv_ann_wnd c = (if uint m \<le> room then e - tp_rcv_ann_right_edge c else 0, c\<lparr>tp_rcv_ann_wnd := n\<rparr>)"
    unfolding update_rcv_ann_wnd_def Let_def e_def [symmetric] m_def [symmetric] ge gt by (simp add: n_def)
  then have w': "w' = upd_pcb p (\<lambda>_. c\<lparr>tp_rcv_ann_wnd := n\<rparr>) w" "growth = (if uint m \<le> room then e - tp_rcv_ann_right_edge c else 0)"
    using assms(1,2) by (simp_all add: tcp_update_rcv_ann_wnd_def)
  have n: "tp_rcv_ann_wnd (tw_pcb w' p) = n" by (simp add: w' upd_pcb_def)
  have "w' = upd_pcb p (\<lambda>c. c\<lparr>tp_rcv_ann_wnd := n\<rparr>) w" using assms(2) by (simp add: w' upd_pcb_def)
  then show ?thesis unfolding n d_def [symmetric] m [symmetric] using room edge grow by (auto simp: n_def w' max_def)
qed

text \<open>The application has taken half a segment, then a whole one, of the 2000 bytes it held.\<close>

definition pcb_window :: "u32 \<Rightarrow> tcp_pcb" where
  "pcb_window wnd = pcb1\<lparr>tp_rcv_nxt := 2070, tp_rcv_wnd := wnd, tp_rcv_ann_right_edge := 70 + TCP_WND\<rparr>"

theorem announced_window_witness:
  "\<exists>w' growth. tcp_update_rcv_ann_wnd 6000 (upd_pcb 6000 (\<lambda>_. pcb_window (TCP_WND - 1000)) world1) = (growth, w') \<and>
     tp_rcv_ann_wnd (tw_pcb w' 6000) = TCP_WND - 1000 \<and> uint growth = 1000"
proof -
  define w where "w = upd_pcb 6000 (\<lambda>_. pcb_window (TCP_WND - 1000)) world1"
  have c: "tw_pcb w 6000 = pcb_window (TCP_WND - 1000)" by (simp add: w_def)
  have a: "announced (pcb_window wnd) = sint (TCP_WND - 2000)" "tp_rcv_wnd (pcb_window wnd) = wnd" "tp_mss (pcb_window wnd) = 536" for wnd
    by (simp_all add: announced_def pcb_window_def pcb1_def)
  have n: "sint (TCP_WND - 2000 :: u32) = 2988080" "uint (TCP_WND - 1000) = 2989080" "uint TCP_WND = 2990080" by code_simp+
  obtain growth w' where r: "tcp_update_rcv_ann_wnd 6000 w = (growth, w')" by fastforce
  have "tp_rcv_ann_wnd (tw_pcb w' 6000) = TCP_WND - 1000 \<and> uint growth = 1000"
    using announced_window [OF r c [symmetric] _ _ _ refl] by (simp add: a n)
  then show ?thesis using r by (auto simp: w_def)
qed

end
