(* ===== verification/Ixgbe_Rings.thy ===== *)
theory Ixgbe_Rings
  imports Net_State
begin

text \<open>
  The descriptor rings of the network adapter: the receive and transmit queues of
  \<open>ixgbe/ixgbe_rxtx.c\<close>. Descriptors are unions of what the driver writes and what the adapter
  writes back, so they are kept as the words of memory that both sides read; the machine is
  little-endian. The adapter writes descriptors while the driver polls: \<open>nic k r\<close> is what the
  descriptors of the ring \<open>r\<close> hold when a loop reads them for the \<open>k\<close>-th time.
\<close>

section \<open>Receive descriptors\<close>

definition IXGBE_RDT_THRESH :: u16 where "IXGBE_RDT_THRESH = 32"
definition IXGBE_RXDADV_STAT_DD :: u32 where "IXGBE_RXDADV_STAT_DD = 0x01"
definition IXGBE_RXD_STAT_L4CS :: u32 where "IXGBE_RXD_STAT_L4CS = 0x20"
definition IXGBE_RXD_STAT_IPCS :: u32 where "IXGBE_RXD_STAT_IPCS = 0x40"
definition IXGBE_RXDADV_ERR_TCPE :: u32 where "IXGBE_RXDADV_ERR_TCPE = 0x40000000"
definition IXGBE_RXDADV_ERR_IPE :: u32 where "IXGBE_RXDADV_ERR_IPE = 0x80000000"

text \<open>The driver's view are the two addresses; the written-back view are parts of them.\<close>

record adv_rx_desc =
  rxd_pkt_addr :: u64
  rxd_hdr_addr :: u64

definition rxd_rss :: "adv_rx_desc \<Rightarrow> u32" where "rxd_rss d = ucast (drop_bit 32 (rxd_pkt_addr d))"
definition rxd_status_error :: "adv_rx_desc \<Rightarrow> u32" where "rxd_status_error d = ucast (rxd_hdr_addr d)"
definition rxd_length :: "adv_rx_desc \<Rightarrow> u16" where "rxd_length d = ucast (drop_bit 32 (rxd_hdr_addr d))"

text \<open>The conversion to 32 bits drops the upper half of an address.\<close>

definition cpu_to_le32 :: "u64 \<Rightarrow> u32" where "cpu_to_le32 x = ucast x"

record rx_ring =
  rr_ring :: "adv_rx_desc list"
  rr_entries :: "addr list"
  rr_rdt :: u32
  rr_head :: u16
  rr_tail :: u16
  rr_len :: u16

text \<open>
  The packets: next pointer, flow group and time stamp are fields of the mbuf, which the
  receive queues (\<open>eth_state\<close>) read and write.
\<close>

record rx_world =
  rw_eth :: eth_state
  rw_mw :: mbuf_world

record ring_env =
  re_cpu :: u32
  re_pool :: addr
  re_rxq :: nat
  re_fgs :: "eth_fg list"
  re_phys_base :: u64
  re_bugs :: bool
  re_tsc :: u64

definition mbuf_get_data_machaddr :: "u64 \<Rightarrow> addr \<Rightarrow> u64" where
  "mbuf_get_data_machaddr base m = page_machaddr base (of_nat (mbuf_mtod m))"

text \<open>\<open>eth_recv\<close> on the mbufs of the driver.\<close>

definition eth_view :: "rx_world \<Rightarrow> eth_state" where
  "eth_view v = (rw_eth v)\<lparr>links := (\<lambda>p. mb_next (mw_mbufs (rw_mw v) p)),
     pkt_fg := (\<lambda>p. mb_fg_id (mw_mbufs (rw_mw v) p)), tstamp := (\<lambda>p. mb_timestamp (mw_mbufs (rw_mw v) p))\<rparr>"

definition eth_store :: "rx_world \<Rightarrow> eth_state \<Rightarrow> rx_world" where
  "eth_store v s = v\<lparr>rw_eth := s, rw_mw := (rw_mw v)\<lparr>mw_mbufs := (\<lambda>p. (mw_mbufs (rw_mw v) p)
     \<lparr>mb_next := links s p, mb_fg_id := pkt_fg s p, mb_timestamp := tstamp s p\<rparr>)\<rparr>\<rparr>"

definition recv_mbuf :: "ring_env \<Rightarrow> addr \<Rightarrow> rx_world \<Rightarrow> (u32 \<times> rx_world) res" where
  "recv_mbuf env m v =
     bindR (eth_recv (re_cpu env) (re_rxq env) m (eth_view v)) (\<lambda>(ret, s). Inr (ret, eth_store v s))"

definition drop_mbuf :: "ring_env \<Rightarrow> addr \<Rightarrow> rx_world \<Rightarrow> rx_world res" where
  "drop_mbuf env m v = bindR (mbuf_free (re_bugs env) m (rw_mw v)) (\<lambda>w. Inr (v\<lparr>rw_mw := w\<rparr>))"

section \<open>Filling and clearing a receive ring\<close>

definition entry_at :: "addr list \<Rightarrow> nat \<Rightarrow> addr res" where
  "entry_at es i = (if i < length es then Inr (es ! i) else Inl Fault)"

definition clear_entry :: "bool \<Rightarrow> nat \<times> rx_ring \<times> mbuf_world \<Rightarrow> (nat \<times> rx_ring \<times> mbuf_world) res" where
  "clear_entry bugs = (\<lambda>(i, r, w).
     bindR (entry_at (rr_entries r) i) (\<lambda>m.
     if m = NULL then Inr (i + 1, r, w)
     else bindR (mbuf_free bugs m w) (\<lambda>w'. Inr (i + 1, r\<lparr>rr_entries := (rr_entries r)[i := NULL]\<rparr>, w'))))"

definition ixgbe_clear_rx_queue :: "bool \<Rightarrow> rx_ring \<times> mbuf_world \<Rightarrow> (rx_ring \<times> mbuf_world) res" where
  "ixgbe_clear_rx_queue bugs = (\<lambda>(r, w).
     bindR (iter_res (unat (rr_len r)) (clear_entry bugs) (0, r, w)) (\<lambda>(_, r', w').
     Inr (r'\<lparr>rr_head := 0, rr_tail := rr_len r' - 1\<rparr>, w')))"

definition read_desc :: "u64 \<Rightarrow> adv_rx_desc" where
  "read_desc ma = \<lparr>rxd_pkt_addr = ucast (cpu_to_le32 ma), rxd_hdr_addr = ucast (cpu_to_le32 ma)\<rparr>"

definition refill :: "ring_env \<Rightarrow> nat \<Rightarrow> addr \<Rightarrow> rx_ring \<Rightarrow> rx_ring res" where
  "refill env i b r =
     (if i < length (rr_entries r) \<and> i < length (rr_ring r) then
        Inr (r\<lparr>rr_entries := (rr_entries r)[i := b],
               rr_ring := (rr_ring r)[i := read_desc (mbuf_get_data_machaddr (re_phys_base env) b)]\<rparr>)
      else Inl Fault)"

text \<open>The loop, with \<open>n\<close> slots left from slot \<open>i\<close>; it says whether all could be filled.\<close>

fun fill_slots :: "ring_env \<Rightarrow> nat \<Rightarrow> nat \<Rightarrow> rx_ring \<times> mbuf_world \<Rightarrow> (nat option \<times> rx_ring \<times> mbuf_world) res" where
  "fill_slots env 0 i (r, w) = Inr (None, r, w)"
| "fill_slots env (Suc n) i (r, w) =
     bindR (mbuf_alloc (re_bugs env) (re_pool env) w) (\<lambda>(b, w1).
     if b = NULL then Inr (Some i, r, w1)
     else bindR (refill env i b r) (\<lambda>r1. fill_slots env n (i + 1) (r1, w1)))"

text \<open>\<open>for (i--; i >= 0; i--)\<close>\<close>

fun free_slots :: "bool \<Rightarrow> addr list \<Rightarrow> nat \<Rightarrow> mbuf_world \<Rightarrow> mbuf_world res" where
  "free_slots bugs es 0 w = Inr w"
| "free_slots bugs es (Suc i) w =
     bindR (entry_at es i) (\<lambda>m. bindR (mbuf_free bugs m w) (free_slots bugs es i))"

definition ixgbe_alloc_rx_mbufs :: "ring_env \<Rightarrow> rx_ring \<times> mbuf_world \<Rightarrow> (u32 \<times> rx_ring \<times> mbuf_world) res" where
  "ixgbe_alloc_rx_mbufs env = (\<lambda>(r, w).
     bindR (fill_slots env (unat (rr_len r)) 0 (r, w)) (\<lambda>(stop, r', w').
     case stop of
       None \<Rightarrow> Inr (0, r', w')
     | Some i \<Rightarrow> bindR (free_slots (re_bugs env) (rr_entries r') i w') (\<lambda>w''. Inr (- ENOMEM, r', w''))))"

section \<open>Polling a receive ring\<close>

definition rx_done :: "adv_rx_desc \<Rightarrow> bool" where
  "rx_done d \<longleftrightarrow> rxd_status_error d AND IXGBE_RXDADV_STAT_DD \<noteq> 0"

definition rx_valid_checksum :: "adv_rx_desc \<Rightarrow> bool" where
  "rx_valid_checksum d \<longleftrightarrow>
     \<not> (rxd_status_error d AND IXGBE_RXD_STAT_IPCS \<noteq> 0 \<and> rxd_status_error d AND IXGBE_RXDADV_ERR_IPE \<noteq> 0) \<and>
     \<not> (rxd_status_error d AND IXGBE_RXD_STAT_L4CS \<noteq> 0 \<and> rxd_status_error d AND IXGBE_RXDADV_ERR_TCPE \<noteq> 0)"

text \<open>What the driver notes in the packet.\<close>

definition stamp :: "ring_env \<Rightarrow> addr \<Rightarrow> adv_rx_desc \<Rightarrow> eth_fg \<Rightarrow> mbuf_world \<Rightarrow> mbuf_world" where
  "stamp env b d fg w =
     (set_mbuf_len b (unat (rxd_length d)) w)\<lparr>mw_mbufs := (mw_mbufs w)(b := (mw_mbufs w b)
        \<lparr>mb_fg_id := fg_id fg, mb_timestamp := re_tsc env\<rparr>)\<rparr>"

text \<open>One turn of the loop: \<open>True\<close> when a packet was taken, \<open>False\<close> when the loop is left.\<close>

definition rx_poll_one :: "ring_env \<Rightarrow> rx_ring \<times> rx_world \<Rightarrow> (bool \<times> rx_ring \<times> rx_world) res" where
  "rx_poll_one env = (\<lambda>(r, v).
     let slot = rr_head r AND (rr_len r - 1) in
     bindR (rd (rr_ring r) slot) (\<lambda>d.
     if \<not> rx_done d then Inr (False, r, v)
     else
       bindR (rd (rr_entries r) slot) (\<lambda>b.
       bindR (rd (re_fgs env) (rxd_rss d AND (of_nat ETH_RSS_RETA_NUM_ENTRIES - 1))) (\<lambda>fg.
       if b = NULL then Inl Fault
       else
         let v1 = v\<lparr>rw_mw := stamp env b d fg (rw_mw v)\<rparr> in
         bindR (mbuf_alloc (re_bugs env) (re_pool env) (rw_mw v1)) (\<lambda>(new_b, w).
         let v2 = v1\<lparr>rw_mw := w\<rparr> in
         if new_b = NULL then Inr (False, r, v2)
         else
           bindR (refill env (unat slot) new_b r) (\<lambda>r1.
           bindR (if \<not> rx_valid_checksum d then drop_mbuf env b v2
                  else bindR (recv_mbuf env b v2) (\<lambda>(ret, v3).
                         if ret \<noteq> 0 then drop_mbuf env b v3 else Inr v3)) (\<lambda>v4.
           Inr (True, r1\<lparr>rr_head := rr_head r1 + 1\<rparr>, v4))))))))"

fun rx_poll_loop ::
  "ring_env \<Rightarrow> (nat \<Rightarrow> rx_ring \<Rightarrow> adv_rx_desc list) \<Rightarrow> nat \<Rightarrow> nat \<Rightarrow> rx_ring \<times> rx_world \<Rightarrow> (nat \<times> rx_ring \<times> rx_world) res"
where
  "rx_poll_loop env nic 0 nb (r, v) = Inl Hang"
| "rx_poll_loop env nic (Suc f) nb (r, v) =
     bindR (rx_poll_one env (r\<lparr>rr_ring := nic nb r\<rparr>, v)) (\<lambda>(go, r', v').
     if go then rx_poll_loop env nic f (nb + 1) (r', v') else Inr (nb, r', v'))"

definition rx_return_descs :: "rx_ring \<Rightarrow> rx_ring" where
  "rx_return_descs r =
     (if rr_len r - (rr_tail r + 1 - rr_head r) \<ge> IXGBE_RDT_THRESH then
        let tail = rr_head r + rr_len r - 1
        in r\<lparr>rr_tail := tail, rr_rdt := ucast (tail AND (rr_len r - 1))\<rparr>
      else r)"

definition ixgbe_rx_poll ::
  "ring_env \<Rightarrow> (nat \<Rightarrow> rx_ring \<Rightarrow> adv_rx_desc list) \<Rightarrow> nat \<Rightarrow> rx_ring \<times> rx_world \<Rightarrow> (u32 \<times> rx_ring \<times> rx_world) res" where
  "ixgbe_rx_poll env nic fuel rv =
     bindR (rx_poll_loop env nic fuel 0 rv) (\<lambda>(nb, r, v). Inr (of_nat nb, rx_return_descs r, v))"

text \<open>
  \<open>eth_rx_idle_wait\<close>: \<open>addrs\<close> is the result of \<open>kmalloc\<close>, \<open>cycles\<close> the uninitialised variable,
  \<open>tsc\<close> the successive readings of the time stamp counter, and \<open>done k i\<close> whether the descriptor
  at the head of queue \<open>i\<close> is complete in the \<open>k\<close>-th pass over the queues.
\<close>

fun idle_loop :: "nat \<Rightarrow> nat \<Rightarrow> (nat \<Rightarrow> nat \<Rightarrow> bool) \<Rightarrow> (nat \<Rightarrow> u64) \<Rightarrow> u64 \<Rightarrow> nat \<Rightarrow> bool res" where
  "idle_loop 0 n dd tsc cycles k = Inl Hang"
| "idle_loop (Suc f) n dd tsc cycles k =
     (if \<exists>i\<in>set [0..<n]. dd k i then Inr True
      else if tsc (k + 1) - tsc 0 < cycles then idle_loop f n dd tsc cycles (k + 1)
      else Inr False)"

definition eth_rx_idle_wait :: "nat \<Rightarrow> addr \<Rightarrow> nat \<Rightarrow> (nat \<Rightarrow> nat \<Rightarrow> bool) \<Rightarrow> (nat \<Rightarrow> u64) \<Rightarrow> u64 \<Rightarrow> bool res" where
  "eth_rx_idle_wait fuel addrs num_queues dd tsc cycles =
     (if addrs = NULL \<and> num_queues > 0 then Inl Fault else idle_loop fuel num_queues dd tsc cycles 0)"

section \<open>Transmit descriptors\<close>

definition IXGBE_TXD_STAT_DD :: u32 where "IXGBE_TXD_STAT_DD = 1"
definition IXGBE_ADVTXD_DTYP_CTXT :: u32 where "IXGBE_ADVTXD_DTYP_CTXT = 0x00200000"
definition IXGBE_ADVTXD_DCMD_DEXT :: u32 where "IXGBE_ADVTXD_DCMD_DEXT = 0x20000000"
definition IXGBE_ADVTXD_TUCMD_IPV4 :: u32 where "IXGBE_ADVTXD_TUCMD_IPV4 = 0x00000400"
definition IXGBE_ADVTXD_TUCMD_L4T_TCP :: u32 where "IXGBE_ADVTXD_TUCMD_L4T_TCP = 0x00000800"
definition IXGBE_ADVTXD_IDX_SHIFT :: nat where "IXGBE_ADVTXD_IDX_SHIFT = 4"
definition IXGBE_ADVTXD_MACLEN_SHIFT :: nat where "IXGBE_ADVTXD_MACLEN_SHIFT = 9"
definition IP_HDR_LEN_DRV :: u32 where "IP_HDR_LEN_DRV = 20"
definition IXGBE_CTX_NUM :: nat where "IXGBE_CTX_NUM = 2"

text \<open>The four words of a descriptor; the status written back is the last.\<close>

record adv_tx_desc =
  txd_0 :: u32
  txd_1 :: u32
  txd_2 :: u32
  txd_3 :: u32

definition tx_done :: "adv_tx_desc \<Rightarrow> bool" where
  "tx_done d \<longleftrightarrow> txd_3 d AND IXGBE_TXD_STAT_DD \<noteq> 0"

record tx_ring =
  tr_ring :: "adv_tx_desc list"
  tr_entries :: "addr list"
  tr_tdt :: u32
  tr_head :: u16
  tr_tail :: u16
  tr_len :: u16
  tr_ctx_cache :: "u16 list"

definition ixgbe_reset_tx_queue :: "tx_ring \<Rightarrow> tx_ring res" where
  "ixgbe_reset_tx_queue t =
     (if unat (tr_len t) \<le> length (tr_entries t) then
        Inr (t\<lparr>tr_entries := replicate (unat (tr_len t)) NULL @ drop (unat (tr_len t)) (tr_entries t),
               tr_head := 0, tr_tail := 0\<rparr>)
      else Inl Fault)"

text \<open>The loop of \<open>ixgbe_tx_reclaim\<close>; \<open>cb\<close> are the completion callbacks.\<close>

type_synonym done_cb = "nat \<Rightarrow> addr \<Rightarrow> mbuf_world \<Rightarrow> mbuf_world res"

fun reclaim_loop ::
  "bool \<Rightarrow> done_cb \<Rightarrow> (nat \<Rightarrow> tx_ring \<Rightarrow> adv_tx_desc list) \<Rightarrow> nat \<Rightarrow> nat \<Rightarrow> nat \<Rightarrow> tx_ring \<times> mbuf_world \<Rightarrow>
   (nat \<times> tx_ring \<times> mbuf_world) res" where
  "reclaim_loop bugs cb nic 0 idx nb (t, w) = Inl Hang"
| "reclaim_loop bugs cb nic (Suc f) idx nb (t, w) =
     (if tr_head t + of_nat idx = tr_tail t then Inr (nb, t, w)
      else
        let slot = (tr_head t + of_nat idx) AND (tr_len t - 1) in
        bindR (rd (tr_entries t) slot) (\<lambda>m.
        if m = NULL then reclaim_loop bugs cb nic f (idx + 1) nb (t, w)
        else
          let t1 = t\<lparr>tr_ring := nic idx t\<rparr> in
          bindR (rd (tr_ring t1) slot) (\<lambda>d.
          if \<not> tx_done d then Inr (nb, t1, w)
          else bindR (mbuf_xmit_done bugs cb m w) (\<lambda>w1.
            reclaim_loop bugs cb nic f (idx + 1) (idx + 1)
              (t1\<lparr>tr_entries := (tr_entries t1)[unat slot := NULL]\<rparr>, w1)))))"

definition ixgbe_tx_reclaim ::
  "bool \<Rightarrow> done_cb \<Rightarrow> (nat \<Rightarrow> tx_ring \<Rightarrow> adv_tx_desc list) \<Rightarrow> nat \<Rightarrow> tx_ring \<times> mbuf_world \<Rightarrow>
   (u16 \<times> tx_ring \<times> mbuf_world) res" where
  "ixgbe_tx_reclaim bugs cb nic fuel tw =
     bindR (reclaim_loop bugs cb nic fuel 0 0 tw) (\<lambda>(nb, t, w).
     let t1 = t\<lparr>tr_head := tr_head t + of_nat nb\<rparr>
     in Inr (tr_len t1 + tr_head t1 - tr_tail t1, t1, w))"

text \<open>A context descriptor: the checksums that the adapter is to fill in.\<close>

definition ctx_desc :: "u32 \<Rightarrow> u32 \<Rightarrow> adv_tx_desc" where
  "ctx_desc ol_flags ctx_idx =
     (let cmd = IXGBE_ADVTXD_DTYP_CTXT OR IXGBE_ADVTXD_DCMD_DEXT;
          cmd1 = (if ol_flags AND ucast PKT_TX_IP_CKSUM \<noteq> 0 then cmd OR IXGBE_ADVTXD_TUCMD_IPV4 else cmd);
          cmd2 = (if ol_flags AND ucast PKT_TX_TCP_CKSUM \<noteq> 0 then cmd1 OR IXGBE_ADVTXD_TUCMD_L4T_TCP else cmd1)
      in \<lparr>txd_0 = push_bit IXGBE_ADVTXD_MACLEN_SHIFT (of_nat ETH_HDR_LEN) OR IP_HDR_LEN_DRV,
          txd_1 = 0, txd_2 = cmd2, txd_3 = push_bit IXGBE_ADVTXD_IDX_SHIFT ctx_idx\<rparr>)"

definition tx_full :: "tx_ring \<Rightarrow> bool" where
  "tx_full t \<longleftrightarrow> tr_tail t + 1 - tr_head t \<ge> tr_len t"

definition put_ctx :: "u32 \<Rightarrow> u32 \<Rightarrow> tx_ring \<Rightarrow> tx_ring res" where
  "put_ctx ol_flags ctx_idx t =
     (let slot = tr_tail t AND (tr_len t - 1) in
      bindR (wr (tr_ring t) slot (ctx_desc ol_flags ctx_idx)) (\<lambda>ds.
      bindR (wr (tr_entries t) slot NULL) (\<lambda>es.
      bindR (wr (tr_ctx_cache t) ctx_idx (ucast ol_flags)) (\<lambda>cc.
      Inr (t\<lparr>tr_ring := ds, tr_entries := es, tr_tail := tr_tail t + 1,
             tr_tdt := ucast ((tr_tail t + 1) AND (tr_len t - 1)), tr_ctx_cache := cc\<rparr>)))))"

definition ixgbe_tx_xmit_ctx ::
  "bool \<Rightarrow> done_cb \<Rightarrow> (nat \<Rightarrow> tx_ring \<Rightarrow> adv_tx_desc list) \<Rightarrow> nat \<Rightarrow> u32 \<Rightarrow> u32 \<Rightarrow> tx_ring \<times> mbuf_world \<Rightarrow>
   (u32 \<times> tx_ring \<times> mbuf_world) res" where
  "ixgbe_tx_xmit_ctx bugs cb nic fuel ol_flags ctx_idx = (\<lambda>(t, w).
     bindR (if tx_full t then bindR (ixgbe_tx_reclaim bugs cb nic fuel (t, w)) (\<lambda>(_, tw). Inr tw)
            else Inr (t, w)) (\<lambda>(t1, w1).
     if tx_full t1 then Inr (- EAGAIN, t1, w1)
     else bindR (put_ctx ol_flags ctx_idx t1) (\<lambda>t2. Inr (0, t2, w1))))"

end
