(* ===== verification/Ixgbe_Rings_Spec.thy ===== *)
theory Ixgbe_Rings_Spec
  imports Ixgbe_Rings Flow_Groups_Spec
begin

text \<open>
  The receive ring against the ownership of its descriptors: the adapter owns those from the
  head up to the tail, the driver the others, and every packet buffer is in the pool, in the
  ring or in a receive queue.
\<close>

section \<open>Slots\<close>

text \<open>The slot of the \<open>j\<close>-th descriptor behind the head, and how many the adapter owns.\<close>

definition slot_of :: "rx_ring \<Rightarrow> nat \<Rightarrow> nat" where
  "slot_of r j = (unat (rr_head r) + j) mod unat (rr_len r)"

definition owned :: "rx_ring \<Rightarrow> nat" where
  "owned r = unat (rr_tail r - rr_head r)"

text \<open>The shape of a ring: a power of two, and a gap of at least one descriptor.\<close>

definition rx_shape :: "rx_ring \<Rightarrow> bool" where
  "rx_shape r \<longleftrightarrow> (\<exists>k\<le>15. unat (rr_len r) = 2 ^ k) \<and> length (rr_ring r) = unat (rr_len r) \<and>
     length (rr_entries r) = unat (rr_len r) \<and> owned r < unat (rr_len r)"

text \<open>\<open>wb s\<close> is what the adapter writes back to slot \<open>s\<close>; only descriptors it owns can be done.\<close>

definition rx_ring_ok :: "(nat \<Rightarrow> adv_rx_desc) \<Rightarrow> rx_ring \<Rightarrow> bool" where
  "rx_ring_ok wb r \<longleftrightarrow> rx_shape r \<and>
     (\<forall>j<unat (rr_len r). rx_done (rr_ring r ! slot_of r j) \<longrightarrow>
        j < owned r \<and> rr_ring r ! slot_of r j = wb (slot_of r j))"

text \<open>The adapter: it changes nothing but descriptors it owns, and those to their write-back.\<close>

definition adapter :: "(nat \<Rightarrow> adv_rx_desc) \<Rightarrow> (nat \<Rightarrow> rx_ring \<Rightarrow> adv_rx_desc list) \<Rightarrow> bool" where
  "adapter wb nic \<longleftrightarrow> (\<forall>k r. length (nic k r) = length (rr_ring r) \<and>
     (\<forall>s<length (rr_ring r). nic k r ! s = rr_ring r ! s \<or>
        nic k r ! s = wb s \<and> s \<in> slot_of r ` {..<owned r}))"

lemma shape_pos: "rx_shape r \<Longrightarrow> 0 < unat (rr_len r)"
  by (auto simp: rx_shape_def)

lemma shape_owned: "rx_shape r \<Longrightarrow> owned r < unat (rr_len r)"
  by (simp add: rx_shape_def)

lemma slot_less: "rx_shape r \<Longrightarrow> slot_of r j < unat (rr_len r)"
  by (simp add: slot_of_def shape_pos)

lemma offset_mod_inj:
  fixes a i j n :: nat
  assumes "(a + i) mod n = (a + j) mod n" and "i < n" and "j < n"
  shows "i = j"
proof -
  have le: "x = y" if "(a + x) mod n = (a + y) mod n" "x \<le> y" "y < n" for x y
  proof -
    have "n dvd (a + y) - (a + x)" using that(1,2) mod_eq_dvd_iff_nat [of "a + x" "a + y" n] by auto
    with that(2,3) show ?thesis using dvd_imp_le [of n "y - x"] by fastforce
  qed
  show ?thesis using le [of i j] le [of j i] assms by (cases "i \<le> j") auto
qed

lemma slot_inj: "slot_of r i = slot_of r j \<Longrightarrow> i < unat (rr_len r) \<Longrightarrow> j < unat (rr_len r) \<Longrightarrow> i = j"
  unfolding slot_of_def by (rule offset_mod_inj)

lemma slot_word:
  assumes "rx_shape r"
  shows "unat (rr_head r AND (rr_len r - 1)) = slot_of r 0"
proof -
  from assms obtain k where k: "k \<le> 15" "unat (rr_len r) = 2 ^ k" by (auto simp: rx_shape_def)
  have "1 \<le> rr_len r" using k(2) by (simp add: word_le_nat_alt)
  then have "unat (rr_len r - 1) = 2 ^ k - 1" using k(2) by (simp only: unat_sub_le unat_1)
  then show ?thesis using unat_and_mask [of "rr_len r - 1" k "rr_head r"] k by (simp add: slot_of_def)
qed

text \<open>The ring after a descriptor has been taken.\<close>

lemma slot_next:
  assumes "rx_shape r" and "rr_len r' = rr_len r" and "rr_head r' = rr_head r + 1"
  shows "slot_of r' j = slot_of r (Suc j)"
proof -
  from assms(1) obtain k where k: "k \<le> 15" "unat (rr_len r) = 2 ^ k" by (auto simp: rx_shape_def)
  have "unat (rr_head r + 1) mod 2 ^ k = (unat (rr_head r) + 1) mod 2 ^ k"
    using unat_add_mod_pow2 [of k "rr_head r" 1] k(1) by simp
  then have "(unat (rr_head r + 1) + j) mod 2 ^ k = (unat (rr_head r) + 1 + j) mod 2 ^ k"
    by (metis mod_add_left_eq)
  then show ?thesis by (simp add: slot_of_def assms(2,3) k(2))
qed

lemma owned_next:
  assumes "0 < owned r" and "rr_tail r' = rr_tail r" and "rr_head r' = rr_head r + 1"
  shows "owned r' = owned r - 1"
proof -
  have "rr_tail r - (rr_head r + 1) = rr_tail r - rr_head r - 1" by simp
  moreover have "1 \<le> rr_tail r - rr_head r"
    using assms(1) by (simp add: owned_def word_le_nat_alt)
  ultimately show ?thesis unfolding owned_def assms(2,3) by (simp only: unat_sub_le unat_1)
qed

section \<open>Packet buffers\<close>

text \<open>What a packet carries up the stack: its length, flow group and time stamp.\<close>

definition noted :: "mbuf_world \<Rightarrow> addr \<Rightarrow> nat \<times> u16 \<times> u64" where
  "noted w m = (mbuf_len w m, mb_fg_id (mw_mbufs w m), mb_timestamp (mw_mbufs w m))"

text \<open>The private chunk of a pool starts with a free element.\<close>

lemma private_chunk_free:
  assumes "pool_ok (mp, mds, h) F" and "x \<notin> F" and "x \<noteq> NULL"
  shows "private_chunk mp \<noteq> x"
proof -
  from assms(1) obtain xs ys css where c: "chain (hdr_next h) (private_chunk mp) ys"
    and F: "set (free_list xs ys css) = F" by (auto simp: pool_ok_def pool_inv_def)
  from c show ?thesis using F assms(2,3) by (cases ys) (auto simp: free_list_def)
qed

lemma alloc_headers: "kns_mempool_alloc False (mp, mds, h) = Inr (m, mp', mds', h') \<Longrightarrow> h' = h"
  by (auto simp: kns_mempool_alloc_def mempool_alloc_2_def Let_def split: if_splits)

lemma free_headers:
  "kns_mempool_free False (mp, mds, h) m = Inr (mp', mds', h') \<Longrightarrow> x \<noteq> m \<Longrightarrow>
     hdr_next h' x = hdr_next h x \<and> (x \<noteq> private_chunk mp \<longrightarrow> hdr_next_chunk h' x = hdr_next_chunk h x)"
  by (auto simp: kns_mempool_free_def mempool_free_2_def Let_def bindR_def split: if_splits sum.splits)

lemma mbuf_alloc_frame:
  assumes "mbuf_alloc False pool w = Inr (m, w')" and "x \<noteq> m"
  shows "mbuf_pool w' x = mbuf_pool w x \<and> mbuf_len w' x = mbuf_len w x \<and> mw_mbufs w' x = mw_mbufs w x"
  using assms
  by (auto simp: mbuf_alloc_def mbuf_pool_def mbuf_len_def bindR_def Let_def
      dest!: alloc_headers split: option.splits sum.splits prod.splits if_splits)

lemma mbuf_alloc_none: "mbuf_alloc False pool w = Inr (NULL, w') \<Longrightarrow> mw_mbufs w' = mw_mbufs w \<and> mw_hdrs w' = mw_hdrs w"
  by (auto simp: mbuf_alloc_def bindR_def Let_def
      dest!: alloc_headers split: option.splits sum.splits prod.splits if_splits)

lemma mbuf_free_frame:
  assumes "mbufs_ok pool w F" and "mbuf_pool w m = pool" and "mbuf_free False m w = Inr w'"
    and "x \<noteq> m" and "x \<notin> F" and "x \<noteq> NULL"
  shows "mbuf_pool w' x = mbuf_pool w x \<and> mbuf_len w' x = mbuf_len w x \<and> mw_mbufs w' x = mw_mbufs w x"
proof -
  from assms(1) obtain mp where mp: "mw_pools w pool = Some mp" "pool_ok (mp, mw_ds w, mw_hdrs w) F"
    by (auto simp: mbufs_ok_def)
  from assms(2,3) mp(1) obtain mp' ds' h' where f: "kns_mempool_free False (mp, mw_ds w, mw_hdrs w) m = Inr (mp', ds', h')"
    and w': "w' = w\<lparr>mw_pools := (mw_pools w)(pool := Some mp'), mw_ds := ds', mw_hdrs := h'\<rparr>"
    by (auto simp: mbuf_free_def bindR_def split: sum.splits prod.splits)
  from free_headers [OF f assms(4)] private_chunk_free [OF mp(2) assms(5,6)] w' show ?thesis
    by (auto simp: mbuf_pool_def mbuf_len_def)
qed

lemma mbufs_ok_touch:
  assumes "mbufs_ok pool w F" and "m \<notin> F" and "mw_pools w' = mw_pools w" and "mw_ds w' = mw_ds w"
    and "mw_hdrs w' = set_next_chunk (mw_hdrs w) m n"
  shows "mbufs_ok pool w' F"
proof -
  from assms(1) obtain mp where mp: "mw_pools w pool = Some mp" "pool_ok (mp, mw_ds w, mw_hdrs w) F"
    by (auto simp: mbufs_ok_def)
  have "pool_ok (touch_hdr (mp, mw_ds w, mw_hdrs w) m (hdr_next (mw_hdrs w) m) n) F"
    by (rule kmp.touch_law [OF mp(2) assms(2)])
  then have "pool_ok (mp, mw_ds w, set_next_chunk (mw_hdrs w) m n) F"
    by (cases "mw_hdrs w") (simp add: touch_hdr_def set_next_def fun_upd_idem)
  with mp(1) show ?thesis by (simp add: mbufs_ok_def assms(3-5))
qed

lemma stamp_noted:
  "noted (stamp env b d fg w) b = (unat (rxd_length d), fg_id fg, re_tsc env)"
  "x \<noteq> b \<Longrightarrow> noted (stamp env b d fg w) x = noted w x"
  "mbuf_pool (stamp env b d fg w) x = mbuf_pool w x"
  "mb_next (mw_mbufs (stamp env b d fg w) x) = mb_next (mw_mbufs w x)"
  by (simp_all add: noted_def stamp_def mbuf_len_def mbuf_pool_def set_mbuf_len_def)

lemma stamp_ok: "mbufs_ok pool w F \<Longrightarrow> b \<notin> F \<Longrightarrow> mbufs_ok pool (stamp env b d fg w) F"
  by (rule mbufs_ok_touch [where n = "unat (rxd_length d)"]) (simp_all add: stamp_def set_mbuf_len_def)

text \<open>A descriptor with the address of a fresh buffer is not done.\<close>

lemma refilled_not_done:
  assumes "even base" and "even m"
  shows "\<not> rx_done (read_desc (mbuf_get_data_machaddr base m))"
proof -
  from assms(2) obtain k where "m = 2 * k" by (elim evenE)
  then have "m + MBUF_HEADER_LEN = 2 * (k + 32)" by (simp add: MBUF_HEADER_LEN_def)
  then have "(of_nat (m + MBUF_HEADER_LEN) :: u64) = 2 * of_nat (k + 32)" by (metis of_nat_mult of_nat_numeral)
  then have "even (of_nat (m + MBUF_HEADER_LEN) :: u64)" by simp
  then have "even (mbuf_get_data_machaddr base m)"
    using assms(1) by (simp add: mbuf_get_data_machaddr_def page_machaddr_def mbuf_mtod_def)
  then have "\<not> bit (mbuf_get_data_machaddr base m) 0" by (simp add: bit_0)
  then have "\<not> bit (rxd_status_error (read_desc (mbuf_get_data_machaddr base m))) 0"
    by (simp add: read_desc_def rxd_status_error_def cpu_to_le32_def bit_simps)
  then show ?thesis
    by (simp add: rx_done_def IXGBE_RXDADV_STAT_DD_def and_one_eq bit_0 even_iff_mod_2_eq_zero)
qed


section \<open>Handing a packet to the receive queue\<close>

lemma eth_view_store [simp]: "eth_view (eth_store v s) = s"
  by (simp add: eth_view_def eth_store_def)

lemma mbufs_ok_same:
  "mw_pools w' = mw_pools w \<Longrightarrow> mw_ds w' = mw_ds w \<Longrightarrow> mw_hdrs w' = mw_hdrs w \<Longrightarrow>
     mbufs_ok pool w' F \<longleftrightarrow> mbufs_ok pool w F"
  by (simp add: mbufs_ok_def)

definition owner :: "ring_env \<Rightarrow> rx_world \<Rightarrow> u16 \<Rightarrow> bool" where
  "owner env v f \<longleftrightarrow> f \<noteq> MBUF_INVALID_FG_ID \<and>
     (\<exists>g. fgs (rw_eth v) (unat f) = Some g \<and> \<not> in_transition g \<and> cur_cpu g = re_cpu env)"

lemma rx_lists_view:
  assumes "rx_lists cpu qs s" and "rxqs s' cpu = rxqs s cpu" and "\<And>x. x \<in> set (concat qs) \<Longrightarrow> links s' x = links s x"
  shows "rx_lists cpu qs s'"
proof -
  have "rx_list (links s') (rxqs s' cpu ! i) (qs ! i)" if "i < length qs" for i
  proof (rule rq.ok_agree)
    show "rx_list (links s) (rxqs s' cpu ! i) (qs ! i)"
      using rx_lists_nth [OF assms(1) that] assms(2) by simp
    show "links s x = links s' x" if "x \<in> set (qs ! i)" for x
      using assms(3) [of x] nth_mem [OF \<open>i < length qs\<close>] that by force
  qed
  with assms(1,2) show ?thesis by (simp add: rx_lists_def)
qed

lemma recv_mbuf_appends:
  assumes "rx_lists (re_cpu env) qs (eth_view v)" and "re_rxq env < length qs" and "m \<noteq> NULL"
    and "m \<notin> set (concat qs)" and "owner env v (mb_fg_id (mw_mbufs (rw_mw v) m))"
  shows "\<exists>ret v'. recv_mbuf env m v = Inr (ret, v') \<and> (ret = 0 \<longleftrightarrow> length (qs ! re_rxq env) < 32768) \<and>
    rx_lists (re_cpu env) (if ret = 0 then qs[re_rxq env := qs ! re_rxq env @ [m]] else qs) (eth_view v') \<and>
    fgs (rw_eth v') = fgs (rw_eth v) \<and> noted (rw_mw v') = noted (rw_mw v) \<and>
    mw_pools (rw_mw v') = mw_pools (rw_mw v) \<and> mw_ds (rw_mw v') = mw_ds (rw_mw v) \<and>
    mw_hdrs (rw_mw v') = mw_hdrs (rw_mw v)"
proof -
  from assms(5) obtain g where g: "fgs (eth_view v) (unat (pkt_fg (eth_view v) m)) = Some g"
    "pkt_fg (eth_view v) m \<noteq> MBUF_INVALID_FG_ID" "\<not> in_transition g" "cur_cpu g = re_cpu env"
    by (auto simp: owner_def eth_view_def)
  have new: "\<forall>j<length qs. m \<notin> set (qs ! j)" using assms(4) by auto
  note recv = eth_recv_appends [OF g assms(1-3) new]
  show ?thesis
  proof (cases "length (qs ! re_rxq env) < 32768")
    case True
    with recv obtain s where s: "eth_recv (re_cpu env) (re_rxq env) m (eth_view v) = Inr (0, s)"
      "rx_lists (re_cpu env) (qs[re_rxq env := qs ! re_rxq env @ [m]]) s"
      "s = (eth_view v)\<lparr>links := links s, rxqs := (rxqs (eth_view v))(re_cpu env := rxqs s (re_cpu env))\<rparr>" by auto
    have "fgs s = fgs (eth_view v)" "pkt_fg s = pkt_fg (eth_view v)" "tstamp s = tstamp (eth_view v)"
      by (subst s(3), simp)+
    then have "fgs s = fgs (rw_eth v)" "pkt_fg s = (\<lambda>p. mb_fg_id (mw_mbufs (rw_mw v) p))"
      "tstamp s = (\<lambda>p. mb_timestamp (mw_mbufs (rw_mw v) p))" by (simp_all add: eth_view_def)
    then have v: "noted (rw_mw (eth_store v s)) = noted (rw_mw v)" "fgs (rw_eth (eth_store v s)) = fgs (rw_eth v)"
      by (simp_all add: noted_def eth_store_def mbuf_len_def fun_eq_iff)
    have "recv_mbuf env m v = Inr (0, eth_store v s)" by (simp add: recv_mbuf_def s(1))
    moreover have "mw_pools (rw_mw (eth_store v s)) = mw_pools (rw_mw v)"
      "mw_ds (rw_mw (eth_store v s)) = mw_ds (rw_mw v)" "mw_hdrs (rw_mw (eth_store v s)) = mw_hdrs (rw_mw v)"
      by (simp_all add: eth_store_def)
    ultimately show ?thesis using True v s(2) by (intro exI [of _ 0] exI [of _ "eth_store v s"]) simp
  next
    case False
    with recv have "eth_recv (re_cpu env) (re_rxq env) m (eth_view v) = Inr (- EBUSY, eth_view v)" by simp
    then have "recv_mbuf env m v = Inr (- EBUSY, eth_store v (eth_view v))" by (simp add: recv_mbuf_def)
    moreover have "noted (rw_mw (eth_store v (eth_view v))) = noted (rw_mw v)"
      by (simp add: noted_def eth_store_def eth_view_def mbuf_len_def fun_eq_iff)
    ultimately show ?thesis using False assms(1)
      by (intro exI [of _ "- EBUSY"] exI [of _ "eth_store v (eth_view v)"])
        (simp add: eth_store_def eth_view_def EBUSY_def)
  qed
qed

section \<open>One turn of the polling loop\<close>

text \<open>Every buffer is in one place: free (\<open>F\<close>), in the ring, or in a receive queue (\<open>qs\<close>).\<close>

definition in_ring :: "ring_env \<Rightarrow> rx_world \<Rightarrow> addr set \<Rightarrow> addr list list \<Rightarrow> addr \<Rightarrow> bool" where
  "in_ring env v F qs m \<longleftrightarrow> m \<noteq> NULL \<and> m \<notin> F \<and> m \<notin> set (concat qs) \<and> even m \<and>
     mbuf_pool (rw_mw v) m = re_pool env"

definition bufs_ok :: "ring_env \<Rightarrow> rx_ring \<Rightarrow> rx_world \<Rightarrow> addr set \<Rightarrow> addr list list \<Rightarrow> bool" where
  "bufs_ok env r v F qs \<longleftrightarrow> mbufs_ok (re_pool env) (rw_mw v) F \<and> distinct (rr_entries r) \<and>
     (\<forall>m\<in>set (rr_entries r). in_ring env v F qs m) \<and> (\<forall>m\<in>F. m \<notin> set (concat qs) \<and> even m) \<and>
     rx_lists (re_cpu env) qs (eth_view v) \<and> re_rxq env < length qs"

lemma bufs_okD:
  assumes "bufs_ok env r v F qs"
  shows "mbufs_ok (re_pool env) (rw_mw v) F" "distinct (rr_entries r)"
    "rx_lists (re_cpu env) qs (eth_view v)" "re_rxq env < length qs"
    "m \<in> set (rr_entries r) \<Longrightarrow> in_ring env v F qs m"
    "m \<in> F \<Longrightarrow> m \<notin> set (concat qs) \<and> even m"
  using assms unfolding bufs_ok_def by simp_all

lemma bufs_ok_free: "bufs_ok env r v F qs \<Longrightarrow> m \<in> F \<Longrightarrow> m \<noteq> NULL \<and> m \<notin> set (rr_entries r)"
  using bufs_okD(1,5) kmp.null_law unfolding mbufs_ok_def in_ring_def by metis

definition groups_ok :: "ring_env \<Rightarrow> rx_world \<Rightarrow> bool" where
  "groups_ok env v \<longleftrightarrow> \<not> re_bugs env \<and> even (re_phys_base env) \<and>
     ETH_RSS_RETA_NUM_ENTRIES \<le> length (re_fgs env) \<and> (\<forall>fg\<in>set (re_fgs env). owner env v (fg_id fg))"

lemma groups_ok_same: "groups_ok env v \<Longrightarrow> fgs (rw_eth v') = fgs (rw_eth v) \<Longrightarrow> groups_ok env v'"
  by (simp add: groups_ok_def owner_def)

text \<open>The flow group that the hash in a descriptor selects.\<close>

definition desc_fg :: "ring_env \<Rightarrow> adv_rx_desc \<Rightarrow> eth_fg" where
  "desc_fg env d = re_fgs env ! unat (rxd_rss d AND (of_nat ETH_RSS_RETA_NUM_ENTRIES - 1))"

lemma desc_fg_read:
  assumes "groups_ok env v"
  shows "rd (re_fgs env) (rxd_rss d AND (of_nat ETH_RSS_RETA_NUM_ENTRIES - 1)) = Inr (desc_fg env d)"
    and "owner env v (fg_id (desc_fg env d))"
proof -
  have "unat (rxd_rss d AND (of_nat ETH_RSS_RETA_NUM_ENTRIES - 1)) = unat (rxd_rss d) mod 2 ^ 7"
    by (rule unat_and_mask) (simp_all add: ETH_RSS_RETA_NUM_ENTRIES_def)
  then have "unat (rxd_rss d AND (of_nat ETH_RSS_RETA_NUM_ENTRIES - 1)) < length (re_fgs env)"
    using assms by (simp add: groups_ok_def ETH_RSS_RETA_NUM_ENTRIES_def) (metis less_le_trans mod_less_divisor zero_less_numeral)
  then show "rd (re_fgs env) (rxd_rss d AND (of_nat ETH_RSS_RETA_NUM_ENTRIES - 1)) = Inr (desc_fg env d)"
    "owner env v (fg_id (desc_fg env d))"
    using assms by (simp_all add: desc_fg_def groups_ok_def)
qed

lemma poll_slot:
  assumes "rx_shape r"
  shows "rd (rr_ring r) (rr_head r AND (rr_len r - 1)) = Inr (rr_ring r ! slot_of r 0)"
    and "rd (rr_entries r) (rr_head r AND (rr_len r - 1)) = Inr (rr_entries r ! slot_of r 0)"
    and "refill env (slot_of r 0) b r = Inr (r\<lparr>rr_entries := (rr_entries r)[slot_of r 0 := b],
       rr_ring := (rr_ring r)[slot_of r 0 := read_desc (mbuf_get_data_machaddr (re_phys_base env) b)]\<rparr>)"
  using slot_less [OF assms, of 0] slot_word [OF assms] assms by (simp_all add: rx_shape_def refill_def)

lemma poll_idle:
  "rx_shape r \<Longrightarrow> \<not> rx_done (rr_ring r ! slot_of r 0) \<Longrightarrow> rx_poll_one env (r, v) = Inr (False, r, v)"
  by (simp add: rx_poll_one_def poll_slot Let_def)

text \<open>A finished descriptor: the packet is noted and a fresh buffer asked for.\<close>

lemma poll_stamped:
  assumes "rx_shape r" and "bufs_ok env r v F qs" and "groups_ok env v"
    and "d = rr_ring r ! slot_of r 0" and "b = rr_entries r ! slot_of r 0"
  shows "b \<in> set (rr_entries r)" "b \<noteq> NULL" "b \<notin> F" "b \<notin> set (concat qs)" "mbuf_pool (rw_mw v) b = re_pool env"
    "even b" "mbufs_ok (re_pool env) (stamp env b d (desc_fg env d) (rw_mw v)) F"
    "rx_lists (re_cpu env) qs (eth_view (v\<lparr>rw_mw := stamp env b d (desc_fg env d) (rw_mw v)\<rparr>))"
proof -
  show b: "b \<in> set (rr_entries r)" using slot_less [OF assms(1), of 0] assms(1,5) by (simp add: rx_shape_def)
  from bufs_okD(5) [OF assms(2) b, unfolded in_ring_def] show "b \<noteq> NULL" "b \<notin> F" "b \<notin> set (concat qs)"
    "mbuf_pool (rw_mw v) b = re_pool env" "even b" by simp_all
  then show "mbufs_ok (re_pool env) (stamp env b d (desc_fg env d) (rw_mw v)) F"
    using bufs_okD(1) [OF assms(2)] by (simp add: stamp_ok)
  show "rx_lists (re_cpu env) qs (eth_view (v\<lparr>rw_mw := stamp env b d (desc_fg env d) (rw_mw v)\<rparr>))"
    by (rule rx_lists_view [OF bufs_okD(3) [OF assms(2)]]) (simp_all add: eth_view_def stamp_noted)
qed

lemma set_concat_append_at:
  "i < length qs \<Longrightarrow> set (concat (qs[i := qs ! i @ [b]])) = insert b (set (concat qs))"
proof (induction qs arbitrary: i)
  case (Cons q qs)
  then show ?case by (cases i) auto
qed simp

lemma entries_taken:
  assumes "rx_shape r" and "distinct (rr_entries r)" and "n \<notin> set (rr_entries r)" and "b = rr_entries r ! slot_of r 0"
  shows "set ((rr_entries r)[slot_of r 0 := n]) = insert n (set (rr_entries r) - {b})"
    and "distinct ((rr_entries r)[slot_of r 0 := n])"
proof -
  have s: "slot_of r 0 < length (rr_entries r)" using slot_less [OF assms(1)] assms(1) by (simp add: rx_shape_def)
  show "distinct ((rr_entries r)[slot_of r 0 := n])" using assms(2,3) by (simp add: distinct_list_update)
  show "set ((rr_entries r)[slot_of r 0 := n]) = insert n (set (rr_entries r) - {b})"
    using set_update_distinct [OF assms(2) s] assms(4) by simp
qed

text \<open>The buffers after a packet \<open>b\<close> has left the ring, to the queue (\<open>a\<close>) or back to the pool.\<close>

lemma bufs_ok_taken:
  assumes "bufs_ok env r v F qs" and "rx_shape r" and "b = rr_entries r ! slot_of r 0" and "n \<in> F"
    and "rr_entries r1 = (rr_entries r)[slot_of r 0 := n]" and "b \<in> set (rr_entries r)"
    and "mbufs_ok (re_pool env) (rw_mw v1) (if a then F - {n} else insert b (F - {n}))"
    and "rx_lists (re_cpu env) qs1 (eth_view v1)" and "length qs1 = length qs"
    and "set (concat qs1) = (if a then insert b (set (concat qs)) else set (concat qs))"
    and "\<And>x. x \<in> insert n (set (rr_entries r) - {b}) \<Longrightarrow> mbuf_pool (rw_mw v1) x = re_pool env"
  shows "bufs_ok env r1 v1 (if a then F - {n} else insert b (F - {n})) qs1"
proof -
  note nf = bufs_ok_free [OF assms(1,4)]
  note es = entries_taken [OF assms(2) bufs_okD(2) [OF assms(1)] conjunct2 [OF nf] assms(3)]
  note b = bufs_okD(5) [OF assms(1,6), unfolded in_ring_def]
  note n = bufs_okD(6) [OF assms(1,4)]
  have ring: "in_ring env v1 (if a then F - {n} else insert b (F - {n})) qs1 x"
    if "x \<in> insert n (set (rr_entries r) - {b})" for x
  proof (cases "x = n")
    case True
    with nf n b assms(4,6,10) assms(11) [OF that] show ?thesis by (auto simp: in_ring_def)
  next
    case False
    with that have x: "x \<in> set (rr_entries r)" "x \<noteq> b" by auto
    from bufs_okD(5) [OF assms(1) x(1), unfolded in_ring_def] x(2) assms(10) assms(11) [OF that]
    show ?thesis by (auto simp: in_ring_def)
  qed
  have free: "m \<notin> set (concat qs1) \<and> even m" if "m \<in> (if a then F - {n} else insert b (F - {n}))" for m
  proof (cases "m = b")
    case True
    then show ?thesis using that b assms(10) by (auto split: if_splits)
  next
    case False
    then have "m \<in> F" using that by (auto split: if_splits)
    from bufs_okD(6) [OF assms(1) this] False assms(10) show ?thesis by auto
  qed
  show ?thesis
    unfolding bufs_ok_def assms(5,9) es(1)
    using assms(7,8) es(2) ring free bufs_okD(4) [OF assms(1)] by blast
qed

lemma poll_takes:
  assumes "rx_shape r" and "bufs_ok env r v F qs" and "groups_ok env v"
    and "d = rr_ring r ! slot_of r 0" and "b = rr_entries r ! slot_of r 0" and "rx_done d" and "F \<noteq> {}"
    and "a \<longleftrightarrow> rx_valid_checksum d \<and> length (qs ! re_rxq env) < 32768"
  shows "\<exists>n r1 v1. rx_poll_one env (r, v) = Inr (True, r1, v1) \<and> n \<in> F \<and>
    r1 = r\<lparr>rr_entries := (rr_entries r)[slot_of r 0 := n],
       rr_ring := (rr_ring r)[slot_of r 0 := read_desc (mbuf_get_data_machaddr (re_phys_base env) n)],
       rr_head := rr_head r + 1\<rparr> \<and>
    groups_ok env v1 \<and>
    bufs_ok env r1 v1 (if a then F - {n} else insert b (F - {n}))
      (if a then qs[re_rxq env := qs ! re_rxq env @ [b]] else qs) \<and>
    (a \<longrightarrow> noted (rw_mw v1) b = (unat (rxd_length d), fg_id (desc_fg env d), re_tsc env)) \<and>
    (\<forall>x. x \<notin> F \<longrightarrow> x \<noteq> b \<longrightarrow> x \<noteq> NULL \<longrightarrow> noted (rw_mw v1) x = noted (rw_mw v) x)"
proof -
  let ?w1 = "stamp env b d (desc_fg env d) (rw_mw v)"
  note st = poll_stamped [OF assms(1-5)]
  note bugs = assms(3) [unfolded groups_ok_def, THEN conjunct1]
  from mbuf_alloc_law [OF st(7)] assms(7) obtain n w2 where n: "mbuf_alloc False (re_pool env) ?w1 = Inr (n, w2)"
    "n \<in> F" "n \<noteq> NULL" "mbufs_ok (re_pool env) w2 (F - {n})" "mbuf_pool w2 n = re_pool env" by blast
  have bn: "b \<noteq> n" using st(3) n(2) by auto
  note fr = mbuf_alloc_frame [OF n(1)]
  let ?v2 = "v\<lparr>rw_mw := w2\<rparr>"
  have note2: "noted w2 x = noted ?w1 x" if "x \<noteq> n" for x using fr [OF that] by (simp add: noted_def)
  have pool2: "mbuf_pool w2 x = re_pool env" if "x \<in> insert n (set (rr_entries r))" for x
  proof (cases "x = n")
    case False
    then show ?thesis
      using fr [OF False] that bufs_okD(5) [OF assms(2), of x] by (simp add: stamp_noted in_ring_def)
  qed (simp add: n(5))
  have lists2: "rx_lists (re_cpu env) qs (eth_view ?v2)"
  proof (rule rx_lists_view [OF st(8)])
    fix x assume "x \<in> set (concat qs)"
    then have "x \<noteq> n" using bufs_okD(6) [OF assms(2) n(2)] by blast
    then show "links (eth_view ?v2) x = links (eth_view (v\<lparr>rw_mw := ?w1\<rparr>)) x" using fr by (simp add: eth_view_def)
  qed (simp add: eth_view_def)
  let ?r1 = "r\<lparr>rr_entries := (rr_entries r)[slot_of r 0 := n],
       rr_ring := (rr_ring r)[slot_of r 0 := read_desc (mbuf_get_data_machaddr (re_phys_base env) n)],
       rr_head := rr_head r + 1\<rparr>"
  have run: "rx_poll_one env (r, v) =
      bindR (if \<not> rx_valid_checksum d then drop_mbuf env b ?v2
             else bindR (recv_mbuf env b ?v2) (\<lambda>(ret, v3). if ret \<noteq> 0 then drop_mbuf env b v3 else Inr v3))
        (\<lambda>v4. Inr (True, ?r1, v4))"
    using st(2) n(1,3) assms(6) bugs
    by (simp add: rx_poll_one_def Let_def poll_slot [OF assms(1), folded assms(4,5)] slot_word [OF assms(1)] desc_fg_read [OF assms(3)])
  text \<open>Giving the packet back to the pool.\<close>
  have drop: "\<exists>v4. drop_mbuf env b v3 = Inr v4 \<and> fgs (rw_eth v4) = fgs (rw_eth v) \<and>
      bufs_ok env ?r1 v4 (insert b (F - {n})) qs \<and>
      (\<forall>x. x \<notin> F \<longrightarrow> x \<noteq> b \<longrightarrow> x \<noteq> NULL \<longrightarrow> noted (rw_mw v4) x = noted (rw_mw v) x)"
    if v3: "mbufs_ok (re_pool env) (rw_mw v3) (F - {n})" "mbuf_pool (rw_mw v3) = mbuf_pool w2"
      "noted (rw_mw v3) = noted w2" "rx_lists (re_cpu env) qs (eth_view v3)" "fgs (rw_eth v3) = fgs (rw_eth v)" for v3
  proof -
    have pb: "mbuf_pool (rw_mw v3) b = re_pool env" using v3(2) pool2 [of b] st(1) by simp
    have nb: "b \<notin> F - {n}" using st(3) by blast
    from mbuf_free_law [OF v3(1) pb st(2) nb] obtain w4 where w4: "mbuf_free False b (rw_mw v3) = Inr w4"
      "mbufs_ok (re_pool env) w4 (insert b (F - {n}))" "mw_mbufs w4 = mw_mbufs (rw_mw v3)" by blast
    note ff = mbuf_free_frame [OF v3(1) pb w4(1)]
    let ?v4 = "v3\<lparr>rw_mw := w4\<rparr>"
    have view: "eth_view ?v4 = eth_view v3" using w4(3) by (simp add: eth_view_def)
    have "bufs_ok env ?r1 ?v4 (if False then F - {n} else insert b (F - {n})) qs"
    proof (rule bufs_ok_taken [OF assms(2,1,5) n(2) _ st(1)])
      show "mbuf_pool (rw_mw ?v4) x = re_pool env" if x: "x \<in> insert n (set (rr_entries r) - {b})" for x
      proof -
        have "x \<noteq> b" "x \<notin> F - {n}" "x \<noteq> NULL"
          using x bn n(3) bufs_okD(5) [OF assms(2), of x, unfolded in_ring_def] by auto
        then show ?thesis using ff [of x] v3(2) pool2 [of x] x by auto
      qed
    qed (use w4(2) v3(4) view in simp_all)
    moreover have "noted (rw_mw ?v4) x = noted (rw_mw v) x" if "x \<notin> F" "x \<noteq> b" "x \<noteq> NULL" for x
    proof -
      have "noted w4 x = noted (rw_mw v3) x" using ff [of x] that by (simp add: noted_def)
      also have "\<dots> = noted ?w1 x" using v3(3) note2 [of x] that n(2) by auto
      finally show ?thesis using stamp_noted(2) [of x b] that by simp
    qed
    ultimately show ?thesis using w4(1) v3(5) bugs by (intro exI [of _ ?v4]) (simp add: drop_mbuf_def)
  qed
  show ?thesis
  proof (cases "rx_valid_checksum d")
    case False
    from drop [of ?v2] n(4) lists2 obtain v4 where v4: "drop_mbuf env b ?v2 = Inr v4" "fgs (rw_eth v4) = fgs (rw_eth v)"
      "bufs_ok env ?r1 v4 (insert b (F - {n})) qs"
      "\<forall>x. x \<notin> F \<longrightarrow> x \<noteq> b \<longrightarrow> x \<noteq> NULL \<longrightarrow> noted (rw_mw v4) x = noted (rw_mw v) x" by auto
    have "rx_poll_one env (r, v) = Inr (True, ?r1, v4)" using run False v4(1) by simp
    then show ?thesis using n(2) v4(3,4) groups_ok_same [OF assms(3) v4(2)] False assms(8) by (intro exI) auto
  next
    case True
    have own: "owner env ?v2 (mb_fg_id (mw_mbufs (rw_mw ?v2) b))"
      using desc_fg_read(2) [OF assms(3), of d] fr [OF bn] by (simp add: owner_def stamp_def)
    from recv_mbuf_appends [OF lists2 bufs_okD(4) [OF assms(2)] st(2,4) own] obtain ret v3 where
      v3: "recv_mbuf env b ?v2 = Inr (ret, v3)" "ret = 0 \<longleftrightarrow> length (qs ! re_rxq env) < 32768"
        "rx_lists (re_cpu env) (if ret = 0 then qs[re_rxq env := qs ! re_rxq env @ [b]] else qs) (eth_view v3)"
        "fgs (rw_eth v3) = fgs (rw_eth v)" "noted (rw_mw v3) = noted w2"
      and s3: "mw_pools (rw_mw v3) = mw_pools w2" "mw_ds (rw_mw v3) = mw_ds w2" "mw_hdrs (rw_mw v3) = mw_hdrs w2"
      by auto
    have p3: "mbuf_pool (rw_mw v3) = mbuf_pool w2" using s3(3) by (simp add: mbuf_pool_def fun_eq_iff)
    have ok3: "mbufs_ok (re_pool env) (rw_mw v3) (F - {n})" using mbufs_ok_same [OF s3] n(4) by simp
    show ?thesis
    proof (cases "ret = 0")
      case ret: False
      from drop [of v3] v3 ok3 p3 ret obtain v4 where v4: "drop_mbuf env b v3 = Inr v4" "fgs (rw_eth v4) = fgs (rw_eth v)"
        "bufs_ok env ?r1 v4 (insert b (F - {n})) qs"
        "\<forall>x. x \<notin> F \<longrightarrow> x \<noteq> b \<longrightarrow> x \<noteq> NULL \<longrightarrow> noted (rw_mw v4) x = noted (rw_mw v) x" by auto
      have "rx_poll_one env (r, v) = Inr (True, ?r1, v4)" using run True v3(1) ret v4(1) by simp
      moreover have "\<not> a" using ret v3(2) assms(8) by simp
      ultimately show ?thesis using n(2) v4(3,4) groups_ok_same [OF assms(3) v4(2)] by (intro exI) auto
    next
      case ret: True
      have a: a using ret v3(2) assms(8) True by simp
      have "rx_poll_one env (r, v) = Inr (True, ?r1, v3)" using run True v3(1) ret by simp
      moreover have "bufs_ok env ?r1 v3 (if a then F - {n} else insert b (F - {n})) (qs[re_rxq env := qs ! re_rxq env @ [b]])"
      proof (rule bufs_ok_taken [OF assms(2,1,5) n(2) _ st(1)])
        have i: "re_rxq env < length qs" by (rule bufs_okD(4) [OF assms(2)])
        have "set (concat (qs[re_rxq env := qs ! re_rxq env @ [b]])) = insert b (set (concat qs))"
          by (rule set_concat_append_at [OF i])
        then show "set (concat (qs[re_rxq env := qs ! re_rxq env @ [b]])) = (if a then insert b (set (concat qs)) else set (concat qs))"
          using a by simp
      qed (use ok3 v3(3) ret a p3 pool2 in \<open>simp_all, blast?\<close>)
      moreover have "noted (rw_mw v3) b = (unat (rxd_length d), fg_id (desc_fg env d), re_tsc env)"
        using v3(5) note2 [OF bn] stamp_noted(1) by simp
      moreover have "noted (rw_mw v3) x = noted (rw_mw v) x" if "x \<notin> F" "x \<noteq> b" for x
        using v3(5) note2 [of x] n(2) that stamp_noted(2) by metis
      ultimately show ?thesis using a n(2) groups_ok_same [OF assms(3) v3(4)] by (intro exI) auto
    qed
  qed
qed

section \<open>The polling loop\<close>

lemma adapter_keeps:
  assumes "rx_ring_ok wb r" and "adapter wb nic"
  shows "rx_ring_ok wb (r\<lparr>rr_ring := nic k r\<rparr>)"
    and "j < unat (rr_len r) \<Longrightarrow> rx_done (rr_ring r ! slot_of r j) \<Longrightarrow> rx_done (nic k r ! slot_of r j)"
proof -
  note ok = assms(1) [unfolded rx_ring_ok_def]
  note sh = ok [THEN conjunct1]
  have nic: "length (nic k r) = length (rr_ring r)"
    "\<And>s. s < length (rr_ring r) \<Longrightarrow> nic k r ! s = rr_ring r ! s \<or> nic k r ! s = wb s \<and> s \<in> slot_of r ` {..<owned r}"
    using assms(2) by (auto simp: adapter_def)
  have slot: "slot_of r j < length (rr_ring r)" for j
    using slot_less [OF sh] sh by (simp add: rx_shape_def)
  have idx: "slot_of (r\<lparr>rr_ring := nic k r\<rparr>) = slot_of r" "owned (r\<lparr>rr_ring := nic k r\<rparr>) = owned r"
    by (simp_all add: fun_eq_iff slot_of_def owned_def)
  have step: "j < owned r \<and> nic k r ! slot_of r j = wb (slot_of r j)"
    if j: "j < unat (rr_len r)" and dn: "rx_done (nic k r ! slot_of r j)" for j
    using nic(2) [OF slot [of j]]
  proof
    assume "nic k r ! slot_of r j = rr_ring r ! slot_of r j"
    with ok j dn show ?thesis by auto
  next
    assume a: "nic k r ! slot_of r j = wb (slot_of r j) \<and> slot_of r j \<in> slot_of r ` {..<owned r}"
    then obtain i where i: "i < owned r" "slot_of r j = slot_of r i" by auto
    have "i < unat (rr_len r)" using i(1) sh by (simp add: rx_shape_def)
    with slot_inj [OF i(2) j] i(1) a show ?thesis by simp
  qed
  with sh nic(1) show "rx_ring_ok wb (r\<lparr>rr_ring := nic k r\<rparr>)"
    by (simp add: rx_ring_ok_def idx) (simp add: rx_shape_def owned_def)
  show "rx_done (nic k r ! slot_of r j)" if "j < unat (rr_len r)" "rx_done (rr_ring r ! slot_of r j)"
    using nic(2) [OF slot [of j]] ok that by metis
qed

lemma taken_ring_ok:
  assumes "rx_ring_ok wb r" and "0 < owned r" and "\<not> rx_done nd"
    and "r1 = r\<lparr>rr_entries := es, rr_ring := (rr_ring r)[slot_of r 0 := nd], rr_head := rr_head r + 1\<rparr>"
    and "length es = length (rr_entries r)"
  shows "rx_ring_ok wb r1"
proof -
  note ok = assms(1) [unfolded rx_ring_ok_def]
  note sh = ok [THEN conjunct1]
  have f: "rr_ring r1 = (rr_ring r)[slot_of r 0 := nd]" "rr_entries r1 = es" "rr_len r1 = rr_len r"
    by (simp_all add: assms(4))
  have idx: "slot_of r1 j = slot_of r (Suc j)" for j by (rule slot_next [OF sh]) (simp_all add: assms(4))
  have own: "owned r1 = owned r - 1" by (rule owned_next [OF assms(2)]) (simp_all add: assms(4))
  have "j < owned r1 \<and> rr_ring r1 ! slot_of r1 j = wb (slot_of r1 j)"
    if j: "j < unat (rr_len r)" and dn: "rx_done (rr_ring r1 ! slot_of r1 j)" for j
  proof (cases "Suc j < unat (rr_len r)")
    case True
    have "slot_of r (Suc j) \<noteq> slot_of r 0" using slot_inj [OF _ True, of 0] True by auto
    then have eq: "rr_ring r1 ! slot_of r1 j = rr_ring r ! slot_of r (Suc j)" by (simp add: idx f)
    with dn ok True have "Suc j < owned r" "rr_ring r ! slot_of r (Suc j) = wb (slot_of r (Suc j))" by auto
    then show ?thesis using own eq idx by auto
  next
    case False
    with j have "Suc j = unat (rr_len r)" by simp
    then have "slot_of r (Suc j) = slot_of r 0" by (simp add: slot_of_def)
    then have "rr_ring r1 ! slot_of r1 j = nd"
      using slot_less [OF sh, of 0] sh by (simp add: idx f rx_shape_def)
    with dn assms(3) show ?thesis by simp
  qed
  moreover have "rx_shape r1" using sh own assms(5) by (auto simp: rx_shape_def f)
  ultimately show ?thesis by (simp add: rx_ring_ok_def f)
qed

text \<open>The packets in the next \<open>n\<close> slots with their descriptors, and those the receive queue takes.\<close>

definition arrivals :: "(nat \<Rightarrow> adv_rx_desc) \<Rightarrow> rx_ring \<Rightarrow> nat \<Rightarrow> (addr \<times> adv_rx_desc) list" where
  "arrivals wb r n = map (\<lambda>j. (rr_entries r ! slot_of r j, wb (slot_of r j))) [0..<n]"

definition accepted :: "nat \<Rightarrow> (addr \<times> adv_rx_desc) list \<Rightarrow> addr list" where
  "accepted room ps = take room (map fst (filter (\<lambda>(b, d). rx_valid_checksum d) ps))"

lemma accepted_Cons: "accepted room ((b, d) # ps) =
    (if rx_valid_checksum d \<and> 0 < room then b # accepted (room - 1) ps else accepted room ps)"
  by (cases room) (simp_all add: accepted_def)

lemma accepted_subset: "set (accepted room ps) \<subseteq> fst ` set ps"
  using set_take_subset [of room "map fst (filter (\<lambda>(b, d). rx_valid_checksum d) ps)"] by (auto simp: accepted_def)

lemma arrivals_Suc:
  assumes "rx_shape r" and "rr_len r1 = rr_len r" and "rr_head r1 = rr_head r + 1" and "n < unat (rr_len r)"
    and "rr_entries r1 = (rr_entries r)[slot_of r 0 := m]"
  shows "arrivals wb r (Suc n) = (rr_entries r ! slot_of r 0, wb (slot_of r 0)) # arrivals wb r1 n"
proof -
  have "map (\<lambda>j. (rr_entries r ! slot_of r (Suc j), wb (slot_of r (Suc j)))) [0..<n] = arrivals wb r1 n"
    unfolding arrivals_def
  proof (rule map_cong [OF refl])
    fix j assume "j \<in> set [0..<n]"
    then have "slot_of r (Suc j) \<noteq> slot_of r 0" using slot_inj [of r "Suc j" 0] assms(4) by auto
    then show "(rr_entries r ! slot_of r (Suc j), wb (slot_of r (Suc j))) = (rr_entries r1 ! slot_of r1 j, wb (slot_of r1 j))"
      by (simp add: slot_next [OF assms(1-3)] assms(5))
  qed
  then show ?thesis by (simp add: arrivals_def upt_conv_Cons map_Suc_upt [symmetric] del: upt_Suc)
qed

text \<open>
  The result of the loop after \<open>n\<close> packets: \<open>ns\<close> are the fresh buffers in their slots. The
  loop only leaves a finished descriptor behind when there is no free buffer left.
\<close>

definition polled ::
  "ring_env \<Rightarrow> (nat \<Rightarrow> adv_rx_desc) \<Rightarrow> rx_ring \<times> rx_world \<times> addr set \<times> addr list list \<Rightarrow> nat \<Rightarrow> addr list \<Rightarrow>
   rx_ring \<times> rx_world \<times> addr set \<times> addr list list \<Rightarrow> bool" where
  "polled env wb = (\<lambda>(r, v, F, qs) n ns (r', v', F', qs').
     let ps = arrivals wb r n; acc = accepted (32768 - length (qs ! re_rxq env)) ps in
     n \<le> owned r \<and> length ns = n \<and> distinct ns \<and>
     qs' = qs[re_rxq env := qs ! re_rxq env @ acc] \<and>
     set ns \<subseteq> F \<union> (fst ` set ps - set acc) \<and> F' = F \<union> (fst ` set ps - set acc) - set ns \<and>
     rx_ring_ok wb r' \<and> bufs_ok env r' v' F' qs' \<and> groups_ok env v' \<and>
     rr_head r' = rr_head r + of_nat n \<and> rr_tail r' = rr_tail r \<and> rr_len r' = rr_len r \<and> rr_rdt r' = rr_rdt r \<and>
     owned r' = owned r - n \<and>
     (\<forall>j<unat (rr_len r). rr_entries r' ! slot_of r j = (if j < n then ns ! j else rr_entries r ! slot_of r j)) \<and>
     (\<forall>j<n. rr_ring r' ! slot_of r j = read_desc (mbuf_get_data_machaddr (re_phys_base env) (ns ! j))) \<and>
     (\<forall>j<unat (rr_len r). owned r \<le> j \<longrightarrow> rr_ring r' ! slot_of r j = rr_ring r ! slot_of r j) \<and>
     (\<forall>(b, d)\<in>set ps. b \<in> set acc \<longrightarrow> noted (rw_mw v') b = (unat (rxd_length d), fg_id (desc_fg env d), re_tsc env)) \<and>
     (\<forall>x. x \<notin> F \<longrightarrow> x \<notin> set (rr_entries r) \<longrightarrow> x \<noteq> NULL \<longrightarrow> noted (rw_mw v') x = noted (rw_mw v) x) \<and>
     (\<forall>c\<le>owned r. (\<forall>j<c. rx_done (rr_ring r ! slot_of r j)) \<longrightarrow> c \<le> n \<or> F' = {}))"

lemma polled_none:
  assumes "rx_ring_ok wb r'" and "bufs_ok env r' v' F qs" and "groups_ok env v'"
    and "r' = r\<lparr>rr_ring := ds\<rparr>"
    and "\<And>x. x \<notin> F \<Longrightarrow> x \<notin> set (rr_entries r) \<Longrightarrow> x \<noteq> NULL \<Longrightarrow> noted (rw_mw v') x = noted (rw_mw v) x"
    and "F \<noteq> {} \<Longrightarrow> 0 < owned r \<Longrightarrow> \<not> rx_done (rr_ring r ! slot_of r 0)"
    and "\<And>j. j < unat (rr_len r) \<Longrightarrow> owned r \<le> j \<Longrightarrow> ds ! slot_of r j = rr_ring r ! slot_of r j"
  shows "polled env wb (r, v, F, qs) 0 [] (r', v', F, qs)"
proof -
  have "c \<le> 0 \<or> F = {}" if "c \<le> owned r" "\<forall>j<c. rx_done (rr_ring r ! slot_of r j)" for c
    using assms(6) that by (cases c) auto
  moreover have "owned r' = owned r" by (simp add: assms(4) owned_def)
  ultimately show ?thesis
    using assms(1-3,5,7) by (simp add: polled_def arrivals_def accepted_def Let_def assms(4) list_update_id)
qed

text \<open>The first packet, then the others.\<close>

lemma polled_Suc:
  assumes ok: "rx_ring_ok wb r" and bok: "bufs_ok env r v F qs" and own: "0 < owned r" and m: "m \<in> F"
    and d: "d = wb (slot_of r 0)" and b: "b = rr_entries r ! slot_of r 0"
    and a: "a \<longleftrightarrow> rx_valid_checksum d \<and> length (qs ! re_rxq env) < 32768"
    and r1: "rr_entries r1 = (rr_entries r)[slot_of r 0 := m]"
      "rr_ring r1 = ds[slot_of r 0 := read_desc (mbuf_get_data_machaddr (re_phys_base env) m)]"
      "rr_head r1 = rr_head r + 1" "rr_tail r1 = rr_tail r" "rr_len r1 = rr_len r" "rr_rdt r1 = rr_rdt r"
    and ds: "length ds = length (rr_ring r)"
      "\<And>j. j < unat (rr_len r) \<Longrightarrow> rx_done (rr_ring r ! slot_of r j) \<Longrightarrow> rx_done (ds ! slot_of r j)"
      "\<And>j. j < unat (rr_len r) \<Longrightarrow> owned r \<le> j \<Longrightarrow> ds ! slot_of r j = rr_ring r ! slot_of r j"
    and F1: "F1 = (if a then F - {m} else insert b (F - {m}))"
    and qs1: "qs1 = (if a then qs[re_rxq env := qs ! re_rxq env @ [b]] else qs)"
    and nb: "a \<longrightarrow> noted (rw_mw v1) b = (unat (rxd_length d), fg_id (desc_fg env d), re_tsc env)"
    and nx: "\<forall>x. x \<notin> F \<longrightarrow> x \<noteq> b \<longrightarrow> x \<noteq> NULL \<longrightarrow> noted (rw_mw v1) x = noted (rw_mw v) x"
    and rest: "polled env wb (r1, v1, F1, qs1) n ns (r', v', F', qs')"
  shows "polled env wb (r, v, F, qs) (Suc n) (m # ns) (r', v', F', qs')"
proof -
  let ?i = "re_rxq env" and ?ps = "arrivals wb r1 n"
  let ?room = "32768 - length (qs ! ?i)"
  let ?acc = "accepted (32768 - length (qs1 ! ?i)) ?ps"
  note sh = ok [unfolded rx_ring_ok_def, THEN conjunct1]
  note R = rest [unfolded polled_def prod.case Let_def]
  have i: "?i < length qs" by (rule bufs_okD(4) [OF bok])
  have own1: "owned r1 = owned r - 1" by (rule owned_next [OF own r1(4,3)])
  have n: "n \<le> owned r1" using R by simp
  have len: "Suc n < unat (rr_len r)" using n own1 own shape_owned [OF sh] by linarith
  have idx: "slot_of r1 j = slot_of r (Suc j)" for j by (rule slot_next [OF sh r1(5,3)])
  have ps: "arrivals wb r (Suc n) = (b, d) # ?ps"
    using arrivals_Suc [OF sh r1(5,3) _ r1(1)] len b d by simp
  have acc: "accepted ?room ((b, d) # ?ps) = (if a then b # ?acc else ?acc)"
    using i by (simp add: accepted_Cons a qs1)
  have bin: "b \<in> set (rr_entries r)" using slot_less [OF sh, of 0] sh b by (simp add: rx_shape_def)
  note mfree = bufs_ok_free [OF bok m] and bring = bufs_okD(5) [OF bok bin, unfolded in_ring_def]
  have bm: "b \<noteq> m" using bring m by auto
  have es: "set (rr_entries r1) = insert m (set (rr_entries r) - {b})"
    unfolding r1(1) using entries_taken(1) [OF sh bufs_okD(2) [OF bok] conjunct2 [OF mfree] b] .
  have psin: "fst ` set ?ps \<subseteq> set (rr_entries r1) - {m}"
  proof
    fix x assume "x \<in> fst ` set ?ps"
    then obtain j where j: "j < n" "x = rr_entries r1 ! slot_of r (Suc j)"
      by (auto simp: arrivals_def idx)
    then have ne: "slot_of r (Suc j) \<noteq> slot_of r 0" using slot_inj [of r "Suc j" 0] len by auto
    have x: "x = rr_entries r ! slot_of r (Suc j)" using j(2) ne r1(1) by simp
    have l: "slot_of r (Suc j) < length (rr_entries r)" "slot_of r 0 < length (rr_entries r)"
      using slot_less [OF sh] sh by (simp_all add: rx_shape_def)
    have "x \<in> set (rr_entries r)" using x l by simp
    moreover have "x \<noteq> b" using x b ne l bufs_okD(2) [OF bok] by (simp add: nth_eq_iff_index_eq)
    ultimately show "x \<in> set (rr_entries r1) - {m}" using es mfree by auto
  qed
  have bps: "b \<notin> fst ` set ?ps" "m \<notin> fst ` set ?ps" using psin es bm by auto
  have bacc: "b \<notin> set ?acc" using accepted_subset [of _ ?ps] bps by blast
  let ?D = "fst ` set ?ps - set ?acc" and ?acc2 = "if a then b # ?acc else ?acc"
  have D: "fst ` set ((b, d) # ?ps) - set ?acc2 = (if a then ?D else insert b ?D)"
    using bps(1) bacc by auto
  have ns: "set ns \<subseteq> F1 \<union> ?D" "F' = F1 \<union> ?D - set ns" "length ns = n" "distinct ns" using R by simp_all
  have mns: "m \<notin> set ns" using ns(1) bps(2) bm by (auto simp: F1 split: if_splits)
  have c1: "set (m # ns) \<subseteq> F \<union> (fst ` set ((b, d) # ?ps) - set ?acc2)"
    unfolding D using ns(1) m by (auto simp: F1 split: if_splits)
  have c2: "F' = F \<union> (fst ` set ((b, d) # ?ps) - set ?acc2) - set (m # ns)"
    unfolding D ns(2) using bm bps(2) by (auto simp: F1 split: if_splits)
  have c3: "qs' = qs[?i := qs ! ?i @ ?acc2]"
    using R i by (simp add: qs1)
  have eq1: "rr_entries r1 ! slot_of r1 j = rr_entries r ! slot_of r (Suc j)" if "Suc j < unat (rr_len r)" for j
    using slot_inj [of r 0 "Suc j"] that by (simp add: idx r1(1)) (metis Zero_neq_Suc gr_implies_not0 neq0_conv nth_list_update_neq)
  have last: "slot_of r1 (unat (rr_len r) - 1) = slot_of r 0" using len by (simp add: idx) (simp add: slot_of_def)
  have s0: "slot_of r 0 < length (rr_entries r)" "slot_of r 0 < length ds"
    using slot_less [OF sh, of 0] sh ds(1) by (simp_all add: rx_shape_def)
  have R_es: "rr_entries r' ! slot_of r1 j = (if j < n then ns ! j else rr_entries r1 ! slot_of r1 j)"
    if "j < unat (rr_len r)" for j using R that r1(5) by simp
  have c4: "rr_entries r' ! slot_of r j = (if j < Suc n then (m # ns) ! j else rr_entries r ! slot_of r j)"
    if j: "j < unat (rr_len r)" for j
  proof (cases j)
    case 0
    have "rr_entries r' ! slot_of r1 (unat (rr_len r) - 1) = rr_entries r1 ! slot_of r1 (unat (rr_len r) - 1)"
      by (subst R_es) (use len in auto)
    then have "rr_entries r' ! slot_of r 0 = m" using s0 unfolding last by (simp add: r1(1))
    then show ?thesis using 0 by simp
  next
    case (Suc k)
    then show ?thesis using R_es [of k] j eq1 [of k] by (simp add: idx)
  qed
  have eq1r: "rr_ring r1 ! slot_of r1 j = ds ! slot_of r (Suc j)" if "Suc j < unat (rr_len r)" for j
    using slot_inj [of r 0 "Suc j"] that by (simp add: idx r1(2)) (metis Zero_neq_Suc gr_implies_not0 neq0_conv nth_list_update_neq)
  have R_ring: "rr_ring r' ! slot_of r1 j = rr_ring r1 ! slot_of r1 j" if "j < unat (rr_len r)" "owned r1 \<le> j" for j
    using R that r1(5) by simp
  have c5: "rr_ring r' ! slot_of r j = read_desc (mbuf_get_data_machaddr (re_phys_base env) ((m # ns) ! j))"
    if j: "j < Suc n" for j
  proof (cases j)
    case 0
    have "owned r1 \<le> unat (rr_len r) - 1" using own1 shape_owned [OF sh] by linarith
    then have "rr_ring r' ! slot_of r1 (unat (rr_len r) - 1) = rr_ring r1 ! slot_of r1 (unat (rr_len r) - 1)"
      by (intro R_ring) (use len in auto)
    then show ?thesis using s0 0 unfolding last by (simp add: r1(2))
  next
    case (Suc k)
    then show ?thesis using R j by (simp add: idx)
  qed
  have c6: "rr_ring r' ! slot_of r j = rr_ring r ! slot_of r j" if j: "j < unat (rr_len r)" "owned r \<le> j" for j
  proof (cases j)
    case 0
    then show ?thesis using j(2) own by simp
  next
    case (Suc k)
    have "owned r1 \<le> k" using own1 j(2) Suc by simp
    then show ?thesis using R_ring [of k] eq1r [of k] ds(3) [OF j] j(1) Suc by (simp add: idx)
  qed
  have R_noted: "noted (rw_mw v') x = noted (rw_mw v1) x"
    if "x \<notin> F1" "x \<notin> set (rr_entries r1)" "x \<noteq> NULL" for x using R that by blast
  have c7: "noted (rw_mw v') x = (unat (rxd_length e), fg_id (desc_fg env e), re_tsc env)"
    if x: "(x, e) \<in> set ((b, d) # ?ps)" "x \<in> set ?acc2" for x e
  proof (cases "x = b")
    case True
    with x bps(1) have e: "e = d" by force
    have A: a using True x(2) bacc by (cases a) auto
    have "noted (rw_mw v') b = noted (rw_mw v1) b"
      by (rule R_noted) (use A bring es bm F1 in auto)
    then show ?thesis using nb A e True by simp
  next
    case False
    with x have "(x, e) \<in> set ?ps" "x \<in> set ?acc" by (auto split: if_splits)
    then show ?thesis using R by fast
  qed
  have c8: "noted (rw_mw v') x = noted (rw_mw v) x" if x: "x \<notin> F" "x \<notin> set (rr_entries r)" "x \<noteq> NULL" for x
  proof -
    have "x \<noteq> b" using x(2) bin by auto
    moreover have "noted (rw_mw v') x = noted (rw_mw v1) x"
      by (rule R_noted) (use x m bin F1 es in \<open>auto split: if_splits\<close>)
    ultimately show ?thesis using nx x by simp
  qed
  have c9: "c \<le> Suc n \<or> F' = {}" if c: "c \<le> owned r" "\<forall>j<c. rx_done (rr_ring r ! slot_of r j)" for c
  proof (cases c)
    case (Suc k)
    have "rx_done (rr_ring r1 ! slot_of r1 j)" if j: "j < k" for j
    proof -
      have "Suc j < unat (rr_len r)" using j c(1) Suc shape_owned [OF sh] by linarith
      then show ?thesis using eq1r [of j] ds(2) [of "Suc j"] c(2) j Suc by simp
    qed
    moreover have "k \<le> owned r1" using own1 c(1) Suc by simp
    ultimately have "k \<le> n \<or> F' = {}" using R by blast
    then show ?thesis using Suc by simp
  qed simp
  have h1: "rx_ring_ok wb r'" "bufs_ok env r' v' F' qs'" "groups_ok env v'" using R by (blast, blast, blast)
  have h2: "rr_head r' = rr_head r + of_nat (Suc n)" "rr_tail r' = rr_tail r" "rr_len r' = rr_len r"
    "rr_rdt r' = rr_rdt r" using R by (simp_all add: r1(3-6) add.assoc)
  have h3: "owned r' = owned r - Suc n" using R own1 by simp
  have h4: "Suc n \<le> owned r" "length (m # ns) = Suc n" "distinct (m # ns)" using n own1 own ns(3,4) mns by simp_all
  have d4: "\<forall>j<unat (rr_len r). rr_entries r' ! slot_of r j = (if j < Suc n then (m # ns) ! j else rr_entries r ! slot_of r j)"
    using c4 by blast
  have d5: "\<forall>j<Suc n. rr_ring r' ! slot_of r j = read_desc (mbuf_get_data_machaddr (re_phys_base env) ((m # ns) ! j))"
    using c5 by blast
  have d6: "\<forall>j<unat (rr_len r). owned r \<le> j \<longrightarrow> rr_ring r' ! slot_of r j = rr_ring r ! slot_of r j" using c6 by blast
  have d7: "\<forall>(x, e)\<in>set ((b, d) # ?ps). x \<in> set ?acc2 \<longrightarrow>
      noted (rw_mw v') x = (unat (rxd_length e), fg_id (desc_fg env e), re_tsc env)" using c7 by blast
  have d8: "\<forall>x. x \<notin> F \<longrightarrow> x \<notin> set (rr_entries r) \<longrightarrow> x \<noteq> NULL \<longrightarrow> noted (rw_mw v') x = noted (rw_mw v) x"
    using c8 by blast
  have d9: "\<forall>c\<le>owned r. (\<forall>j<c. rx_done (rr_ring r ! slot_of r j)) \<longrightarrow> c \<le> Suc n \<or> F' = {}" using c9 by blast
  show ?thesis
    unfolding polled_def prod.case Let_def ps acc
    by (intro conjI; fact h4 c3 c1 c2 h1 h2 h3 d4 d5 d6 d7 d8 d9)
qed

text \<open>A finished descriptor when no buffer is free: the packet stays in the ring.\<close>

lemma poll_starved:
  assumes "rx_shape r" and "bufs_ok env r v {} qs" and "groups_ok env v" and "rx_done (rr_ring r ! slot_of r 0)"
  shows "\<exists>v1. rx_poll_one env (r, v) = Inr (False, r, v1) \<and> bufs_ok env r v1 {} qs \<and> groups_ok env v1 \<and>
    (\<forall>x. x \<notin> set (rr_entries r) \<longrightarrow> noted (rw_mw v1) x = noted (rw_mw v) x)"
proof -
  let ?d = "rr_ring r ! slot_of r 0" and ?b = "rr_entries r ! slot_of r 0"
  let ?w1 = "stamp env ?b ?d (desc_fg env ?d) (rw_mw v)"
  note st = poll_stamped [OF assms(1-3) refl refl]
  note bugs = assms(3) [unfolded groups_ok_def, THEN conjunct1]
  from mbuf_alloc_law [OF st(7)] obtain w2 where w2: "mbuf_alloc False (re_pool env) ?w1 = Inr (NULL, w2)"
    "mbufs_ok (re_pool env) w2 {}" by blast
  note same = mbuf_alloc_none [OF w2(1)]
  let ?v2 = "v\<lparr>rw_mw := w2\<rparr>"
  have run: "rx_poll_one env (r, v) = Inr (False, r, ?v2)"
    using st(2) w2(1) assms(4) bugs
    by (simp add: rx_poll_one_def Let_def poll_slot [OF assms(1)] slot_word [OF assms(1)] desc_fg_read [OF assms(3)])
  have view: "rx_lists (re_cpu env) qs (eth_view ?v2)"
    by (rule rx_lists_view [OF st(8)]) (simp_all add: eth_view_def same)
  have pool: "mbuf_pool w2 = mbuf_pool (rw_mw v)"
    using same by (simp add: fun_eq_iff mbuf_pool_def stamp_def set_mbuf_len_def)
  have "in_ring env ?v2 {} qs m" if "m \<in> set (rr_entries r)" for m
    using bufs_okD(5) [OF assms(2) that] pool by (simp add: in_ring_def)
  then have "bufs_ok env r ?v2 {} qs"
    using w2(2) view bufs_okD(2,4) [OF assms(2)] by (simp add: bufs_ok_def)
  moreover have "noted w2 x = noted (rw_mw v) x" if "x \<notin> set (rr_entries r)" for x
  proof -
    have "x \<noteq> ?b" using that st(1) by auto
    moreover have "noted w2 x = noted ?w1 x" using same by (simp add: noted_def mbuf_len_def)
    ultimately show ?thesis by (simp add: stamp_noted(2))
  qed
  moreover have "groups_ok env ?v2" by (rule groups_ok_same [OF assms(3)]) simp
  ultimately show ?thesis using run by (intro exI [of _ ?v2]) simp
qed

lemma poll_loop:
  assumes "rx_ring_ok wb r" and "adapter wb nic" and "bufs_ok env r v F qs" and "groups_ok env v" and "owned r < f"
  shows "\<exists>n ns r' v' F' qs'. rx_poll_loop env nic f nb (r, v) = Inr (nb + n, r', v') \<and>
    polled env wb (r, v, F, qs) n ns (r', v', F', qs')"
  using assms(1,3-5)
proof (induction f arbitrary: nb r v F qs)
  case (Suc f)
  let ?r0 = "r\<lparr>rr_ring := nic nb r\<rparr>"
  note nic = adapter_keeps [OF Suc.prems(1) assms(2), where k = nb]
  note ok0 = nic(1) and sh0 = nic(1) [unfolded rx_ring_ok_def, THEN conjunct1]
  have idx: "slot_of ?r0 = slot_of r" "owned ?r0 = owned r"
    by (simp_all add: fun_eq_iff slot_of_def owned_def)
  have bok0: "bufs_ok env ?r0 v F qs" using Suc.prems(2) by (simp add: bufs_ok_def)
  have sh: "rx_shape r" using Suc.prems(1) by (simp add: rx_ring_ok_def)
  have gap: "nic nb r ! slot_of r j = rr_ring r ! slot_of r j" if j: "j < unat (rr_len r)" "owned r \<le> j" for j
  proof -
    have "slot_of r j < length (rr_ring r)" using slot_less [OF sh] sh by (simp add: rx_shape_def)
    moreover have "slot_of r j \<notin> slot_of r ` {..<owned r}"
      using slot_inj [OF _ j(1)] j(2) shape_owned [OF sh] by force
    ultimately show ?thesis using assms(2) by (auto simp: adapter_def)
  qed
  have stop: "polled env wb (r, v, F, qs) 0 [] (?r0, v1, F, qs)"
    if "bufs_ok env ?r0 v1 F qs" "groups_ok env v1"
      "\<forall>x. x \<notin> set (rr_entries r) \<longrightarrow> noted (rw_mw v1) x = noted (rw_mw v) x"
      "F = {} \<or> \<not> rx_done (nic nb r ! slot_of r 0)" for v1
    by (rule polled_none [OF ok0 that(1,2) refl])
      (use that(3,4) gap nic(2) [of 0] shape_pos [OF sh] in auto)
  show ?case
  proof (cases "rx_done (nic nb r ! slot_of r 0)")
    case False
    then have "rx_poll_one env (?r0, v) = Inr (False, ?r0, v)" by (intro poll_idle [OF sh0]) (simp add: idx)
    then have "rx_poll_loop env nic (Suc f) nb (r, v) = Inr (nb + 0, ?r0, v)" by simp
    with stop [of v] bok0 Suc.prems(3) False show ?thesis by blast
  next
    case True
    show ?thesis
    proof (cases "F = {}")
      case empty: True
      from poll_starved [OF sh0 bok0 [unfolded empty] Suc.prems(3)] True idx obtain v1 where
        v1: "rx_poll_one env (?r0, v) = Inr (False, ?r0, v1)" "bufs_ok env ?r0 v1 F qs" "groups_ok env v1"
          "\<forall>x. x \<notin> set (rr_entries r) \<longrightarrow> noted (rw_mw v1) x = noted (rw_mw v) x"
        unfolding empty by auto
      then have "rx_poll_loop env nic (Suc f) nb (r, v) = Inr (nb + 0, ?r0, v1)" by simp
      with stop [OF v1(2-4)] empty show ?thesis by blast
    next
      case False
      let ?b = "rr_entries r ! slot_of r 0" and ?d = "nic nb r ! slot_of r 0"
      define a where "a \<longleftrightarrow> rx_valid_checksum ?d \<and> length (qs ! re_rxq env) < 32768"
      have dn: "rx_done (rr_ring ?r0 ! slot_of ?r0 0)" using True idx by simp
      from ok0 dn shape_pos [OF sh] idx have own: "0 < owned r" and wb: "?d = wb (slot_of r 0)"
        by (auto simp: rx_ring_ok_def)
      from poll_takes [OF sh0 bok0 Suc.prems(3) _ _ dn False, of _ a] obtain m r1 v1 where
        one: "rx_poll_one env (?r0, v) = Inr (True, r1, v1)" and m: "m \<in> F" and
        r1: "r1 = ?r0\<lparr>rr_entries := (rr_entries r)[slot_of r 0 := m],
          rr_ring := (nic nb r)[slot_of r 0 := read_desc (mbuf_get_data_machaddr (re_phys_base env) m)],
          rr_head := rr_head r + 1\<rparr>" and
        g1: "groups_ok env v1" and
        b1: "bufs_ok env r1 v1 (if a then F - {m} else insert ?b (F - {m}))
              (if a then qs[re_rxq env := qs ! re_rxq env @ [?b]] else qs)" and
        nb1: "a \<longrightarrow> noted (rw_mw v1) ?b = (unat (rxd_length ?d), fg_id (desc_fg env ?d), re_tsc env)" and
        nx1: "\<forall>x. x \<notin> F \<longrightarrow> x \<noteq> ?b \<longrightarrow> x \<noteq> NULL \<longrightarrow> noted (rw_mw v1) x = noted (rw_mw v) x"
        using idx by (auto simp: a_def)
      have ev: "even (re_phys_base env)" "even m"
        using Suc.prems(3) bufs_okD(6) [OF bok0 m] by (simp_all add: groups_ok_def)
      have ok1: "rx_ring_ok wb r1"
        by (rule taken_ring_ok [OF ok0 _ refilled_not_done [OF ev], where es = "(rr_entries r)[slot_of r 0 := m]"]) (use own idx r1 in auto)
      have own1: "owned r1 = owned r - 1" by (rule owned_next [OF own]) (simp_all add: r1)
      then have "owned r1 < f" using own Suc.prems(4) by simp
      from Suc.IH [OF ok1 b1 g1 this] obtain n ns r' v' F' qs' where
        loop: "rx_poll_loop env nic f (nb + 1) (r1, v1) = Inr (nb + 1 + n, r', v')" and
        rest: "polled env wb (r1, v1, if a then F - {m} else insert ?b (F - {m}),
            if a then qs[re_rxq env := qs ! re_rxq env @ [?b]] else qs) n ns (r', v', F', qs')" by blast
      have "polled env wb (r, v, F, qs) (Suc n) (m # ns) (r', v', F', qs')"
        by (rule polled_Suc [OF Suc.prems(1,2) own m wb refl a_def _ _ _ _ _ _ _ nic(2) gap refl refl nb1 nx1 rest])
          (use assms(2) in \<open>simp_all add: r1 adapter_def\<close>)
      moreover have "rx_poll_loop env nic (Suc f) nb (r, v) = Inr (nb + Suc n, r', v')" using one loop by simp
      ultimately show ?thesis by blast
    qed
  qed
qed simp

section \<open>Giving descriptors back\<close>

lemma return_owned:
  assumes "rx_shape r"
  shows "owned (rx_return_descs r) = (if 32 \<le> unat (rr_len r) - 1 - owned r then unat (rr_len r) - 1 else owned r)"
    and "rr_entries (rx_return_descs r) = rr_entries r" "rr_ring (rx_return_descs r) = rr_ring r"
    "rr_head (rx_return_descs r) = rr_head r" "rr_len (rx_return_descs r) = rr_len r"
proof -
  show "rr_entries (rx_return_descs r) = rr_entries r" "rr_ring (rx_return_descs r) = rr_ring r"
    "rr_head (rx_return_descs r) = rr_head r" "rr_len (rx_return_descs r) = rr_len r"
    by (simp_all add: rx_return_descs_def Let_def)
  have len: "1 \<le> rr_len r" using shape_pos [OF assms] by (simp add: word_le_nat_alt)
  have o: "owned r < unat (rr_len r)" by (rule shape_owned [OF assms])
  have eq: "rr_len r - (rr_tail r + 1 - rr_head r) = rr_len r - 1 - (rr_tail r - rr_head r)" by simp
  have l1: "unat (rr_len r - 1) = unat (rr_len r) - 1" using len by (simp only: unat_sub_le unat_1)
  have "rr_tail r - rr_head r \<le> rr_len r - 1"
    unfolding word_le_nat_alt l1 using o by (simp add: owned_def)
  then have n: "unat (rr_len r - (rr_tail r + 1 - rr_head r)) = unat (rr_len r) - 1 - owned r"
    unfolding eq by (simp only: unat_sub_le l1 owned_def)
  have c: "rr_len r - (rr_tail r + 1 - rr_head r) \<ge> IXGBE_RDT_THRESH \<longleftrightarrow> 32 \<le> unat (rr_len r) - 1 - owned r"
    unfolding word_le_nat_alt n by (simp add: IXGBE_RDT_THRESH_def)
  show "owned (rx_return_descs r) = (if 32 \<le> unat (rr_len r) - 1 - owned r then unat (rr_len r) - 1 else owned r)"
    unfolding rx_return_descs_def c using l1 by (simp add: owned_def Let_def algebra_simps)
qed

lemma return_ok:
  assumes "rx_ring_ok wb r"
  shows "rx_ring_ok wb (rx_return_descs r)"
proof -
  note ok = assms [unfolded rx_ring_ok_def]
  note ret = return_owned [OF ok [THEN conjunct1]]
  have idx: "slot_of (rx_return_descs r) = slot_of r" by (simp add: fun_eq_iff slot_of_def ret)
  have o: "owned r < unat (rr_len r)" by (rule shape_owned [OF ok [THEN conjunct1]])
  have ge: "owned r \<le> owned (rx_return_descs r)" "owned (rx_return_descs r) < unat (rr_len r)"
    using ret(1) o by auto
  have "rx_shape (rx_return_descs r)" using ok [THEN conjunct1] ge(2) by (simp add: rx_shape_def ret(2-5))
  with ok ge(1) show ?thesis by (auto simp: rx_ring_ok_def idx ret(2-5))
qed


text \<open>
  A ring of four whose head is about to wrap: slots 2 and 3 are finished (the latter with a
  checksum error), slot 0 will be while the driver polls, slot 1 is the gap.
\<close>

definition wb4 :: "nat \<Rightarrow> adv_rx_desc" where
  "wb4 s = (if s = 3 then \<lparr>rxd_pkt_addr = 0, rxd_hdr_addr = 0x3C80000041\<rparr>
            else \<lparr>rxd_pkt_addr = 0, rxd_hdr_addr = 0x3C00000061\<rparr>)"

definition ring4 :: rx_ring where
  "ring4 = \<lparr>rr_ring = [read_desc 2064, read_desc 2164, wb4 2, wb4 3], rr_entries = [2000, 2100, 2200, 2300],
     rr_rdt = 1, rr_head = 0xFFFE, rr_tail = 1, rr_len = 4\<rparr>"

definition nic4 :: "nat \<Rightarrow> rx_ring \<Rightarrow> adv_rx_desc list" where
  "nic4 k r = (if k = 2 \<and> (\<exists>i\<in>set [0..<owned r]. slot_of r i = 0) then (rr_ring r)[0 := wb4 0] else rr_ring r)"

definition world4 :: rx_world where
  "world4 = \<lparr>rw_eth = two_queues, rw_mw = three_mbufs
     \<lparr>mw_hdrs := (mw_hdrs three_mbufs)\<lparr>hdr_next := (hdr_next (mw_hdrs three_mbufs))(2000 := 64, 2100 := 64, 2200 := 64, 2300 := 64)\<rparr>,
      mw_mbufs := (mw_mbufs three_mbufs)(10 := (mw_mbufs three_mbufs 10)\<lparr>mb_next := 20\<rparr>)\<rparr>\<rparr>"

definition env4 :: ring_env where
  "env4 = \<lparr>re_cpu = 0, re_pool = 64, re_rxq = 1, re_fgs = replicate 128 (fg_at 0), re_phys_base = 0x100000000,
     re_bugs = False, re_tsc = 5\<rparr>"

lemma ring4_ok: "rx_ring_ok wb4 ring4"
proof -
  have len: "unat (rr_len ring4) = 4" "unat (rr_head ring4) = 0xFFFE" "owned ring4 = 3"
    by (simp_all add: ring4_def owned_def)
  have "rx_shape ring4" unfolding rx_shape_def len by (auto simp: ring4_def intro: exI [of _ 2])
  moreover have "\<not> rx_done (read_desc 2164)"
    by (simp add: rx_done_def read_desc_def rxd_status_error_def cpu_to_le32_def IXGBE_RXDADV_STAT_DD_def)
  moreover have "\<not> rx_done (read_desc 2064)"
    by (simp add: rx_done_def read_desc_def rxd_status_error_def cpu_to_le32_def IXGBE_RXDADV_STAT_DD_def)
  moreover have "slot_of ring4 0 = 2" "slot_of ring4 1 = 3" "slot_of ring4 2 = 0" "slot_of ring4 3 = 1"
    by (simp_all add: slot_of_def len)
  moreover have "j = 0 \<or> j = 1 \<or> j = 2 \<or> j = 3" if "j < 4" for j :: nat using that by auto
  moreover have "rr_ring ring4 = [read_desc 2064, read_desc 2164, wb4 2, wb4 3]" by (simp add: ring4_def)
  ultimately show ?thesis unfolding rx_ring_ok_def len by fastforce
qed

lemma nic4_adapter: "adapter wb4 nic4"
proof -
  have "nic4 k r ! s = rr_ring r ! s \<or> nic4 k r ! s = wb4 s \<and> s \<in> slot_of r ` {..<owned r}"
    if "s < length (rr_ring r)" for k r s
  proof (cases "s = 0")
    case True
    show ?thesis
    proof (cases "k = 2 \<and> (\<exists>i\<in>set [0..<owned r]. slot_of r i = 0)")
      case c: True
      then obtain i where "i < owned r" "slot_of r i = 0" by auto
      then have "0 \<in> slot_of r ` {..<owned r}" by (metis imageI lessThan_iff)
      with c True that show ?thesis by (simp add: nic4_def)
    next
      case False
      then show ?thesis unfolding nic4_def by (simp only: if_False simp_thms)
    qed
  next
    case False
    then have "(rr_ring r)[0 := wb4 0] ! s = rr_ring r ! s" by simp
    then show ?thesis by (simp add: nic4_def)
  qed
  moreover have "length (nic4 k r) = length (rr_ring r)" for k r by (simp add: nic4_def)
  ultimately show ?thesis by (simp add: adapter_def)
qed

lemma bufs4_ok: "bufs_ok env4 ring4 world4 {1000, 1016, 1032} [[10, 20], [30]]"
proof -
  have touch: "mbufs_ok 64 (w\<lparr>mw_hdrs := set_next (mw_hdrs w) m 64\<rparr>) F" if "mbufs_ok 64 w F" "m \<notin> F" for w m F
  proof -
    from that(1) obtain mp where mp: "mw_pools w 64 = Some mp" "pool_ok (mp, mw_ds w, mw_hdrs w) F"
      by (auto simp: mbufs_ok_def)
    from kmp.touch_law [OF mp(2) that(2), of 64 "hdr_next_chunk (mw_hdrs w) m"] mp(1) show ?thesis
      by (simp add: touch_hdr_def mbufs_ok_def set_next_chunk_idem)
  qed
  have "mbufs_ok 64 (rw_mw world4) {1000, 1016, 1032}"
    using touch [OF touch [OF touch [OF touch [OF three_mbufs_ok, of 2000], of 2100], of 2200], of 2300]
    by (simp add: world4_def mbufs_ok_def set_next_def)
  moreover have "rx_lists 0 [[10, 20], [30]] (eth_view world4)"
    by (auto simp: rx_lists_def rx_list_def eth_view_def world4_def two_queues_def three_mbufs_def less_Suc_eq)
  moreover have "mbuf_pool (rw_mw world4) m = 64" if "m \<in> {2000, 2100, 2200, 2300}" for m
    using that by (auto simp: mbuf_pool_def world4_def)
  ultimately show ?thesis by (auto simp: bufs_ok_def in_ring_def env4_def ring4_def)
qed

lemma groups4_ok: "groups_ok env4 world4"
  by (auto simp: groups_ok_def owner_def env4_def world4_def two_queues_def fg_at_def ETH_RSS_RETA_NUM_ENTRIES_def
      MBUF_INVALID_FG_ID_def in_set_replicate)


end

