(* ===== verification/Ixgbe_Tx_Spec.thy ===== *)
theory Ixgbe_Tx_Spec
  imports Ixgbe_Rings_Spec
begin

text \<open>
  The transmit ring: what \<open>ixgbe_tx_reclaim\<close> gives back, and the room it reports.
\<close>

section \<open>Packets in flight\<close>

text \<open>The entries from the head up to the tail; a context descriptor has a null entry.\<close>

definition tx_slot :: "tx_ring \<Rightarrow> nat \<Rightarrow> nat" where
  "tx_slot t j = (unat (tr_head t) + j) mod unat (tr_len t)"

definition tx_used :: "tx_ring \<Rightarrow> nat" where
  "tx_used t = unat (tr_tail t - tr_head t)"

definition in_flight :: "tx_ring \<Rightarrow> addr list" where
  "in_flight t = map (\<lambda>j. tr_entries t ! tx_slot t j) [0..<tx_used t]"

definition tx_shape :: "tx_ring \<Rightarrow> bool" where
  "tx_shape t \<longleftrightarrow> (\<exists>k\<le>15. unat (tr_len t) = 2 ^ k) \<and> length (tr_ring t) = unat (tr_len t) \<and>
     length (tr_entries t) = unat (tr_len t) \<and> tx_used t \<le> unat (tr_len t)"

text \<open>The adapter reports the \<open>j\<close>-th packet in flight as done or not.\<close>

definition tx_adapter :: "(nat \<Rightarrow> bool) \<Rightarrow> (nat \<Rightarrow> tx_ring \<Rightarrow> adv_tx_desc list) \<Rightarrow> bool" where
  "tx_adapter dn nic \<longleftrightarrow> (\<forall>j t. length (nic j t) = length (tr_ring t) \<and>
     (tx_shape t \<longrightarrow> tx_done (nic j t ! tx_slot t j) = dn j))"

definition flight_ok :: "addr \<Rightarrow> tx_ring \<Rightarrow> mbuf_world \<Rightarrow> addr set \<Rightarrow> nat \<Rightarrow> bool" where
  "flight_ok pool t w F n \<longleftrightarrow> mbufs_ok pool w F \<and>
     (\<forall>j. n \<le> j \<longrightarrow> j < tx_used t \<longrightarrow> in_flight t ! j \<noteq> NULL \<longrightarrow>
        in_flight t ! j \<notin> F \<and> mbuf_pool w (in_flight t ! j) = pool \<and>
        mb_done (mw_mbufs w (in_flight t ! j)) = mbuf_default_done \<and>
        (\<forall>i. n \<le> i \<longrightarrow> i < tx_used t \<longrightarrow> i \<noteq> j \<longrightarrow> in_flight t ! i \<noteq> in_flight t ! j))"

lemma length_in_flight [simp]: "length (in_flight t) = tx_used t"
  by (simp add: in_flight_def)

lemma in_flight_nth: "j < tx_used t \<Longrightarrow> in_flight t ! j = tr_entries t ! tx_slot t j"
  by (simp add: in_flight_def)

lemma tx_slot_less: "tx_shape t \<Longrightarrow> tx_slot t j < unat (tr_len t)"
  by (auto simp: tx_shape_def tx_slot_def)

lemma tx_slot_inj: "tx_slot t i = tx_slot t j \<Longrightarrow> i < unat (tr_len t) \<Longrightarrow> j < unat (tr_len t) \<Longrightarrow> i = j"
  unfolding tx_slot_def by (rule offset_mod_inj)

lemma tx_slot_word:
  assumes "tx_shape t"
  shows "unat (tr_head t + of_nat j AND (tr_len t - 1)) = tx_slot t j"
proof -
  from assms obtain k where k: "k \<le> 15" "unat (tr_len t) = 2 ^ k" by (auto simp: tx_shape_def)
  have "1 \<le> tr_len t" using k(2) by (simp add: word_le_nat_alt)
  then have "unat (tr_len t - 1) = 2 ^ k - 1" using k(2) by (simp only: unat_sub_le unat_1)
  then have "unat (tr_head t + of_nat j AND (tr_len t - 1)) = unat (tr_head t + of_nat j) mod 2 ^ k"
    using k(1) by (simp add: unat_and_mask)
  also have "\<dots> = (unat (tr_head t) + unat (of_nat j :: u16)) mod 2 ^ k"
    using k(1) by (simp add: unat_add_mod_pow2)
  also have "\<dots> = (unat (tr_head t) + j mod 2 ^ 16 mod 2 ^ k) mod 2 ^ k"
    by (simp add: unat_of_nat mod_add_right_eq)
  also have "j mod 2 ^ 16 mod 2 ^ k = j mod 2 ^ k"
    by (rule mod_mod_cancel, rule le_imp_power_dvd) (use k(1) in simp)
  finally show ?thesis by (simp add: tx_slot_def k(2) mod_add_right_eq)
qed

lemma tx_end:
  assumes "j \<le> tx_used t"
  shows "tr_head t + of_nat j = tr_tail t \<longleftrightarrow> j = tx_used t"
proof -
  have "tr_head t + of_nat j = tr_tail t \<longleftrightarrow> of_nat j = tr_tail t - tr_head t" by (metis add_diff_cancel_left' add.commute diff_add_cancel)
  also have "\<dots> \<longleftrightarrow> unat (of_nat j :: u16) = tx_used t" by (simp add: tx_used_def word_unat_eq_iff)
  also have "unat (of_nat j :: u16) = j"
  proof (rule unat_of_nat_small)
    have "tx_used t < 2 ^ 16" unfolding tx_used_def using unsigned_less [of "tr_tail t - tr_head t", where 'a = nat] by simp
    then show "j < 2 ^ LENGTH(16)" using assms by simp
  qed
  finally show ?thesis .
qed

text \<open>Clearing the entry of a completed packet.\<close>

lemma cleared:
  assumes "tx_shape t" and "j < tx_used t"
    and "t1 = t\<lparr>tr_ring := ds, tr_entries := (tr_entries t)[tx_slot t j := NULL]\<rparr>" and "length ds = length (tr_ring t)"
  shows "tx_shape t1" "tx_used t1 = tx_used t" "tx_slot t1 i = tx_slot t i"
    "i < tx_used t \<Longrightarrow> i \<noteq> j \<Longrightarrow> in_flight t1 ! i = in_flight t ! i"
proof -
  show u: "tx_used t1 = tx_used t" and s: "tx_slot t1 i = tx_slot t i" for i
    by (simp_all add: assms(3) tx_used_def tx_slot_def)
  show "tx_shape t1" using assms(1,4) u unfolding tx_shape_def by (simp add: assms(3))
  show "in_flight t1 ! i = in_flight t ! i" if "i < tx_used t" "i \<noteq> j"
  proof -
    have "tx_used t \<le> unat (tr_len t)" using assms(1) by (simp add: tx_shape_def)
    then have "tx_slot t j \<noteq> tx_slot t i" using tx_slot_inj [of t j i] that assms(2) by auto
    then show ?thesis using that(1) u s by (simp add: in_flight_nth) (simp add: assms(3))
  qed
qed

section \<open>Reclaiming\<close>

text \<open>
  \<open>n\<close> entries are given back when \<open>nb\<close> already are: up to a completed packet, and no further
  because the next packet is not done. \<open>packets_of\<close> are the packets among given entries.
\<close>

definition reclaims :: "(nat \<Rightarrow> bool) \<Rightarrow> tx_ring \<Rightarrow> nat \<Rightarrow> nat \<Rightarrow> bool" where
  "reclaims dn t nb n \<longleftrightarrow> nb \<le> n \<and> n \<le> tx_used t \<and> (n = nb \<or> in_flight t ! (n - 1) \<noteq> NULL) \<and>
     (\<forall>j. nb \<le> j \<longrightarrow> j < n \<longrightarrow> in_flight t ! j \<noteq> NULL \<longrightarrow> dn j) \<and>
     (\<forall>j. n \<le> j \<longrightarrow> j < tx_used t \<longrightarrow> in_flight t ! j \<noteq> NULL \<longrightarrow>
        (\<forall>i. n \<le> i \<longrightarrow> i < j \<longrightarrow> in_flight t ! i = NULL) \<longrightarrow> \<not> dn j)"

definition packets_of :: "tx_ring \<Rightarrow> nat \<Rightarrow> nat \<Rightarrow> addr set" where
  "packets_of t a b = (!) (in_flight t) ` {a..<b} - {NULL}"

lemma in_flight_ring: "in_flight (t\<lparr>tr_ring := ds\<rparr>) = in_flight t" "tx_used (t\<lparr>tr_ring := ds\<rparr>) = tx_used t"
    "length ds = length (tr_ring t) \<Longrightarrow> tx_shape (t\<lparr>tr_ring := ds\<rparr>) \<longleftrightarrow> tx_shape t"
    "flight_ok pool (t\<lparr>tr_ring := ds\<rparr>) w F n \<longleftrightarrow> flight_ok pool t w F n"
  by (simp_all add: in_flight_def tx_used_def tx_slot_def tx_shape_def flight_ok_def)

lemma packet_done:
  assumes "flight_ok pool t w F nb" and "tx_shape t" and "nb \<le> idx" and "idx < tx_used t" and "in_flight t ! idx \<noteq> NULL"
    and "t1 = t\<lparr>tr_ring := ds, tr_entries := (tr_entries t)[tx_slot t idx := NULL]\<rparr>" and "length ds = length (tr_ring t)"
  shows "\<exists>w1. mbuf_xmit_done False cb (in_flight t ! idx) w = Inr w1 \<and>
    flight_ok pool t1 w1 (insert (in_flight t ! idx) F) (idx + 1)"
proof -
  let ?m = "in_flight t ! idx"
  note fl = assms(1) [unfolded flight_ok_def]
  have m: "mbufs_ok pool w F" "?m \<notin> F" "mbuf_pool w ?m = pool" "mb_done (mw_mbufs w ?m) = mbuf_default_done"
    using fl assms(3-5) by blast+
  from mbuf_free_law [OF m(1,3) assms(5) m(2)] obtain w1 where w1: "mbuf_free False ?m w = Inr w1"
    "mbufs_ok pool w1 (insert ?m F)" "mw_mbufs w1 = mw_mbufs w" by blast
  note cl = cleared [OF assms(2,4,6,7)]
  have "flight_ok pool t1 w1 (insert ?m F) (idx + 1)"
    unfolding flight_ok_def
  proof (intro conjI allI impI)
    fix j assume j: "idx + 1 \<le> j" "j < tx_used t1" "in_flight t1 ! j \<noteq> NULL"
    have eq: "in_flight t1 ! i = in_flight t ! i" if "idx + 1 \<le> i" "i < tx_used t1" for i
      using cl(4) [of i] that cl(2) by simp
    have nn: "in_flight t ! j \<noteq> NULL" using j eq by simp
    have old: "in_flight t ! j \<notin> F" "mbuf_pool w (in_flight t ! j) = pool"
      "mb_done (mw_mbufs w (in_flight t ! j)) = mbuf_default_done" "?m \<noteq> in_flight t ! j"
      "\<forall>i. nb \<le> i \<longrightarrow> i < tx_used t \<longrightarrow> i \<noteq> j \<longrightarrow> in_flight t ! i \<noteq> in_flight t ! j"
      using fl j(1,2) nn assms(3,4) cl(2) by (auto dest: spec [of _ j])
    show "in_flight t1 ! j \<notin> insert ?m F" using old(1,4) eq [OF j(1,2)] by auto
    show "mbuf_pool w1 (in_flight t1 ! j) = pool"
      using mbuf_free_frame [OF m(1,3) w1(1), of "in_flight t ! j"] old(1,2,4) nn eq [OF j(1,2)] by simp
    show "mb_done (mw_mbufs w1 (in_flight t1 ! j)) = mbuf_default_done" using old(3) w1(3) eq [OF j(1,2)] by simp
    show "in_flight t1 ! i \<noteq> in_flight t1 ! j" if "idx + 1 \<le> i" "i < tx_used t1" "i \<noteq> j" for i
      using old(5) that eq [OF j(1,2)] eq [OF that(1,2)] assms(3) cl(2) by simp
  qed (rule w1(2))
  moreover have "mbuf_xmit_done False cb ?m w = Inr w1" using m(4) w1(1) by (simp add: mbuf_xmit_done_def)
  ultimately show ?thesis by blast
qed

lemma reclaim_runs:
  assumes "tx_shape t" and "tx_adapter dn nic" and "flight_ok pool t w F nb" and "nb \<le> idx" and "idx \<le> tx_used t"
    and "\<And>j. nb \<le> j \<Longrightarrow> j < idx \<Longrightarrow> in_flight t ! j = NULL" and "tx_used t - idx < f"
  shows "\<exists>n t' w'. reclaim_loop False cb nic f idx nb (t, w) = Inr (n, t', w') \<and> reclaims dn t nb n \<and>
    tr_head t' = tr_head t \<and> tr_tail t' = tr_tail t \<and> tr_len t' = tr_len t \<and> tr_tdt t' = tr_tdt t \<and> tx_shape t' \<and>
    (\<forall>j. n \<le> j \<longrightarrow> j < tx_used t \<longrightarrow> in_flight t' ! j = in_flight t ! j) \<and>
    flight_ok pool t' w' (F \<union> packets_of t nb n) n"
  using assms(1,3-7)
proof (induction f arbitrary: idx nb t w F)
  case (Suc f)
  have nic: "length (nic idx t) = length (tr_ring t)" "tx_done (nic idx t ! tx_slot t idx) = dn idx"
    using assms(2) Suc.prems(1) by (auto simp: tx_adapter_def)
  have nil: "packets_of t nb nb = {}" by (simp add: packets_of_def)
  show ?case
  proof (cases "idx = tx_used t")
    case True
    then have "reclaim_loop False cb nic (Suc f) idx nb (t, w) = Inr (nb, t, w)" using tx_end [of idx t] by simp
    moreover have "reclaims dn t nb nb" using Suc.prems(3,5) True by (auto simp: reclaims_def)
    ultimately show ?thesis using Suc.prems(1,2) nil by (metis Un_empty_right)
  next
    case False
    then have lt: "idx < tx_used t" using Suc.prems(4) by simp
    let ?m = "in_flight t ! idx" and ?slot = "tr_head t + of_nat idx AND (tr_len t - 1)"
    have ne: "tr_head t + of_nat idx \<noteq> tr_tail t" using tx_end [OF Suc.prems(4)] False by simp
    have slot: "unat ?slot = tx_slot t idx" by (rule tx_slot_word [OF Suc.prems(1)])
    have rd_e: "rd (tr_entries t) ?slot = Inr ?m"
      using tx_slot_less [OF Suc.prems(1)] Suc.prems(1) lt slot by (simp add: tx_shape_def in_flight_nth)
    have rd_d: "rd (nic idx t) ?slot = Inr (nic idx t ! tx_slot t idx)"
      using tx_slot_less [OF Suc.prems(1)] Suc.prems(1) nic(1) slot by (simp add: tx_shape_def)
    show ?thesis
    proof (cases "?m = NULL")
      case True
      have "\<And>j. nb \<le> j \<Longrightarrow> j < idx + 1 \<Longrightarrow> in_flight t ! j = NULL" using Suc.prems(5) True less_Suc_eq by auto
      from Suc.IH [OF Suc.prems(1,2) _ _ this] Suc.prems(3,6) lt
      show ?thesis using ne rd_e True by simp
    next
      case nz: False
      show ?thesis
      proof (cases "dn idx")
        case False
        let ?t = "t\<lparr>tr_ring := nic idx t\<rparr>"
        have "reclaim_loop False cb nic (Suc f) idx nb (t, w) = Inr (nb, ?t, w)"
          using ne rd_e rd_d nz nic(2) False by (simp add: Let_def)
        moreover have "reclaims dn t nb nb"
        proof -
          have "\<not> dn j" if "nb \<le> j" "j < tx_used t" "in_flight t ! j \<noteq> NULL"
            "\<forall>i. nb \<le> i \<longrightarrow> i < j \<longrightarrow> in_flight t ! i = NULL" for j
          proof -
            have "j = idx" using that Suc.prems(3,5) nz by (metis linorder_neqE_nat)
            then show ?thesis using False by simp
          qed
          then show ?thesis using Suc.prems(3) lt by (simp add: reclaims_def)
        qed
        moreover have "flight_ok pool ?t w (F \<union> packets_of t nb nb) nb"
          using Suc.prems(2) nil by (simp add: in_flight_ring)
        ultimately show ?thesis
          using Suc.prems(1) nic(1)
          by (intro exI [of _ nb] exI [of _ ?t] exI [of _ w] conjI) (simp_all add: in_flight_ring del: reclaim_loop.simps)
      next
        case True
        let ?t = "t\<lparr>tr_ring := nic idx t, tr_entries := (tr_entries t)[tx_slot t idx := NULL]\<rparr>"
        from packet_done [OF Suc.prems(2,1,3) lt nz refl nic(1), of cb] obtain w1 where
          w1: "mbuf_xmit_done False cb ?m w = Inr w1" "flight_ok pool ?t w1 (insert ?m F) (idx + 1)" by blast
        note cl = cleared [OF Suc.prems(1) lt refl nic(1)]
        have step: "reclaim_loop False cb nic (Suc f) idx nb (t, w) = reclaim_loop False cb nic f (idx + 1) (idx + 1) (?t, w1)"
          using ne rd_e rd_d nz nic(2) True w1(1) slot by (simp add: Let_def)
        have less: "tx_used ?t - (idx + 1) < f" and le: "idx + 1 \<le> tx_used ?t"
          using lt Suc.prems(6) unfolding cl(2) by linarith+
        have none: "\<And>j. idx + 1 \<le> j \<Longrightarrow> j < idx + 1 \<Longrightarrow> in_flight ?t ! j = NULL" by simp
        from Suc.IH [OF cl(1) w1(2) order_refl le none less] cl(2) obtain n t' w' where
          run: "reclaim_loop False cb nic f (idx + 1) (idx + 1) (?t, w1) = Inr (n, t', w')" and
          r: "reclaims dn ?t (idx + 1) n" and
          same: "tr_head t' = tr_head t" "tr_tail t' = tr_tail t" "tr_len t' = tr_len t" "tr_tdt t' = tr_tdt t" "tx_shape t'" and
          fl: "\<forall>j. n \<le> j \<longrightarrow> j < tx_used t \<longrightarrow> in_flight t' ! j = in_flight ?t ! j" and
          ok: "flight_ok pool t' w' (insert ?m F \<union> packets_of ?t (idx + 1) n) n" by auto
        have n: "idx < n" "n \<le> tx_used t" using r cl(2) by (simp_all add: reclaims_def)
        have eq: "in_flight ?t ! j = in_flight t ! j" if "idx < j" "j < tx_used t" for j using cl(4) that by simp
        have "reclaims dn t nb n"
          unfolding reclaims_def
        proof (intro conjI allI impI)
          show "n = nb \<or> in_flight t ! (n - 1) \<noteq> NULL"
            using r nz eq [of "n - 1"] n unfolding reclaims_def by (cases "n = idx + 1") auto
          show "dn j" if "nb \<le> j" "j < n" "in_flight t ! j \<noteq> NULL" for j
          proof -
            have "idx \<le> j" using Suc.prems(5) that by (metis linorder_not_less)
            then show ?thesis using r that True eq [of j] n unfolding reclaims_def by (cases "j = idx") auto
          qed
          show "\<not> dn j" if "n \<le> j" "j < tx_used t" "in_flight t ! j \<noteq> NULL"
            "\<forall>i. n \<le> i \<longrightarrow> i < j \<longrightarrow> in_flight t ! i = NULL" for j
            using r that eq n(1) cl(2) unfolding reclaims_def by simp
        qed (use n Suc.prems(3) in auto)
        moreover have "insert ?m F \<union> packets_of ?t (idx + 1) n = F \<union> packets_of t nb n"
        proof -
          have "packets_of ?t (idx + 1) n = packets_of t (idx + 1) n"
            unfolding packets_of_def using eq n(2) by (intro arg_cong [where f = "\<lambda>X. X - _"] image_cong) auto
          moreover have "packets_of t nb n = insert ?m (packets_of t (idx + 1) n)"
          proof -
            have "{nb..<n} = {nb..<idx} \<union> insert idx {idx + 1..<n}" using n(1) Suc.prems(3) by auto
            moreover have "(!) (in_flight t) ` {nb..<idx} \<subseteq> {NULL}" using Suc.prems(5) by auto
            ultimately show ?thesis unfolding packets_of_def using nz by auto
          qed
          ultimately show ?thesis by auto
        qed
        moreover have "\<forall>j. n \<le> j \<longrightarrow> j < tx_used t \<longrightarrow> in_flight t' ! j = in_flight t ! j" using fl eq n(1) by auto
        ultimately show ?thesis using run step same ok by metis
      qed
    qed
  qed
qed simp

lemma head_moved:
  assumes "tx_shape t" and "n \<le> tx_used t" and "t' = t\<lparr>tr_head := tr_head t + of_nat n\<rparr>"
  shows "tx_used t' = tx_used t - n" "tx_shape t'" "in_flight t' = drop n (in_flight t)"
    "tr_len t' + tr_head t' - tr_tail t' = of_nat (unat (tr_len t) - (tx_used t - n))"
proof -
  have f: "tr_len t' = tr_len t" "tr_tail t' = tr_tail t" "tr_entries t' = tr_entries t" "tr_ring t' = tr_ring t"
    "tr_head t' = tr_head t + of_nat n" by (simp_all add: assms(3))
  have small: "tx_used t < 2 ^ 16"
    unfolding tx_used_def using unsigned_less [of "tr_tail t - tr_head t", where 'a = nat] by simp
  have n: "unat (of_nat n :: u16) = n" by (rule unat_of_nat_small) (use assms(2) small in simp)
  have le: "(of_nat n :: u16) \<le> tr_tail t - tr_head t"
    using assms(2) n by (simp add: word_le_nat_alt tx_used_def)
  have eq: "tr_tail t' - tr_head t' = tr_tail t - tr_head t - of_nat n" by (simp add: f)
  show u: "tx_used t' = tx_used t - n"
    unfolding tx_used_def eq using unat_sub_le [OF le] n by simp
  have u2: "tx_used t' \<le> tx_used t" using u by simp
  have "tx_used t \<le> unat (tr_len t)" using assms(1) by (simp add: tx_shape_def)
  with u2 have "tx_used t' \<le> unat (tr_len t)" by (rule order_trans)
  then show sh: "tx_shape t'" using assms(1) by (simp add: tx_shape_def f)
  have z: "tx_slot t' 0 = tx_slot t n"
    using tx_slot_word [OF sh, of 0] tx_slot_word [OF assms(1), of n] by (simp add: f)
  have s: "tx_slot t' j = tx_slot t (n + j)" for j
  proof -
    have "tx_slot t' j = (tx_slot t' 0 + j) mod unat (tr_len t)" by (simp add: tx_slot_def f mod_add_left_eq)
    also have "\<dots> = tx_slot t (n + j)" unfolding z by (simp add: tx_slot_def mod_add_left_eq add.assoc)
    finally show ?thesis .
  qed
  show "in_flight t' = drop n (in_flight t)"
  proof (rule nth_equalityI)
    show "length (in_flight t') = length (drop n (in_flight t))" using u by simp
    show "in_flight t' ! i = drop n (in_flight t) ! i" if "i < length (in_flight t')" for i
    proof -
      have "i < tx_used t'" "n + i < tx_used t" using that u by simp_all
      then show ?thesis by (simp add: in_flight_nth s f)
    qed
  qed
  have "tr_tail t' - tr_head t' \<le> tr_len t"
    using u2 assms(1) by (simp add: word_le_nat_alt tx_used_def tx_shape_def)
  then have "unat (tr_len t - (tr_tail t' - tr_head t')) = unat (tr_len t) - tx_used t'"
    by (simp only: unat_sub_le tx_used_def)
  then have "tr_len t - (tr_tail t' - tr_head t') = of_nat (unat (tr_len t) - (tx_used t - n))"
    using of_nat_eqI u by metis
  then show "tr_len t' + tr_head t' - tr_tail t' = of_nat (unat (tr_len t) - (tx_used t - n))"
    by (simp add: f(1) algebra_simps)
qed

text \<open>C12: \<open>ixgbe_tx_reclaim\<close> completes the packets at the front of the ring that the adapter
  reports as done, each once and in order, up to the first that is not; their buffers go back
  to the pool. The entries up to the last completed packet leave the ring, context descriptors
  between them included, all others stay in place, and the result is the number of free
  descriptors.\<close>

theorem tx_reclaim_completes:
  assumes "tx_shape t" and "tx_adapter dn nic" and "flight_ok pool t w F 0" and "unat (tr_len t) < fuel"
  shows "\<exists>n t' w'. ixgbe_tx_reclaim False cb nic fuel (t, w) = Inr (of_nat (unat (tr_len t) - length (in_flight t')), t', w') \<and>
    reclaims dn t 0 n \<and> in_flight t' = drop n (in_flight t) \<and> tr_len t' = tr_len t \<and> tr_tail t' = tr_tail t \<and>
    tr_tdt t' = tr_tdt t \<and> tx_shape t' \<and> flight_ok pool t' w' (F \<union> packets_of t 0 n) 0"
proof -
  have "tx_used t - 0 < fuel" using assms(1,4) by (simp add: tx_shape_def)
  from reclaim_runs [OF assms(1-3), of 0 fuel cb] this obtain n t1 w' where
    run: "reclaim_loop False cb nic fuel 0 0 (t, w) = Inr (n, t1, w')" and r: "reclaims dn t 0 n" and
    same: "tr_head t1 = tr_head t" "tr_tail t1 = tr_tail t" "tr_len t1 = tr_len t" "tr_tdt t1 = tr_tdt t" "tx_shape t1" and
    fl: "\<forall>j. n \<le> j \<longrightarrow> j < tx_used t \<longrightarrow> in_flight t1 ! j = in_flight t ! j" and
    ok: "flight_ok pool t1 w' (F \<union> packets_of t 0 n) n" by auto
  let ?t = "t1\<lparr>tr_head := tr_head t1 + of_nat n\<rparr>"
  have used: "tx_used t1 = tx_used t" using same by (simp add: tx_used_def)
  have n: "n \<le> tx_used t1" using r used by (simp add: reclaims_def)
  note mv = head_moved [OF same(5) n refl]
  have "drop n (in_flight t1) = drop n (in_flight t)"
    by (rule nth_equalityI) (use fl n used in simp_all)
  then have inf: "in_flight ?t = drop n (in_flight t)" using mv(3) by simp
  have "flight_ok pool ?t w' (F \<union> packets_of t 0 n) 0"
    unfolding flight_ok_def
  proof (intro conjI allI impI)
    fix j assume j: "j < tx_used ?t" "in_flight ?t ! j \<noteq> NULL"
    have eq: "in_flight ?t ! i = in_flight t1 ! (n + i)" if "i < tx_used ?t" for i
      using that n mv(1,3) by simp
    have jn: "n + j < tx_used t1" using j(1) mv(1) by simp
    have "in_flight t1 ! (n + j) \<noteq> NULL" using j eq by simp
    with ok jn have o: "in_flight t1 ! (n + j) \<notin> F \<union> packets_of t 0 n" "mbuf_pool w' (in_flight t1 ! (n + j)) = pool"
      "mb_done (mw_mbufs w' (in_flight t1 ! (n + j))) = mbuf_default_done"
      "\<forall>i. n \<le> i \<longrightarrow> i < tx_used t1 \<longrightarrow> i \<noteq> n + j \<longrightarrow> in_flight t1 ! i \<noteq> in_flight t1 ! (n + j)"
      unfolding flight_ok_def by (auto dest: spec [of _ "n + j"])
    show "in_flight ?t ! j \<notin> F \<union> packets_of t 0 n" "mbuf_pool w' (in_flight ?t ! j) = pool"
      "mb_done (mw_mbufs w' (in_flight ?t ! j)) = mbuf_default_done" using o(1-3) eq [OF j(1)] by simp_all
    show "in_flight ?t ! i \<noteq> in_flight ?t ! j" if "i < tx_used ?t" "i \<noteq> j" for i
      using o(4) [rule_format, of "n + i"] that eq [OF j(1)] eq [OF that(1)] mv(1) by simp
  qed (use ok in \<open>simp add: flight_ok_def\<close>)
  moreover have "ixgbe_tx_reclaim False cb nic fuel (t, w) =
      Inr (of_nat (unat (tr_len t) - (tx_used t - n)), ?t, w')"
    using run mv(4) same(3) used by (simp add: ixgbe_tx_reclaim_def Let_def)
  ultimately show ?thesis using r inf mv(2) same by (intro exI [of _ n] exI [of _ ?t] exI [of _ w']) simp
qed

text \<open>A ring of four with a context descriptor and two packets, the first of them sent.\<close>

definition tx4 :: tx_ring where
  "tx4 = \<lparr>tr_ring = replicate 4 \<lparr>txd_0 = 0, txd_1 = 0, txd_2 = 0, txd_3 = 0\<rparr>, tr_entries = [2000, 2100, 0, 0],
     tr_tdt = 2, tr_head = 0xFFFF, tr_tail = 2, tr_len = 4, tr_ctx_cache = [0, 0]\<rparr>"

definition tx_nic4 :: "nat \<Rightarrow> tx_ring \<Rightarrow> adv_tx_desc list" where
  "tx_nic4 j t = replicate (length (tr_ring t)) \<lparr>txd_0 = 0, txd_1 = 0, txd_2 = 0, txd_3 = (if j \<le> 1 then 1 else 0)\<rparr>"

lemma tx4_flight: "tx_used tx4 = 3" "in_flight tx4 = [0, 2000, 2100]"
  by (simp_all add: tx4_def tx_used_def in_flight_def tx_slot_def upt_rec)

lemma tx4_shape: "tx_shape tx4"
  by (auto simp: tx_shape_def tx4_flight(1)) (auto simp: tx4_def intro: exI [of _ 2])

lemma tx_nic4_adapter: "tx_adapter (\<lambda>j. j \<le> 1) tx_nic4"
  using tx_slot_less
  by (auto simp: tx_adapter_def tx_nic4_def tx_shape_def tx_done_def IXGBE_TXD_STAT_DD_def nth_replicate)

lemma tx4_ok: "flight_ok 64 tx4 (rw_mw world4) {1000, 1016, 1032} 0"
proof -
  have "mbufs_ok 64 (rw_mw world4) {1000, 1016, 1032}"
    using bufs_okD(1) [OF bufs4_ok] by (simp add: env4_def)
  moreover have "mbuf_pool (rw_mw world4) m = 64 \<and> mb_done (mw_mbufs (rw_mw world4) m) = mbuf_default_done"
    if "m \<in> {2000, 2100}" for m
    using that by (auto simp: mbuf_pool_def world4_def three_mbufs_def)
  moreover have "[0, 2000, 2100 :: nat] ! i \<noteq> [0, 2000, 2100] ! j" if "i < 3" "j < 3" "i \<noteq> j" for i j
    using that by (auto simp: less_Suc_eq numeral_3_eq_3)
  moreover have "[0, 2000, 2100 :: nat] ! j \<in> {2000, 2100}" if "j < 3" "[0, 2000, 2100 :: nat] ! j \<noteq> 0" for j
    using that by (auto simp: less_Suc_eq numeral_3_eq_3)
  moreover have "m \<notin> {1000, 1016, 1032}" if "m \<in> {2000, 2100}" for m :: nat using that by auto
  ultimately show ?thesis unfolding flight_ok_def tx4_flight by blast
qed

theorem tx_reclaim_completes_witness:
  "\<exists>t' w'. ixgbe_tx_reclaim False (\<lambda>_ _ w. Inr w) tx_nic4 5 (tx4, rw_mw world4) = Inr (3, t', w') \<and>
     in_flight t' = [2100] \<and> mbufs_ok 64 w' {1000, 1016, 1032, 2000}"
proof -
  have len: "unat (tr_len tx4) = 4" by (simp add: tx4_def)
  then have "unat (tr_len tx4) < 5" by simp
  from tx_reclaim_completes [OF tx4_shape tx_nic4_adapter tx4_ok this, of "\<lambda>_ _ w. Inr w"] obtain n t' w' where
    run: "ixgbe_tx_reclaim False (\<lambda>_ _ w. Inr w) tx_nic4 5 (tx4, rw_mw world4) =
      Inr (of_nat (unat (tr_len tx4) - length (in_flight t')), t', w')" and
    r: "reclaims (\<lambda>j. j \<le> 1) tx4 0 n" and d: "in_flight t' = drop n (in_flight tx4)" and
    ok: "flight_ok 64 t' w' ({1000, 1016, 1032} \<union> packets_of tx4 0 n) 0"
    by (elim exE conjE) (rule that, assumption+)
  have "n \<le> 3" "n \<noteq> 0" "n \<noteq> 1" "n \<noteq> 3"
    using r unfolding reclaims_def tx4_flight by (auto dest: spec [of _ 1] spec [of _ 2])
  then have n: "n = 2" by simp
  then have f: "in_flight t' = [2100]" using d by (simp add: tx4_flight)
  then have "length (in_flight t') = 1" by (simp only: list.size)
  then have "ixgbe_tx_reclaim False (\<lambda>_ _ w. Inr w) tx_nic4 5 (tx4, rw_mw world4) = Inr (3, t', w')"
    using run unfolding len by simp
  moreover have "packets_of tx4 0 2 = {2000}"
    by (auto simp: packets_of_def tx4_flight atLeast0LessThan lessThan_Suc numeral_2_eq_2)
  moreover have "{1000, 1016, 1032} \<union> {2000} = {1000, 1016, 1032, 2000 :: nat}" by auto
  ultimately show ?thesis using ok n f by (metis flight_ok_def)
qed

end
