(* ===== verification/Ixgbe_Hw.thy ===== *)
theory Ixgbe_Hw
  imports Tcp_Api
begin

text \<open>
  Register access of the network driver (\<open>ixgbe/ixgbe_common.h\<close>). The adapter is not part of
  the program: the log \<open>io\<close> lists the accesses made so far, in order, and \<open>hw_answer\<close>, any
  function, is what the adapter answers to a read after these accesses. Delays have no effect
  on the state. Reading a register whose address space is not mapped is a fault; a write tests
  the mapping and does nothing without it.
\<close>

datatype access = Rd u32 | Wr u32 u32

type_synonym io = "access list"

text \<open>\<open>enum ixgbe_mac_type\<close>.\<close>

datatype ixgbe_mac_type = ixgbe_mac_unknown | ixgbe_mac_82598EB | ixgbe_mac_82599EB | ixgbe_mac_82599_vf
  | ixgbe_mac_X540 | ixgbe_mac_X540_vf | ixgbe_mac_X550 | ixgbe_mac_X550EM_x | ixgbe_mac_x550em_a

record hw_env =
  hw_addr :: addr
  hw_type :: ixgbe_mac_type
  hw_answer :: "io \<Rightarrow> u32 \<Rightarrow> u32"

definition IXGBE_STATUS :: u32 where "IXGBE_STATUS = 0x00008"

definition read_reg :: "hw_env \<Rightarrow> u32 \<Rightarrow> io \<Rightarrow> (u32 \<times> io) res" where
  "read_reg env r io = (if hw_addr env = NULL then Inl Fault else Inr (hw_answer env io r, io @ [Rd r]))"

definition write_reg :: "hw_env \<Rightarrow> u32 \<Rightarrow> u32 \<Rightarrow> io \<Rightarrow> io" where
  "write_reg env r v io = (if hw_addr env = NULL then io else io @ [Wr r v])"

definition write_flush :: "hw_env \<Rightarrow> io \<Rightarrow> io res" where
  "write_flush env io = bindR (read_reg env IXGBE_STATUS io) (\<lambda>(_, io'). Inr io')"

definition write_reg64 :: "hw_env \<Rightarrow> u32 \<Rightarrow> u64 \<Rightarrow> io \<Rightarrow> io" where
  "write_reg64 env r v io = write_reg env (r + 4) (ucast (drop_bit 32 v)) (write_reg env r (ucast v) io)"

definition write_array :: "hw_env \<Rightarrow> u32 \<Rightarrow> u32 \<Rightarrow> u32 \<Rightarrow> io \<Rightarrow> io" where
  "write_array env r i v io = write_reg env (r + push_bit 2 i) v io"

text \<open>
  The polling loops: read until the condition holds, at most \<open>n\<close> times. The result says
  whether it was met, and is the last value read (\<open>v\<close> when there was none).
\<close>

fun poll_reg :: "hw_env \<Rightarrow> nat \<Rightarrow> u32 \<Rightarrow> (u32 \<Rightarrow> bool) \<Rightarrow> u32 \<Rightarrow> io \<Rightarrow> (bool \<times> u32 \<times> io) res" where
  "poll_reg env 0 r ok v io = Inr (False, v, io)"
| "poll_reg env (Suc n) r ok v io =
     bindR (read_reg env r io) (\<lambda>(v', io').
     if ok v' then Inr (True, v', io') else poll_reg env n r ok v' io')"

section \<open>Reading the log\<close>

text \<open>The value a register was given last.\<close>

fun last_written :: "u32 \<Rightarrow> io \<Rightarrow> u32 option" where
  "last_written r [] = None"
| "last_written r (a # io) =
     (case last_written r io of
        Some v \<Rightarrow> Some v
      | None \<Rightarrow> (case a of Wr r' v \<Rightarrow> if r' = r then Some v else None | Rd _ \<Rightarrow> None))"

lemma last_written_append:
  "last_written r (io @ io') = (case last_written r io' of Some v \<Rightarrow> Some v | None \<Rightarrow> last_written r io)"
  by (induction io) (auto split: option.splits)

lemma last_written_snoc [simp]:
  "last_written r (io @ [Wr r' v]) = (if r' = r then Some v else last_written r io)"
  "last_written r (io @ [Rd r']) = last_written r io"
  by (simp_all add: last_written_append split: option.splits)

text \<open>A register of \<open>R\<close> that holds what was written to it, as the data sheet says of
  configuration registers; \<open>init\<close> is what it held before.\<close>

definition holds_writes :: "hw_env \<Rightarrow> (u32 \<Rightarrow> u32) \<Rightarrow> u32 set \<Rightarrow> bool" where
  "holds_writes env init R \<longleftrightarrow>
     (\<forall>r io. r \<in> R \<longrightarrow> hw_answer env io r = (case last_written r io of Some v \<Rightarrow> v | None \<Rightarrow> init r))"

text \<open>What such a register holds.\<close>

definition reg_value :: "(u32 \<Rightarrow> u32) \<Rightarrow> io \<Rightarrow> u32 \<Rightarrow> u32" where
  "reg_value init io r = (case last_written r io of Some v \<Rightarrow> v | None \<Rightarrow> init r)"

lemma reg_value_simps [simp]:
  "reg_value init [] r = init r"
  "reg_value init (io @ [Wr r' v]) r = (if r' = r then v else reg_value init io r)"
  "reg_value init (io @ [Rd r']) r = reg_value init io r"
  by (simp_all add: reg_value_def)

lemma holds_writesD: "holds_writes env init R \<Longrightarrow> r \<in> R \<Longrightarrow> hw_answer env io r = reg_value init io r"
  by (simp add: holds_writes_def reg_value_def)

section \<open>How the accesses compute\<close>

text \<open>On a mapped device every access goes through.\<close>

lemma mapped_simps:
  assumes "hw_addr env \<noteq> NULL"
  shows "read_reg env r io = Inr (hw_answer env io r, io @ [Rd r])"
    and "write_reg env r v io = io @ [Wr r v]"
    and "write_flush env io = Inr (io @ [Rd IXGBE_STATUS])"
  using assms by (simp_all add: read_reg_def write_reg_def write_flush_def)

text \<open>A polling loop ends after at most \<open>n\<close> reads; \<open>v'\<close> is the last answer.\<close>

lemma poll_reg_stops:
  assumes "hw_addr env \<noteq> NULL"
  shows "\<exists>k \<le> n. \<exists>b v'. poll_reg env n r ok v io = Inr (b, v', io @ replicate k (Rd r)) \<and>
    (b \<longleftrightarrow> ok v' \<and> 0 < k) \<and> (\<not> b \<longrightarrow> k = n) \<and> v' = (if k = 0 then v else hw_answer env (io @ replicate (k - 1) (Rd r)) r)"
proof (induction n arbitrary: v io)
  case 0
  show ?case by simp
next
  case (Suc n)
  show ?case
  proof (cases "ok (hw_answer env io r)")
    case True
    then have "poll_reg env (Suc n) r ok v io = Inr (True, hw_answer env io r, io @ replicate 1 (Rd r))"
      using mapped_simps [OF assms] by simp
    then show ?thesis using True by (intro exI [of _ 1]) auto
  next
    case False
    obtain k b v' where k: "k \<le> n" "b \<longleftrightarrow> ok v' \<and> 0 < k" "\<not> b \<longrightarrow> k = n"
      "v' = (if k = 0 then hw_answer env io r else hw_answer env ((io @ [Rd r]) @ replicate (k - 1) (Rd r)) r)"
      "poll_reg env n r ok (hw_answer env io r) (io @ [Rd r]) = Inr (b, v', (io @ [Rd r]) @ replicate k (Rd r))"
      using Suc.IH [of "hw_answer env io r" "io @ [Rd r]"] by metis
    have run: "poll_reg env (Suc n) r ok v io = Inr (b, v', io @ replicate (Suc k) (Rd r))"
      using False k(5) mapped_simps [OF assms] by simp
    then show ?thesis using False k(1-4) by (intro exI [of _ "Suc k"]) (cases k, auto)
  qed
qed

end
