(* ===== verification/Ixgbe_Fdir.thy ===== *)
theory Ixgbe_Fdir
  imports Ixgbe_Hw
begin

text \<open>
  The flow director, which steers the packets of single connections to queues: the filters of
  \<open>ixgbe/ixgbe_fdir.c\<close>, which the stack installs for outgoing connections, and the functions of
  \<open>ixgbe/ixgbe_82599.c\<close> on which they are based. The machine is little-endian, so \<open>ntohl\<close> and
  \<open>ntohs\<close> (here \<open>htons\<close>) swap bytes.
\<close>

section \<open>Constants\<close>

definition IXGBE_FDIRCTRL :: u32 where "IXGBE_FDIRCTRL = 0x0EE00"
definition IXGBE_FDIRHKEY :: u32 where "IXGBE_FDIRHKEY = 0x0EE68"
definition IXGBE_FDIRSKEY :: u32 where "IXGBE_FDIRSKEY = 0x0EE6C"
definition IXGBE_FDIRDIP4M :: u32 where "IXGBE_FDIRDIP4M = 0x0EE3C"
definition IXGBE_FDIRSIP4M :: u32 where "IXGBE_FDIRSIP4M = 0x0EE40"
definition IXGBE_FDIRTCPM :: u32 where "IXGBE_FDIRTCPM = 0x0EE44"
definition IXGBE_FDIRUDPM :: u32 where "IXGBE_FDIRUDPM = 0x0EE48"
definition IXGBE_FDIRIP6M :: u32 where "IXGBE_FDIRIP6M = 0x0EE74"
definition IXGBE_FDIRM :: u32 where "IXGBE_FDIRM = 0x0EE70"
definition IXGBE_FDIRFREE :: u32 where "IXGBE_FDIRFREE = 0x0EE38"
definition IXGBE_FDIRLEN :: u32 where "IXGBE_FDIRLEN = 0x0EE4C"
definition IXGBE_FDIRUSTAT :: u32 where "IXGBE_FDIRUSTAT = 0x0EE50"
definition IXGBE_FDIRFSTAT :: u32 where "IXGBE_FDIRFSTAT = 0x0EE54"
definition IXGBE_FDIRMATCH :: u32 where "IXGBE_FDIRMATCH = 0x0EE58"
definition IXGBE_FDIRMISS :: u32 where "IXGBE_FDIRMISS = 0x0EE5C"
definition IXGBE_FDIRSIPv6 :: "u32 \<Rightarrow> u32" where "IXGBE_FDIRSIPv6 i = 0x0EE0C + i * 4"
definition IXGBE_FDIRIPSA :: u32 where "IXGBE_FDIRIPSA = 0x0EE18"
definition IXGBE_FDIRIPDA :: u32 where "IXGBE_FDIRIPDA = 0x0EE1C"
definition IXGBE_FDIRPORT :: u32 where "IXGBE_FDIRPORT = 0x0EE20"
definition IXGBE_FDIRVLAN :: u32 where "IXGBE_FDIRVLAN = 0x0EE24"
definition IXGBE_FDIRHASH :: u32 where "IXGBE_FDIRHASH = 0x0EE28"
definition IXGBE_FDIRCMD :: u32 where "IXGBE_FDIRCMD = 0x0EE2C"
definition IXGBE_RXPBSIZE :: "u32 \<Rightarrow> u32" where "IXGBE_RXPBSIZE i = 0x03C00 + i * 4"

definition IXGBE_FDIRCTRL_PBALLOC_64K :: u32 where "IXGBE_FDIRCTRL_PBALLOC_64K = 0x00000001"
definition IXGBE_FDIRCTRL_PBALLOC_128K :: u32 where "IXGBE_FDIRCTRL_PBALLOC_128K = 0x00000002"
definition IXGBE_FDIRCTRL_PBALLOC_256K :: u32 where "IXGBE_FDIRCTRL_PBALLOC_256K = 0x00000003"
definition IXGBE_FDIRCTRL_INIT_DONE :: u32 where "IXGBE_FDIRCTRL_INIT_DONE = 0x00000008"
definition IXGBE_FDIRCTRL_PERFECT_MATCH :: u32 where "IXGBE_FDIRCTRL_PERFECT_MATCH = 0x00000010"
definition IXGBE_FDIRCTRL_REPORT_STATUS :: u32 where "IXGBE_FDIRCTRL_REPORT_STATUS = 0x00000020"
definition IXGBE_FDIRCTRL_REPORT_STATUS_ALWAYS :: u32 where "IXGBE_FDIRCTRL_REPORT_STATUS_ALWAYS = 0x00000080"
definition IXGBE_FDIRCTRL_DROP_Q_SHIFT :: nat where "IXGBE_FDIRCTRL_DROP_Q_SHIFT = 8"
definition IXGBE_FDIRCTRL_FLEX_SHIFT :: nat where "IXGBE_FDIRCTRL_FLEX_SHIFT = 16"
definition IXGBE_FDIRCTRL_MAX_LENGTH_SHIFT :: nat where "IXGBE_FDIRCTRL_MAX_LENGTH_SHIFT = 24"
definition IXGBE_FDIRCTRL_FULL_THRESH_SHIFT :: nat where "IXGBE_FDIRCTRL_FULL_THRESH_SHIFT = 28"
definition IXGBE_FDIRTCPM_DPORTM_SHIFT :: nat where "IXGBE_FDIRTCPM_DPORTM_SHIFT = 16"
definition IXGBE_FDIRM_VLANID :: u32 where "IXGBE_FDIRM_VLANID = 0x00000001"
definition IXGBE_FDIRM_VLANP :: u32 where "IXGBE_FDIRM_VLANP = 0x00000002"
definition IXGBE_FDIRM_POOL :: u32 where "IXGBE_FDIRM_POOL = 0x00000004"
definition IXGBE_FDIRM_L4P :: u32 where "IXGBE_FDIRM_L4P = 0x00000008"
definition IXGBE_FDIRM_FLEX :: u32 where "IXGBE_FDIRM_FLEX = 0x00000010"
definition IXGBE_FDIRM_DIPv6 :: u32 where "IXGBE_FDIRM_DIPv6 = 0x00000020"
definition IXGBE_FDIRFREE_FREE_MASK :: u32 where "IXGBE_FDIRFREE_FREE_MASK = 0xFFFF"
definition IXGBE_FDIRFREE_FREE_SHIFT :: nat where "IXGBE_FDIRFREE_FREE_SHIFT = 0"
definition IXGBE_FDIRFREE_COLL_MASK :: u32 where "IXGBE_FDIRFREE_COLL_MASK = 0x7FFF0000"
definition IXGBE_FDIRFREE_COLL_SHIFT :: nat where "IXGBE_FDIRFREE_COLL_SHIFT = 16"
definition IXGBE_FDIRLEN_MAXLEN_MASK :: u32 where "IXGBE_FDIRLEN_MAXLEN_MASK = 0x3F"
definition IXGBE_FDIRLEN_MAXLEN_SHIFT :: nat where "IXGBE_FDIRLEN_MAXLEN_SHIFT = 0"
definition IXGBE_FDIRLEN_MAXHASH_MASK :: u32 where "IXGBE_FDIRLEN_MAXHASH_MASK = 0x7FFF0000"
definition IXGBE_FDIRLEN_MAXHASH_SHIFT :: nat where "IXGBE_FDIRLEN_MAXHASH_SHIFT = 16"
definition IXGBE_FDIRUSTAT_ADD_MASK :: u32 where "IXGBE_FDIRUSTAT_ADD_MASK = 0xFFFF"
definition IXGBE_FDIRUSTAT_ADD_SHIFT :: nat where "IXGBE_FDIRUSTAT_ADD_SHIFT = 0"
definition IXGBE_FDIRUSTAT_REMOVE_MASK :: u32 where "IXGBE_FDIRUSTAT_REMOVE_MASK = 0xFFFF0000"
definition IXGBE_FDIRUSTAT_REMOVE_SHIFT :: nat where "IXGBE_FDIRUSTAT_REMOVE_SHIFT = 16"
definition IXGBE_FDIRFSTAT_FADD_MASK :: u32 where "IXGBE_FDIRFSTAT_FADD_MASK = 0x00FF"
definition IXGBE_FDIRFSTAT_FADD_SHIFT :: nat where "IXGBE_FDIRFSTAT_FADD_SHIFT = 0"
definition IXGBE_FDIRFSTAT_FREMOVE_MASK :: u32 where "IXGBE_FDIRFSTAT_FREMOVE_MASK = 0xFF00"
definition IXGBE_FDIRFSTAT_FREMOVE_SHIFT :: nat where "IXGBE_FDIRFSTAT_FREMOVE_SHIFT = 8"
definition IXGBE_FDIRPORT_DESTINATION_SHIFT :: nat where "IXGBE_FDIRPORT_DESTINATION_SHIFT = 16"
definition IXGBE_FDIRVLAN_FLEX_SHIFT :: nat where "IXGBE_FDIRVLAN_FLEX_SHIFT = 16"
definition IXGBE_FDIRHASH_SIG_SW_INDEX_SHIFT :: nat where "IXGBE_FDIRHASH_SIG_SW_INDEX_SHIFT = 16"
definition IXGBE_FDIRCMD_CMD_MASK :: u32 where "IXGBE_FDIRCMD_CMD_MASK = 0x00000003"
definition IXGBE_FDIRCMD_CMD_ADD_FLOW :: u32 where "IXGBE_FDIRCMD_CMD_ADD_FLOW = 0x00000001"
definition IXGBE_FDIRCMD_CMD_REMOVE_FLOW :: u32 where "IXGBE_FDIRCMD_CMD_REMOVE_FLOW = 0x00000002"
definition IXGBE_FDIRCMD_CMD_QUERY_REM_FILT :: u32 where "IXGBE_FDIRCMD_CMD_QUERY_REM_FILT = 0x00000003"
definition IXGBE_FDIRCMD_FILTER_VALID :: u32 where "IXGBE_FDIRCMD_FILTER_VALID = 0x00000004"
definition IXGBE_FDIRCMD_FILTER_UPDATE :: u32 where "IXGBE_FDIRCMD_FILTER_UPDATE = 0x00000008"
definition IXGBE_FDIRCMD_CLEARHT :: u32 where "IXGBE_FDIRCMD_CLEARHT = 0x00000100"
definition IXGBE_FDIRCMD_DROP :: u32 where "IXGBE_FDIRCMD_DROP = 0x00000200"
definition IXGBE_FDIRCMD_LAST :: u32 where "IXGBE_FDIRCMD_LAST = 0x00000800"
definition IXGBE_FDIRCMD_QUEUE_EN :: u32 where "IXGBE_FDIRCMD_QUEUE_EN = 0x00008000"
definition IXGBE_FDIRCMD_FLOW_TYPE_SHIFT :: nat where "IXGBE_FDIRCMD_FLOW_TYPE_SHIFT = 5"
definition IXGBE_FDIRCMD_RX_QUEUE_SHIFT :: nat where "IXGBE_FDIRCMD_RX_QUEUE_SHIFT = 16"
definition IXGBE_FDIRCMD_VT_POOL_SHIFT :: nat where "IXGBE_FDIRCMD_VT_POOL_SHIFT = 24"
definition IXGBE_FDIR_INIT_DONE_POLL :: nat where "IXGBE_FDIR_INIT_DONE_POLL = 10"
definition IXGBE_FDIRCMD_CMD_POLL :: nat where "IXGBE_FDIRCMD_CMD_POLL = 10"
definition IXGBE_FDIR_DROP_QUEUE :: u8 where "IXGBE_FDIR_DROP_QUEUE = 127"
definition IXGBE_ERR_CONFIG :: u32 where "IXGBE_ERR_CONFIG = - 4"
definition IXGBE_ERR_FDIR_REINIT_FAILED :: u32 where "IXGBE_ERR_FDIR_REINIT_FAILED = - 23"
definition ENOSYS :: u32 where "ENOSYS = 38"

definition IXGBE_ATR_BUCKET_HASH_KEY :: u32 where "IXGBE_ATR_BUCKET_HASH_KEY = 0x3DAD14E2"
definition IXGBE_ATR_SIGNATURE_HASH_KEY :: u32 where "IXGBE_ATR_SIGNATURE_HASH_KEY = 0x174D3614"
definition IXGBE_ATR_HASH_MASK :: u32 where "IXGBE_ATR_HASH_MASK = 0x7fff"
definition IXGBE_ATR_L4TYPE_MASK :: u8 where "IXGBE_ATR_L4TYPE_MASK = 0x3"
definition IXGBE_ATR_L4TYPE_IPV6_MASK :: u8 where "IXGBE_ATR_L4TYPE_IPV6_MASK = 0x4"
definition IXGBE_ATR_FLOW_TYPE_IPV4 :: u8 where "IXGBE_ATR_FLOW_TYPE_IPV4 = 0x0"
definition IXGBE_ATR_FLOW_TYPE_UDPV4 :: u8 where "IXGBE_ATR_FLOW_TYPE_UDPV4 = 0x1"
definition IXGBE_ATR_FLOW_TYPE_TCPV4 :: u8 where "IXGBE_ATR_FLOW_TYPE_TCPV4 = 0x2"
definition IXGBE_ATR_FLOW_TYPE_SCTPV4 :: u8 where "IXGBE_ATR_FLOW_TYPE_SCTPV4 = 0x3"
definition IXGBE_ATR_FLOW_TYPE_UDPV6 :: u8 where "IXGBE_ATR_FLOW_TYPE_UDPV6 = 0x5"
definition IXGBE_ATR_FLOW_TYPE_TCPV6 :: u8 where "IXGBE_ATR_FLOW_TYPE_TCPV6 = 0x6"
definition IXGBE_ATR_FLOW_TYPE_SCTPV6 :: u8 where "IXGBE_ATR_FLOW_TYPE_SCTPV6 = 0x7"

definition FDIRCTRL_PBALLOC_MASK :: u32 where "FDIRCTRL_PBALLOC_MASK = 0x03"
definition PBALLOC_SIZE_SHIFT :: nat where "PBALLOC_SIZE_SHIFT = 15"
definition PERFECT_BUCKET_64KB_HASH_MASK :: u32 where "PERFECT_BUCKET_64KB_HASH_MASK = 0x07FF"
definition PERFECT_BUCKET_128KB_HASH_MASK :: u32 where "PERFECT_BUCKET_128KB_HASH_MASK = 0x0FFF"
definition PERFECT_BUCKET_256KB_HASH_MASK :: u32 where "PERFECT_BUCKET_256KB_HASH_MASK = 0x1FFF"
definition SIG_BUCKET_64KB_HASH_MASK :: u32 where "SIG_BUCKET_64KB_HASH_MASK = 0x1FFF"
definition SIG_BUCKET_128KB_HASH_MASK :: u32 where "SIG_BUCKET_128KB_HASH_MASK = 0x3FFF"
definition SIG_BUCKET_256KB_HASH_MASK :: u32 where "SIG_BUCKET_256KB_HASH_MASK = 0x7FFF"

section \<open>Filters\<close>

text \<open>The union \<open>ixgbe_atr_input\<close>: its fields in the order of memory, and the same bytes as
  eleven words.\<close>

record atr_input =
  vm_pool :: u8
  flow_type :: u8
  vlan_id :: u16
  atr_dst_ip :: "u32 list"
  atr_src_ip :: "u32 list"
  atr_src_port :: u16
  atr_dst_port :: u16
  flex_bytes :: u16
  bkt_hash :: u16

definition dword_stream :: "atr_input \<Rightarrow> u32 list" where
  "dword_stream x =
     (ucast (vm_pool x) OR push_bit 8 (ucast (flow_type x)) OR push_bit 16 (ucast (vlan_id x))) #
     atr_dst_ip x @ atr_src_ip x @
     [ucast (atr_src_port x) OR push_bit 16 (ucast (atr_dst_port x)),
      ucast (flex_bytes x) OR push_bit 16 (ucast (bkt_hash x))]"

definition of_stream :: "u32 list \<Rightarrow> atr_input" where
  "of_stream ds = \<lparr>vm_pool = ucast (ds ! 0), flow_type = ucast (drop_bit 8 (ds ! 0)), vlan_id = ucast (drop_bit 16 (ds ! 0)),
     atr_dst_ip = take 4 (drop 1 ds), atr_src_ip = take 4 (drop 5 ds),
     atr_src_port = ucast (ds ! 9), atr_dst_port = ucast (drop_bit 16 (ds ! 9)),
     flex_bytes = ucast (ds ! 10), bkt_hash = ucast (drop_bit 16 (ds ! 10))\<rparr>"

text \<open>The enumerations of \<open>inc/kns/ethdev.h\<close>; \<open>_OTHER\<close> stands for a value outside, which the
  default branches of the code reject.\<close>

datatype rte_fdir_mode = RTE_FDIR_MODE_NONE | RTE_FDIR_MODE_SIGNATURE | RTE_FDIR_MODE_PERFECT
datatype rte_fdir_pballoc_type = RTE_FDIR_PBALLOC_64K | RTE_FDIR_PBALLOC_128K | RTE_FDIR_PBALLOC_256K
  | RTE_FDIR_PBALLOC_OTHER
datatype rte_fdir_status_mode = RTE_FDIR_NO_REPORT_STATUS | RTE_FDIR_REPORT_STATUS
  | RTE_FDIR_REPORT_STATUS_ALWAYS | RTE_FDIR_STATUS_OTHER
datatype rte_l4type = RTE_FDIR_L4TYPE_NONE | RTE_FDIR_L4TYPE_UDP | RTE_FDIR_L4TYPE_TCP | RTE_FDIR_L4TYPE_SCTP
  | RTE_FDIR_L4TYPE_OTHER
datatype rte_iptype = RTE_FDIR_IPTYPE_IPV4 | RTE_FDIR_IPTYPE_IPV6

record rte_fdir_conf =
  fc_mode :: rte_fdir_mode
  fc_pballoc :: rte_fdir_pballoc_type
  fc_status :: rte_fdir_status_mode
  flexbytes_offset :: u8
  drop_queue :: u8

text \<open>The addresses are unions of one and four words: the IPv4 address is the first word.\<close>

record rte_fdir_filter =
  ff_flex_bytes :: u16
  ff_vlan_id :: u16
  port_src :: u16
  port_dst :: u16
  ff_ip_src :: "u32 list"
  ff_ip_dst :: "u32 list"
  l4type :: rte_l4type
  iptype :: rte_iptype

record rte_fdir_masks =
  only_ip_flow :: u8
  fm_vlan_id :: u8
  fm_vlan_prio :: u8
  fm_flexbytes :: u8
  set_ipv6_mask :: u8
  comp_ipv6_dst :: u8
  dst_ipv4_mask :: u32
  src_ipv4_mask :: u32
  dst_ipv6_mask :: u16
  src_ipv6_mask :: u16
  src_port_mask :: u16
  dst_port_mask :: u16

section \<open>The hash of a filter\<close>

text \<open>One bit of the key for each of the two words.\<close>

definition hash_bits :: "u32 \<Rightarrow> u32 \<Rightarrow> u32 \<Rightarrow> nat \<Rightarrow> u32 \<Rightarrow> u32" where
  "hash_bits key lo hi i h =
     (let h1 = (if key AND push_bit i 0x0001 \<noteq> 0 then h XOR drop_bit i lo else h)
      in if key AND push_bit i 0x00010000 \<noteq> 0 then h1 XOR drop_bit i hi else h1)"

definition ixgbe_atr_compute_hash_82599 :: "u32 list \<Rightarrow> u32 \<Rightarrow> u32" where
  "ixgbe_atr_compute_hash_82599 ds key =
     (let flow_vm_vlan = ntohl (ds ! 0);
          common = foldl (\<lambda>c i. c XOR (ds ! i XOR ds ! (i - 1))) 0 [10, 8, 6, 4, 2];
          hi0 = ntohl common;
          lo0 = drop_bit 16 hi0 OR push_bit 16 hi0;
          hi = hi0 XOR (flow_vm_vlan XOR drop_bit 16 flow_vm_vlan);
          h0 = (if key AND 0x0001 \<noteq> 0 then lo0 else 0);
          h1 = (if key AND 0x00010000 \<noteq> 0 then h0 XOR hi else h0);
          lo = lo0 XOR (flow_vm_vlan XOR push_bit 16 flow_vm_vlan)
      in foldl (\<lambda>h i. hash_bits key lo hi i h) h1 (rev [1..<16]))"

definition atr_compute_sig_hash_82599 :: "u32 list \<Rightarrow> rte_fdir_pballoc_type \<Rightarrow> u32" where
  "atr_compute_sig_hash_82599 ds pballoc =
     (let bucket_hash =
        (if pballoc = RTE_FDIR_PBALLOC_256K
         then ixgbe_atr_compute_hash_82599 ds IXGBE_ATR_BUCKET_HASH_KEY AND SIG_BUCKET_256KB_HASH_MASK
         else if pballoc = RTE_FDIR_PBALLOC_128K
         then ixgbe_atr_compute_hash_82599 ds IXGBE_ATR_BUCKET_HASH_KEY AND SIG_BUCKET_128KB_HASH_MASK
         else ixgbe_atr_compute_hash_82599 ds IXGBE_ATR_BUCKET_HASH_KEY AND SIG_BUCKET_64KB_HASH_MASK);
        sig_hash = ixgbe_atr_compute_hash_82599 ds IXGBE_ATR_SIGNATURE_HASH_KEY
      in push_bit IXGBE_FDIRHASH_SIG_SW_INDEX_SHIFT sig_hash OR bucket_hash)"

definition atr_compute_perfect_hash_82599 :: "u32 list \<Rightarrow> rte_fdir_pballoc_type \<Rightarrow> u32" where
  "atr_compute_perfect_hash_82599 ds pballoc =
     (if pballoc = RTE_FDIR_PBALLOC_256K
      then ixgbe_atr_compute_hash_82599 ds IXGBE_ATR_BUCKET_HASH_KEY AND PERFECT_BUCKET_256KB_HASH_MASK
      else if pballoc = RTE_FDIR_PBALLOC_128K
      then ixgbe_atr_compute_hash_82599 ds IXGBE_ATR_BUCKET_HASH_KEY AND PERFECT_BUCKET_128KB_HASH_MASK
      else ixgbe_atr_compute_hash_82599 ds IXGBE_ATR_BUCKET_HASH_KEY AND PERFECT_BUCKET_64KB_HASH_MASK)"

section \<open>Hashes computed for both keys at once (\<open>ixgbe_82599.c\<close>)\<close>

definition IXGBE_ATR_COMMON_HASH_KEY :: u32 where
  "IXGBE_ATR_COMMON_HASH_KEY = IXGBE_ATR_BUCKET_HASH_KEY AND IXGBE_ATR_SIGNATURE_HASH_KEY"

definition sig_hash_iteration :: "u32 \<Rightarrow> u32 \<Rightarrow> nat \<Rightarrow> u32 \<times> u32 \<times> u32 \<Rightarrow> u32 \<times> u32 \<times> u32" where
  "sig_hash_iteration lo hi n = (\<lambda>(common, bucket, sig).
     let (common1, bucket1, sig1) =
           (if IXGBE_ATR_COMMON_HASH_KEY AND push_bit n 0x01 \<noteq> 0 then (common XOR drop_bit n lo, bucket, sig)
            else if IXGBE_ATR_BUCKET_HASH_KEY AND push_bit n 0x01 \<noteq> 0 then (common, bucket XOR drop_bit n lo, sig)
            else if IXGBE_ATR_SIGNATURE_HASH_KEY AND push_bit n 0x01 \<noteq> 0 then (common, bucket, sig XOR push_bit (16 - n) lo)
            else (common, bucket, sig))
     in if IXGBE_ATR_COMMON_HASH_KEY AND push_bit (n + 16) 0x01 \<noteq> 0 then (common1 XOR drop_bit n hi, bucket1, sig1)
        else if IXGBE_ATR_BUCKET_HASH_KEY AND push_bit (n + 16) 0x01 \<noteq> 0 then (common1, bucket1 XOR drop_bit n hi, sig1)
        else if IXGBE_ATR_SIGNATURE_HASH_KEY AND push_bit (n + 16) 0x01 \<noteq> 0 then (common1, bucket1, sig1 XOR push_bit (16 - n) hi)
        else (common1, bucket1, sig1))"

definition ixgbe_atr_compute_sig_hash_82599 :: "u32 \<Rightarrow> u32 \<Rightarrow> u32" where
  "ixgbe_atr_compute_sig_hash_82599 input common =
     (let flow_vm_vlan = ntohl input;
          hi0 = ntohl common;
          lo0 = drop_bit 16 hi0 OR push_bit 16 hi0;
          hi = hi0 XOR (flow_vm_vlan XOR drop_bit 16 flow_vm_vlan);
          st = sig_hash_iteration lo0 hi 0 (0, 0, 0);
          lo = lo0 XOR (flow_vm_vlan XOR push_bit 16 flow_vm_vlan);
          (common_hash, bucket_hash, sig_hash) = foldl (\<lambda>st n. sig_hash_iteration lo hi n st) st [1..<16];
          bucket = (bucket_hash XOR common_hash) AND IXGBE_ATR_HASH_MASK;
          sig = (sig_hash XOR push_bit 16 common_hash) AND push_bit 16 IXGBE_ATR_HASH_MASK
      in sig XOR bucket)"

definition bkt_hash_iteration :: "u32 \<Rightarrow> u32 \<Rightarrow> nat \<Rightarrow> u32 \<Rightarrow> u32" where
  "bkt_hash_iteration lo hi n h =
     (let h1 = (if IXGBE_ATR_BUCKET_HASH_KEY AND push_bit n 0x01 \<noteq> 0 then h XOR drop_bit n lo else h)
      in if IXGBE_ATR_BUCKET_HASH_KEY AND push_bit (n + 16) 0x01 \<noteq> 0 then h1 XOR drop_bit n hi else h1)"

definition ixgbe_atr_compute_perfect_hash_82599 :: "atr_input \<Rightarrow> atr_input \<Rightarrow> atr_input" where
  "ixgbe_atr_compute_perfect_hash_82599 input input_mask =
     (let ds = map2 (AND) (dword_stream input) (dword_stream input_mask);
          flow_vm_vlan = ntohl (ds ! 0);
          hi0 = ntohl (ds ! 1 XOR ds ! 2 XOR ds ! 3 XOR ds ! 4 XOR ds ! 5 XOR ds ! 6 XOR ds ! 7 XOR ds ! 8 XOR ds ! 9 XOR ds ! 10);
          lo0 = drop_bit 16 hi0 OR push_bit 16 hi0;
          hi = hi0 XOR (flow_vm_vlan XOR drop_bit 16 flow_vm_vlan);
          h0 = bkt_hash_iteration lo0 hi 0 0;
          lo = lo0 XOR (flow_vm_vlan XOR push_bit 16 flow_vm_vlan);
          h = foldl (\<lambda>h n. bkt_hash_iteration lo hi n h) h0 [1..<16]
      in (of_stream ds)\<lparr>bkt_hash := ucast (h AND 0x1FFF)\<rparr>)"

section \<open>Start-up\<close>

definition fdir_enable_82599 :: "hw_env \<Rightarrow> u32 \<Rightarrow> io \<Rightarrow> io res" where
  "fdir_enable_82599 env fdirctrl io =
     (let io1 = write_reg env IXGBE_FDIRHKEY IXGBE_ATR_BUCKET_HASH_KEY io;
          io2 = write_reg env IXGBE_FDIRSKEY IXGBE_ATR_SIGNATURE_HASH_KEY io1;
          ctrl = fdirctrl OR (push_bit IXGBE_FDIRCTRL_MAX_LENGTH_SHIFT 0xA OR push_bit IXGBE_FDIRCTRL_FULL_THRESH_SHIFT 4);
          io3 = write_reg env IXGBE_FDIRCTRL ctrl io2
      in bindR (write_flush env io3) (\<lambda>io4.
         bindR (poll_reg env IXGBE_FDIR_INIT_DONE_POLL IXGBE_FDIRCTRL (\<lambda>v. v AND IXGBE_FDIRCTRL_INIT_DONE \<noteq> 0) 0 io4)
           (\<lambda>(_, _, io5). Inr io5)))"

definition configure_fdir_flags :: "rte_fdir_conf \<Rightarrow> u32 + u32" where
  "configure_fdir_flags conf =
     (case (case fc_pballoc conf of
              RTE_FDIR_PBALLOC_64K \<Rightarrow> Some IXGBE_FDIRCTRL_PBALLOC_64K
            | RTE_FDIR_PBALLOC_128K \<Rightarrow> Some IXGBE_FDIRCTRL_PBALLOC_128K
            | RTE_FDIR_PBALLOC_256K \<Rightarrow> Some IXGBE_FDIRCTRL_PBALLOC_256K
            | RTE_FDIR_PBALLOC_OTHER \<Rightarrow> None) of
        None \<Rightarrow> Inl (- EINVAL)
      | Some c0 \<Rightarrow>
          (case (case fc_status conf of
                   RTE_FDIR_NO_REPORT_STATUS \<Rightarrow> Some c0
                 | RTE_FDIR_REPORT_STATUS \<Rightarrow> Some (c0 OR IXGBE_FDIRCTRL_REPORT_STATUS)
                 | RTE_FDIR_REPORT_STATUS_ALWAYS \<Rightarrow> Some (c0 OR IXGBE_FDIRCTRL_REPORT_STATUS_ALWAYS)
                 | RTE_FDIR_STATUS_OTHER \<Rightarrow> None) of
             None \<Rightarrow> Inl (- EINVAL)
           | Some c1 \<Rightarrow>
               let c2 = c1 OR push_bit IXGBE_FDIRCTRL_FLEX_SHIFT (ucast (flexbytes_offset conf))
               in Inr (if fc_mode conf = RTE_FDIR_MODE_PERFECT
                       then c2 OR IXGBE_FDIRCTRL_PERFECT_MATCH OR push_bit IXGBE_FDIRCTRL_DROP_Q_SHIFT (ucast (drop_queue conf))
                       else c2)))"

definition ixgbe_fdir_configure :: "hw_env \<Rightarrow> rte_fdir_conf \<Rightarrow> io \<Rightarrow> (u32 \<times> io) res" where
  "ixgbe_fdir_configure env conf io =
     (if hw_type env \<noteq> ixgbe_mac_82599EB then Inr (- ENOSYS, io)
      else case configure_fdir_flags conf of
        Inl err \<Rightarrow> Inr (err, io)
      | Inr fdirctrl \<Rightarrow>
          let pbsize = push_bit (PBALLOC_SIZE_SHIFT + unat (fdirctrl AND FDIRCTRL_PBALLOC_MASK)) 1 in
          bindR (read_reg env (IXGBE_RXPBSIZE 0) io) (\<lambda>(v, io1).
          let io2 = write_reg env (IXGBE_RXPBSIZE 0) (v - pbsize) io1;
              io3 = foldl (\<lambda>io i. write_reg env (IXGBE_RXPBSIZE (of_nat i)) 0 io) io2 [1..<8]
          in bindR (fdir_enable_82599 env fdirctrl io3) (\<lambda>io4. Inr (0, io4))))"

definition ixgbe_reinit_fdir_tables_82599 :: "hw_env \<Rightarrow> io \<Rightarrow> (u32 \<times> io) res" where
  "ixgbe_reinit_fdir_tables_82599 env io =
     bindR (read_reg env IXGBE_FDIRCTRL io) (\<lambda>(c, io0).
     let fdirctrl = c AND NOT IXGBE_FDIRCTRL_INIT_DONE in
     bindR (poll_reg env IXGBE_FDIRCMD_CMD_POLL IXGBE_FDIRCMD (\<lambda>v. v AND IXGBE_FDIRCMD_CMD_MASK = 0) 0 io0) (\<lambda>(idle, _, io1).
     if \<not> idle then Inr (IXGBE_ERR_FDIR_REINIT_FAILED, io1)
     else
       bindR (write_flush env (write_reg env IXGBE_FDIRFREE 0 io1)) (\<lambda>io2.
       bindR (read_reg env IXGBE_FDIRCMD io2) (\<lambda>(v3, io3).
       bindR (write_flush env (write_reg env IXGBE_FDIRCMD (v3 OR IXGBE_FDIRCMD_CLEARHT) io3)) (\<lambda>io4.
       bindR (read_reg env IXGBE_FDIRCMD io4) (\<lambda>(v5, io5).
       bindR (write_flush env (write_reg env IXGBE_FDIRCMD (v5 AND NOT IXGBE_FDIRCMD_CLEARHT) io5)) (\<lambda>io6.
       bindR (write_flush env (write_reg env IXGBE_FDIRHASH 0x00 io6)) (\<lambda>io7.
       bindR (write_flush env (write_reg env IXGBE_FDIRCTRL fdirctrl io7)) (\<lambda>io8.
       bindR (poll_reg env IXGBE_FDIR_INIT_DONE_POLL IXGBE_FDIRCTRL (\<lambda>v. v AND IXGBE_FDIRCTRL_INIT_DONE \<noteq> 0) 0 io8) (\<lambda>(ready, _, io9).
       if \<not> ready then Inr (IXGBE_ERR_FDIR_REINIT_FAILED, io9)
       else
         bindR (read_reg env IXGBE_FDIRUSTAT io9) (\<lambda>(_, io10).
         bindR (read_reg env IXGBE_FDIRFSTAT io10) (\<lambda>(_, io11).
         bindR (read_reg env IXGBE_FDIRMATCH io11) (\<lambda>(_, io12).
         bindR (read_reg env IXGBE_FDIRMISS io12) (\<lambda>(_, io13).
         bindR (read_reg env IXGBE_FDIRLEN io13) (\<lambda>(_, io14). Inr (0, io14))))))))))))))))"

section \<open>Masks\<close>

text \<open>The steps that exchange neighbouring bits, pairs, nibbles and bytes of both halves.\<close>

definition swap_bits :: "u32 \<Rightarrow> u32" where
  "swap_bits mask0 =
     (let mask1 = push_bit 1 (mask0 AND 0x55555555) OR drop_bit 1 (mask0 AND 0xAAAAAAAA);
          mask2 = push_bit 2 (mask1 AND 0x33333333) OR drop_bit 2 (mask1 AND 0xCCCCCCCC);
          mask3 = push_bit 4 (mask2 AND 0x0F0F0F0F) OR drop_bit 4 (mask2 AND 0xF0F0F0F0)
      in push_bit 8 (mask3 AND 0x00FF00FF) OR drop_bit 8 (mask3 AND 0xFF00FF00))"

definition reverse_fdir_bitmasks :: "u16 \<Rightarrow> u16 \<Rightarrow> u32" where
  "reverse_fdir_bitmasks hi_dword lo_dword = swap_bits (push_bit 16 (ucast hi_dword) OR ucast lo_dword)"

definition ixgbe_get_fdirtcpm_82599 :: "atr_input \<Rightarrow> u32" where
  "ixgbe_get_fdirtcpm_82599 input_mask =
     swap_bits (push_bit IXGBE_FDIRTCPM_DPORTM_SHIFT (ucast (htons (atr_dst_port input_mask))) OR
                ucast (htons (atr_src_port input_mask)))"

definition fdir_set_input_mask_82599 :: "hw_env \<Rightarrow> rte_fdir_masks \<Rightarrow> io \<Rightarrow> u32 \<times> io" where
  "fdir_set_input_mask_82599 env m io =
     (let f0 = IXGBE_FDIRM_POOL in
      if only_ip_flow m \<noteq> 0 \<and> (dst_port_mask m \<noteq> 0 \<or> src_port_mask m \<noteq> 0) then (- EINVAL, io)
      else
        let f1 = (if only_ip_flow m \<noteq> 0 then f0 OR IXGBE_FDIRM_L4P else f0);
            f2 = (if comp_ipv6_dst m = 0 then f1 OR IXGBE_FDIRM_DIPv6 else f1);
            f3 = (if fm_vlan_id m = 0 then f2 OR IXGBE_FDIRM_VLANID else f2);
            f4 = (if fm_vlan_prio m = 0 then f3 OR IXGBE_FDIRM_VLANP else f3);
            fdirm = (if fm_flexbytes m = 0 then f4 OR IXGBE_FDIRM_FLEX else f4);
            io1 = write_reg env IXGBE_FDIRM fdirm io;
            fdirtcpm = reverse_fdir_bitmasks (dst_port_mask m) (src_port_mask m);
            io2 = write_reg env IXGBE_FDIRTCPM (NOT fdirtcpm) io1;
            io3 = write_reg env IXGBE_FDIRUDPM (NOT fdirtcpm) io2
        in if set_ipv6_mask m = 0 then
             (0, write_reg env IXGBE_FDIRDIP4M (ntohl (NOT (dst_ipv4_mask m)))
                  (write_reg env IXGBE_FDIRSIP4M (ntohl (NOT (src_ipv4_mask m))) io3))
           else
             (0, write_reg env IXGBE_FDIRIP6M (NOT (reverse_fdir_bitmasks (dst_ipv6_mask m) (src_ipv6_mask m))) io3))"

definition ixgbe_fdir_set_masks :: "hw_env \<Rightarrow> rte_fdir_masks \<Rightarrow> io \<Rightarrow> (u32 \<times> io) res" where
  "ixgbe_fdir_set_masks env m io =
     (if hw_type env \<noteq> ixgbe_mac_82599EB then Inr (- ENOSYS, io)
      else bindR (ixgbe_reinit_fdir_tables_82599 env io) (\<lambda>(err, io1).
           if err \<noteq> 0 then Inr (- EIO, io1) else Inr (fdir_set_input_mask_82599 env m io1)))"

section \<open>Adding and removing filters\<close>

text \<open>\<open>Inl\<close> is the error; IPv4 leaves the other words of the addresses zero.\<close>

definition fdir_filter_to_atr_input :: "rte_fdir_filter \<Rightarrow> u32 + atr_input" where
  "fdir_filter_to_atr_input f =
     (if (l4type f = RTE_FDIR_L4TYPE_SCTP \<or> l4type f = RTE_FDIR_L4TYPE_NONE) \<and> (port_src f \<noteq> 0 \<or> port_dst f \<noteq> 0)
      then Inl (- EINVAL)
      else
        case (case l4type f of
                RTE_FDIR_L4TYPE_TCP \<Rightarrow> Some IXGBE_ATR_FLOW_TYPE_TCPV4
              | RTE_FDIR_L4TYPE_UDP \<Rightarrow> Some IXGBE_ATR_FLOW_TYPE_UDPV4
              | RTE_FDIR_L4TYPE_SCTP \<Rightarrow> Some IXGBE_ATR_FLOW_TYPE_SCTPV4
              | RTE_FDIR_L4TYPE_NONE \<Rightarrow> Some IXGBE_ATR_FLOW_TYPE_IPV4
              | RTE_FDIR_L4TYPE_OTHER \<Rightarrow> None) of
          None \<Rightarrow> Inl (- EINVAL)
        | Some ft \<Rightarrow>
            let v6 = (iptype f = RTE_FDIR_IPTYPE_IPV6) in
            Inr \<lparr>vm_pool = 0, flow_type = (if v6 then ft OR IXGBE_ATR_L4TYPE_IPV6_MASK else ft), vlan_id = ff_vlan_id f,
                 atr_dst_ip = (if v6 then take 4 (ff_ip_dst f) else [ff_ip_dst f ! 0, 0, 0, 0]),
                 atr_src_ip = (if v6 then take 4 (ff_ip_src f) else [ff_ip_src f ! 0, 0, 0, 0]),
                 atr_src_port = port_src f, atr_dst_port = port_dst f, flex_bytes = ff_flex_bytes f, bkt_hash = 0\<rparr>)"

definition fdir_add_signature_filter_82599 :: "hw_env \<Rightarrow> atr_input \<Rightarrow> u8 \<Rightarrow> u32 \<Rightarrow> u32 \<Rightarrow> io \<Rightarrow> io" where
  "fdir_add_signature_filter_82599 env input queue fdircmd fdirhash io =
     (let cmd1 = fdircmd OR (IXGBE_FDIRCMD_CMD_ADD_FLOW OR IXGBE_FDIRCMD_LAST OR IXGBE_FDIRCMD_QUEUE_EN);
          cmd2 = cmd1 OR push_bit IXGBE_FDIRCMD_FLOW_TYPE_SHIFT (ucast (flow_type input));
          cmd3 = cmd2 OR push_bit IXGBE_FDIRCMD_RX_QUEUE_SHIFT (ucast queue);
          fdirhashcmd = push_bit 32 (ucast cmd3) OR ucast fdirhash
      in write_reg64 env IXGBE_FDIRHASH fdirhashcmd io)"

definition fdir_add_update_signature_filter ::
  "hw_env \<Rightarrow> rte_fdir_conf \<Rightarrow> rte_fdir_filter \<Rightarrow> u8 \<Rightarrow> bool \<Rightarrow> io \<Rightarrow> u32 \<times> io" where
  "fdir_add_update_signature_filter env conf f queue update io =
     (let flags = (if update then IXGBE_FDIRCMD_FILTER_UPDATE else 0) in
      if hw_type env \<noteq> ixgbe_mac_82599EB then (- ENOSYS, io)
      else case fdir_filter_to_atr_input f of
        Inl err \<Rightarrow> (err, io)
      | Inr input \<Rightarrow>
          (0, fdir_add_signature_filter_82599 env input queue flags
                (atr_compute_sig_hash_82599 (dword_stream input) (fc_pballoc conf)) io))"

definition ixgbe_fdir_add_signature_filter :: "hw_env \<Rightarrow> rte_fdir_conf \<Rightarrow> rte_fdir_filter \<Rightarrow> u8 \<Rightarrow> io \<Rightarrow> u32 \<times> io" where
  "ixgbe_fdir_add_signature_filter env conf f queue = fdir_add_update_signature_filter env conf f queue False"

definition ixgbe_fdir_update_signature_filter :: "hw_env \<Rightarrow> rte_fdir_conf \<Rightarrow> rte_fdir_filter \<Rightarrow> u8 \<Rightarrow> io \<Rightarrow> u32 \<times> io" where
  "ixgbe_fdir_update_signature_filter env conf f queue = fdir_add_update_signature_filter env conf f queue True"

definition fdir_erase_filter_82599 :: "hw_env \<Rightarrow> u32 \<Rightarrow> io \<Rightarrow> (u32 \<times> io) res" where
  "fdir_erase_filter_82599 env fdirhash io =
     bindR (write_flush env (write_reg env IXGBE_FDIRHASH fdirhash io)) (\<lambda>io1.
     let io2 = write_reg env IXGBE_FDIRCMD IXGBE_FDIRCMD_CMD_QUERY_REM_FILT io1 in
     bindR (poll_reg env 10 IXGBE_FDIRCMD (\<lambda>v. v AND IXGBE_FDIRCMD_CMD_MASK = 0) 0 io2) (\<lambda>(answered, fdircmd, io3).
     let err = (if answered then 0 else - EIO) in
     if fdircmd AND IXGBE_FDIRCMD_FILTER_VALID \<noteq> 0 then
       bindR (write_flush env (write_reg env IXGBE_FDIRHASH fdirhash io3)) (\<lambda>io4.
       Inr (err, write_reg env IXGBE_FDIRCMD IXGBE_FDIRCMD_CMD_REMOVE_FLOW io4))
     else Inr (err, io3)))"

definition ixgbe_fdir_remove_signature_filter :: "hw_env \<Rightarrow> rte_fdir_conf \<Rightarrow> rte_fdir_filter \<Rightarrow> io \<Rightarrow> (u32 \<times> io) res" where
  "ixgbe_fdir_remove_signature_filter env conf f io =
     (if hw_type env \<noteq> ixgbe_mac_82599EB then Inr (- ENOSYS, io)
      else case fdir_filter_to_atr_input f of
        Inl err \<Rightarrow> Inr (err, io)
      | Inr input \<Rightarrow> fdir_erase_filter_82599 env (atr_compute_sig_hash_82599 (dword_stream input) (fc_pballoc conf)) io)"

definition fdir_write_perfect_filter_82599 :: "hw_env \<Rightarrow> atr_input \<Rightarrow> u16 \<Rightarrow> u8 \<Rightarrow> u32 \<Rightarrow> u32 \<Rightarrow> io \<Rightarrow> io res" where
  "fdir_write_perfect_filter_82599 env input soft_id queue fdircmd fdirhash io =
     (let io1 = (if flow_type input AND IXGBE_ATR_L4TYPE_IPV6_MASK \<noteq> 0 then
                   write_reg env IXGBE_FDIRIPSA (atr_src_ip input ! 3)
                  (write_reg env (IXGBE_FDIRSIPv6 2) (atr_src_ip input ! 2)
                  (write_reg env (IXGBE_FDIRSIPv6 1) (atr_src_ip input ! 1)
                  (write_reg env (IXGBE_FDIRSIPv6 0) (atr_src_ip input ! 0) io)))
                 else write_reg env IXGBE_FDIRIPSA (atr_src_ip input ! 0) io);
          io2 = write_reg env IXGBE_FDIRIPDA (atr_dst_ip input ! 0) io1;
          fdirport = push_bit IXGBE_FDIRPORT_DESTINATION_SHIFT (ucast (htons (atr_dst_port input))) OR
                     ucast (htons (atr_src_port input));
          io3 = write_reg env IXGBE_FDIRPORT fdirport io2;
          fdirvlan = push_bit IXGBE_FDIRVLAN_FLEX_SHIFT (ucast (flex_bytes input)) OR ucast (htons (vlan_id input));
          io4 = write_reg env IXGBE_FDIRVLAN fdirvlan io3;
          hash = fdirhash OR push_bit IXGBE_FDIRHASH_SIG_SW_INDEX_SHIFT (ucast soft_id);
          io5 = write_reg env IXGBE_FDIRHASH hash io4
      in bindR (write_flush env io5) (\<lambda>io6.
         let cmd1 = fdircmd OR (IXGBE_FDIRCMD_CMD_ADD_FLOW OR IXGBE_FDIRCMD_LAST OR IXGBE_FDIRCMD_QUEUE_EN);
             cmd2 = cmd1 OR push_bit IXGBE_FDIRCMD_FLOW_TYPE_SHIFT (ucast (flow_type input));
             cmd3 = cmd2 OR push_bit IXGBE_FDIRCMD_RX_QUEUE_SHIFT (ucast queue);
             cmd4 = cmd3 OR push_bit IXGBE_FDIRCMD_VT_POOL_SHIFT (ucast (vm_pool input))
         in Inr (write_reg env IXGBE_FDIRCMD cmd4 io6)))"

definition fdir_add_update_perfect_filter ::
  "hw_env \<Rightarrow> rte_fdir_conf \<Rightarrow> rte_fdir_filter \<Rightarrow> u16 \<Rightarrow> u8 \<Rightarrow> bool \<Rightarrow> bool \<Rightarrow> io \<Rightarrow> (u32 \<times> io) res" where
  "fdir_add_update_perfect_filter env conf f soft_id queue0 drop_it update io =
     (let flags0 = (if update then IXGBE_FDIRCMD_FILTER_UPDATE else 0) in
      if hw_type env \<noteq> ixgbe_mac_82599EB then Inr (- ENOSYS, io)
      else case fdir_filter_to_atr_input f of
        Inl err \<Rightarrow> Inr (err, io)
      | Inr input \<Rightarrow>
          let queue = (if drop_it then drop_queue conf else queue0);
              flags = (if drop_it then flags0 OR IXGBE_FDIRCMD_DROP else flags0);
              fdirhash = atr_compute_perfect_hash_82599 (dword_stream input) (fc_pballoc conf)
          in bindR (fdir_write_perfect_filter_82599 env input soft_id queue flags fdirhash io) (\<lambda>io1. Inr (0, io1)))"

definition ixgbe_fdir_add_perfect_filter ::
  "hw_env \<Rightarrow> rte_fdir_conf \<Rightarrow> rte_fdir_filter \<Rightarrow> u16 \<Rightarrow> u8 \<Rightarrow> bool \<Rightarrow> io \<Rightarrow> (u32 \<times> io) res" where
  "ixgbe_fdir_add_perfect_filter env conf f soft_id queue drop_it =
     fdir_add_update_perfect_filter env conf f soft_id queue drop_it False"

definition ixgbe_fdir_update_perfect_filter ::
  "hw_env \<Rightarrow> rte_fdir_conf \<Rightarrow> rte_fdir_filter \<Rightarrow> u16 \<Rightarrow> u8 \<Rightarrow> bool \<Rightarrow> io \<Rightarrow> (u32 \<times> io) res" where
  "ixgbe_fdir_update_perfect_filter env conf f soft_id queue drop_it =
     fdir_add_update_perfect_filter env conf f soft_id queue drop_it True"

definition ixgbe_fdir_remove_perfect_filter ::
  "hw_env \<Rightarrow> rte_fdir_conf \<Rightarrow> rte_fdir_filter \<Rightarrow> u16 \<Rightarrow> io \<Rightarrow> (u32 \<times> io) res" where
  "ixgbe_fdir_remove_perfect_filter env conf f soft_id io =
     (if hw_type env \<noteq> ixgbe_mac_82599EB then Inr (- ENOSYS, io)
      else case fdir_filter_to_atr_input f of
        Inl err \<Rightarrow> Inr (err, io)
      | Inr input \<Rightarrow>
          fdir_erase_filter_82599 env
            (atr_compute_perfect_hash_82599 (dword_stream input) (fc_pballoc conf) OR
             push_bit IXGBE_FDIRHASH_SIG_SW_INDEX_SHIFT (ucast soft_id)) io)"

section \<open>Statistics\<close>

record hw_fdir_info =
  fi_collision :: u16
  fi_free :: u16
  fi_maxhash :: u16
  fi_maxlen :: u8
  fi_add :: u64
  fi_remove :: u64
  fi_f_add :: u64
  fi_f_remove :: u64

text \<open>The counters are read and cleared by the adapter, and added up here; the caller receives
  a copy of the record.\<close>

definition ixgbe_fdir_info_get :: "hw_env \<Rightarrow> hw_fdir_info \<Rightarrow> io \<Rightarrow> (hw_fdir_info \<times> io) res" where
  "ixgbe_fdir_info_get env info io =
     (if hw_type env \<noteq> ixgbe_mac_82599EB then Inr (info, io)
      else
        bindR (read_reg env IXGBE_FDIRFREE io) (\<lambda>(r1, io1).
        bindR (read_reg env IXGBE_FDIRLEN io1) (\<lambda>(r2, io2).
        bindR (read_reg env IXGBE_FDIRUSTAT io2) (\<lambda>(r3, io3).
        bindR (read_reg env IXGBE_FDIRFSTAT io3) (\<lambda>(r, io4).
        let r4 = r AND 0xFFFF in
        Inr (info\<lparr>fi_collision := ucast (drop_bit IXGBE_FDIRFREE_COLL_SHIFT (r1 AND IXGBE_FDIRFREE_COLL_MASK)),
                  fi_free := ucast (drop_bit IXGBE_FDIRFREE_FREE_SHIFT (r1 AND IXGBE_FDIRFREE_FREE_MASK)),
                  fi_maxhash := ucast (drop_bit IXGBE_FDIRLEN_MAXHASH_SHIFT (r2 AND IXGBE_FDIRLEN_MAXHASH_MASK)),
                  fi_maxlen := ucast (drop_bit IXGBE_FDIRLEN_MAXLEN_SHIFT (r2 AND IXGBE_FDIRLEN_MAXLEN_MASK)),
                  fi_remove := fi_remove info + ucast (drop_bit IXGBE_FDIRUSTAT_REMOVE_SHIFT (r3 AND IXGBE_FDIRUSTAT_REMOVE_MASK)),
                  fi_add := fi_add info + ucast (drop_bit IXGBE_FDIRUSTAT_ADD_SHIFT (r3 AND IXGBE_FDIRUSTAT_ADD_MASK)),
                  fi_f_remove := fi_f_remove info + ucast (drop_bit IXGBE_FDIRFSTAT_FREMOVE_SHIFT (r4 AND IXGBE_FDIRFSTAT_FREMOVE_MASK)),
                  fi_f_add := fi_f_add info + ucast (drop_bit IXGBE_FDIRFSTAT_FADD_SHIFT (r4 AND IXGBE_FDIRFSTAT_FADD_MASK))\<rparr>, io4))))))"

section \<open>The filter of a connection\<close>

text \<open>
  \<open>get_port_with_fdir\<close> and \<open>remove_fdir_filter\<close> (\<open>net/tcp_api.c\<close>) fill a local variable; they
  do not set its VLAN and flexible bytes, which are whatever the stack held (\<open>vlan\<close>, \<open>flex\<close>).
\<close>

definition tuple_filter :: "u16 \<Rightarrow> u16 \<Rightarrow> ip_tuple \<Rightarrow> rte_fdir_filter" where
  "tuple_filter vlan flex t =
     \<lparr>ff_flex_bytes = flex, ff_vlan_id = vlan, port_src = dst_port t, port_dst = src_port t,
      ff_ip_src = [dst_ip t, 0, 0, 0], ff_ip_dst = [src_ip t, 0, 0, 0],
      l4type = RTE_FDIR_L4TYPE_TCP, iptype = RTE_FDIR_IPTYPE_IPV4\<rparr>"

end
