(* ===== verification/Ixgbe_Fdir_Spec.thy ===== *)
theory Ixgbe_Fdir_Spec
  imports Ixgbe_Fdir
begin

text \<open>
  The flow director: the three hash functions agree, the bit swapping steps reverse the masks,
  what the registers say after a filter has been added, and that removing asks for the same
  entry.
\<close>

section \<open>Hashes\<close>

lemma upt_15: "[Suc 0..<16] = [1, 2, 3, 4, 5, 6, 7, 8, 9, 10, 11, 12, 13, 14, 15]"
  by (simp add: upt_conv_Cons)


lemma push_key: "push_bit n (1 :: u32) = 2 ^ n" "push_bit n (65536 :: u32) = 2 ^ (n + 16)"
  by (simp_all add: push_bit_eq_mult power_add)

text \<open>A shifted product cut to the upper half, as a product in the lower half.\<close>

lemma push_mask:
  fixes x :: u32
  assumes "k + n = 16"
  shows "push_bit k x AND 0x7fff0000 = push_bit 16 (drop_bit n x) AND 0x7fff0000"
proof -
  have m: "(0x7fff0000 :: u32) = push_bit 16 (mask 15)" by (simp add: mask_eq_exp_minus_1 push_bit_eq_mult)
  have n: "n = 16 - k" "k \<le> 16" using assms by simp_all
  show ?thesis unfolding m n(1) by (rule bit_word_eqI) (use n(2) in \<open>auto simp: bit_simps\<close>)
qed

lemmas push_masks = push_mask [of 14 2] push_mask [of 12 4] push_mask [of 7 9] push_mask [of 3 13]
  push_mask [of 10 6]

lemma sig_products:
  assumes "foldl (\<lambda>st n. sig_hash_iteration lo hi n st) (sig_hash_iteration lo0 hi 0 (0, 0, 0)) [1..<16] = (c, b, s)"
  shows "b XOR c = foldl (\<lambda>h i. hash_bits IXGBE_ATR_BUCKET_HASH_KEY lo hi i h) hi (rev [1..<16])"
    and "(s XOR push_bit 16 c) AND 0x7fff0000 =
      push_bit 16 (foldl (\<lambda>h i. hash_bits IXGBE_ATR_SIGNATURE_HASH_KEY lo hi i h) hi (rev [1..<16])) AND 0x7fff0000"
proof -
  note keys = IXGBE_ATR_BUCKET_HASH_KEY_def IXGBE_ATR_COMMON_HASH_KEY_def IXGBE_ATR_SIGNATURE_HASH_KEY_def push_key
  from assms show "b XOR c = foldl (\<lambda>h i. hash_bits IXGBE_ATR_BUCKET_HASH_KEY lo hi i h) hi (rev [1..<16])"
    by (simp add: upt_15 hash_bits_def sig_hash_iteration_def keys, elim conjE, hypsubst, simp only: xor.assoc,
        simp only: xor.commute xor.left_commute)
  from assms show "(s XOR push_bit 16 c) AND 0x7fff0000 =
      push_bit 16 (foldl (\<lambda>h i. hash_bits IXGBE_ATR_SIGNATURE_HASH_KEY lo hi i h) hi (rev [1..<16])) AND 0x7fff0000"
    by (simp add: upt_15 hash_bits_def sig_hash_iteration_def keys, elim conjE, hypsubst,
        simp add: bit.conj_xor_distrib2 push_bit_xor push_masks, simp only: xor.assoc,
        simp only: xor.commute xor.left_commute)
qed

lemma bkt_products:
  "foldl (\<lambda>h n. bkt_hash_iteration lo hi n h) (bkt_hash_iteration lo0 hi 0 0) [1..<16] =
   foldl (\<lambda>h i. hash_bits IXGBE_ATR_BUCKET_HASH_KEY lo hi i h) hi (rev [1..<16])"
  by (simp add: upt_15 hash_bits_def bkt_hash_iteration_def IXGBE_ATR_BUCKET_HASH_KEY_def push_key, simp only: xor.assoc,
      simp only: xor.commute xor.left_commute)

text \<open>The words behind the first, added up.\<close>

definition common_dword :: "u32 list \<Rightarrow> u32" where
  "common_dword ds = foldl (XOR) 0 (map (\<lambda>i. ds ! i) [1..<11])"

lemma upt_11: "[Suc 0..<11] = [1, 2, 3, 4, 5, 6, 7, 8, 9, 10]"
  by (simp add: upt_conv_Cons)

lemma common_sums:
  "foldl (\<lambda>c i. c XOR (ds ! i XOR ds ! (i - 1))) 0 [10, 8, 6, 4, 2] = common_dword ds"
  "ds ! 1 XOR ds ! 2 XOR ds ! 3 XOR ds ! 4 XOR ds ! 5 XOR ds ! 6 XOR ds ! 7 XOR ds ! 8 XOR ds ! 9 XOR ds ! 10 = common_dword ds"
  unfolding common_dword_def by (simp_all add: upt_11 ac_simps)

text \<open>The plain function, for a key that has bit 16 and not bit 0.\<close>

lemma plain_hash:
  assumes "key AND 1 = 0" and "key AND 0x00010000 \<noteq> 0"
  shows "ixgbe_atr_compute_hash_82599 ds key =
    (let f = ntohl (ds ! 0); h = ntohl (common_dword ds);
         lo = drop_bit 16 h OR push_bit 16 h; hi = h XOR (f XOR drop_bit 16 f)
     in foldl (\<lambda>h i. hash_bits key (lo XOR (f XOR push_bit 16 f)) hi i h) hi (rev [1..<16]))"
  unfolding ixgbe_atr_compute_hash_82599_def common_sums Let_def using assms by simp

lemma sig_hash_eq:
  "ixgbe_atr_compute_sig_hash_82599 (ds ! 0) (common_dword ds) =
   push_bit 16 (ixgbe_atr_compute_hash_82599 ds IXGBE_ATR_SIGNATURE_HASH_KEY) AND 0x7fff0000 XOR
   ixgbe_atr_compute_hash_82599 ds IXGBE_ATR_BUCKET_HASH_KEY AND 0x7fff"
proof -
  define f h where "f = ntohl (ds ! 0)" and "h = ntohl (common_dword ds)"
  define lo0 hi where "lo0 = drop_bit 16 h OR push_bit 16 h" and "hi = h XOR (f XOR drop_bit 16 f)"
  define lo where "lo = lo0 XOR (f XOR push_bit 16 f)"
  obtain c b s where cbs:
    "foldl (\<lambda>st n. sig_hash_iteration lo hi n st) (sig_hash_iteration lo0 hi 0 (0, 0, 0)) [1..<16] = (c, b, s)"
    by (metis prod_cases3)
  have m: "push_bit 16 (0x7fff :: u32) = 0x7fff0000" by (simp add: push_bit_eq_mult)
  have "ixgbe_atr_compute_sig_hash_82599 (ds ! 0) (common_dword ds) =
    ((s XOR push_bit 16 c) AND 0x7fff0000) XOR ((b XOR c) AND 0x7fff)"
    using cbs unfolding ixgbe_atr_compute_sig_hash_82599_def Let_def IXGBE_ATR_HASH_MASK_def m
      f_def [symmetric] h_def [symmetric] lo0_def [symmetric] hi_def [symmetric] lo_def [symmetric] by simp
  moreover have "ixgbe_atr_compute_hash_82599 ds IXGBE_ATR_SIGNATURE_HASH_KEY =
      foldl (\<lambda>h i. hash_bits IXGBE_ATR_SIGNATURE_HASH_KEY lo hi i h) hi (rev [1..<16])"
    "ixgbe_atr_compute_hash_82599 ds IXGBE_ATR_BUCKET_HASH_KEY =
      foldl (\<lambda>h i. hash_bits IXGBE_ATR_BUCKET_HASH_KEY lo hi i h) hi (rev [1..<16])"
    by (simp_all add: plain_hash IXGBE_ATR_SIGNATURE_HASH_KEY_def IXGBE_ATR_BUCKET_HASH_KEY_def Let_def
        f_def h_def lo0_def hi_def lo_def)
  ultimately show ?thesis by (simp only: sig_products [OF cbs])
qed

text \<open>The fields of two inputs, masked one by one.\<close>

definition atr_and :: "atr_input \<Rightarrow> atr_input \<Rightarrow> atr_input" where
  "atr_and x m = \<lparr>vm_pool = vm_pool x AND vm_pool m, flow_type = flow_type x AND flow_type m, vlan_id = vlan_id x AND vlan_id m,
     atr_dst_ip = map2 (AND) (atr_dst_ip x) (atr_dst_ip m), atr_src_ip = map2 (AND) (atr_src_ip x) (atr_src_ip m),
     atr_src_port = atr_src_port x AND atr_src_port m, atr_dst_port = atr_dst_port x AND atr_dst_port m,
     flex_bytes = flex_bytes x AND flex_bytes m, bkt_hash = bkt_hash x AND bkt_hash m\<rparr>"

definition atr_shape :: "atr_input \<Rightarrow> bool" where
  "atr_shape x \<longleftrightarrow> length (atr_dst_ip x) = 4 \<and> length (atr_src_ip x) = 4"

lemma halves:
  "ucast (ucast a OR push_bit 16 (ucast b) :: u32) = a" "ucast (drop_bit 16 (ucast a OR push_bit 16 (ucast b) :: u32)) = b"
  for a b :: u16
  by (rule bit_word_eqI, auto simp: bit_simps dest: bit_imp_le_length)+

lemma quarters:
  "ucast (ucast a OR push_bit 8 (ucast b) OR push_bit 16 (ucast c) :: u32) = a"
  "ucast (drop_bit 8 (ucast a OR push_bit 8 (ucast b) OR push_bit 16 (ucast c) :: u32)) = b"
  "ucast (drop_bit 16 (ucast a OR push_bit 8 (ucast b) OR push_bit 16 (ucast c) :: u32)) = c"
  for a b :: u8 and c :: u16
  by (rule bit_word_eqI, auto simp: bit_simps dest: bit_imp_le_length)+

lemma bit_byte: "\<not> bit b (n + 8)" "8 \<le> n \<Longrightarrow> \<not> bit b n" for b :: u8
  by (auto dest: bit_imp_le_length)

lemma bit_short: "16 \<le> n \<Longrightarrow> \<not> bit b n" for b :: u16
  by (auto dest: bit_imp_le_length)

lemma halves_and:
  "(ucast a OR push_bit 16 (ucast b)) AND (ucast a' OR push_bit 16 (ucast b')) =
   (ucast (a AND a') OR push_bit 16 (ucast (b AND b')) :: u32)" for a b a' b' :: u16
proof (rule bit_word_eqI)
  fix n assume "n < LENGTH(32)"
  show "bit ((ucast a OR push_bit 16 (ucast b)) AND (ucast a' OR push_bit 16 (ucast b')) :: u32) n =
    bit (ucast (a AND a') OR push_bit 16 (ucast (b AND b')) :: u32) n"
    by (cases "16 \<le> n") (auto simp: bit_simps bit_short)
qed

lemma quarters_and:
  "(ucast a OR push_bit 8 (ucast b) OR push_bit 16 (ucast c)) AND (ucast a' OR push_bit 8 (ucast b') OR push_bit 16 (ucast c')) =
   (ucast (a AND a') OR push_bit 8 (ucast (b AND b')) OR push_bit 16 (ucast (c AND c')) :: u32)"
  for a b a' b' :: u8 and c c' :: u16
proof (rule bit_word_eqI)
  fix n assume "n < LENGTH(32)"
  show "bit ((ucast a OR push_bit 8 (ucast b) OR push_bit 16 (ucast c)) AND
      (ucast a' OR push_bit 8 (ucast b') OR push_bit 16 (ucast c')) :: u32) n =
    bit (ucast (a AND a') OR push_bit 8 (ucast (b AND b')) OR push_bit 16 (ucast (c AND c')) :: u32) n"
    by (cases "16 \<le> n"; cases "8 \<le> n") (auto simp: bit_simps bit_byte)
qed

lemma len4: "length xs = 4 \<longleftrightarrow> (\<exists>a b c d. xs = [a, b, c, d])"
  by (auto simp: eval_nat_numeral length_Suc_conv)

lemma of_dword_stream: "atr_shape x \<Longrightarrow> of_stream (dword_stream x) = x"
  unfolding atr_shape_def len4 by (cases x) (auto simp: of_stream_def dword_stream_def halves quarters simp del: drop_bit_or)

lemma dword_stream_and: "atr_shape x \<Longrightarrow> atr_shape m \<Longrightarrow> map2 (AND) (dword_stream x) (dword_stream m) = dword_stream (atr_and x m)"
  unfolding atr_shape_def len4
  by (auto simp: atr_and_def dword_stream_def halves_and quarters_and simp del: bit.conj_disj_distrib bit.conj_disj_distrib2)

lemma perfect_hash_eq:
  assumes "atr_shape x" and "atr_shape m"
  shows "ixgbe_atr_compute_perfect_hash_82599 x m =
    (atr_and x m)\<lparr>bkt_hash := ucast (atr_compute_perfect_hash_82599 (dword_stream (atr_and x m)) RTE_FDIR_PBALLOC_256K)\<rparr>"
proof -
  have "atr_shape (atr_and x m)" using assms by (simp add: atr_shape_def atr_and_def)
  then have o: "of_stream (dword_stream (atr_and x m)) = atr_and x m" by (rule of_dword_stream)
  show ?thesis
    unfolding ixgbe_atr_compute_perfect_hash_82599_def dword_stream_and [OF assms] Let_def common_sums bkt_products o
      atr_compute_perfect_hash_82599_def PERFECT_BUCKET_256KB_HASH_MASK_def
    by (simp add: plain_hash IXGBE_ATR_BUCKET_HASH_KEY_def Let_def)
qed

section \<open>Bit reversal\<close>

lemma upt_32: "[0..<32] = [0, 1, 2, 3, 4, 5, 6, 7, 8, 9, 10, 11, 12, 13, 14, 15, 16, 17, 18, 19, 20, 21, 22, 23, 24, 25, 26, 27, 28, 29, 30, 31 :: nat]"
  by code_simp

lemma bit_twice: "bit (m * 2) n \<longleftrightarrow> 0 < n \<and> n < 32 \<and> bit m (n - 1)" for m :: u32
  using bit_double_iff [of m n] by (auto simp: mult.commute)

lemma swap_bits_all: "\<forall>k\<in>set [0..<32]. bit (swap_bits m) k \<longleftrightarrow> bit m (if k < 16 then 15 - k else 47 - k)"
  unfolding upt_32
  by (simp add: swap_bits_def Let_def bit_or_iff bit_and_iff bit_push_bit_iff bit_drop_bit_eq bit_twice, simp add: numeral_2_eq_2)

lemma reversed_masks:
  "bit (reverse_fdir_bitmasks hi lo) k \<longleftrightarrow> (if k < 16 then bit lo (15 - k) else k < 32 \<and> bit hi (31 - k))"
proof (cases "k < 32")
  case True
  then have "bit (reverse_fdir_bitmasks hi lo) k \<longleftrightarrow>
      bit (push_bit 16 (ucast hi) OR ucast lo :: u32) (if k < 16 then 15 - k else 47 - k)"
    using swap_bits_all [of "push_bit 16 (ucast hi) OR ucast lo"] by (simp add: reverse_fdir_bitmasks_def)
  then show ?thesis using True by (auto simp: bit_simps bit_short)
qed (auto dest: bit_imp_le_length)

section \<open>Byte order\<close>

lemma horner: "y * 256 + ucast b = push_bit 8 y XOR ucast b" for y :: "'w::len word" and b :: u8
proof -
  have "push_bit 8 y AND ucast b = 0"
    by (rule bit_word_eqI) (auto simp: bit_simps dest: bit_imp_le_length)
  then show ?thesis by (simp add: disjunctive_add_eq_xor push_bit_eq_mult)
qed

lemma ntohl_bytes:
  "ntohl x = push_bit 24 (ucast (ucast x :: u8)) XOR push_bit 16 (ucast (ucast (drop_bit 8 x) :: u8)) XOR
     push_bit 8 (ucast (ucast (drop_bit 16 x) :: u8)) XOR ucast (ucast (drop_bit 24 x) :: u8)"
  using horner [of "0 :: u32"]
  by (simp add: ntohl_def be_value_def le_bytes_def upt_conv_Cons horner push_bit_xor xor.assoc)

lemma ntohl_xor: "ntohl (a XOR b) = ntohl a XOR ntohl b"
  unfolding ntohl_bytes by (simp add: push_bit_xor unsigned_xor_eq ac_simps)

lemma ntohl_bits: "\<forall>k\<in>set [0..<32]. bit (ntohl x) k \<longleftrightarrow> bit x (24 - k div 8 * 8 + k mod 8)"
  unfolding upt_32 ntohl_bytes
  by (simp add: bit_xor_iff bit_push_bit_iff bit_drop_bit_eq bit_unsigned_iff, simp add: numeral_2_eq_2)

lemma htons_bytes: "htons x = push_bit 8 (ucast (ucast x :: u8)) XOR ucast (ucast (drop_bit 8 x) :: u8)"
  using horner [of "0 :: u16"] by (simp add: htons_def be_value_def le_bytes_def upt_conv_Cons horner)

lemma upt_16: "[0..<16] = [0, 1, 2, 3, 4, 5, 6, 7, 8, 9, 10, 11, 12, 13, 14, 15 :: nat]"
  by code_simp

lemma htons_bits: "\<forall>k\<in>set [0..<16]. bit (htons x) k \<longleftrightarrow> bit x (8 - k div 8 * 8 + k mod 8)"
  unfolding upt_16 htons_bytes
  by (simp add: bit_xor_iff bit_push_bit_iff bit_drop_bit_eq bit_unsigned_iff, simp add: numeral_2_eq_2)

lemma mirrored:
  "\<forall>n\<in>set [0..<32]. let m = 24 - n div 8 * 8 + n mod 8 in m \<in> set [0..<32] \<and> 24 - m div 8 * 8 + m mod 8 = n"
  "\<forall>n\<in>set [0..<16]. let m = 8 - n div 8 * 8 + n mod 8 in m \<in> set [0..<16] \<and> 8 - m div 8 * 8 + m mod 8 = n"
  by code_simp+

lemma ntohl_twice: "ntohl (ntohl x) = x"
proof (rule bit_word_eqI)
  fix n assume "n < LENGTH(32)"
  then have "n \<in> set [0..<32]" by simp
  with mirrored(1) ntohl_bits show "bit (ntohl (ntohl x)) n = bit x n" unfolding Let_def by metis
qed

lemma htons_twice: "htons (htons x) = x"
proof (rule bit_word_eqI)
  fix n assume "n < LENGTH(16)"
  then have "n \<in> set [0..<16]" by simp
  with mirrored(2) htons_bits show "bit (htons (htons x)) n = bit x n" unfolding Let_def by metis
qed

lemma sig_masks: "push_bit 16 s AND 0x7fff0000 XOR b AND 0x7fff = (push_bit 16 s OR b AND 0x7fff) AND 0x7fff7fff" for s b :: u32
proof -
  have m: "(0x7fff0000 :: u32) = push_bit 16 (mask 15)" "(0x7fff :: u32) = mask 15" "(0x7fff7fff :: u32) = push_bit 16 (mask 15) OR mask 15"
    by (simp_all add: mask_eq_exp_minus_1 push_bit_eq_mult)
  show ?thesis unfolding m by (rule bit_word_eqI) (auto simp: bit_simps)
qed

section \<open>What the registers say\<close>

text \<open>A filter as the adapter holds it, and how it is read from the registers: the address
  registers are big-endian, ports and VLAN little-endian, as the code says.\<close>

record fdir_entry =
  en_bucket :: u32
  en_soft :: u16
  en_queue :: u32
  en_drop :: bool
  en_update :: bool
  en_type :: u32
  en_vlan :: u16
  en_flex :: u16
  en_src :: "u32 list"
  en_dst :: u32
  en_src_port :: u16
  en_dst_port :: u16

definition reg_of :: "io \<Rightarrow> u32 \<Rightarrow> u32" where
  "reg_of io r = (case last_written r io of Some v \<Rightarrow> v | None \<Rightarrow> 0)"

lemma reg_of_simps [simp]:
  "reg_of (io @ [Wr r' v]) r = (if r' = r then v else reg_of io r)" "reg_of (io @ [Rd r']) r = reg_of io r"
  by (simp_all add: reg_of_def)

definition programmed :: "io \<Rightarrow> fdir_entry" where
  "programmed io =
     (let cmd = reg_of io IXGBE_FDIRCMD; hash = reg_of io IXGBE_FDIRHASH; port = reg_of io IXGBE_FDIRPORT;
          vlan = reg_of io IXGBE_FDIRVLAN; v6 = cmd AND 0x80 \<noteq> 0
      in \<lparr>en_bucket = hash AND 0x7fff, en_soft = ucast (drop_bit 16 hash), en_queue = drop_bit 16 cmd AND 0x7f,
          en_drop = (cmd AND 0x200 \<noteq> 0), en_update = (cmd AND 0x8 \<noteq> 0), en_type = drop_bit 5 cmd AND 7,
          en_vlan = ucast vlan, en_flex = ucast (drop_bit 16 vlan),
          en_src = (if v6 then map (\<lambda>i. ntohl (reg_of io (IXGBE_FDIRSIPv6 i))) [0, 1, 2] else []) @ [ntohl (reg_of io IXGBE_FDIRIPSA)],
          en_dst = ntohl (reg_of io IXGBE_FDIRIPDA),
          en_src_port = ucast port, en_dst_port = ucast (drop_bit 16 port)\<rparr>)"

text \<open>The entry a filter asks for, when its fields are in network byte order.\<close>

definition flow_code :: "rte_fdir_filter \<Rightarrow> u32" where
  "flow_code f =
     (case l4type f of RTE_FDIR_L4TYPE_TCP \<Rightarrow> 2 | RTE_FDIR_L4TYPE_UDP \<Rightarrow> 1 | RTE_FDIR_L4TYPE_SCTP \<Rightarrow> 3 | _ \<Rightarrow> 0) +
     (if iptype f = RTE_FDIR_IPTYPE_IPV6 then 4 else 0)"

definition wanted_entry :: "rte_fdir_conf \<Rightarrow> rte_fdir_filter \<Rightarrow> atr_input \<Rightarrow> u16 \<Rightarrow> u8 \<Rightarrow> bool \<Rightarrow> bool \<Rightarrow> fdir_entry" where
  "wanted_entry conf f x soft queue drop_it update =
     \<lparr>en_bucket = atr_compute_perfect_hash_82599 (dword_stream x) (fc_pballoc conf), en_soft = soft,
      en_queue = ucast (if drop_it then drop_queue conf else queue), en_drop = drop_it, en_update = update,
      en_type = flow_code f, en_vlan = htons (ff_vlan_id f), en_flex = ff_flex_bytes f,
      en_src = map ntohl (if iptype f = RTE_FDIR_IPTYPE_IPV6 then take 4 (ff_ip_src f) else [ff_ip_src f ! 0]),
      en_dst = ntohl (ff_ip_dst f ! 0), en_src_port = htons (port_src f), en_dst_port = htons (port_dst f)\<rparr>"

definition filter_shape :: "rte_fdir_filter \<Rightarrow> bool" where
  "filter_shape f \<longleftrightarrow> length (ff_ip_src f) = 4 \<and> length (ff_ip_dst f) = 4"

text \<open>The command word: the low half is known, the upper half is the queue.\<close>

lemma low_bits:
  fixes k :: u32
  shows "drop_bit 16 k = 0 \<Longrightarrow> 16 \<le> n \<Longrightarrow> \<not> bit k n"
proof -
  assume "drop_bit 16 k = 0" and "16 \<le> n"
  moreover have "bit (drop_bit 16 k) (n - 16) \<longleftrightarrow> bit k n" using \<open>16 \<le> n\<close> by (simp add: bit_drop_bit_eq)
  ultimately show ?thesis by simp
qed

lemma cmd_halves:
  fixes k m :: u32 and q :: u8
  assumes "drop_bit 16 k = 0"
  shows "drop_bit 16 (k OR push_bit 16 (ucast q)) = ucast q"
    and "drop_bit 16 m = 0 \<Longrightarrow> (k OR push_bit 16 (ucast q)) AND m = k AND m"
    and "drop_bit 5 (k OR push_bit 16 (ucast q)) AND 7 = drop_bit 5 k AND 7"
proof -
  show "drop_bit 16 (k OR push_bit 16 (ucast q)) = ucast q"
    by (rule bit_word_eqI) (auto simp: bit_simps low_bits [OF assms] dest: bit_imp_le_length)
  show "(k OR push_bit 16 (ucast q)) AND m = k AND m" if "drop_bit 16 m = 0"
    by (rule bit_word_eqI) (auto simp: bit_simps low_bits [OF that])
  have m: "(7 :: u32) = mask 3" by (simp add: mask_eq_exp_minus_1)
  show "drop_bit 5 (k OR push_bit 16 (ucast q)) AND 7 = drop_bit 5 k AND 7"
    unfolding m by (rule bit_word_eqI) (auto simp: bit_simps)
qed

lemma bucket_small: "atr_compute_perfect_hash_82599 ds p AND 0x7fff = atr_compute_perfect_hash_82599 ds p"
  by (simp add: atr_compute_perfect_hash_82599_def PERFECT_BUCKET_256KB_HASH_MASK_def PERFECT_BUCKET_128KB_HASH_MASK_def
      PERFECT_BUCKET_64KB_HASH_MASK_def and.assoc)

lemma hash_halves:
  fixes h :: u32 and s :: u16
  assumes "h AND 0x7fff = h"
  shows "(h OR push_bit 16 (ucast s)) AND 0x7fff = h" "ucast (drop_bit 16 (h OR push_bit 16 (ucast s))) = s"
proof -
  have m: "(0x7fff :: u32) = mask 15" by (simp add: mask_eq_exp_minus_1)
  have hb: "bit h n \<Longrightarrow> n < 15" for n
    using arg_cong [OF assms, of "\<lambda>x. bit x n"] unfolding m by (auto simp: bit_simps)
  show "(h OR push_bit 16 (ucast s)) AND 0x7fff = h"
    unfolding m by (rule bit_word_eqI) (auto simp: bit_simps dest: hb)
  show "ucast (drop_bit 16 (h OR push_bit 16 (ucast s))) = s"
    by (rule bit_word_eqI) (auto simp: bit_simps dest: hb)
qed

lemmas fdir_regs = IXGBE_FDIRIPSA_def IXGBE_FDIRSIPv6_def IXGBE_FDIRIPDA_def IXGBE_FDIRPORT_def IXGBE_FDIRVLAN_def
  IXGBE_FDIRHASH_def IXGBE_FDIRCMD_def

lemmas fdir_cmds = IXGBE_FDIRCMD_CMD_ADD_FLOW_def IXGBE_FDIRCMD_LAST_def IXGBE_FDIRCMD_QUEUE_EN_def
  IXGBE_FDIRCMD_FILTER_UPDATE_def IXGBE_FDIRCMD_DROP_def

lemmas flow_types = IXGBE_ATR_FLOW_TYPE_TCPV4_def IXGBE_ATR_FLOW_TYPE_UDPV4_def IXGBE_ATR_FLOW_TYPE_SCTPV4_def
  IXGBE_ATR_FLOW_TYPE_IPV4_def IXGBE_ATR_L4TYPE_IPV6_MASK_def

text \<open>The low half of the command word.\<close>

definition cmd_low :: "rte_fdir_filter \<Rightarrow> bool \<Rightarrow> bool \<Rightarrow> u32" where
  "cmd_low f drop_it update =
     (if update then 8 else 0) OR (if drop_it then 0x200 else 0) OR 0x8801 OR push_bit 5 (flow_code f)"

lemma cmd_low_fields:
  "drop_bit 16 (cmd_low f d u) = 0" "drop_bit 5 (cmd_low f d u) AND 7 = flow_code f"
  "cmd_low f d u AND 0x200 \<noteq> 0 \<longleftrightarrow> d" "cmd_low f d u AND 8 \<noteq> 0 \<longleftrightarrow> u"
  "cmd_low f d u AND 0x80 \<noteq> 0 \<longleftrightarrow> iptype f = RTE_FDIR_IPTYPE_IPV6" "cmd_low f d u AND 3 = 1"
  by (cases "l4type f"; cases "iptype f"; cases d; cases u; simp add: cmd_low_def flow_code_def push_bit_eq_mult drop_bit_eq_div)+

lemma atr_input_fields:
  assumes "fdir_filter_to_atr_input f = Inr x"
  shows "vm_pool x = 0" "ucast (flow_type x) = flow_code f"
    "flow_type x AND IXGBE_ATR_L4TYPE_IPV6_MASK \<noteq> 0 \<longleftrightarrow> iptype f = RTE_FDIR_IPTYPE_IPV6"
    "vlan_id x = ff_vlan_id f" "flex_bytes x = ff_flex_bytes f" "atr_src_port x = port_src f" "atr_dst_port x = port_dst f"
    "atr_src_ip x = (if iptype f = RTE_FDIR_IPTYPE_IPV6 then take 4 (ff_ip_src f) else [ff_ip_src f ! 0, 0, 0, 0])"
    "atr_dst_ip x = (if iptype f = RTE_FDIR_IPTYPE_IPV6 then take 4 (ff_ip_dst f) else [ff_ip_dst f ! 0, 0, 0, 0])"
  using assms unfolding fdir_filter_to_atr_input_def
  by (cases "l4type f"; cases "iptype f"; auto simp: flow_code_def flow_types Let_def split: if_splits)+

text \<open>What a write of a filter appends, and that the last access is the command.\<close>

definition src_writes :: "rte_fdir_filter \<Rightarrow> io" where
  "src_writes f =
     (if iptype f = RTE_FDIR_IPTYPE_IPV6
      then map (\<lambda>i. Wr (IXGBE_FDIRSIPv6 (of_nat i)) (ff_ip_src f ! i)) [0, 1, 2] @ [Wr IXGBE_FDIRIPSA (ff_ip_src f ! 3)]
      else [Wr IXGBE_FDIRIPSA (ff_ip_src f ! 0)])"

lemma write_filter:
  assumes "hw_addr env \<noteq> NULL" and "filter_shape f" and x: "fdir_filter_to_atr_input f = Inr x"
  shows "fdir_write_perfect_filter_82599 env x soft queue
      ((if u then IXGBE_FDIRCMD_FILTER_UPDATE else 0) OR (if d then IXGBE_FDIRCMD_DROP else 0)) h io =
    Inr (io @ src_writes f @
      [Wr IXGBE_FDIRIPDA (ff_ip_dst f ! 0),
       Wr IXGBE_FDIRPORT (push_bit 16 (ucast (htons (port_dst f))) OR ucast (htons (port_src f))),
       Wr IXGBE_FDIRVLAN (push_bit 16 (ucast (ff_flex_bytes f)) OR ucast (htons (ff_vlan_id f))),
       Wr IXGBE_FDIRHASH (h OR push_bit 16 (ucast soft)), Rd IXGBE_STATUS,
       Wr IXGBE_FDIRCMD (cmd_low f d u OR push_bit 16 (ucast queue))])"
proof -
  note F = atr_input_fields [OF x]
  have nth: "take 4 xs ! 0 = xs ! 0" "take 4 xs ! 1 = xs ! 1" "take 4 xs ! 2 = xs ! 2" "take 4 xs ! 3 = xs ! 3" for xs :: "u32 list"
    by simp_all
  define fl :: u32 where "fl = (if u then IXGBE_FDIRCMD_FILTER_UPDATE else 0) OR (if d then IXGBE_FDIRCMD_DROP else 0)"
  have c: "((fl OR (IXGBE_FDIRCMD_CMD_ADD_FLOW OR IXGBE_FDIRCMD_LAST OR IXGBE_FDIRCMD_QUEUE_EN)) OR push_bit 5 (flow_code f)) OR
      push_bit 16 (ucast queue) = cmd_low f d u OR push_bit 16 (ucast queue)"
    by (simp add: cmd_low_def fdir_cmds fl_def or.assoc)
  show ?thesis
    using F(3) unfolding fdir_write_perfect_filter_82599_def Let_def F(1,2,4,5,6,7,8,9) mapped_simps [OF assms(1)]
      IXGBE_FDIRCMD_FLOW_TYPE_SHIFT_def IXGBE_FDIRCMD_RX_QUEUE_SHIFT_def IXGBE_FDIRCMD_VT_POOL_SHIFT_def
      IXGBE_FDIRPORT_DESTINATION_SHIFT_def IXGBE_FDIRVLAN_FLEX_SHIFT_def IXGBE_FDIRHASH_SIG_SW_INDEX_SHIFT_def fl_def [symmetric]
    by (cases "iptype f") (simp_all add: src_writes_def nth c)
qed

lemma regs_distinct:
  "distinct [IXGBE_FDIRSIPv6 0, IXGBE_FDIRSIPv6 1, IXGBE_FDIRSIPv6 2, IXGBE_FDIRIPSA, IXGBE_FDIRIPDA, IXGBE_FDIRPORT,
     IXGBE_FDIRVLAN, IXGBE_FDIRHASH, IXGBE_FDIRCMD]"
  by (simp add: fdir_regs)

lemma reg_of_Cons: "reg_of (io @ a # io') r = reg_of ((io @ [a]) @ io') r"
  by simp

text \<open>Reading back what \<open>write_filter\<close> says was written.\<close>

lemma programmed_filter:
  fixes queue :: u8
  assumes sh: "filter_shape f" and h: "h AND 0x7fff = h" and q: "queue < 128"
  shows "programmed (io @ src_writes f @
      [Wr IXGBE_FDIRIPDA (ff_ip_dst f ! 0),
       Wr IXGBE_FDIRPORT (push_bit 16 (ucast (htons (port_dst f))) OR ucast (htons (port_src f))),
       Wr IXGBE_FDIRVLAN (push_bit 16 (ucast (ff_flex_bytes f)) OR ucast (htons (ff_vlan_id f))),
       Wr IXGBE_FDIRHASH (h OR push_bit 16 (ucast soft)), Rd IXGBE_STATUS,
       Wr IXGBE_FDIRCMD (cmd_low f d u OR push_bit 16 (ucast queue))]) =
    \<lparr>en_bucket = h, en_soft = soft, en_queue = ucast queue, en_drop = d, en_update = u,
      en_type = flow_code f, en_vlan = htons (ff_vlan_id f), en_flex = ff_flex_bytes f,
      en_src = map ntohl (if iptype f = RTE_FDIR_IPTYPE_IPV6 then take 4 (ff_ip_src f) else [ff_ip_src f ! 0]),
      en_dst = ntohl (ff_ip_dst f ! 0), en_src_port = htons (port_src f), en_dst_port = htons (port_dst f)\<rparr>"
    (is "programmed ?io = _")
proof -
  let ?cmd = "cmd_low f d u OR push_bit 16 (ucast queue)"
  have R: "reg_of ?io IXGBE_FDIRCMD = ?cmd" "reg_of ?io IXGBE_FDIRHASH = h OR push_bit 16 (ucast soft)"
    "reg_of ?io IXGBE_FDIRPORT = push_bit 16 (ucast (htons (port_dst f))) OR ucast (htons (port_src f))"
    "reg_of ?io IXGBE_FDIRVLAN = push_bit 16 (ucast (ff_flex_bytes f)) OR ucast (htons (ff_vlan_id f))"
    "reg_of ?io IXGBE_FDIRIPDA = ff_ip_dst f ! 0"
    "reg_of ?io IXGBE_FDIRIPSA = (if iptype f = RTE_FDIR_IPTYPE_IPV6 then ff_ip_src f ! 3 else ff_ip_src f ! 0)"
    "iptype f = RTE_FDIR_IPTYPE_IPV6 \<Longrightarrow> map (\<lambda>i. reg_of ?io (IXGBE_FDIRSIPv6 i)) [0, 1, 2] = map (\<lambda>i. ff_ip_src f ! i) [0, 1, 2]"
    by (simp_all add: reg_of_def last_written_append src_writes_def fdir_regs)
  note L = cmd_low_fields [of f d u]
  note C = cmd_halves [OF L(1), where q = queue]
  have bits: "?cmd AND 0x200 = cmd_low f d u AND 0x200" "?cmd AND 8 = cmd_low f d u AND 8" "?cmd AND 0x80 = cmd_low f d u AND 0x80"
    by (rule C(2), simp add: drop_bit_eq_div)+
  have "ucast queue AND 0x7f = (ucast queue :: u32)"
    by (rule word_unat_eq_iff [THEN iffD2], subst unat_and_mask [of _ 7])
      (use q in \<open>simp_all add: word_less_nat_alt unsigned_ucast_eq take_bit_nat_eq_self\<close>)
  then have qu: "drop_bit 16 ?cmd AND 0x7f = ucast queue" by (simp only: C(1))
  have "take 4 (ff_ip_src f) = map (\<lambda>i. ff_ip_src f ! i) [0, 1, 2] @ [ff_ip_src f ! 3]"
    using sh unfolding filter_shape_def len4 by auto
  then show ?thesis
    unfolding programmed_def Let_def R(1-6) bits qu C(3) L(2-5) hash_halves [OF h]
    using R(7) by (auto simp: or.commute halves simp del: drop_bit_or)
qed

lemma valid_entries:
  assumes "hw_addr env \<noteq> NULL" and "hw_type env = ixgbe_mac_82599EB" and "filter_shape f"
    and x: "fdir_filter_to_atr_input f = Inr x" and "(if d then drop_queue conf else queue) < 128"
  shows "\<exists>io'. fdir_add_update_perfect_filter env conf f soft queue d u io = Inr (0, io') \<and>
    programmed io' = wanted_entry conf f x soft queue d u \<and>
    (\<exists>log cmd. io' = io @ log @ [Rd IXGBE_STATUS, Wr IXGBE_FDIRCMD cmd] \<and> cmd AND IXGBE_FDIRCMD_CMD_MASK = IXGBE_FDIRCMD_CMD_ADD_FLOW \<and>
       (\<forall>v. Wr IXGBE_FDIRCMD v \<notin> set log)) \<and>
    last_written IXGBE_FDIRHASH io' =
      Some (atr_compute_perfect_hash_82599 (dword_stream x) (fc_pballoc conf) OR push_bit 16 (ucast soft))"
proof -
  let ?h = "atr_compute_perfect_hash_82599 (dword_stream x) (fc_pballoc conf)" and ?q = "if d then drop_queue conf else queue"
  let ?log = "src_writes f @
      [Wr IXGBE_FDIRIPDA (ff_ip_dst f ! 0),
       Wr IXGBE_FDIRPORT (push_bit 16 (ucast (htons (port_dst f))) OR ucast (htons (port_src f))),
       Wr IXGBE_FDIRVLAN (push_bit 16 (ucast (ff_flex_bytes f)) OR ucast (htons (ff_vlan_id f))),
       Wr IXGBE_FDIRHASH (?h OR push_bit 16 (ucast soft))]"
  let ?cmd = "cmd_low f d u OR push_bit 16 (ucast ?q)"
  let ?io = "io @ ?log @ [Rd IXGBE_STATUS, Wr IXGBE_FDIRCMD ?cmd]"
  have fl: "(if d then (if u then IXGBE_FDIRCMD_FILTER_UPDATE else 0) OR IXGBE_FDIRCMD_DROP else if u then IXGBE_FDIRCMD_FILTER_UPDATE else 0) =
    (if u then IXGBE_FDIRCMD_FILTER_UPDATE else 0) OR (if d then IXGBE_FDIRCMD_DROP else 0)" by simp
  have "fdir_add_update_perfect_filter env conf f soft queue d u io = Inr (0, ?io)"
    using assms(2) x write_filter [OF assms(1,3) x, of soft ?q u d ?h io]
    unfolding fdir_add_update_perfect_filter_def Let_def fl by simp
  moreover have "programmed ?io = wanted_entry conf f x soft queue d u"
    using programmed_filter [OF assms(3) bucket_small assms(5), of io "dword_stream x" "fc_pballoc conf" soft d u]
    unfolding wanted_entry_def by simp
  moreover have "?cmd AND IXGBE_FDIRCMD_CMD_MASK = IXGBE_FDIRCMD_CMD_ADD_FLOW"
    using cmd_low_fields(6) [of f d u] cmd_halves(2) [OF cmd_low_fields(1), of 3 f d u ?q]
    by (simp add: IXGBE_FDIRCMD_CMD_MASK_def IXGBE_FDIRCMD_CMD_ADD_FLOW_def drop_bit_eq_div)
  moreover have "Wr IXGBE_FDIRCMD v \<notin> set ?log" for v by (auto simp: src_writes_def fdir_regs)
  moreover have "last_written IXGBE_FDIRHASH ?io = Some (?h OR push_bit 16 (ucast soft))"
    by (simp add: last_written_append fdir_regs IXGBE_STATUS_def)
  ultimately show ?thesis by blast
qed

text \<open>Erasing: a query, at most ten reads of the answer, and the removal when the filter is there.\<close>

lemma erase_filter:
  assumes "hw_addr env \<noteq> NULL"
  shows "\<exists>k err. let io1 = io @ [Wr IXGBE_FDIRHASH h, Rd IXGBE_STATUS, Wr IXGBE_FDIRCMD IXGBE_FDIRCMD_CMD_QUERY_REM_FILT];
        v = hw_answer env (io1 @ replicate (k - 1) (Rd IXGBE_FDIRCMD)) IXGBE_FDIRCMD
    in fdir_erase_filter_82599 env h io = Inr (err, io1 @ replicate k (Rd IXGBE_FDIRCMD) @
         (if v AND IXGBE_FDIRCMD_FILTER_VALID \<noteq> 0
          then [Wr IXGBE_FDIRHASH h, Rd IXGBE_STATUS, Wr IXGBE_FDIRCMD IXGBE_FDIRCMD_CMD_REMOVE_FLOW] else [])) \<and>
       0 < k \<and> k \<le> 10 \<and> (if v AND IXGBE_FDIRCMD_CMD_MASK = 0 then err = 0 else err = - EIO \<and> k = 10)"
proof -
  let ?io = "io @ [Wr IXGBE_FDIRHASH h, Rd IXGBE_STATUS, Wr IXGBE_FDIRCMD IXGBE_FDIRCMD_CMD_QUERY_REM_FILT]"
  obtain k b v where p: "poll_reg env 10 IXGBE_FDIRCMD (\<lambda>v. v AND IXGBE_FDIRCMD_CMD_MASK = 0) 0 ?io =
      Inr (b, v, ?io @ replicate k (Rd IXGBE_FDIRCMD))" "k \<le> 10" "b \<longleftrightarrow> v AND IXGBE_FDIRCMD_CMD_MASK = 0 \<and> 0 < k" "\<not> b \<longrightarrow> k = 10"
      "v = (if k = 0 then 0 else hw_answer env (?io @ replicate (k - 1) (Rd IXGBE_FDIRCMD)) IXGBE_FDIRCMD)"
    using poll_reg_stops [OF assms, of 10 IXGBE_FDIRCMD "\<lambda>v. v AND IXGBE_FDIRCMD_CMD_MASK = 0" 0 ?io]
    by (elim exE conjE) (rule that)
  then have k: "0 < k" by (cases k) auto
  then have v: "hw_answer env (?io @ replicate (k - 1) (Rd IXGBE_FDIRCMD)) IXGBE_FDIRCMD = v" using p(5) by simp
  show ?thesis
    unfolding Let_def
    by (intro exI [of _ k] exI [of _ "if b then 0 else - EIO"], unfold v)
      (use p(1-4) k in \<open>simp add: fdir_erase_filter_82599_def mapped_simps [OF assms]\<close>)
qed

section \<open>Filters that do not differ in their hash\<close>

text \<open>The bucket hash is linear in the stream behind the first word.\<close>

definition bucket_of :: "u32 \<Rightarrow> u32 \<Rightarrow> u32" where
  "bucket_of f h = (let lo = drop_bit 16 h OR push_bit 16 h; hi = h XOR (f XOR drop_bit 16 f)
     in foldl (\<lambda>h i. hash_bits IXGBE_ATR_BUCKET_HASH_KEY (lo XOR (f XOR push_bit 16 f)) hi i h) hi (rev [1..<16]))"

lemma bucket_hash_of: "ixgbe_atr_compute_hash_82599 ds IXGBE_ATR_BUCKET_HASH_KEY = bucket_of (ntohl (ds ! 0)) (ntohl (common_dword ds))"
  by (simp add: plain_hash IXGBE_ATR_BUCKET_HASH_KEY_def bucket_of_def Let_def)

lemma rotated: "drop_bit 16 h OR push_bit 16 h = drop_bit 16 h XOR push_bit 16 h" for h :: u32
  by (rule disjunctive_xor_eq_or [symmetric], rule bit_word_eqI) (auto simp: bit_simps dest: bit_imp_le_length)

lemma bucket_of_xor: "bucket_of f (h XOR e) = bucket_of f h XOR bucket_of 0 e"
  unfolding bucket_of_def Let_def rotated
  by (simp add: upt_15 hash_bits_def IXGBE_ATR_BUCKET_HASH_KEY_def push_key push_bit_xor drop_bit_xor,
      simp only: xor.assoc, simp only: xor.commute xor.left_commute)

lemma bucket_of_flag: "bucket_of 0 (ntohl 1) AND 0x7ff \<noteq> 0"
  by code_simp

text \<open>The bucket that a filter is put into, and asked for.\<close>

definition filter_bucket :: "rte_fdir_conf \<Rightarrow> rte_fdir_filter \<Rightarrow> u32 option" where
  "filter_bucket conf f =
     (case fdir_filter_to_atr_input f of
        Inl _ \<Rightarrow> None
      | Inr x \<Rightarrow> Some (atr_compute_perfect_hash_82599 (dword_stream x) (fc_pballoc conf)))"

lemma tuple_input:
  "\<exists>x. fdir_filter_to_atr_input (tuple_filter vlan flex t) = Inr x \<and>
     dword_stream x = [push_bit 8 2 OR push_bit 16 (ucast vlan), src_ip t, 0, 0, 0, dst_ip t, 0, 0, 0,
       ucast (dst_port t) OR push_bit 16 (ucast (src_port t)), ucast flex]"
  by (simp add: fdir_filter_to_atr_input_def tuple_filter_def flow_types Let_def dword_stream_def)

lemma xor_same: "a = a XOR c \<Longrightarrow> c = 0" for a c :: u32
proof -
  assume "a = a XOR c"
  then have "a XOR a = a XOR (a XOR c)" by simp
  then show "c = 0" by (simp flip: xor.assoc)
qed

lemma flex_moves_bucket:
  "filter_bucket conf (tuple_filter vlan 0 t) \<noteq> filter_bucket conf (tuple_filter vlan 1 t)"
proof -
  let ?ds = "\<lambda>e. [push_bit 8 2 OR push_bit 16 (ucast vlan), src_ip t, 0, 0, 0, dst_ip t, 0, 0, 0,
       ucast (dst_port t) OR push_bit 16 (ucast (src_port t)), e :: u32]"
  obtain x0 x1 where x: "fdir_filter_to_atr_input (tuple_filter vlan 0 t) = Inr x0" "dword_stream x0 = ?ds 0"
    "fdir_filter_to_atr_input (tuple_filter vlan 1 t) = Inr x1" "dword_stream x1 = ?ds 1"
    using tuple_input [of vlan 0 t] tuple_input [of vlan 1 t] by (auto simp del: push_bit_of_0)
  have c: "common_dword (?ds 1) = common_dword (?ds 0) XOR 1"
    unfolding common_dword_def by (simp add: upt_11)
  let ?h = "\<lambda>e. ixgbe_atr_compute_hash_82599 (?ds e) IXGBE_ATR_BUCKET_HASH_KEY"
  have h: "?h 1 = ?h 0 XOR bucket_of 0 (ntohl 1)"
    unfolding bucket_hash_of c ntohl_xor bucket_of_xor by simp
  have neq: "?h 0 AND m \<noteq> ?h 1 AND m" if "m AND 0x7ff = 0x7ff" for m
  proof
    assume "?h 0 AND m = ?h 1 AND m"
    then have "bucket_of 0 (ntohl 1) AND m = 0" unfolding h bit.conj_xor_distrib2 by (rule xor_same)
    then have "bucket_of 0 (ntohl 1) AND (m AND 0x7ff) = 0" by (simp flip: and.assoc)
    with that bucket_of_flag show False by simp
  qed
  from neq [of "0x7ff"] neq [of "0xfff"] neq [of "0x1fff"] show ?thesis
    by (simp add: filter_bucket_def x atr_compute_perfect_hash_82599_def PERFECT_BUCKET_256KB_HASH_MASK_def
        PERFECT_BUCKET_128KB_HASH_MASK_def PERFECT_BUCKET_64KB_HASH_MASK_def)
qed

section \<open>An example\<close>

definition nic9 :: hw_env where
  "nic9 = \<lparr>hw_addr = 0x9000, hw_type = ixgbe_mac_82599EB, hw_answer = (\<lambda>_ _. 0)\<rparr>"

definition conf9 :: rte_fdir_conf where
  "conf9 = \<lparr>fc_mode = RTE_FDIR_MODE_PERFECT, fc_pballoc = RTE_FDIR_PBALLOC_64K, fc_status = RTE_FDIR_NO_REPORT_STATUS,
     flexbytes_offset = 0, drop_queue = 127\<rparr>"

definition tuple9 :: ip_tuple where
  "tuple9 = \<lparr>src_ip = 0x0A000001, dst_ip = 0x0A000009, src_port = 2049, dst_port = 80\<rparr>"

definition filter9 :: rte_fdir_filter where "filter9 = tuple_filter 0 0 tuple9"

section \<open>Properties\<close>



text \<open>C14: Adding a perfect filter leaves in the registers exactly the entry wanted and
  gives the command last; removing the same filter asks for the same hash and index, polls at
  most ten times and removes the entry iff the adapter says it is there.\<close>

theorem fdir_add_remove:
  assumes "hw_addr env \<noteq> NULL" and "hw_type env = ixgbe_mac_82599EB" and "filter_shape f"
    and "fdir_filter_to_atr_input f = Inr x" and "(if d then drop_queue conf else queue) < 128"
  shows "\<exists>log cmd. let io' = io @ log @ [Rd IXGBE_STATUS, Wr IXGBE_FDIRCMD cmd] in
    ixgbe_fdir_add_perfect_filter env conf f soft queue d io = Inr (0, io') \<and>
    cmd AND IXGBE_FDIRCMD_CMD_MASK = IXGBE_FDIRCMD_CMD_ADD_FLOW \<and> (\<forall>v. Wr IXGBE_FDIRCMD v \<notin> set log) \<and>
    programmed io' = wanted_entry conf f x soft queue d False \<and>
    (\<forall>io2. \<exists>k err.
      let h = reg_of io' IXGBE_FDIRHASH;
          io3 = io2 @ [Wr IXGBE_FDIRHASH h, Rd IXGBE_STATUS, Wr IXGBE_FDIRCMD IXGBE_FDIRCMD_CMD_QUERY_REM_FILT];
          v = hw_answer env (io3 @ replicate (k - 1) (Rd IXGBE_FDIRCMD)) IXGBE_FDIRCMD
      in ixgbe_fdir_remove_perfect_filter env conf f soft io2 =
           Inr (err, io3 @ replicate k (Rd IXGBE_FDIRCMD) @
             (if v AND IXGBE_FDIRCMD_FILTER_VALID \<noteq> 0
              then [Wr IXGBE_FDIRHASH h, Rd IXGBE_STATUS, Wr IXGBE_FDIRCMD IXGBE_FDIRCMD_CMD_REMOVE_FLOW] else [])) \<and>
         0 < k \<and> k \<le> 10 \<and> (if v AND IXGBE_FDIRCMD_CMD_MASK = 0 then err = 0 else err = - EIO \<and> k = 10))"
proof -
  let ?h = "atr_compute_perfect_hash_82599 (dword_stream x) (fc_pballoc conf) OR push_bit 16 (ucast soft)"
  from valid_entries [OF assms, of soft False io] obtain log cmd where
    a: "fdir_add_update_perfect_filter env conf f soft queue d False io = Inr (0, io @ log @ [Rd IXGBE_STATUS, Wr IXGBE_FDIRCMD cmd])"
      "programmed (io @ log @ [Rd IXGBE_STATUS, Wr IXGBE_FDIRCMD cmd]) = wanted_entry conf f x soft queue d False"
      "cmd AND IXGBE_FDIRCMD_CMD_MASK = IXGBE_FDIRCMD_CMD_ADD_FLOW" "\<forall>v. Wr IXGBE_FDIRCMD v \<notin> set log"
      "last_written IXGBE_FDIRHASH (io @ log @ [Rd IXGBE_STATUS, Wr IXGBE_FDIRCMD cmd]) = Some ?h" by metis
  have h: "reg_of (io @ log @ [Rd IXGBE_STATUS, Wr IXGBE_FDIRCMD cmd]) IXGBE_FDIRHASH = ?h" using a(5) by (simp add: reg_of_def)
  have r: "ixgbe_fdir_remove_perfect_filter env conf f soft io2 = fdir_erase_filter_82599 env ?h io2" for io2
    using assms(2,4) by (simp add: ixgbe_fdir_remove_perfect_filter_def IXGBE_FDIRHASH_SIG_SW_INDEX_SHIFT_def)
  show ?thesis
    by (intro exI [of _ log] exI [of _ cmd])
      (use a(1-4) erase_filter [OF assms(1), where h = ?h] in \<open>simp only: Let_def h r ixgbe_fdir_add_perfect_filter_def simp_thms\<close>)
qed

text \<open>C40: The filter that \<open>tcp_api\<close>.c asks for a connection reaches the
  adapter with the bytes of addresses and ports reversed, and in a bucket that depends on its
  uninitialised flex bytes.\<close>

theorem connection_filter_mirrored:
  assumes "hw_addr env \<noteq> NULL" and "hw_type env = ixgbe_mac_82599EB" and "queue < 128"
  shows "\<exists>io'. ixgbe_fdir_add_perfect_filter env conf (tuple_filter vlan flex t) 0 queue False io = Inr (0, io') \<and>
    en_src (programmed io') = [ntohl (dst_ip t)] \<and> en_dst (programmed io') = ntohl (src_ip t) \<and>
    en_src_port (programmed io') = htons (dst_port t) \<and> en_dst_port (programmed io') = htons (src_port t) \<and>
    filter_bucket conf (tuple_filter vlan 0 t) \<noteq> filter_bucket conf (tuple_filter vlan 1 t)"
proof -
  obtain x where x: "fdir_filter_to_atr_input (tuple_filter vlan flex t) = Inr x" using tuple_input by blast
  have sh: "filter_shape (tuple_filter vlan flex t)" by (simp add: filter_shape_def tuple_filter_def)
  have q: "(if False then drop_queue conf else queue) < 128" using assms(3) by simp
  from valid_entries [OF assms(1,2) sh x q, of 0 False io] obtain io' where
    "ixgbe_fdir_add_perfect_filter env conf (tuple_filter vlan flex t) 0 queue False io = Inr (0, io')"
    "programmed io' = wanted_entry conf (tuple_filter vlan flex t) x 0 queue False False"
    unfolding ixgbe_fdir_add_perfect_filter_def by blast
  then show ?thesis using flex_moves_bucket by (auto simp: wanted_entry_def tuple_filter_def)
qed

text \<open>The packets of the connection to port 80 of 10.0.0.9 do not match: the filter waits for
  port 20480 of 9.0.0.10.\<close>

theorem connection_filter_mirrored_witness:
  "\<exists>io'. ixgbe_fdir_add_perfect_filter nic9 conf9 (tuple_filter 0 0 tuple9) 0 3 False [] = Inr (0, io') \<and>
     en_src (programmed io') = [0x0900000A] \<and> en_src_port (programmed io') = 20480"
proof -
  have n: "hw_addr nic9 \<noteq> NULL" "hw_type nic9 = ixgbe_mac_82599EB" by (simp_all add: nic9_def)
  have v: "ntohl (dst_ip tuple9) = 0x0900000A" "htons (dst_port tuple9) = 20480" by code_simp+
  show ?thesis using connection_filter_mirrored [OF n, of 3 conf9 0 0 tuple9 "[]"] by (auto simp: v)
qed

theorem fdir_add_remove_witness:
  "\<exists>x io' io3. ixgbe_fdir_add_perfect_filter nic9 conf9 filter9 7 3 False [] = Inr (0, io') \<and>
     fdir_filter_to_atr_input filter9 = Inr x \<and> programmed io' = wanted_entry conf9 filter9 x 7 3 False False \<and>
     ixgbe_fdir_remove_perfect_filter nic9 conf9 filter9 7 io' = Inr (0, io3)"
proof -
  have n: "hw_addr nic9 \<noteq> NULL" "hw_type nic9 = ixgbe_mac_82599EB" by (simp_all add: nic9_def)
  have sh: "filter_shape filter9" by (simp add: filter_shape_def filter9_def tuple_filter_def)
  obtain x where x: "fdir_filter_to_atr_input filter9 = Inr x" using tuple_input unfolding filter9_def by blast
  have q: "(if False then drop_queue conf9 else 3) < 128" by simp
  have A: "hw_answer nic9 l r = 0" for l r by (simp add: nic9_def)
  note run = fdir_add_remove [OF n sh x q, where soft = 7 and io = "[]", unfolded Let_def A and_zero_eq zero_and_eq append_Nil simp_thms if_True if_False]
  from run obtain log cmd where
    a: "ixgbe_fdir_add_perfect_filter nic9 conf9 filter9 7 3 False [] = Inr (0, log @ [Rd IXGBE_STATUS, Wr IXGBE_FDIRCMD cmd])"
      "programmed (log @ [Rd IXGBE_STATUS, Wr IXGBE_FDIRCMD cmd]) = wanted_entry conf9 filter9 x 7 3 False False" and
    r: "\<forall>io2. \<exists>err io3. ixgbe_fdir_remove_perfect_filter nic9 conf9 filter9 7 io2 = Inr (err, io3) \<and> err = 0"
    by blast
  from r obtain io3 where "ixgbe_fdir_remove_perfect_filter nic9 conf9 filter9 7 (log @ [Rd IXGBE_STATUS, Wr IXGBE_FDIRCMD cmd]) = Inr (0, io3)"
    by blast
  with a x show ?thesis by blast
qed

end
