(* ===== verification/Ixgbe_Fdir_82599.thy ===== *)
theory Ixgbe_Fdir_82599
  imports Ixgbe_Fdir
begin

text \<open>
  The flow director functions of the device library (\<open>ixgbe/ixgbe_82599.c\<close>), from which those
  of \<open>Ixgbe_Fdir\<close> were derived. The big-endian writes swap a value twice, so they write it as
  it is.
\<close>

definition IXGBE_STORE_AS_BE32 :: "u32 \<Rightarrow> u32" where
  "IXGBE_STORE_AS_BE32 v = drop_bit 24 v OR drop_bit 8 (v AND 0x00FF0000) OR push_bit 8 (v AND 0x0000FF00) OR push_bit 24 v"

definition write_reg_BE32 :: "hw_env \<Rightarrow> u32 \<Rightarrow> u32 \<Rightarrow> io \<Rightarrow> io" where
  "write_reg_BE32 env r v io = write_reg env r (IXGBE_STORE_AS_BE32 (ntohl v)) io"

definition IXGBE_STORE_AS_BE16 :: "u16 \<Rightarrow> u16" where
  "IXGBE_STORE_AS_BE16 v = htons (drop_bit 8 v OR push_bit 8 v)"

definition ixgbe_fdir_enable_82599 :: "hw_env \<Rightarrow> u32 \<Rightarrow> io \<Rightarrow> io res" where
  "ixgbe_fdir_enable_82599 env fdirctrl io =
     (let io1 = write_reg env IXGBE_FDIRHKEY IXGBE_ATR_BUCKET_HASH_KEY io;
          io2 = write_reg env IXGBE_FDIRSKEY IXGBE_ATR_SIGNATURE_HASH_KEY io1;
          io3 = write_reg env IXGBE_FDIRCTRL fdirctrl io2
      in bindR (write_flush env io3) (\<lambda>io4.
         bindR (poll_reg env IXGBE_FDIR_INIT_DONE_POLL IXGBE_FDIRCTRL (\<lambda>v. v AND IXGBE_FDIRCTRL_INIT_DONE \<noteq> 0) 0 io4)
           (\<lambda>(_, _, io5). Inr io5)))"

definition ixgbe_init_fdir_signature_82599 :: "hw_env \<Rightarrow> u32 \<Rightarrow> io \<Rightarrow> (u32 \<times> io) res" where
  "ixgbe_init_fdir_signature_82599 env fdirctrl io =
     (let ctrl = fdirctrl OR (push_bit IXGBE_FDIRCTRL_FLEX_SHIFT 0x6 OR push_bit IXGBE_FDIRCTRL_MAX_LENGTH_SHIFT 0xA OR
                              push_bit IXGBE_FDIRCTRL_FULL_THRESH_SHIFT 4)
      in bindR (ixgbe_fdir_enable_82599 env ctrl io) (\<lambda>io1. Inr (0, io1)))"

definition ixgbe_init_fdir_perfect_82599 :: "hw_env \<Rightarrow> u32 \<Rightarrow> io \<Rightarrow> (u32 \<times> io) res" where
  "ixgbe_init_fdir_perfect_82599 env fdirctrl io =
     (let ctrl = fdirctrl OR (IXGBE_FDIRCTRL_PERFECT_MATCH OR IXGBE_FDIRCTRL_REPORT_STATUS OR
                              push_bit IXGBE_FDIRCTRL_DROP_Q_SHIFT (ucast IXGBE_FDIR_DROP_QUEUE) OR
                              push_bit IXGBE_FDIRCTRL_FLEX_SHIFT 0x6 OR push_bit IXGBE_FDIRCTRL_MAX_LENGTH_SHIFT 0xA OR
                              push_bit IXGBE_FDIRCTRL_FULL_THRESH_SHIFT 4)
      in bindR (ixgbe_fdir_enable_82599 env ctrl io) (\<lambda>io1. Inr (0, io1)))"

text \<open>The first word of the stream holds the flow type in its second byte.\<close>

definition ixgbe_fdir_add_signature_filter_82599 :: "hw_env \<Rightarrow> u32 \<Rightarrow> u32 \<Rightarrow> u8 \<Rightarrow> io \<Rightarrow> u32 \<times> io" where
  "ixgbe_fdir_add_signature_filter_82599 env input common queue io =
     (let ft = (ucast (drop_bit 8 input) :: u8) in
      if ft \<notin> {IXGBE_ATR_FLOW_TYPE_TCPV4, IXGBE_ATR_FLOW_TYPE_UDPV4, IXGBE_ATR_FLOW_TYPE_SCTPV4,
               IXGBE_ATR_FLOW_TYPE_TCPV6, IXGBE_ATR_FLOW_TYPE_UDPV6, IXGBE_ATR_FLOW_TYPE_SCTPV6}
      then (IXGBE_ERR_CONFIG, io)
      else
        let cmd1 = IXGBE_FDIRCMD_CMD_ADD_FLOW OR IXGBE_FDIRCMD_FILTER_UPDATE OR IXGBE_FDIRCMD_LAST OR IXGBE_FDIRCMD_QUEUE_EN;
            cmd2 = cmd1 OR push_bit IXGBE_FDIRCMD_FLOW_TYPE_SHIFT (ucast ft);
            cmd3 = cmd2 OR push_bit IXGBE_FDIRCMD_RX_QUEUE_SHIFT (ucast queue);
            fdirhashcmd = push_bit 32 (ucast cmd3) OR ucast (ixgbe_atr_compute_sig_hash_82599 input common)
        in (0, write_reg64 env IXGBE_FDIRHASH fdirhashcmd io))"

text \<open>The partial masks that the adapter knows; \<open>None\<close> is a mask it does not.\<close>

definition fdirm_of :: "atr_input \<Rightarrow> u32 option" where
  "fdirm_of m =
     (let f0 = IXGBE_FDIRM_DIPv6; pool = vm_pool m AND 0x7F in
      if pool \<noteq> 0 \<and> pool \<noteq> 0x7F then None
      else
        let f1 = (if pool = 0 then f0 OR IXGBE_FDIRM_POOL else f0);
            l4 = flow_type m AND IXGBE_ATR_L4TYPE_MASK
        in if l4 \<noteq> 0 \<and> l4 \<noteq> IXGBE_ATR_L4TYPE_MASK \<or> l4 = 0 \<and> (atr_dst_port m \<noteq> 0 \<or> atr_src_port m \<noteq> 0) then None
           else
             let f2 = (if l4 = 0 then f1 OR IXGBE_FDIRM_L4P else f1);
                 vlan = htons (vlan_id m) AND 0xEFFF
             in if vlan \<notin> {0x0000, 0x0FFF, 0xE000, 0xEFFF} then None
                else
                  let f3 = (if vlan = 0x0000 then f2 OR IXGBE_FDIRM_VLANID OR IXGBE_FDIRM_VLANP
                            else if vlan = 0x0FFF then f2 OR IXGBE_FDIRM_VLANP
                            else if vlan = 0xE000 then f2 OR IXGBE_FDIRM_VLANID else f2)
                  in if flex_bytes m = 0 then Some (f3 OR IXGBE_FDIRM_FLEX)
                     else if flex_bytes m = 0xFFFF then Some f3 else None)"

definition ixgbe_fdir_set_input_mask_82599 :: "hw_env \<Rightarrow> atr_input \<Rightarrow> io \<Rightarrow> u32 \<times> io" where
  "ixgbe_fdir_set_input_mask_82599 env m io =
     (case fdirm_of m of
        None \<Rightarrow> (IXGBE_ERR_CONFIG, io)
      | Some fdirm \<Rightarrow>
          let io1 = write_reg env IXGBE_FDIRM fdirm io;
              fdirtcpm = ixgbe_get_fdirtcpm_82599 m;
              io2 = write_reg env IXGBE_FDIRTCPM (NOT fdirtcpm) io1;
              io3 = write_reg env IXGBE_FDIRUDPM (NOT fdirtcpm) io2;
              io4 = write_reg_BE32 env IXGBE_FDIRSIP4M (NOT (atr_src_ip m ! 0)) io3
          in (0, write_reg_BE32 env IXGBE_FDIRDIP4M (NOT (atr_dst_ip m ! 0)) io4))"

definition ixgbe_fdir_write_perfect_filter_82599 :: "hw_env \<Rightarrow> atr_input \<Rightarrow> u16 \<Rightarrow> u8 \<Rightarrow> io \<Rightarrow> (u32 \<times> io) res" where
  "ixgbe_fdir_write_perfect_filter_82599 env input soft_id queue io =
     (let io1 = write_reg_BE32 env (IXGBE_FDIRSIPv6 0) (atr_src_ip input ! 0) io;
          io2 = write_reg_BE32 env (IXGBE_FDIRSIPv6 1) (atr_src_ip input ! 1) io1;
          io3 = write_reg_BE32 env (IXGBE_FDIRSIPv6 2) (atr_src_ip input ! 2) io2;
          io4 = write_reg_BE32 env IXGBE_FDIRIPSA (atr_src_ip input ! 0) io3;
          io5 = write_reg_BE32 env IXGBE_FDIRIPDA (atr_dst_ip input ! 0) io4;
          fdirport = push_bit IXGBE_FDIRPORT_DESTINATION_SHIFT (ucast (htons (atr_dst_port input))) OR
                     ucast (htons (atr_src_port input));
          io6 = write_reg env IXGBE_FDIRPORT fdirport io5;
          fdirvlan = push_bit IXGBE_FDIRVLAN_FLEX_SHIFT (ucast (IXGBE_STORE_AS_BE16 (flex_bytes input))) OR
                     ucast (htons (vlan_id input));
          io7 = write_reg env IXGBE_FDIRVLAN fdirvlan io6;
          fdirhash = ucast (bkt_hash input) OR push_bit IXGBE_FDIRHASH_SIG_SW_INDEX_SHIFT (ucast soft_id);
          io8 = write_reg env IXGBE_FDIRHASH fdirhash io7
      in bindR (write_flush env io8) (\<lambda>io9.
         let cmd0 = IXGBE_FDIRCMD_CMD_ADD_FLOW OR IXGBE_FDIRCMD_FILTER_UPDATE OR IXGBE_FDIRCMD_LAST OR IXGBE_FDIRCMD_QUEUE_EN;
             cmd1 = (if queue = IXGBE_FDIR_DROP_QUEUE then cmd0 OR IXGBE_FDIRCMD_DROP else cmd0);
             cmd2 = cmd1 OR push_bit IXGBE_FDIRCMD_FLOW_TYPE_SHIFT (ucast (flow_type input));
             cmd3 = cmd2 OR push_bit IXGBE_FDIRCMD_RX_QUEUE_SHIFT (ucast queue);
             cmd4 = cmd3 OR push_bit IXGBE_FDIRCMD_VT_POOL_SHIFT (ucast (vm_pool input))
         in Inr (0, write_reg env IXGBE_FDIRCMD cmd4 io9)))"

definition ixgbe_fdir_erase_perfect_filter_82599 :: "hw_env \<Rightarrow> atr_input \<Rightarrow> u16 \<Rightarrow> io \<Rightarrow> (u32 \<times> io) res" where
  "ixgbe_fdir_erase_perfect_filter_82599 env input soft_id io =
     (let fdirhash = ucast (bkt_hash input) OR push_bit IXGBE_FDIRHASH_SIG_SW_INDEX_SHIFT (ucast soft_id) in
      bindR (write_flush env (write_reg env IXGBE_FDIRHASH fdirhash io)) (\<lambda>io1.
      let io2 = write_reg env IXGBE_FDIRCMD IXGBE_FDIRCMD_CMD_QUERY_REM_FILT io1 in
      bindR (poll_reg env 10 IXGBE_FDIRCMD (\<lambda>v. v AND IXGBE_FDIRCMD_CMD_MASK = 0) 0 io2) (\<lambda>(answered, fdircmd, io3).
      let err = (if answered then 0 else IXGBE_ERR_FDIR_REINIT_FAILED) in
      if fdircmd AND IXGBE_FDIRCMD_FILTER_VALID \<noteq> 0 then
        bindR (write_flush env (write_reg env IXGBE_FDIRHASH fdirhash io3)) (\<lambda>io4.
        Inr (err, write_reg env IXGBE_FDIRCMD IXGBE_FDIRCMD_CMD_REMOVE_FLOW io4))
      else Inr (err, io3))))"

text \<open>The filter and its mask are changed in place: the result holds both.\<close>

definition ixgbe_fdir_add_perfect_filter_82599 ::
  "hw_env \<Rightarrow> atr_input \<Rightarrow> atr_input \<Rightarrow> u16 \<Rightarrow> u8 \<Rightarrow> io \<Rightarrow> (u32 \<times> atr_input \<times> atr_input \<times> io) res" where
  "ixgbe_fdir_add_perfect_filter_82599 env input input_mask soft_id queue io =
     (let ft = flow_type input; ports = (atr_dst_port input \<noteq> 0 \<or> atr_src_port input \<noteq> 0);
          v4 = input_mask\<lparr>flow_type := IXGBE_ATR_L4TYPE_IPV6_MASK\<rparr>;
          l4 = input_mask\<lparr>flow_type := IXGBE_ATR_L4TYPE_IPV6_MASK OR IXGBE_ATR_L4TYPE_MASK\<rparr>;
          run = (\<lambda>m. case ixgbe_fdir_set_input_mask_82599 env m io of (err, io1) \<Rightarrow>
                  if err \<noteq> 0 then Inr (err, input, m, io1)
                  else let x = ixgbe_atr_compute_perfect_hash_82599 input m
                       in bindR (ixgbe_fdir_write_perfect_filter_82599 env x soft_id queue io1) (\<lambda>(ret, io2). Inr (ret, x, m, io2)))
      in if ft = IXGBE_ATR_FLOW_TYPE_IPV4 then (if ports then Inr (IXGBE_ERR_CONFIG, input, v4, io) else run v4)
         else if ft = IXGBE_ATR_FLOW_TYPE_SCTPV4 \<and> ports then Inr (IXGBE_ERR_CONFIG, input, input_mask, io)
         else if ft \<in> {IXGBE_ATR_FLOW_TYPE_SCTPV4, IXGBE_ATR_FLOW_TYPE_TCPV4, IXGBE_ATR_FLOW_TYPE_UDPV4} then run l4
         else Inr (IXGBE_ERR_CONFIG, input, input_mask, io))"

end
