(* ===== verification/Ixgbe_Rss.thy ===== *)
theory Ixgbe_Rss
  imports Ixgbe_Hw
begin

text \<open>
  Receive-side scaling: the hash key and the redirection table of the adapter, set at start-up
  by \<open>ixgbe_rss_configure\<close> (\<open>ixgbe/ixgbe_rxtx.c\<close>) and changed by \<open>reta_update\<close>
  (\<open>ixgbe/ixgbe.c\<close>), which the assignment of flow groups calls. The table has 128 entries of a
  byte, four in each of 32 registers. The driver's lock is not modelled: an update is one step.
\<close>

definition IXGBE_RETA :: "u32 \<Rightarrow> u32" where "IXGBE_RETA i = 0x05C00 + i * 4"
definition IXGBE_RSSRK :: "u32 \<Rightarrow> u32" where "IXGBE_RSSRK i = 0x05C80 + i * 4"
definition IXGBE_MRQC :: u32 where "IXGBE_MRQC = 0x05818"
definition IXGBE_MRQC_RSSEN :: u32 where "IXGBE_MRQC_RSSEN = 0x00000001"
definition IXGBE_MRQC_RSS_FIELD_IPV4_TCP :: u32 where "IXGBE_MRQC_RSS_FIELD_IPV4_TCP = 0x00010000"
definition IXGBE_MRQC_RSS_FIELD_IPV4 :: u32 where "IXGBE_MRQC_RSS_FIELD_IPV4 = 0x00020000"
definition IXGBE_MRQC_RSS_FIELD_IPV6_EX_TCP :: u32 where "IXGBE_MRQC_RSS_FIELD_IPV6_EX_TCP = 0x00040000"
definition IXGBE_MRQC_RSS_FIELD_IPV6_EX :: u32 where "IXGBE_MRQC_RSS_FIELD_IPV6_EX = 0x00080000"
definition IXGBE_MRQC_RSS_FIELD_IPV6 :: u32 where "IXGBE_MRQC_RSS_FIELD_IPV6 = 0x00100000"
definition IXGBE_MRQC_RSS_FIELD_IPV6_TCP :: u32 where "IXGBE_MRQC_RSS_FIELD_IPV6_TCP = 0x00200000"
definition IXGBE_MRQC_RSS_FIELD_IPV4_UDP :: u32 where "IXGBE_MRQC_RSS_FIELD_IPV4_UDP = 0x00400000"
definition IXGBE_MRQC_RSS_FIELD_IPV6_UDP :: u32 where "IXGBE_MRQC_RSS_FIELD_IPV6_UDP = 0x00800000"
definition IXGBE_MRQC_RSS_FIELD_IPV6_EX_UDP :: u32 where "IXGBE_MRQC_RSS_FIELD_IPV6_EX_UDP = 0x01000000"

section \<open>Changing the table\<close>

text \<open>The four mask bits of the register of the entries \<open>i\<close> to \<open>i + 3\<close>.\<close>

definition reta_mask :: "rss_reta \<Rightarrow> nat \<Rightarrow> u8" where
  "reta_mask conf i =
     (if i < ETH_RSS_RETA_NUM_ENTRIES div 2 then ucast (drop_bit i (mask_lo conf) AND 0xF)
      else ucast (drop_bit (i - ETH_RSS_RETA_NUM_ENTRIES div 2) (mask_hi conf) AND 0xF))"

fun put_entries :: "rss_reta \<Rightarrow> u8 \<Rightarrow> nat \<Rightarrow> nat list \<Rightarrow> u32 \<Rightarrow> u32 res" where
  "put_entries conf msk i [] v = Inr v"
| "put_entries conf msk i (j # js) v =
     (if msk AND push_bit j 0x1 \<noteq> 0 then
        if i + j < length (reta conf) then
          let v1 = (if msk \<noteq> 0xF then v AND NOT (push_bit (8 * j) 0xFF) else v);
              v2 = v1 OR push_bit (8 * j) (ucast (reta conf ! (i + j)))
          in put_entries conf msk i js v2
        else Inl Fault
      else put_entries conf msk i js v)"

definition update_four :: "hw_env \<Rightarrow> rss_reta \<Rightarrow> nat \<Rightarrow> io \<Rightarrow> io res" where
  "update_four env conf i io =
     (let msk = reta_mask conf i in
      if msk = 0 then Inr io
      else
        bindR (if msk \<noteq> 0xF then read_reg env (IXGBE_RETA (of_nat (i div 4))) io else Inr (0, io)) (\<lambda>(v, io1).
        bindR (put_entries conf msk i [0, 1, 2, 3] v) (\<lambda>v'.
        Inr (write_reg env (IXGBE_RETA (of_nat (i div 4))) v' io1))))"

fun update_all :: "hw_env \<Rightarrow> rss_reta \<Rightarrow> nat list \<Rightarrow> io \<Rightarrow> io res" where
  "update_all env conf [] io = Inr io"
| "update_all env conf (r # rs) io = bindR (update_four env conf (4 * r) io) (update_all env conf rs)"

definition ixgbe_dev_rss_reta_update :: "hw_env \<Rightarrow> rss_reta \<Rightarrow> io \<Rightarrow> (u32 \<times> io) res" where
  "ixgbe_dev_rss_reta_update env conf io =
     bindR (update_all env conf [0..<ETH_RSS_RETA_NUM_ENTRIES div 4] io) (\<lambda>io1. Inr (0, io1))"

fun get_entries :: "u8 \<Rightarrow> nat \<Rightarrow> u32 \<Rightarrow> nat list \<Rightarrow> u16 list \<Rightarrow> u16 list res" where
  "get_entries msk i v [] tbl = Inr tbl"
| "get_entries msk i v (j # js) tbl =
     (if msk AND push_bit j 0x1 \<noteq> 0 then
        if i + j < length tbl then
          get_entries msk i v js (tbl[i + j := ucast (ucast (drop_bit (8 * j) v AND 0xFF) :: u8)])
        else Inl Fault
      else get_entries msk i v js tbl)"

definition query_four :: "hw_env \<Rightarrow> nat \<Rightarrow> rss_reta \<times> io \<Rightarrow> (rss_reta \<times> io) res" where
  "query_four env i = (\<lambda>(conf, io).
     let msk = reta_mask conf i in
     if msk = 0 then Inr (conf, io)
     else
       bindR (read_reg env (IXGBE_RETA (of_nat (i div 4))) io) (\<lambda>(v, io1).
       bindR (get_entries msk i v [0, 1, 2, 3] (reta conf)) (\<lambda>tbl.
       Inr (conf\<lparr>reta := tbl\<rparr>, io1))))"

fun query_all :: "hw_env \<Rightarrow> nat list \<Rightarrow> rss_reta \<times> io \<Rightarrow> (rss_reta \<times> io) res" where
  "query_all env [] s = Inr s"
| "query_all env (r # rs) s = bindR (query_four env (4 * r) s) (query_all env rs)"

definition ixgbe_dev_rss_reta_query :: "hw_env \<Rightarrow> rss_reta \<Rightarrow> io \<Rightarrow> (u32 \<times> rss_reta \<times> io) res" where
  "ixgbe_dev_rss_reta_query env conf io =
     bindR (query_all env [0..<ETH_RSS_RETA_NUM_ENTRIES div 4] (conf, io)) (\<lambda>(conf1, io1). Inr (0, conf1, io1))"

section \<open>Start-up\<close>

definition rss_intel_key :: "u8 list" where
  "rss_intel_key =
     [0x6D, 0x5A, 0x56, 0xDA, 0x25, 0x5B, 0x0E, 0xC2,
      0x41, 0x67, 0x25, 0x3D, 0x43, 0xA3, 0x8F, 0xB0,
      0xD0, 0xCA, 0x2B, 0xCB, 0xAE, 0x7B, 0x30, 0xB4,
      0x77, 0xCB, 0x2D, 0xA3, 0x80, 0x30, 0xF2, 0x0C,
      0x6A, 0x42, 0xB7, 0x3B, 0xBE, 0xAC, 0x01, 0xFA]"

definition ixgbe_rss_disable :: "hw_env \<Rightarrow> io \<Rightarrow> io res" where
  "ixgbe_rss_disable env io =
     bindR (read_reg env IXGBE_MRQC io) (\<lambda>(mrqc, io1).
     Inr (write_reg env IXGBE_MRQC (mrqc AND NOT IXGBE_MRQC_RSSEN) io1))"

definition key_word :: "u8 list \<Rightarrow> nat \<Rightarrow> u32" where
  "key_word key i = ucast (key ! (i * 4)) OR push_bit 8 (ucast (key ! (i * 4 + 1))) OR
     push_bit 16 (ucast (key ! (i * 4 + 2))) OR push_bit 24 (ucast (key ! (i * 4 + 3)))"

definition write_key :: "hw_env \<Rightarrow> u8 list \<Rightarrow> io \<Rightarrow> io res" where
  "write_key env key io =
     (if length key < 40 then Inl Fault
      else Inr (foldl (\<lambda>io i. write_array env (IXGBE_RSSRK 0) (of_nat i) (key_word key i) io) io [0..<10]))"

text \<open>One entry of the loop that fills the table: the queue, the word collected, the accesses.
  \<open>cpu_to_be32\<close> swaps the bytes (\<open>ntohl\<close>).\<close>

definition fill_entry :: "hw_env \<Rightarrow> u16 \<Rightarrow> nat \<Rightarrow> u16 \<times> u32 \<times> io \<Rightarrow> u16 \<times> u32 \<times> io" where
  "fill_entry env nb_rx_queues i = (\<lambda>(j0, w0, io).
     let j = (if j0 = nb_rx_queues then 0 else j0);
         w = push_bit 8 w0 OR ucast j;
         io1 = (if i mod 4 = 3 then write_reg env (IXGBE_RETA (of_nat (i div 4))) (ntohl w) io else io)
     in (j + 1, w, io1))"

definition fill_table :: "hw_env \<Rightarrow> u16 \<Rightarrow> io \<Rightarrow> io" where
  "fill_table env nb io = snd (snd (foldl (\<lambda>s i. fill_entry env nb i s) (0, 0, io) [0..<128]))"

definition ETH_RSS_IPV4 :: u16 where "ETH_RSS_IPV4 = 0x0001"
definition ETH_RSS_IPV4_TCP :: u16 where "ETH_RSS_IPV4_TCP = 0x0002"
definition ETH_RSS_IPV6 :: u16 where "ETH_RSS_IPV6 = 0x0004"
definition ETH_RSS_IPV6_EX :: u16 where "ETH_RSS_IPV6_EX = 0x0008"
definition ETH_RSS_IPV6_TCP :: u16 where "ETH_RSS_IPV6_TCP = 0x0010"
definition ETH_RSS_IPV6_TCP_EX :: u16 where "ETH_RSS_IPV6_TCP_EX = 0x0020"
definition ETH_RSS_IPV4_UDP :: u16 where "ETH_RSS_IPV4_UDP = 0x0040"
definition ETH_RSS_IPV6_UDP :: u16 where "ETH_RSS_IPV6_UDP = 0x0080"
definition ETH_RSS_IPV6_UDP_EX :: u16 where "ETH_RSS_IPV6_UDP_EX = 0x0100"

definition rss_fields :: "(u16 \<times> u32) list" where
  "rss_fields =
     [(ETH_RSS_IPV4, IXGBE_MRQC_RSS_FIELD_IPV4), (ETH_RSS_IPV4_TCP, IXGBE_MRQC_RSS_FIELD_IPV4_TCP),
      (ETH_RSS_IPV6, IXGBE_MRQC_RSS_FIELD_IPV6), (ETH_RSS_IPV6_EX, IXGBE_MRQC_RSS_FIELD_IPV6_EX),
      (ETH_RSS_IPV6_TCP, IXGBE_MRQC_RSS_FIELD_IPV6_TCP), (ETH_RSS_IPV6_TCP_EX, IXGBE_MRQC_RSS_FIELD_IPV6_EX_TCP),
      (ETH_RSS_IPV4_UDP, IXGBE_MRQC_RSS_FIELD_IPV4_UDP), (ETH_RSS_IPV6_UDP, IXGBE_MRQC_RSS_FIELD_IPV6_UDP),
      (ETH_RSS_IPV6_UDP_EX, IXGBE_MRQC_RSS_FIELD_IPV6_EX_UDP)]"

definition mrqc_of :: "u16 \<Rightarrow> u32" where
  "mrqc_of rss_hf = foldl (\<lambda>m (h, f). if rss_hf AND h \<noteq> 0 then m OR f else m) IXGBE_MRQC_RSSEN rss_fields"

text \<open>The key of the configuration may be missing.\<close>

definition ixgbe_rss_configure :: "hw_env \<Rightarrow> u16 \<Rightarrow> u16 \<Rightarrow> u8 list option \<Rightarrow> io \<Rightarrow> io res" where
  "ixgbe_rss_configure env nb_rx_queues rss_hf rss_key io =
     (if rss_hf = 0 then ixgbe_rss_disable env io
      else
        let key = (case rss_key of None \<Rightarrow> rss_intel_key | Some k \<Rightarrow> k) in
        bindR (write_key env key io) (\<lambda>io1.
        Inr (write_reg env IXGBE_MRQC (mrqc_of rss_hf) (fill_table env nb_rx_queues io1))))"

end
