(* ===== verification/Ixgbe_Rss_Spec.thy ===== *)
theory Ixgbe_Rss_Spec
  imports Ixgbe_Rss Flow_Groups_Spec
begin

text \<open>
  The redirection table: what an update changes, what the start-up writes, and that the
  assignment of flow groups to a CPU (\<open>Flow_Groups\<close>) redirects exactly the groups assigned.
\<close>

section \<open>Bytes of a register\<close>

definition byte_at :: "u32 \<Rightarrow> nat \<Rightarrow> u8" where "byte_at v j = ucast (drop_bit (8 * j) v)"

lemma bit_byte_at: "bit (byte_at v j) n \<longleftrightarrow> n < 8 \<and> bit v (8 * j + n)"
  by (auto simp: byte_at_def bit_simps)

lemma ff_mask: "(0xFF :: u32) = mask 8"
  by (simp add: mask_eq_exp_minus_1)

lemma small_bits:
  fixes e :: u16
  assumes "e < 256" and "bit e n"
  shows "n < 8"
proof (rule ccontr)
  assume "\<not> n < 8"
  then have "(2 :: nat) ^ 8 \<le> 2 ^ n" by (intro power_increasing) simp_all
  moreover have "unat e < 256" using assms(1) by (simp add: word_less_nat_alt)
  ultimately have "unat e div 2 ^ n = 0" by simp
  with assms(2) show False by (simp add: bit_word_odd)
qed

lemma byte_or:
  fixes e :: u16
  assumes "e < 256" and "k < 4"
  shows "byte_at (v OR push_bit (8 * j) (ucast e)) k = (if k = j then byte_at v k OR ucast e else byte_at v k)"
proof (rule bit_word_eqI)
  fix n assume n: "n < LENGTH(8)"
  have "8 * j \<le> 8 * k + n \<and> bit e (8 * k + n - 8 * j) \<longleftrightarrow> k = j \<and> bit e n"
    using n small_bits [OF assms(1), of "8 * k + n - 8 * j"] by (cases "k = j"; cases "k < j") auto
  then show "bit (byte_at (v OR push_bit (8 * j) (ucast e)) k) n =
      bit (if k = j then byte_at v k OR ucast e else byte_at v k) n"
    using n assms(2) by (auto simp: bit_byte_at bit_simps)
qed

lemma byte_clear:
  assumes "k < 4"
  shows "byte_at (v AND NOT (push_bit (8 * j) 0xFF)) k = (if k = j then 0 else byte_at v k)"
proof (rule bit_word_eqI)
  fix n assume n: "n < LENGTH(8)"
  have "8 * j \<le> 8 * k + n \<and> 8 * k + n - 8 * j < 8 \<longleftrightarrow> k = j" using n by (cases "k = j"; cases "k < j") auto
  then show "bit (byte_at (v AND NOT (push_bit (8 * j) 0xFF)) k) n = bit (if k = j then 0 else byte_at v k) n"
    unfolding ff_mask using n assms by (auto simp: bit_byte_at bit_simps)
qed

section \<open>One register\<close>

definition selected :: "rss_reta \<Rightarrow> nat \<Rightarrow> bool" where
  "selected conf k \<longleftrightarrow> bit (if k < 64 then mask_lo conf else mask_hi conf) (k mod 64)"

lemma f_mask: "(0xF :: u64) = mask 4" "(0xF :: u8) = mask 4"
  by (simp_all add: mask_eq_exp_minus_1)

lemma bit_reta_mask:
  assumes "r < 32"
  shows "bit (reta_mask conf (4 * r)) j \<longleftrightarrow> j < 4 \<and> selected conf (4 * r + j)"
proof (cases "j < 4")
  case True
  have "4 * r + j < 64 \<longleftrightarrow> 4 * r < 64" using True by presburger
  moreover have "(4 * r + j) mod 64 = (if 4 * r < 64 then 4 * r else 4 * r - 64) + j"
    using True assms by (auto simp: mod_if) 
  ultimately show ?thesis
    using True unfolding reta_mask_def ETH_RSS_RETA_NUM_ENTRIES_def selected_def f_mask
    by (auto simp: bit_simps)
qed (auto simp: reta_mask_def f_mask bit_simps)

lemma put_entries_bytes:
  assumes "length (reta conf) = 128" and "i + 4 \<le> 128" and "\<forall>j\<in>set js. j < 4" and "distinct js"
    and "\<forall>j\<in>set js. bit m j \<longrightarrow> reta conf ! (i + j) < 256" and "m = 0xF \<Longrightarrow> \<forall>j\<in>set js. byte_at v j = 0"
  shows "\<exists>v'. put_entries conf m i js v = Inr v' \<and>
    (\<forall>k<4. byte_at v' k = (if k \<in> set js \<and> bit m k then ucast (reta conf ! (i + k)) else byte_at v k))"
  using assms(3-6)
proof (induction js arbitrary: v)
  case Nil
  then show ?case by simp
next
  case (Cons j js)
  have m: "m AND push_bit j 0x1 \<noteq> 0 \<longleftrightarrow> bit m j"
    using and_exp_eq_0_iff_not_bit [of m j] by (simp add: push_bit_eq_mult)
  show ?case
  proof (cases "bit m j")
    case False
    obtain v' where v': "put_entries conf m i js v = Inr v'"
      "\<forall>k<4. byte_at v' k = (if k \<in> set js \<and> bit m k then ucast (reta conf ! (i + k)) else byte_at v k)"
      by (rule Cons.IH [of v, THEN exE]) (use Cons.prems in simp_all)
    have run: "put_entries conf m i (j # js) v = Inr v'" using False m v'(1) by simp
    have eq: "k \<in> set (j # js) \<and> bit m k \<longleftrightarrow> k \<in> set js \<and> bit m k" for k using False by auto
    show ?thesis unfolding eq by (intro exI [of _ v'] conjI run v'(2))
  next
    case True
    have e: "reta conf ! (i + j) < 256" "j < 4" "j \<notin> set js" using Cons.prems True by auto
    define v1 where "v1 = (if m \<noteq> 0xF then v AND NOT (push_bit (8 * j) 0xFF) else v)"
    define v2 where "v2 = v1 OR push_bit (8 * j) (ucast (reta conf ! (i + j)))"
    have b1: "byte_at v1 k = (if k = j then 0 else byte_at v k)" if "k < 4" for k
      using that Cons.prems(4) by (auto simp: v1_def byte_clear)
    have b2: "byte_at v2 k = (if k = j then ucast (reta conf ! (i + j)) else byte_at v k)" if "k < 4" for k
      unfolding v2_def byte_or [OF e(1) that] using b1 [OF that] by (cases "k = j") auto
    have z: "\<forall>k\<in>set js. byte_at v2 k = 0" if "m = 0xF"
    proof
      fix k assume "k \<in> set js"
      then have "k < 4" "k \<noteq> j" "byte_at v k = 0" using Cons.prems that e(3) by auto
      then show "byte_at v2 k = 0" by (simp add: b2)
    qed
    obtain v' where v': "put_entries conf m i js v2 = Inr v'"
      "\<forall>k<4. byte_at v' k = (if k \<in> set js \<and> bit m k then ucast (reta conf ! (i + k)) else byte_at v2 k)"
      by (rule Cons.IH [of v2, THEN exE]) (use Cons.prems z in simp_all)
    have "put_entries conf m i (j # js) v = Inr v'"
      using v'(1) True m e(2) assms(1,2) by (simp add: v1_def v2_def)
    moreover have "byte_at v' k = (if k \<in> set (j # js) \<and> bit m k then ucast (reta conf ! (i + k)) else byte_at v k)" if "k < 4" for k
      using v'(2) b2 [OF that] True e(3) that by (cases "k = j") simp_all
    ultimately show ?thesis by blast
  qed
qed

section \<open>The table\<close>

definition RETA_regs :: "u32 set" where "RETA_regs = (\<lambda>r. IXGBE_RETA (of_nat r)) ` {..<32}"

text \<open>Entry \<open>k\<close> of the table that the registers hold.\<close>

definition entry :: "(u32 \<Rightarrow> u32) \<Rightarrow> io \<Rightarrow> nat \<Rightarrow> u8" where
  "entry init io k = byte_at (reg_value init io (IXGBE_RETA (of_nat (k div 4)))) (k mod 4)"

lemma RETA_inj: "r < 32 \<Longrightarrow> r' < 32 \<Longrightarrow> IXGBE_RETA (of_nat r) = IXGBE_RETA (of_nat r') \<longleftrightarrow> r = r'"
proof -
  assume "r < 32" "r' < 32"
  then have u: "unat (of_nat r * 4 :: u32) = r * 4" "unat (of_nat r' * 4 :: u32) = r' * 4"
    by (simp_all add: unat_word_ariths(2) unat_of_nat)
  have "of_nat r * 4 = (of_nat r' * 4 :: u32) \<longleftrightarrow> r * 4 = r' * 4" unfolding word_unat_eq_iff u ..
  then show ?thesis unfolding IXGBE_RETA_def by simp
qed

text \<open>The writes of an update: to registers of the table only.\<close>

definition only_table :: "io \<Rightarrow> bool" where
  "only_table log \<longleftrightarrow> (\<forall>r v. Wr r v \<in> set log \<longrightarrow> r \<in> RETA_regs)"

lemma update_four_entries:
  assumes "hw_addr env \<noteq> NULL" and "holds_writes env init RETA_regs" and "length (reta conf) = 128" and "r < 32"
    and "\<forall>k<128. selected conf k \<longrightarrow> reta conf ! k < 256"
  shows "\<exists>log. update_four env conf (4 * r) io = Inr (io @ log) \<and> only_table log \<and>
    (\<forall>k<128. entry init (io @ log) k = (if k div 4 = r \<and> selected conf k then ucast (reta conf ! k) else entry init io k))"
proof -
  let ?m = "reta_mask conf (4 * r)" and ?R = "IXGBE_RETA (of_nat r)"
  have sel: "bit ?m j \<longleftrightarrow> j < 4 \<and> selected conf (4 * r + j)" for j by (rule bit_reta_mask [OF assms(4)])
  show ?thesis
  proof (cases "?m = 0")
    case True
    have "\<not> selected conf k" if "k div 4 = r" for k
    proof -
      have "4 * r + k mod 4 = k" using that by auto
      then show ?thesis using sel [of "k mod 4"] True by simp
    qed
    then show ?thesis using True by (intro exI [of _ "[]"]) (auto simp: update_four_def only_table_def)
  next
    case False
    define log0 where "log0 = (if ?m \<noteq> 0xF then [Rd ?R] else [])"
    define v where "v = (if ?m \<noteq> 0xF then reg_value init io ?R else 0)"
    have R: "?R \<in> RETA_regs" using assms(4) by (auto simp: RETA_regs_def)
    have rd: "(if ?m \<noteq> 0xF then read_reg env ?R io else Inr (0, io)) = Inr (v, io @ log0)"
      using holds_writesD [OF assms(2) R] by (simp add: v_def log0_def mapped_simps [OF assms(1)])
    have small: "\<forall>j\<in>set [0, 1, 2, 3 :: nat]. bit ?m j \<longrightarrow> reta conf ! (4 * r + j) < 256"
      using assms(4,5) sel by auto
    obtain v' where v': "put_entries conf ?m (4 * r) [0, 1, 2, 3] v = Inr v'"
      "\<forall>k<4. byte_at v' k = (if k \<in> set [0, 1, 2, 3] \<and> bit ?m k then ucast (reta conf ! (4 * r + k)) else byte_at v k)"
      by (rule put_entries_bytes [OF assms(3), of "4 * r" "[0, 1, 2, 3]" ?m v, THEN exE])
        (use assms(4) small in \<open>auto simp: v_def byte_at_def\<close>)
    let ?log = "log0 @ [Wr ?R v']"
    have run: "update_four env conf (4 * r) io = Inr (io @ ?log)"
    proof -
      have "update_four env conf (4 * r) io =
          bindR (if ?m \<noteq> 0xF then read_reg env ?R io else Inr (0, io)) (\<lambda>(v, io1).
          bindR (put_entries conf ?m (4 * r) [0, 1, 2, 3] v) (\<lambda>v'. Inr (write_reg env ?R v' io1)))"
        using False unfolding update_four_def Let_def by simp
      then show ?thesis unfolding rd using v'(1) by (simp add: mapped_simps [OF assms(1)] del: put_entries.simps)
    qed
    have old: "byte_at v j = byte_at (reg_value init io ?R) j" if "\<not> bit ?m j" "j < 4" for j
    proof -
      have "?m \<noteq> 0xF" using that by (auto simp: f_mask bit_mask_iff)
      then show ?thesis by (simp add: v_def)
    qed
    have "entry init (io @ ?log) k = (if k div 4 = r \<and> selected conf k then ucast (reta conf ! k) else entry init io k)"
      if k: "k < 128" for k
    proof (cases "k div 4 = r")
      case True
      then have e: "4 * r + k mod 4 = k" "k mod 4 < 4" "k mod 4 \<in> set [0, 1, 2, 3]" by auto
      have "reg_value init (io @ ?log) ?R = v'" by (simp add: log0_def flip: append_assoc)
      then show ?thesis using True e v'(2) old [of "k mod 4"] sel [of "k mod 4"] by (auto simp: entry_def)
    next
      case False
      then have "IXGBE_RETA (of_nat (k div 4)) \<noteq> ?R" using RETA_inj [of "k div 4" r] k assms(4) by simp
      then show ?thesis using False by (simp add: entry_def log0_def flip: append_assoc)
    qed
    moreover have "only_table ?log" using R by (auto simp: only_table_def log0_def)
    ultimately show ?thesis using run by blast
  qed
qed

lemma update_all_entries:
  assumes "hw_addr env \<noteq> NULL" and "holds_writes env init RETA_regs" and "length (reta conf) = 128"
    and "\<forall>k<128. selected conf k \<longrightarrow> reta conf ! k < 256" and "\<forall>r\<in>set rs. r < 32"
  shows "\<exists>log. update_all env conf rs io = Inr (io @ log) \<and> only_table log \<and>
    (\<forall>k<128. entry init (io @ log) k = (if k div 4 \<in> set rs \<and> selected conf k then ucast (reta conf ! k) else entry init io k))"
  using assms(5)
proof (induction rs arbitrary: io)
  case Nil
  show ?case by (intro exI [of _ "[]"]) (simp add: only_table_def)
next
  case (Cons r rs)
  obtain l1 where l1: "update_four env conf (4 * r) io = Inr (io @ l1)" "only_table l1"
    "\<forall>k<128. entry init (io @ l1) k = (if k div 4 = r \<and> selected conf k then ucast (reta conf ! k) else entry init io k)"
    using update_four_entries [OF assms(1-3) _ assms(4), of r io] Cons.prems by (auto simp del: split_paired_Ex)
  obtain l2 where l2: "update_all env conf rs (io @ l1) = Inr ((io @ l1) @ l2)" "only_table l2"
    "\<forall>k<128. entry init ((io @ l1) @ l2) k =
      (if k div 4 \<in> set rs \<and> selected conf k then ucast (reta conf ! k) else entry init (io @ l1) k)"
    using Cons.IH [of "io @ l1"] Cons.prems by auto
  have "only_table (l1 @ l2)" using l1(2) l2(2) by (auto simp: only_table_def)
  then show ?case using l1(1,3) l2(1,3) by (intro exI [of _ "l1 @ l2"]) auto
qed

lemma reta_update_entries:
  assumes "hw_addr env \<noteq> NULL" and "holds_writes env init RETA_regs" and "length (reta conf) = 128"
    and "\<forall>k<128. selected conf k \<longrightarrow> reta conf ! k < 256"
  shows "\<exists>log. ixgbe_dev_rss_reta_update env conf io = Inr (0, io @ log) \<and> only_table log \<and>
    (\<forall>k<128. entry init (io @ log) k = (if selected conf k then ucast (reta conf ! k) else entry init io k))"
proof -
  obtain log where log: "update_all env conf [0..<32] io = Inr (io @ log)" "only_table log"
    "\<forall>k<128. entry init (io @ log) k =
      (if k div 4 \<in> set [0..<32] \<and> selected conf k then ucast (reta conf ! k) else entry init io k)"
    using update_all_entries [OF assms, of "[0..<32]" io] by auto
  have "k div 4 \<in> set [0..<32]" if "k < 128" for k using that by simp
  then show ?thesis using log by (intro exI [of _ log]) (simp add: ixgbe_dev_rss_reta_update_def ETH_RSS_RETA_NUM_ENTRIES_def)
qed

section \<open>The assignment of flow groups\<close>

text \<open>Entry \<open>k\<close> of the table belongs to a group of \<open>gs\<close> that changes hands.\<close>

definition newly_assigned :: "(nat \<Rightarrow> bool) \<Rightarrow> u32 \<Rightarrow> eth_state \<Rightarrow> nat list \<Rightarrow> nat \<Rightarrow> bool" where
  "newly_assigned bitmap cpu s gs k \<longleftrightarrow>
     (\<exists>g\<in>set gs. bitmap g \<and> (\<exists>fg. fgs s g = Some fg \<and> cur_cpu fg \<noteq> cpu \<and> unat (fg_idx fg) = k))"

definition marked :: "rss_reta \<Rightarrow> u16 \<Rightarrow> rss_reta" where
  "marked rss i = (if i \<ge> 64 then rss\<lparr>mask_hi := mask_hi rss OR push_bit (unat (i - 64)) 1\<rparr>
                   else rss\<lparr>mask_lo := mask_lo rss OR push_bit (unat i) 1\<rparr>)"

lemma selected_marked:
  assumes "k < 128" and "unat i < 128"
  shows "selected (marked rss i) k \<longleftrightarrow> selected rss k \<or> unat i = k"
proof (cases "i \<ge> 64")
  case True
  then have h: "64 \<le> unat i" and d: "unat (i - 64) = unat i - 64" by (simp_all add: word_le_nat_alt unat_sub)
  have "k mod 64 = unat i - 64 \<longleftrightarrow> unat i = k" if "\<not> k < 64"
    using that h assms by (auto simp: mod_if)
  then show ?thesis using True h assms(2) by (auto simp: marked_def selected_def bit_simps d)
next
  case False
  then have "unat i < 64" by (simp add: word_le_nat_alt)
  then show ?thesis using False by (auto simp: marked_def selected_def bit_simps)
qed

lemma reta_marked [simp]: "reta (marked rss i) = reta rss"
  by (simp add: marked_def)

lemma migrate_keeps_groups: "migrate_pkts_to_remote bugs fuel cpu fg s = Inr s' \<Longrightarrow> fgs s' = fgs s"
  by (auto simp: migrate_pkts_to_remote_def Let_def bindR_eq_Inr)

text \<open>One group.\<close>

lemma assign_single_table:
  assumes "eth_fg_assign_single_to_cpu bugs fuel me g cpu rss dev s = Inr (ret, rss', dev', s')"
    and "length (reta rss) = 128"
  shows "\<exists>fg. fgs s g = Some fg \<and> (\<forall>h. h \<noteq> g \<longrightarrow> fgs s' h = fgs s h) \<and>
    (if cur_cpu fg = cpu then rss' = rss
     else unat (fg_idx fg) < 128 \<and> rss' = (marked rss (fg_idx fg))\<lparr>reta := (reta rss)[unat (fg_idx fg) := ucast cpu]\<rparr>)"
proof -
  obtain fg where fg: "fgs s g = Some fg"
    using assms(1) by (cases "fgs s g") (simp_all add: eth_fg_assign_single_to_cpu_def)
  show ?thesis
  proof (cases "cur_cpu fg = cpu")
    case True
    then show ?thesis using assms(1) fg by (auto simp: eth_fg_assign_single_to_cpu_def bindR_eq_Inr)
  next
    case False
    obtain s1 where s1: "\<forall>h. h \<noteq> g \<longrightarrow> fgs s1 h = fgs s h"
      and w: "bindR (wr (reta (marked rss (fg_idx fg))) (fg_idx fg) (ucast cpu)) (\<lambda>tbl.
        Inr (ret, (marked rss (fg_idx fg))\<lparr>reta := tbl\<rparr>, Some (fg_dev fg),
             s1\<lparr>flow_cpu := (flow_cpu s1)(g := cpu)\<rparr>)) = Inr (ret, rss', dev', s')"
    proof (cases "cur_cpu fg = - 1")
      case True
      show ?thesis
        by (rule that [of "s\<lparr>fgs := (fgs s)(g := Some (fg\<lparr>cur_cpu := cpu\<rparr>))\<rparr>"])
          (use assms(1) fg False True in
            \<open>auto simp: eth_fg_assign_single_to_cpu_def marked_def Let_def bindR_eq_Inr\<close>)
    next
      case owned: False
      define fg1 where "fg1 = fg\<lparr>in_transition := True, prev_cpu := cur_cpu fg, cur_cpu := - 1, target_cpu := cpu\<rparr>"
      define tb where "tb s1 ret = bindR (wr (reta (marked rss (fg_idx fg))) (fg_idx fg) (ucast cpu)) (\<lambda>tbl.
        Inr (ret, (marked rss (fg_idx fg))\<lparr>reta := tbl\<rparr>, Some (fg_dev fg),
             s1\<lparr>flow_cpu := (flow_cpu s1)(g := cpu)\<rparr>))" for s1 :: eth_state and ret :: bool
      have "eth_fg_assign_single_to_cpu bugs fuel me g cpu rss dev s =
          bindR (BUG_ON bugs (\<not> in_transition fg)) (\<lambda>_. bindR (bindR (BUG_ON bugs (cur_cpu fg = me)) (\<lambda>_.
            bindR (migrate_pkts_to_remote bugs fuel me fg1 (s\<lparr>fgs := (fgs s)(g := Some fg1)\<rparr>)) (\<lambda>s1. Inr (True, s1))))
            (\<lambda>(ret, s1). tb s1 ret))"
        using fg False owned by (simp add: eth_fg_assign_single_to_cpu_def fg1_def tb_def marked_def Let_def)
      with assms(1) obtain s1 where m: "migrate_pkts_to_remote bugs fuel me fg1 (s\<lparr>fgs := (fgs s)(g := Some fg1)\<rparr>) = Inr s1"
        and t: "tb s1 True = Inr (ret, rss', dev', s')"
        by (auto simp: bindR_eq_Inr)
      from t have "ret" by (auto simp: tb_def bindR_eq_Inr)
      then show ?thesis using that [of s1] t migrate_keeps_groups [OF m] by (simp add: tb_def)
    qed
    from w have i: "unat (fg_idx fg) < 128" using assms(2) by (simp add: wr_def split: if_splits)
    then show ?thesis using w s1 fg False assms(2) by auto
  qed
qed

text \<open>The groups of a device in turn.\<close>

lemma newly_assigned_Cons:
  assumes "\<forall>h. h \<noteq> g \<longrightarrow> fgs s' h = fgs s h" and "g \<notin> set gs"
  shows "newly_assigned bitmap cpu s (g # gs) k \<longleftrightarrow>
    (bitmap g \<and> (\<exists>fg. fgs s g = Some fg \<and> cur_cpu fg \<noteq> cpu \<and> unat (fg_idx fg) = k)) \<or>
    newly_assigned bitmap cpu s' gs k"
proof -
  have "fgs s' h = fgs s h" if "h \<in> set gs" for h using assms that by metis
  then show ?thesis by (auto simp: newly_assigned_def)
qed

lemma assign_groups_table:
  assumes "assign_groups bugs fuel me bitmap cpu gs (first, dev, rss, real, s) = Inr (first', dev', rss', real', s')"
    and "length (reta rss) = 128" and "distinct gs"
  shows "length (reta rss') = 128 \<and>
    (\<forall>k<128. (selected rss' k \<longleftrightarrow> selected rss k \<or> newly_assigned bitmap cpu s gs k) \<and>
      reta rss' ! k = (if newly_assigned bitmap cpu s gs k then ucast cpu else reta rss ! k))"
  using assms
proof (induction gs arbitrary: first dev rss real s)
  case Nil
  then show ?case by (simp add: newly_assigned_def)
next
  case (Cons g gs)
  show ?case
  proof (cases "bitmap g")
    case False
    have "newly_assigned bitmap cpu s (g # gs) = newly_assigned bitmap cpu s gs"
      using False by (intro ext) (simp add: newly_assigned_def)
    then show ?thesis using Cons.IH [of first dev rss real s] Cons.prems False by simp
  next
    case True
    obtain ret rss1 dev1 s1 where
      one: "eth_fg_assign_single_to_cpu bugs fuel me g cpu rss dev s = Inr (ret, rss1, dev1, s1)"
      using Cons.prems(1) True by (auto simp: bindR_eq_Inr)
    define s2 where "s2 = (if ret then s1\<lparr>mig := (mig s1)(me :=
      (mig s1 me)\<lparr>mi_bitmap := (mi_bitmap (mig s1 me))(g := True)\<rparr>)\<rparr> else s1)"
    have s2: "fgs s2 = fgs s1" by (simp add: s2_def)
    obtain first1 where rest: "assign_groups bugs fuel me bitmap cpu gs (first1, dev1, rss1, real \<or> ret, s2) =
        Inr (first', dev', rss', real', s')"
      using Cons.prems(1) True unfolding assign_groups.simps one s2_def [symmetric]
      by (auto simp: bindR_eq_Inr Let_def s2_def [symmetric] simp del: assign_groups.simps split: if_splits)
    obtain fg where fg: "fgs s g = Some fg" "\<forall>h. h \<noteq> g \<longrightarrow> fgs s2 h = fgs s h"
      "if cur_cpu fg = cpu then rss1 = rss
       else unat (fg_idx fg) < 128 \<and> rss1 = (marked rss (fg_idx fg))\<lparr>reta := (reta rss)[unat (fg_idx fg) := ucast cpu]\<rparr>"
      using assign_single_table [OF one Cons.prems(2)] s2 by auto
    have l1: "length (reta rss1) = 128" using fg(3) Cons.prems(2) by (auto split: if_splits)
    have n: "newly_assigned bitmap cpu s (g # gs) k \<longleftrightarrow>
        (cur_cpu fg \<noteq> cpu \<and> unat (fg_idx fg) = k) \<or> newly_assigned bitmap cpu s2 gs k" for k
      using newly_assigned_Cons [OF fg(2), of gs bitmap cpu k] Cons.prems(3) fg(1) True by simp
    have one': "(selected rss1 k \<longleftrightarrow> selected rss k \<or> (cur_cpu fg \<noteq> cpu \<and> unat (fg_idx fg) = k)) \<and>
        reta rss1 ! k = (if cur_cpu fg \<noteq> cpu \<and> unat (fg_idx fg) = k then ucast cpu else reta rss ! k)" if "k < 128" for k
    proof (cases "cur_cpu fg = cpu")
      case False
      have "selected (m\<lparr>reta := t\<rparr>) k = selected m k" for m t by (simp add: selected_def)
      then show ?thesis using False fg(3) that Cons.prems(2) by (auto simp: selected_marked)
    qed (use fg(3) in simp)
    show ?thesis using Cons.IH [OF rest l1] Cons.prems(3) one' n by auto
  qed
qed

text \<open>C13: After an assignment of flow groups, the update of the redirection table points
  exactly the entries of the groups that changed hands to the new CPU, writes to registers of
  the table only, and leaves every other entry as it was.\<close>

theorem assigned_groups_redirected:
  assumes "assign_groups False fuel me bitmap cpu gs (None, None, \<lparr>mask_lo = 0, mask_hi = 0, reta = tbl\<rparr>, False, s) =
      Inr (first, dev, conf, real, s')"
    and "distinct gs" and "length tbl = 128" and "cpu < 256"
    and "hw_addr env \<noteq> NULL" and "holds_writes env init RETA_regs"
  shows "\<exists>log. ixgbe_dev_rss_reta_update env conf io = Inr (0, io @ log) \<and> only_table log \<and>
    (\<forall>k<128. entry init (io @ log) k = (if newly_assigned bitmap cpu s gs k then ucast cpu else entry init io k))"
proof -
  have l: "length (reta conf) = 128"
    and k: "\<And>k. k < 128 \<Longrightarrow> selected conf k \<longleftrightarrow> newly_assigned bitmap cpu s gs k"
    and v: "\<And>k. k < 128 \<Longrightarrow> newly_assigned bitmap cpu s gs k \<Longrightarrow> reta conf ! k = ucast cpu"
    using assign_groups_table [OF assms(1) _ assms(2)] assms(3) by (auto simp: selected_def)
  have cpu: "uint cpu < 256" using assms(4) by (simp add: word_less_def)
  then have c: "(ucast cpu :: u16) < 256"
    by (simp add: word_less_def unsigned_ucast_eq unsigned_take_bit_eq take_bit_int_eq_self)
  have w: "ucast (ucast cpu :: u16) = (ucast cpu :: u8)"
    by (rule bit_word_eqI) (auto simp: bit_simps)
  obtain log where log: "ixgbe_dev_rss_reta_update env conf io = Inr (0, io @ log)" "only_table log"
    "\<forall>k<128. entry init (io @ log) k = (if selected conf k then ucast (reta conf ! k) else entry init io k)"
    using reta_update_entries [OF assms(5,6) l, of io] k v c by auto
  show ?thesis using log k v w by (intro exI [of _ log]) simp
qed

text \<open>A witness: of the groups 0 and 1 the second is at CPU 1 already; CPU 1 gets both.\<close>

definition table_hw :: hw_env where
  "table_hw = \<lparr>hw_addr = 1, hw_type = ixgbe_mac_82599EB,
     hw_answer = (\<lambda>io r. case last_written r io of Some v \<Rightarrow> v | None \<Rightarrow> 0)\<rparr>"

lemma table_hw_holds: "holds_writes table_hw (\<lambda>_. 0) R"
  by (simp add: holds_writes_def table_hw_def split: option.splits)

definition two_groups :: eth_state where
  "two_groups = two_queues\<lparr>fgs := (\<lambda>_. None)(0 := Some (fg_at (- 1)), 1 := Some ((fg_at 1)\<lparr>fg_idx := 1\<rparr>))\<rparr>"

theorem assigned_groups_redirected_witness:
  "\<exists>first dev conf real s' log.
     assign_groups False 9 0 (\<lambda>_. True) 1 [0, 1]
       (None, None, \<lparr>mask_lo = 0, mask_hi = 0, reta = replicate 128 0\<rparr>, False, two_groups) = Inr (first, dev, conf, real, s') \<and>
     ixgbe_dev_rss_reta_update table_hw conf [] = Inr (0, log) \<and>
     entry (\<lambda>_. 0) log 0 = 1 \<and> entry (\<lambda>_. 0) log 1 = entry (\<lambda>_. 0) [] 1"
proof -
  let ?t = "replicate 128 0 :: u16 list"
  obtain first dev conf real s' where run: "assign_groups False 9 0 (\<lambda>_. True) 1 [0, 1]
      (None, None, \<lparr>mask_lo = 0, mask_hi = 0, reta = ?t\<rparr>, False, two_groups) = Inr (first, dev, conf, real, s')"
    by (auto simp: eth_fg_assign_single_to_cpu_def two_groups_def two_queues_def fg_at_def)
  have n: "newly_assigned (\<lambda>_. True) 1 two_groups [0, 1] 0" "\<not> newly_assigned (\<lambda>_. True) 1 two_groups [0, 1] 1"
    by (simp_all add: newly_assigned_def two_groups_def fg_at_def)
  obtain log where log: "ixgbe_dev_rss_reta_update table_hw conf [] = Inr (0, [] @ log)"
    and e: "\<forall>k<128. entry (\<lambda>_. 0) ([] @ log) k =
       (if newly_assigned (\<lambda>_. True) 1 two_groups [0, 1] k then ucast (1 :: u32) else entry (\<lambda>_. 0) [] k)"
    using assigned_groups_redirected [OF run _ _ _ _ table_hw_holds, of "[]"] by (auto simp: table_hw_def)
  have "entry (\<lambda>_. 0) log 0 = 1" "entry (\<lambda>_. 0) log 1 = entry (\<lambda>_. 0) [] 1"
    using e [rule_format, of 0] e [rule_format, of 1] n by simp_all
  moreover have "ixgbe_dev_rss_reta_update table_hw conf [] = Inr (0, log)" using log by simp
  ultimately show ?thesis using run by blast
qed

end
